(* ===== verification/Relay_Prelude.thy ===== *)
theory Relay_Prelude
  imports Main "HOL-Library.AList"
begin

text \<open>
  The prelude of the development: the collections of rewrite rules the component
  theories extend, Python dictionaries as insertion-ordered association lists, the
  string functions of the standard library that the source calls, and two interfaces
  (locales) that several components share: a keyed store, and the choice of the
  strongest candidate of a list by rank.
\<close>

section \<open>Collections\<close>

named_theorems dict_simps \<open>lookups after dictionary operations\<close>
named_theorems frame_simps \<open>fields an operation leaves unchanged\<close>

section \<open>Python dictionaries\<close>

text \<open>
  A Python \<open>dict\<close> keeps its keys in insertion order, and storing under a key that is
  already present keeps the key's position. This is the association list with
  \<open>AList.update\<close>; deletion of a present key is \<open>AList.delete\<close>.
\<close>

type_synonym ('k, 'v) dict = "('k \<times> 'v) list"

abbreviation dict_get :: "('k, 'v) dict \<Rightarrow> 'k \<Rightarrow> 'v option" where
  "dict_get \<equiv> map_of"

abbreviation dict_set :: "'k \<Rightarrow> 'v \<Rightarrow> ('k, 'v) dict \<Rightarrow> ('k, 'v) dict" where
  "dict_set \<equiv> AList.update"

abbreviation dict_del :: "'k \<Rightarrow> ('k, 'v) dict \<Rightarrow> ('k, 'v) dict" where
  "dict_del \<equiv> AList.delete"

abbreviation dict_has :: "('k, 'v) dict \<Rightarrow> 'k \<Rightarrow> bool" where
  "dict_has d k \<equiv> dict_get d k \<noteq> None"

text \<open>The well-formed dictionaries are those with each key once.\<close>

abbreviation dict_ok :: "('k, 'v) dict \<Rightarrow> bool" where
  "dict_ok d \<equiv> distinct (map fst d)"

lemma dict_get_set [dict_simps]:
  "dict_get (dict_set k v d) k' = (if k' = k then Some v else dict_get d k')"
  by (simp add: update_conv)

lemma dict_get_del [dict_simps]:
  "dict_get (dict_del k d) k' = (if k' = k then None else dict_get d k')"
  by (simp add: delete_conv)

lemma dict_set_ok: "dict_ok d \<Longrightarrow> dict_ok (dict_set k v d)"
  by (rule distinct_update)

lemma dict_del_ok: "dict_ok d \<Longrightarrow> dict_ok (dict_del k d)"
  by (rule distinct_delete)

lemma dict_set_same [simp]: "dict_get d k = Some v \<Longrightarrow> dict_set k v d = d"
  by (induction d) (auto split: if_splits)

lemma dict_del_set [simp]: "dict_del k (dict_set k v d) = dict_del k d"
  by (induction d) (auto simp: AList.delete_eq)

lemma set_dict_set: "set (dict_set k v d) \<subseteq> insert (k, v) (set d)"
  by (induction d) auto

text \<open>The interface of a keyed store, as the caches, the limiter windows and the
  checkpoint table use it.\<close>

locale keyed_store =
  fixes lookup :: "'s \<Rightarrow> 'k \<Rightarrow> 'v option"
    and store :: "'k \<Rightarrow> 'v \<Rightarrow> 's \<Rightarrow> 's"
  assumes lookup_store: "lookup (store k v s) k' = (if k' = k then Some v else lookup s k')"
begin

lemma lookup_store_same: "lookup (store k v s) k = Some v"
  by (simp add: lookup_store)

lemma lookup_store_other: "k' \<noteq> k \<Longrightarrow> lookup (store k v s) k' = lookup s k'"
  by (simp add: lookup_store)

lemma lookup_fold_store:
  "lookup (fold (\<lambda>(k, v). store k v) kvs s) k =
     (case map_of (rev kvs) k of None \<Rightarrow> lookup s k | Some v \<Rightarrow> Some v)"
proof (induction kvs arbitrary: s)
  case Nil
  then show ?case by simp
next
  case (Cons kv kvs)
  obtain a b where "kv = (a, b)" by (cases kv)
  with Cons.IH show ?case
    by (simp add: lookup_store map_add_def split: option.splits)
qed

end

interpretation dict_store: keyed_store "dict_get" "dict_set"
  by unfold_locales (rule dict_get_set)

section \<open>Choosing the strongest candidate\<close>

text \<open>
  Three components scan a list of candidates and keep the one of the highest rank, the
  first of equals: the classification level, the delivery behaviour and the policy
  decision. Their shared contract: the choice is a candidate, and none outranks it.
\<close>

fun strongest_from :: "('a \<Rightarrow> int) \<Rightarrow> 'a \<Rightarrow> 'a list \<Rightarrow> 'a" where
  "strongest_from r best [] = best"
| "strongest_from r best (x # xs) = strongest_from r (if r best < r x then x else best) xs"

lemma strongest_from_mem: "strongest_from r b xs \<in> set (b # xs)"
proof (induction xs arbitrary: b)
  case (Cons x xs)
  show ?case
    using Cons.IH[of "if r b < r x then x else b"] by (auto split: if_splits)
qed simp

lemma strongest_from_ge_start: "r b \<le> r (strongest_from r b xs)"
proof (induction xs arbitrary: b)
  case (Cons x xs)
  show ?case
    using Cons.IH[of "if r b < r x then x else b"] by (auto split: if_splits)
qed simp

lemma strongest_from_ge: "x \<in> set (b # xs) \<Longrightarrow> r x \<le> r (strongest_from r b xs)"
proof (induction xs arbitrary: b)
  case Nil
  then show ?case by simp
next
  case (Cons y ys)
  let ?b = "if r b < r y then y else b"
  have start: "r ?b \<le> r (strongest_from r ?b ys)"
    by (rule strongest_from_ge_start)
  show ?case
  proof (cases "x \<in> set ys")
    case True
    then show ?thesis using Cons.IH[of ?b] by simp
  next
    case False
    with Cons.prems have "r x \<le> r ?b" by auto
    with start show ?thesis by simp
  qed
qed

locale ranked_choice =
  fixes rank :: "'a \<Rightarrow> int" and pick :: "'a list \<Rightarrow> 'a option"
  assumes pick_Nil: "pick [] = None"
    and pick_Cons: "pick (x # xs) = Some (strongest_from rank x xs)"
begin

lemma pick_None: "pick xs = None \<longleftrightarrow> xs = []"
  by (cases xs) (simp_all add: pick_Nil pick_Cons)

lemma pick_mem: "pick xs = Some y \<Longrightarrow> y \<in> set xs"
  by (cases xs) (use strongest_from_mem[of rank] in \<open>auto simp: pick_Nil pick_Cons\<close>)

lemma pick_ge: "pick xs = Some y \<Longrightarrow> x \<in> set xs \<Longrightarrow> rank x \<le> rank y"
  by (cases xs) (auto simp: pick_Nil pick_Cons intro: strongest_from_ge strongest_from_ge_start)

lemma pick_eq_top:
  assumes inj: "\<And>a b. rank a = rank b \<Longrightarrow> a = b"
    and "pick xs = Some y" and "x \<in> set xs" and "\<And>z. z \<in> set xs \<Longrightarrow> rank z \<le> rank x"
  shows "y = x"
  using assms by (meson pick_ge pick_mem order_antisym)

text \<open>Adding candidates never weakens the choice, whatever their order.\<close>

lemma pick_mono:
  assumes "pick xs = Some y" and "pick ys = Some z" and "set xs \<subseteq> set ys"
  shows "rank y \<le> rank z"
  using assms by (meson pick_ge pick_mem subsetD)

end

section \<open>Python strings\<close>

text \<open>
  Strings are lists of characters of code points below 256. \<open>py_isspace\<close> is
  \<open>str.isspace\<close> on that range, \<open>py_strip\<close> is \<open>str.strip()\<close>; case conversion is that of
  the ASCII letters, which is what decides membership in the tables of ASCII keywords
  the source compares with.
\<close>

definition py_isspace :: "char \<Rightarrow> bool" where
  "py_isspace c \<longleftrightarrow>
     (let n = of_char c :: nat in (9 \<le> n \<and> n \<le> 13) \<or> (28 \<le> n \<and> n \<le> 32) \<or> n = 133 \<or> n = 160)"

definition py_lstrip :: "string \<Rightarrow> string" where
  "py_lstrip s = dropWhile py_isspace s"

definition py_strip :: "string \<Rightarrow> string" where
  "py_strip s = rev (py_lstrip (rev (py_lstrip s)))"

definition py_lower_char :: "char \<Rightarrow> char" where
  "py_lower_char c =
     (let n = of_char c :: nat in if 65 \<le> n \<and> n \<le> 90 then char_of (n + 32) else c)"

definition py_upper_char :: "char \<Rightarrow> char" where
  "py_upper_char c =
     (let n = of_char c :: nat in if 97 \<le> n \<and> n \<le> 122 then char_of (n - 32) else c)"

definition py_lower :: "string \<Rightarrow> string" where
  "py_lower s = map py_lower_char s"

definition py_upper :: "string \<Rightarrow> string" where
  "py_upper s = map py_upper_char s"

definition py_startswith :: "string \<Rightarrow> string \<Rightarrow> bool" where
  "py_startswith s p \<longleftrightarrow> take (length p) s = p"

definition py_endswith :: "string \<Rightarrow> string \<Rightarrow> bool" where
  "py_endswith s p \<longleftrightarrow> length p \<le> length s \<and> drop (length s - length p) s = p"

text \<open>\<open>sub in s\<close>\<close>

fun contains_str :: "string \<Rightarrow> string \<Rightarrow> bool" where
  "contains_str sub [] = (sub = [])"
| "contains_str sub (c # cs) = (py_startswith (c # cs) sub \<or> contains_str sub cs)"

definition py_isdigit :: "char \<Rightarrow> bool" where
  "py_isdigit c \<longleftrightarrow> (let n = of_char c :: nat in 48 \<le> n \<and> n \<le> 57)"

fun nat_digits :: "nat \<Rightarrow> string" where
  "nat_digits n =
     (if n < 10 then [char_of (48 + n)] else nat_digits (n div 10) @ [char_of (48 + n mod 10)])"

declare nat_digits.simps [simp del]

definition int_str :: "int \<Rightarrow> string" where
  "int_str i = (if i < 0 then CHR ''-'' # nat_digits (nat (- i)) else nat_digits (nat i))"

fun join_with :: "string \<Rightarrow> string list \<Rightarrow> string" where
  "join_with sep [] = []"
| "join_with sep [x] = x"
| "join_with sep (x # y # ys) = x @ sep @ join_with sep (y # ys)"

text \<open>\<open>str.split\<close> with a one-character separator.\<close>

fun split_on :: "char \<Rightarrow> string \<Rightarrow> string list" where
  "split_on c [] = [[]]"
| "split_on c (x # xs) =
     (if x = c then [] # split_on c xs
      else (case split_on c xs of [] \<Rightarrow> [[x]] | p # ps \<Rightarrow> (x # p) # ps))"

text \<open>\<open>str.replace\<close> with a non-empty pattern, from the left.\<close>

function str_replace :: "string \<Rightarrow> string \<Rightarrow> string \<Rightarrow> string" where
  "str_replace pat new s =
     (if s = [] then []
      else if pat \<noteq> [] \<and> take (length pat) s = pat then new @ str_replace pat new (drop (length pat) s)
      else hd s # str_replace pat new (tl s))"
  by pat_completeness auto
termination by (relation "measure (\<lambda>(p, n, s). length s)") auto

declare str_replace.simps [simp del]

text \<open>\<open>int(text)\<close>: blanks around, a sign, digits that single underscores may separate.\<close>

definition digits_val :: "string \<Rightarrow> int" where
  "digits_val ds = foldl (\<lambda>n c. 10 * n + (int (of_char c) - 48)) 0 ds"

definition py_int_text :: "string \<Rightarrow> int option" where
  "py_int_text s =
     (let t = py_strip s;
          neg = py_startswith t ''-'';
          body = (if neg \<or> py_startswith t ''+'' then tl t else t);
          parts = split_on (CHR ''_'') body
      in if list_all (\<lambda>p. p \<noteq> [] \<and> list_all py_isdigit p) parts
         then Some (if neg then - digits_val (concat parts) else digits_val (concat parts))
         else None)"

lemma py_strip_Nil [simp]: "py_strip [] = []"
  by (simp add: py_strip_def py_lstrip_def)

lemma dropWhile_rev_idem:
  "dropWhile P (rev (dropWhile P (rev (dropWhile P s)))) = rev (dropWhile P (rev (dropWhile P s)))"
proof (cases "rev (dropWhile P (rev (dropWhile P s)))")
  case Nil
  show ?thesis unfolding Nil by simp
next
  case (Cons a as)
  let ?t = "dropWhile P s"
  have "?t = rev (takeWhile P (rev ?t) @ dropWhile P (rev ?t))"
    by (simp only: takeWhile_dropWhile_id rev_rev_ident)
  then have "?t = rev (dropWhile P (rev ?t)) @ rev (takeWhile P (rev ?t))"
    by (simp only: rev_append)
  with Cons have "?t \<noteq> []" and "hd ?t = a" by (metis append_Cons list.distinct(1), metis append_Cons list.sel(1))
  then have "\<not> P a" using hd_dropWhile by metis
  then have "dropWhile P (a # as) = a # as" by simp
  then show ?thesis unfolding Cons .
qed

lemma py_strip_idem [simp]: "py_strip (py_strip s) = py_strip s"
  by (simp add: py_strip_def py_lstrip_def dropWhile_rev_idem dropWhile_idem)

section \<open>Lists and options\<close>

lemma find_append:
  "List.find P (xs @ ys) = (case List.find P xs of None \<Rightarrow> List.find P ys | Some x \<Rightarrow> Some x)"
  by (induction xs) auto

lemma filter_map_filter_len: "length (filter P xs) \<le> length xs"
  by simp

lemma sorted_map_last_ge:
  "sorted (map f xs) \<Longrightarrow> x \<in> set xs \<Longrightarrow> f x \<le> (f (last xs) :: 'a::linorder)"
  by (induction xs) (auto split: if_splits)

lemma find_Some_mem: "List.find P xs = Some x \<Longrightarrow> x \<in> set xs \<and> P x"
  by (auto simp: find_Some_iff)

end
