(* ===== verification/Rate_Limiter.thy ===== *)
theory Rate_Limiter
  imports Relay_Prelude Complex_Main
begin

text \<open>
  \<open>app/rate_limit/destination_limiter.py\<close> and \<open>app/rate_limit/source_limiter.py\<close>: the
  fixed-window limiters. The two classes have the same body over their own table of
  windows; both are modelled. \<open>time.monotonic()\<close> is the parameter \<open>now\<close>, a rational.
  The clause shared with the send path is the locale \<open>limiter\<close>.
\<close>

section \<open>State and operations\<close>

text \<open>The parsed \<open>rate_limit_json\<close>: \<open>None\<close> is a missing or empty dict, and each field of a
  non-empty one may be absent.\<close>

record rate_cfg =
  rl_max_events :: "int option"
  rl_per_seconds :: "rat option"

record window =
  window_start :: rat
  window_sent :: int

type_synonym windows = "(int, window) dict"

definition destination_allow :: "rat \<Rightarrow> windows \<Rightarrow> int \<Rightarrow> rate_cfg option \<Rightarrow> bool \<times> windows" where
  "destination_allow now ws route_id rate_limit_json =
     (case rate_limit_json of
        None \<Rightarrow> (True, ws)
      | Some cfg \<Rightarrow>
          (let max_events = (case rl_max_events cfg of None \<Rightarrow> 0 | Some m \<Rightarrow> m);
               per_seconds = (case rl_per_seconds cfg of None \<Rightarrow> 1 | Some p \<Rightarrow> p)
           in if max_events \<le> 0 \<or> per_seconds \<le> 0 then (True, ws)
              else (case dict_get ws route_id of
                      None \<Rightarrow>
                        (True, dict_set route_id \<lparr>window_start = now, window_sent = 1\<rparr> ws)
                    | Some st \<Rightarrow>
                        (if now - window_start st \<ge> per_seconds
                         then (True, dict_set route_id (st\<lparr>window_start := now, window_sent := 1\<rparr>) ws)
                         else if window_sent st \<ge> max_events then (False, ws)
                         else (True, dict_set route_id (st\<lparr>window_sent := window_sent st + 1\<rparr>) ws)))))"

definition source_allow :: "rat \<Rightarrow> windows \<Rightarrow> int \<Rightarrow> rate_cfg option \<Rightarrow> bool \<times> windows" where
  "source_allow now ws stream_id rate_limit_json =
     (case rate_limit_json of
        None \<Rightarrow> (True, ws)
      | Some cfg \<Rightarrow>
          (let max_events = (case rl_max_events cfg of None \<Rightarrow> 0 | Some m \<Rightarrow> m);
               per_seconds = (case rl_per_seconds cfg of None \<Rightarrow> 1 | Some p \<Rightarrow> p)
           in if max_events \<le> 0 \<or> per_seconds \<le> 0 then (True, ws)
              else (case dict_get ws stream_id of
                      None \<Rightarrow>
                        (True, dict_set stream_id \<lparr>window_start = now, window_sent = 1\<rparr> ws)
                    | Some st \<Rightarrow>
                        (if now - window_start st \<ge> per_seconds
                         then (True, dict_set stream_id (st\<lparr>window_start := now, window_sent := 1\<rparr>) ws)
                         else if window_sent st \<ge> max_events then (False, ws)
                         else (True, dict_set stream_id (st\<lparr>window_sent := window_sent st + 1\<rparr>) ws)))))"

text \<open>One caller asking at a list of instants under one configuration.\<close>

fun allow_run :: "(rat \<Rightarrow> windows \<Rightarrow> int \<Rightarrow> rate_cfg option \<Rightarrow> bool \<times> windows) \<Rightarrow>
    int \<Rightarrow> rate_cfg option \<Rightarrow> windows \<Rightarrow> rat list \<Rightarrow> bool list" where
  "allow_run allow k cfg ws [] = []"
| "allow_run allow k cfg ws (t # ts) =
     (let (ok, ws') = allow t ws k cfg in ok # allow_run allow k cfg ws' ts)"

abbreviation granted :: "bool list \<Rightarrow> int" where
  "granted bs \<equiv> int (count_list bs True)"

lemma destination_source_allow: "destination_allow = source_allow"
  by (intro ext) (simp add: destination_allow_def source_allow_def)

section \<open>The contract of a limiter\<close>

text \<open>What the send path may rely on: an absent configuration never limits and touches no
  window; a decision for one key leaves every other key's window as it was; a limit with a
  positive window decides by the key's window alone.\<close>

locale limiter =
  fixes allow :: "rat \<Rightarrow> windows \<Rightarrow> int \<Rightarrow> rate_cfg option \<Rightarrow> bool \<times> windows"
  assumes unlimited: "allow now ws k None = (True, ws)"
    and other_keys: "k' \<noteq> k \<Longrightarrow> dict_get (snd (allow now ws k cfg)) k' = dict_get ws k'"
    and fresh: "\<lbrakk>0 < m; 0 < p; dict_get ws k = None\<rbrakk> \<Longrightarrow>
       fst (allow now ws k (Some \<lparr>rl_max_events = Some m, rl_per_seconds = Some p\<rparr>)) \<and>
       dict_get (snd (allow now ws k (Some \<lparr>rl_max_events = Some m, rl_per_seconds = Some p\<rparr>))) k
         = Some \<lparr>window_start = now, window_sent = 1\<rparr>"
    and expired: "\<lbrakk>0 < m; 0 < p; dict_get ws k = Some st; p \<le> now - window_start st\<rbrakk> \<Longrightarrow>
       fst (allow now ws k (Some \<lparr>rl_max_events = Some m, rl_per_seconds = Some p\<rparr>)) \<and>
       dict_get (snd (allow now ws k (Some \<lparr>rl_max_events = Some m, rl_per_seconds = Some p\<rparr>))) k
         = Some \<lparr>window_start = now, window_sent = 1\<rparr>"
    and inside: "\<lbrakk>0 < m; 0 < p; dict_get ws k = Some st; now - window_start st < p\<rbrakk> \<Longrightarrow>
       fst (allow now ws k (Some \<lparr>rl_max_events = Some m, rl_per_seconds = Some p\<rparr>))
         = (window_sent st < m) \<and>
       dict_get (snd (allow now ws k (Some \<lparr>rl_max_events = Some m, rl_per_seconds = Some p\<rparr>))) k
         = Some (if window_sent st < m then st\<lparr>window_sent := window_sent st + 1\<rparr> else st)"
begin

text \<open>No new window opens while the calls stay within the window: at most what is left of
  the allowance is granted.\<close>

lemma run_inside:
  assumes "0 < m" "0 < p" "dict_get ws k = Some st" "\<forall>t \<in> set ts. t - window_start st < p"
  shows "granted (allow_run allow k (Some \<lparr>rl_max_events = Some m, rl_per_seconds = Some p\<rparr>) ws ts)
           = min (int (length ts)) (max 0 (m - window_sent st))"
  using assms(3,4)
proof (induction ts arbitrary: ws st)
  case Nil
  then show ?case by simp
next
  case (Cons t ts)
  let ?cfg = "Some \<lparr>rl_max_events = Some m, rl_per_seconds = Some p\<rparr>"
  obtain ok ws' where a: "allow t ws k ?cfg = (ok, ws')" by force
  have "t - window_start st < p" using Cons.prems(2) by simp
  from inside[OF assms(1,2) Cons.prems(1) this] a
  have ok: "ok = (window_sent st < m)"
    and st': "dict_get ws' k = Some (if ok then st\<lparr>window_sent := window_sent st + 1\<rparr> else st)"
    by auto
  show ?case
  proof (cases ok)
    case True
    with st' Cons.prems have "dict_get ws' k = Some (st\<lparr>window_sent := window_sent st + 1\<rparr>)"
      "\<forall>u \<in> set ts. u - window_start (st\<lparr>window_sent := window_sent st + 1\<rparr>) < p" by auto
    from Cons.IH[OF this] a True ok show ?thesis by auto
  next
    case False
    with st' Cons.prems have "dict_get ws' k = Some st" "\<forall>u \<in> set ts. u - window_start st < p" by auto
    from Cons.IH[OF this] a False ok show ?thesis by auto
  qed
qed

lemma run_opened:
  assumes "0 < m" "0 < p" "sorted (t # ts)" "\<forall>u \<in> set ts. u - t < p"
    and "fst (allow t ws k (Some \<lparr>rl_max_events = Some m, rl_per_seconds = Some p\<rparr>))"
    and "dict_get (snd (allow t ws k (Some \<lparr>rl_max_events = Some m, rl_per_seconds = Some p\<rparr>))) k
          = Some \<lparr>window_start = t, window_sent = 1\<rparr>"
  shows "granted (allow_run allow k (Some \<lparr>rl_max_events = Some m, rl_per_seconds = Some p\<rparr>) ws (t # ts))
           = min (int (length (t # ts))) m"
proof -
  let ?cfg = "Some \<lparr>rl_max_events = Some m, rl_per_seconds = Some p\<rparr>"
  obtain ok ws' where a: "allow t ws k ?cfg = (ok, ws')" by force
  with assms(5,6) have "ok" "dict_get ws' k = Some \<lparr>window_start = t, window_sent = 1\<rparr>" by auto
  with run_inside[OF assms(1,2), of ws' k "\<lparr>window_start = t, window_sent = 1\<rparr>" ts] assms(1,4) a
  show ?thesis by auto
qed

text \<open>From a key never seen, exactly \<open>max_events\<close> of the calls within one window are granted.\<close>

lemma run_fresh:
  assumes "0 < m" "0 < p" "sorted (t # ts)" "\<forall>u \<in> set ts. u - t < p" "dict_get ws k = None"
  shows "granted (allow_run allow k (Some \<lparr>rl_max_events = Some m, rl_per_seconds = Some p\<rparr>) ws (t # ts))
           = min (int (length (t # ts))) m"
  using run_opened[OF assms(1-4)] fresh[OF assms(1,2,5), of t] by blast

text \<open>Whatever the state, calls spanning less than one window length are granted at most
  twice the allowance: once before and once after the reset.\<close>

lemma run_span:
  assumes "0 < m" "0 < p" "sorted ts" "\<forall>u \<in> set ts. \<forall>v \<in> set ts. u - v < p"
    and "\<And>st. dict_get ws k = Some st \<Longrightarrow> 0 \<le> window_sent st"
  shows "granted (allow_run allow k (Some \<lparr>rl_max_events = Some m, rl_per_seconds = Some p\<rparr>) ws ts)
           \<le> (case dict_get ws k of None \<Rightarrow> m | Some st \<Rightarrow> max 0 (m - window_sent st) + m)"
  using assms(3-5)
proof (induction ts arbitrary: ws)
  case Nil
  then show ?case using assms(1) by (auto split: option.split)
next
  case (Cons t ts)
  let ?cfg = "Some \<lparr>rl_max_events = Some m, rl_per_seconds = Some p\<rparr>"
  obtain ok ws' where a: "allow t ws k ?cfg = (ok, ws')" by force
  have span: "\<forall>u \<in> set ts. u - t < p" using Cons.prems(2) by auto
  show ?case
  proof (cases "dict_get ws k")
    case None
    have "granted (allow_run allow k ?cfg ws (t # ts)) \<le> m"
      using run_fresh[OF assms(1,2) Cons.prems(1) span None] by linarith
    with None show ?thesis by simp
  next
    case (Some st)
    show ?thesis
    proof (cases "p \<le> t - window_start st")
      case True
      note opened = expired[OF assms(1,2) Some True]
      have "granted (allow_run allow k ?cfg ws (t # ts)) \<le> m"
        using run_opened[OF assms(1,2) Cons.prems(1) span conjunct1[OF opened] conjunct2[OF opened]]
        by linarith
      with Some show ?thesis by simp
    next
      case False
      then have lt: "t - window_start st < p" by simp
      from inside[OF assms(1,2) Some lt] a
      have ok: "ok = (window_sent st < m)"
        and st': "dict_get ws' k = Some (if ok then st\<lparr>window_sent := window_sent st + 1\<rparr> else st)"
        by auto
      have "granted (allow_run allow k ?cfg ws' ts)
              \<le> (case dict_get ws' k of None \<Rightarrow> m | Some st \<Rightarrow> max 0 (m - window_sent st) + m)"
        using Cons.IH[of ws'] Cons.prems st' Some by (auto split: if_splits)
      with st' ok a Some show ?thesis by (auto split: if_splits)
    qed
  qed
qed

end

interpretation destination_limiter: limiter destination_allow
  by unfold_locales
    (auto simp: destination_allow_def Let_def dict_simps split: option.splits if_splits)

interpretation source_limiter: limiter source_allow
  by unfold_locales
    (auto simp: source_allow_def Let_def dict_simps split: option.splits if_splits)

section \<open>Windows stay well formed\<close>

definition windows_ok :: "windows \<Rightarrow> bool" where
  "windows_ok ws \<longleftrightarrow> dict_ok ws \<and> list_all (\<lambda>(k, st). 1 \<le> window_sent st) ws"

lemma windows_ok_get: "windows_ok ws \<Longrightarrow> dict_get ws k = Some st \<Longrightarrow> 1 \<le> window_sent st"
  by (auto simp: windows_ok_def list_all_iff dest: map_of_SomeD)

lemma windows_ok_set:
  "windows_ok ws \<Longrightarrow> 1 \<le> window_sent st \<Longrightarrow> windows_ok (dict_set k st ws)"
  using set_dict_set[of k st ws]
  by (auto simp: windows_ok_def dict_set_ok list_all_iff)

lemma destination_allow_windows_ok:
  "windows_ok ws \<Longrightarrow> windows_ok (snd (destination_allow now ws k cfg))"
  using windows_ok_get[of ws k]
  by (auto simp: destination_allow_def Let_def windows_ok_set split: option.splits)

section \<open>Properties\<close>

abbreviation limit_of :: "int \<Rightarrow> rat \<Rightarrow> rate_cfg option" where
  "limit_of m p \<equiv> Some \<lparr>rl_max_events = Some m, rl_per_seconds = Some p\<rparr>"

text \<open>For a route not seen before, the destination limiter grants exactly the first
  \<open>max_events\<close> of the calls made within one window length, whatever their spacing.\<close>

theorem destination_fresh_window:
  assumes "0 < m" "0 < p" "sorted (t # ts)" "\<forall>u \<in> set ts. u - t < p" "dict_get ws route = None"
  shows "granted (allow_run destination_allow route (limit_of m p) ws (t # ts))
           = min (int (length (t # ts))) m"
  using assms by (rule destination_limiter.run_fresh)

theorem destination_fresh_window_witness:
  "granted (allow_run destination_allow 7 (limit_of 2 1) [] [0, 1/4, 1/2, 3/4]) = 2"
  using destination_fresh_window[of 2 1 0 "[1/4, 1/2, 3/4]" "[]" 7] by simp

text \<open>C3: Whatever has been sent before, calls that span less than one window length are
  granted at most twice \<open>max_events\<close>: what is left of the open window, then one fresh
  window. The fixed window therefore lets a burst of up to twice the limit through.\<close>

theorem destination_burst_bound:
  assumes "0 < m" "0 < p" "sorted ts" "\<forall>u \<in> set ts. \<forall>v \<in> set ts. u - v < p" "windows_ok ws"
  shows "granted (allow_run destination_allow route (limit_of m p) ws ts) \<le> 2 * m"
proof -
  have "granted (allow_run destination_allow route (limit_of m p) ws ts)
      \<le> (case dict_get ws route of None \<Rightarrow> m | Some st \<Rightarrow> max 0 (m - window_sent st) + m)"
    by (rule destination_limiter.run_span[OF assms(1-4)]) (use windows_ok_get[OF assms(5)] in force)
  then show ?thesis
    using assms(1) windows_ok_get[OF assms(5), of route] by (auto split: option.splits)
qed

text \<open>The bound is reached but for one call: two granted late in a window, three after it.\<close>

theorem destination_burst_bound_witness:
  "granted (allow_run destination_allow 7 (limit_of 3 10) [(7, \<lparr>window_start = 0, window_sent = 1\<rparr>)]
     [8, 9, 10, 11, 12]) \<le> 2 * 3
   \<and> granted (allow_run destination_allow 7 (limit_of 3 10) [(7, \<lparr>window_start = 0, window_sent = 1\<rparr>)]
     [8, 9, 10, 11, 12]) = 5"
proof -
  have "windows_ok [(7, \<lparr>window_start = 0, window_sent = 1\<rparr>)]" by (simp add: windows_ok_def)
  from destination_burst_bound[of 3 10 "[8, 9, 10, 11, 12]", OF _ _ _ _ this, of 7] show ?thesis
    by (simp add: destination_allow_def Let_def)
qed

end
