(* ===== verification/Json_Values.thy ===== *)
theory Json_Values
  imports Relay_Prelude
begin

text \<open>
  JSON values as the runtime handles them, and \<open>app/runtime/copy_utils.py\<close>: the copies
  that isolate events and the checkpoint preview that goes into the logs. A float is
  kept as its Python \<open>repr\<close>, which determines it. In the value semantics used here a copy
  is a value equal to the original; what matters is that every nested object and list is
  rebuilt and no scalar changes (\<open>copy_json_value_id\<close>).
\<close>

datatype json =
    JNull
  | JBool bool
  | JInt int
  | JFloat string
  | JStr string
  | JList "json list"
  | JObj "(string \<times> json) list"

type_synonym event = "(string, json) dict"

fun is_obj :: "json \<Rightarrow> bool" where
  "is_obj (JObj _) = True"
| "is_obj _ = False"

fun obj_of :: "json \<Rightarrow> event" where
  "obj_of (JObj kvs) = kvs"
| "obj_of _ = []"

text \<open>Python truthiness of a JSON value.\<close>

fun truthy :: "json \<Rightarrow> bool" where
  "truthy JNull = False"
| "truthy (JBool b) = b"
| "truthy (JInt i) = (i \<noteq> 0)"
| "truthy (JFloat r) = (r \<noteq> ''0.0'' \<and> r \<noteq> ''-0.0'')"
| "truthy (JStr s) = (s \<noteq> [])"
| "truthy (JList xs) = (xs \<noteq> [])"
| "truthy (JObj kvs) = (kvs \<noteq> [])"

text \<open>\<open>str(value)\<close> and \<open>repr(value)\<close> of a JSON value.\<close>

definition hex_digit :: "nat \<Rightarrow> char" where
  "hex_digit n = (if n < 10 then char_of (48 + n) else char_of (87 + n))"

definition py_repr_char :: "char \<Rightarrow> char \<Rightarrow> string" where
  "py_repr_char q c =
     (let n = of_char c :: nat
      in if c = q \<or> n = 92 then [char_of (92::nat), c]
         else if n = 10 then [char_of (92::nat), CHR ''n'']
         else if n = 13 then [char_of (92::nat), CHR ''r'']
         else if n = 9 then [char_of (92::nat), CHR ''t'']
         else if n < 32 \<or> (127 \<le> n \<and> n \<le> 160) \<or> n = 173
           then [char_of (92::nat), CHR ''x'', hex_digit (n div 16), hex_digit (n mod 16)]
         else [c])"

definition py_repr_str :: "string \<Rightarrow> string" where
  "py_repr_str s =
     (let sq = char_of (39::nat); dq = char_of (34::nat);
          q = (if sq \<in> set s \<and> dq \<notin> set s then dq else sq)
      in [q] @ concat (map (py_repr_char q) s) @ [q])"

primrec py_repr :: "json \<Rightarrow> string" where
  "py_repr JNull = ''None''"
| "py_repr (JBool b) = (if b then ''True'' else ''False'')"
| "py_repr (JInt i) = int_str i"
| "py_repr (JFloat r) = r"
| "py_repr (JStr s) = py_repr_str s"
| "py_repr (JList xs) = ''['' @ join_with '', '' (map py_repr xs) @ '']''"
| "py_repr (JObj kvs) =
     ''{'' @ join_with '', ''
       (map (\<lambda>(k, v). py_repr_str k @ '': '' @ v) (map (map_prod id py_repr) kvs)) @ ''}''"

fun py_str :: "json \<Rightarrow> string" where
  "py_str (JStr s) = s"
| "py_str v = py_repr v"

text \<open>\<open>int(value)\<close>, \<open>None\<close> where it raises. A float is cut at its point, or scaled by the exponent
  of its \<open>repr\<close> (which has one from \<open>1e+16\<close> on, and a negative one below \<open>1e-04\<close>).\<close>

definition float_int :: "string \<Rightarrow> int option" where
  "float_int r =
     (let neg = py_startswith r ''-'';
          body = (if neg then tl r else r);
          mantissa = takeWhile (\<lambda>c. c \<noteq> CHR ''e'') body;
          expo = drop (length mantissa + 1) body;
          whole = takeWhile (\<lambda>c. c \<noteq> CHR ''.'') mantissa;
          frac = drop (length whole + 1) mantissa
      in if whole = [] \<or> \<not> list_all py_isdigit whole \<or> \<not> list_all py_isdigit frac then None
         else (let v = (if expo = [] then digits_val whole
                        else if py_startswith expo ''-'' then 0
                        else digits_val (whole @ frac) * 10 ^ (nat (digits_val (tl expo)) - length frac))
               in Some (if neg then - v else v)))"

fun py_int :: "json \<Rightarrow> int option" where
  "py_int (JBool b) = Some (if b then 1 else 0)"
| "py_int (JInt i) = Some i"
| "py_int (JFloat r) = float_int r"
| "py_int (JStr s) = py_int_text s"
| "py_int _ = None"

text \<open>\<open>json.dumps(value, separators=(",", ":"), ensure_ascii=False)\<close>.\<close>

definition json_char :: "char \<Rightarrow> string" where
  "json_char c =
     (let n = of_char c :: nat; bs = char_of (92::nat)
      in if n = 34 \<or> n = 92 then [bs, c]
         else if n = 8 then [bs, CHR ''b''] else if n = 12 then [bs, CHR ''f'']
         else if n = 10 then [bs, CHR ''n''] else if n = 13 then [bs, CHR ''r'']
         else if n = 9 then [bs, CHR ''t'']
         else if n < 32 then bs # ''u00'' @ [hex_digit (n div 16), hex_digit (n mod 16)]
         else [c])"

definition json_quote :: "string \<Rightarrow> string" where
  "json_quote s = char_of (34::nat) # concat (map json_char s) @ [char_of (34::nat)]"

primrec json_text_with :: "(string \<Rightarrow> string) \<Rightarrow> json \<Rightarrow> string" where
  "json_text_with quote JNull = ''null''"
| "json_text_with quote (JBool b) = (if b then ''true'' else ''false'')"
| "json_text_with quote (JInt i) = int_str i"
| "json_text_with quote (JFloat r) =
     (if r = ''inf'' then ''Infinity'' else if r = ''-inf'' then ''-Infinity''
      else if r = ''nan'' then ''NaN'' else r)"
| "json_text_with quote (JStr s) = quote s"
| "json_text_with quote (JList xs) = ''['' @ join_with '','' (map (json_text_with quote) xs) @ '']''"
| "json_text_with quote (JObj kvs) =
     ''{'' @ join_with '',''
       (map (\<lambda>(k, v). quote k @ '':'' @ v) (map (map_prod id (json_text_with quote)) kvs)) @ ''}''"

abbreviation json_text :: "json \<Rightarrow> string" where
  "json_text \<equiv> json_text_with json_quote"

text \<open>With \<open>ensure_ascii\<close>, everything outside the printable ASCII range is escaped.\<close>

definition json_ascii_char :: "char \<Rightarrow> string" where
  "json_ascii_char c =
     (let n = of_char c :: nat
      in if n < 127 then json_char c
         else char_of (92::nat) # ''u00'' @ [hex_digit (n div 16), hex_digit (n mod 16)])"

definition json_ascii_quote :: "string \<Rightarrow> string" where
  "json_ascii_quote s = char_of (34::nat) # concat (map json_ascii_char s) @ [char_of (34::nat)]"

section \<open>copy\_utils\<close>

primrec copy_json_value :: "json \<Rightarrow> json" where
  "copy_json_value JNull = JNull"
| "copy_json_value (JBool b) = JBool b"
| "copy_json_value (JInt i) = JInt i"
| "copy_json_value (JFloat r) = JFloat r"
| "copy_json_value (JStr s) = JStr s"
| "copy_json_value (JList xs) = JList (map copy_json_value xs)"
| "copy_json_value (JObj kvs) = JObj (map (map_prod id copy_json_value) kvs)"

definition copy_event_dict :: "event \<Rightarrow> event" where
  "copy_event_dict ev = map (map_prod id copy_json_value) ev"

text \<open>\<open>copy_events\<close> keeps the items that are dicts, up to an optional limit.\<close>

definition copy_events :: "json list \<Rightarrow> nat option \<Rightarrow> json list" where
  "copy_events evs limit =
     (let bounded = (case limit of None \<Rightarrow> evs | Some n \<Rightarrow> take n evs)
      in map copy_json_value (filter is_obj bounded))"

definition checkpoint_log_meta_keys :: "string list" where
  "checkpoint_log_meta_keys =
     [''last_processed_key'', ''last_processed_file'', ''last_processed_last_modified'',
      ''last_processed_mtime'', ''last_processed_etag'', ''last_processed_size'',
      ''last_processed_offset'', ''last_processed_hash'', ''last_processed_db_watermark'',
      ''last_processed_db_order'', ''updated_at'', ''checkpoint_type'']"

definition event_id_preview_keys :: "string list" where
  "event_id_preview_keys = [''event_id'', ''id'', ''@timestamp'', ''timestamp'']"

fun pick_keys :: "string list \<Rightarrow> event \<Rightarrow> event" where
  "pick_keys [] d = []"
| "pick_keys (k # ks) d =
     (case dict_get d k of None \<Rightarrow> pick_keys ks d | Some v \<Rightarrow> (k, v) # pick_keys ks d)"

definition slim_checkpoint_for_log :: "event option \<Rightarrow> event option" where
  "slim_checkpoint_for_log cp =
     (case cp of None \<Rightarrow> None
      | Some c \<Rightarrow>
          (let out = pick_keys checkpoint_log_meta_keys c;
               preview = (case dict_get c ''last_success_event'' of
                            Some (JObj ev) \<Rightarrow> pick_keys event_id_preview_keys ev
                          | _ \<Rightarrow> []);
               out' = (if preview = [] then out
                       else dict_set ''last_success_event'' (JObj preview) out)
           in if out' \<noteq> [] then Some out' else Some (copy_event_dict c)))"

lemma copy_json_value_id [simp]: "copy_json_value v = v"
proof (induction v)
  case (JList xs)
  then show ?case by (simp add: map_idI)
next
  case (JObj kvs)
  have "map_prod id copy_json_value kv = kv" if "kv \<in> set kvs" for kv
    using JObj[OF that] by (cases kv) simp
  then show ?case by (simp add: map_idI)
qed simp_all

lemma copy_event_dict_id [simp]: "copy_event_dict ev = ev"
proof -
  have "map_prod id copy_json_value kv = kv" for kv :: "string \<times> json"
    by (cases kv) simp
  then show ?thesis by (simp add: copy_event_dict_def map_idI)
qed

lemma copy_events_objs: "(\<forall>e \<in> set evs. is_obj e) \<Longrightarrow> copy_events evs None = evs"
  by (simp add: copy_events_def map_idI)

lemma fst_pick_keys: "set (map fst (pick_keys ks d)) \<subseteq> set ks"
  by (induction ks) (auto split: option.splits)

lemma pick_keys_get: "dict_get (pick_keys ks d) k = (if k \<in> set ks then dict_get d k else None)"
  by (induction ks) (auto split: option.splits)

end
