(* ===== verification/Stream_Dedup.thy ===== *)
theory Stream_Dedup
  imports Json_Values
begin

text \<open>
  \<open>app/runners/stream_dedup.py\<close>: the deduplication of a fetched batch when it enters the
  processing queue, and the registry of delivered keys that seeds the next runs. The
  JSONPath engine (jsonpath-ng) is the parameter \<open>jp\<close>: the matches of a path, or
  \<open>None\<close> where the library raises. Instants are integers; \<open>datetime.fromisoformat\<close> is the
  parameter \<open>parse_iso\<close>.
\<close>

section \<open>Configuration\<close>

datatype dup_handling = Skip_Duplicate | Keep_Latest | Keep_First
datatype dedup_scope = Current_Run | Checkpoint_Window | Last_N_Hours

record dedup_config =
  dc_enabled :: bool
  dc_key_field :: string
  dc_custom_jsonpath :: "string option"
  dc_handling :: dup_handling
  dc_scope :: dedup_scope
  dc_window_hours :: "int option"

definition default_dedup_config :: dedup_config where
  "default_dedup_config =
     \<lparr>dc_enabled = False, dc_key_field = ''event_id'', dc_custom_jsonpath = None,
      dc_handling = Skip_Duplicate, dc_scope = Current_Run, dc_window_hours = None\<rparr>"

text \<open>\<open>str(raw.get(k) or d)\<close>\<close>

definition get_str_or :: "event \<Rightarrow> string \<Rightarrow> string \<Rightarrow> string" where
  "get_str_or d k dflt =
     (case dict_get d k of None \<Rightarrow> dflt | Some v \<Rightarrow> if truthy v then py_str v else dflt)"

definition parse_dedup_config :: "event option \<Rightarrow> dedup_config" where
  "parse_dedup_config stream_config =
     (case (case stream_config of None \<Rightarrow> None | Some c \<Rightarrow> dict_get c ''deduplication'') of
        Some (JObj raw) \<Rightarrow>
          (let h = get_str_or raw ''duplicate_handling'' ''skip_duplicate'';
               handling = (if h = ''keep_latest'' then Keep_Latest
                           else if h = ''keep_first'' then Keep_First else Skip_Duplicate);
               s = get_str_or raw ''scope'' ''current_run'';
               scope = (if s = ''checkpoint_window'' then Checkpoint_Window
                        else if s = ''last_n_hours'' then Last_N_Hours else Current_Run);
               kf = py_strip (get_str_or raw ''key_field'' ''event_id'');
               key_field = (if kf = [] then ''event_id'' else kf);
               custom = (case dict_get raw ''custom_jsonpath'' of
                           Some (JStr c) \<Rightarrow> if py_strip c = [] then None else Some (py_strip c)
                         | _ \<Rightarrow> None);
               wh = (case dict_get raw ''window_hours'' of
                       Some (JInt i) \<Rightarrow> if i > 0 then Some i else None
                     | Some (JBool b) \<Rightarrow> if b then Some 1 else None
                     | _ \<Rightarrow> None)
           in \<lparr>dc_enabled = (case dict_get raw ''enabled'' of None \<Rightarrow> False | Some v \<Rightarrow> truthy v),
               dc_key_field = key_field, dc_custom_jsonpath = custom,
               dc_handling = handling, dc_scope = scope, dc_window_hours = wh\<rparr>)
      | _ \<Rightarrow> default_dedup_config)"

section \<open>Keys\<close>

definition normalize_key_value :: "json \<Rightarrow> string option" where
  "normalize_key_value v =
     (case v of
        JNull \<Rightarrow> None | JList _ \<Rightarrow> None | JObj _ \<Rightarrow> None
      | _ \<Rightarrow> (let text = py_strip (py_str v) in if text = [] then None else Some text))"

definition key_field_aliases :: "string \<Rightarrow> string list" where
  "key_field_aliases kf =
     (if kf = ''stellar_uuid'' then [''stellar_uuid'', ''stellarUuid''] else [kf])"

text \<open>\<open>extract_one\<close> of \<open>app/parsers/jsonpath_parser.py\<close> on a dict root, with no default:
  \<open>None\<close> where it raises, \<open>Some JNull\<close> where nothing matches.\<close>

definition normalize_jsonpath :: "string option \<Rightarrow> string" where
  "normalize_jsonpath path =
     (case path of None \<Rightarrow> ''$'' | Some p \<Rightarrow> if py_strip p = [] then ''$'' else py_strip p)"

type_synonym jsonpath_engine = "json \<Rightarrow> string \<Rightarrow> json list option"

definition extract_one :: "jsonpath_engine \<Rightarrow> event \<Rightarrow> string option \<Rightarrow> json option" where
  "extract_one jp data path =
     (let n = normalize_jsonpath path
      in if n = ''$'' then Some (JObj data)
         else (case jp (JObj data) n of
                 None \<Rightarrow> None
               | Some [] \<Rightarrow> Some JNull
               | Some (m # _) \<Rightarrow> Some m))"

fun first_alias_key :: "event \<Rightarrow> string list \<Rightarrow> string option" where
  "first_alias_key ev [] = None"
| "first_alias_key ev (a # as) =
     (case dict_get ev a of
        None \<Rightarrow> first_alias_key ev as
      | Some v \<Rightarrow> (case normalize_key_value v of
                    None \<Rightarrow> first_alias_key ev as
                  | Some t \<Rightarrow> Some t))"

definition extract_dedup_key ::
    "jsonpath_engine \<Rightarrow> event \<Rightarrow> dedup_config \<Rightarrow> (string \<times> string) option" where
  "extract_dedup_key jp ev cfg =
     (let key_field = py_strip (dc_key_field cfg)
      in if key_field = ''custom_jsonpath'' then
           (case dc_custom_jsonpath cfg of
              None \<Rightarrow> None
            | Some path \<Rightarrow>
                (if path = [] then None
                 else (case extract_one jp ev (Some path) of
                         None \<Rightarrow> None
                       | Some raw \<Rightarrow>
                           map_option (\<lambda>t. (t, ''custom_jsonpath'')) (normalize_key_value raw))))
         else (case first_alias_key ev (key_field_aliases key_field) of
                 Some t \<Rightarrow> Some (t, key_field)
               | None \<Rightarrow>
                   (if CHR ''.'' \<in> set key_field \<or> py_startswith key_field ''$'' then
                      (let path = (if py_startswith key_field ''$'' then key_field
                                   else ''$.'' @ key_field)
                       in case extract_one jp ev (Some path) of
                            None \<Rightarrow> None
                          | Some raw \<Rightarrow> map_option (\<lambda>t. (t, key_field)) (normalize_key_value raw))
                    else None)))"

section \<open>Seed keys from the registry\<close>

record registry_row =
  rr_id :: int
  rr_stream_id :: int
  rr_stage :: string
  rr_created_at :: int
  rr_payload :: json

definition scope_since ::
    "(string \<Rightarrow> int option) \<Rightarrow> int \<Rightarrow> dedup_config \<Rightarrow> event option \<Rightarrow> int option \<Rightarrow> int option" where
  "scope_since parse_iso now cfg checkpoint updated_at =
     (case dc_scope cfg of
        Current_Run \<Rightarrow> None
      | Checkpoint_Window \<Rightarrow>
          (case updated_at of
             Some t \<Rightarrow> Some t
           | None \<Rightarrow>
               (case checkpoint of
                  None \<Rightarrow> None
                | Some c \<Rightarrow>
                    (case dict_get c ''updated_at'' of
                       Some (JStr u) \<Rightarrow>
                         (let text = py_strip u
                          in if text = [] then None
                             else parse_iso (if last text = CHR ''Z''
                                             then butlast text @ ''+00:00'' else text))
                     | _ \<Rightarrow> None)))
      | Last_N_Hours \<Rightarrow>
          (let hours = (case dc_window_hours cfg of
                          Some h \<Rightarrow> if h > 0 then h else 24 | None \<Rightarrow> 24)
           in Some (now - hours * 3600)))"

definition payload_keys :: "json \<Rightarrow> string list" where
  "payload_keys p =
     (case p of
        JObj d \<Rightarrow>
          (case dict_get d ''dedup_keys'' of
             Some (JList ks) \<Rightarrow> filter (\<lambda>t. t \<noteq> []) (map (\<lambda>k. py_strip (py_str k)) ks)
           | _ \<Rightarrow> [])
      | _ \<Rightarrow> [])"

text \<open>The registry query: rows of the stream and stage since the bound, newest first, 500
  at most. \<open>db\<close> is \<open>None\<close> when no session is given; \<open>cp_row_updated\<close> is the
  \<open>updated_at\<close> of the stream's checkpoint row.\<close>

definition load_dedup_seed_keys ::
    "(string \<Rightarrow> int option) \<Rightarrow> int \<Rightarrow> registry_row list option \<Rightarrow> int option \<Rightarrow> int \<Rightarrow> dedup_config \<Rightarrow>
     event option \<Rightarrow> int option \<Rightarrow> string list" where
  "load_dedup_seed_keys parse_iso now db cp_row_updated stream_id cfg checkpoint updated_at =
     (case db of
        None \<Rightarrow> []
      | Some rows \<Rightarrow>
          (if dc_scope cfg = Current_Run then []
           else
             (let since0 = scope_since parse_iso now cfg checkpoint updated_at;
                  since = (if since0 = None \<and> dc_scope cfg = Checkpoint_Window
                           then cp_row_updated else since0);
                  hits = filter (\<lambda>r. rr_stream_id r = stream_id \<and> rr_stage r = ''dedup_registry'' \<and>
                                    (case since of None \<Rightarrow> True | Some t \<Rightarrow> t \<le> rr_created_at r)) rows;
                  newest = take 500 (rev (sort_key rr_id hits))
              in concat (map (\<lambda>r. payload_keys (rr_payload r)) newest))))"

section \<open>The queue\<close>

definition GDC_DEDUP_KEY_META :: string where
  "GDC_DEDUP_KEY_META = ''__gdc_dedup_key''"

definition GDC_DEDUP_QUEUE_ID_META :: string where
  "GDC_DEDUP_QUEUE_ID_META = ''__gdc_dedup_queue_id''"

record dedup_summary =
  ds_total_events :: nat
  ds_inserted :: nat
  ds_duplicate_events :: nat
  ds_dup_event_id :: nat
  ds_dup_stellar_uuid :: nat
  ds_dup_id :: nat
  ds_dup_custom_key :: nat
  ds_handling :: dup_handling
  ds_scope :: dedup_scope
  ds_inserted_keys :: "string list"
  ds_seed_duplicates :: nat
  ds_run_duplicates :: nat
  ds_registry_recorded :: nat
  ds_registry_skipped :: nat
  ds_record_stage :: "string option"
  ds_recorded_keys :: "string list"

definition new_summary :: "dedup_config \<Rightarrow> dedup_summary" where
  "new_summary cfg =
     \<lparr>ds_total_events = 0, ds_inserted = 0, ds_duplicate_events = 0, ds_dup_event_id = 0,
      ds_dup_stellar_uuid = 0, ds_dup_id = 0, ds_dup_custom_key = 0,
      ds_handling = dc_handling cfg, ds_scope = dc_scope cfg, ds_inserted_keys = [],
      ds_seed_duplicates = 0, ds_run_duplicates = 0, ds_registry_recorded = 0,
      ds_registry_skipped = 0, ds_record_stage = None, ds_recorded_keys = []\<rparr>"

definition inc_duplicate_counter :: "dedup_summary \<Rightarrow> string \<Rightarrow> dedup_summary" where
  "inc_duplicate_counter s src =
     (let s1 = s\<lparr>ds_duplicate_events := ds_duplicate_events s + 1\<rparr>
      in if src = ''event_id'' then s1\<lparr>ds_dup_event_id := ds_dup_event_id s1 + 1\<rparr>
         else if src = ''stellar_uuid'' then s1\<lparr>ds_dup_stellar_uuid := ds_dup_stellar_uuid s1 + 1\<rparr>
         else if src = ''id'' then s1\<lparr>ds_dup_id := ds_dup_id s1 + 1\<rparr>
         else if src = ''custom_jsonpath'' then s1\<lparr>ds_dup_custom_key := ds_dup_custom_key s1 + 1\<rparr>
         else s1)"

record queue_entry =
  qe_id :: nat
  qe_key :: string
  qe_event :: event
  qe_source :: string

record dedup_log =
  dlog_key :: string
  dlog_reason :: string
  dlog_queue_id :: "nat option"

record dedup_queue =
  q_keys :: "(string, nat) dict"
  q_entries :: "queue_entry list"
  q_next :: nat
  q_summary :: dedup_summary
  q_logs :: "dedup_log list"

definition new_queue :: "dedup_config \<Rightarrow> dedup_queue" where
  "new_queue cfg =
     \<lparr>q_keys = [], q_entries = [], q_next = 1, q_summary = new_summary cfg, q_logs = []\<rparr>"

definition attach_dedup_metadata :: "event \<Rightarrow> string option \<Rightarrow> nat \<Rightarrow> event" where
  "attach_dedup_metadata ev key qid =
     (case key of
        None \<Rightarrow> ev
      | Some k \<Rightarrow> (if k = [] then ev
                  else dict_set GDC_DEDUP_QUEUE_ID_META (JInt (int qid))
                         (dict_set GDC_DEDUP_KEY_META (JStr k) ev)))"

definition insert_new :: "dedup_queue \<Rightarrow> event \<Rightarrow> string option \<Rightarrow> string option \<Rightarrow> dedup_queue" where
  "insert_new q ev key src =
     (let qid = q_next q;
          copied = attach_dedup_metadata (copy_event_dict ev) key qid;
          present = (case key of None \<Rightarrow> False | Some k \<Rightarrow> k \<noteq> []);
          entry = \<lparr>qe_id = qid,
                   qe_key = (if present then the key else ''__no_key_'' @ int_str (int qid)),
                   qe_event = copied,
                   qe_source = (case src of None \<Rightarrow> ''none'' | Some s \<Rightarrow> if s = [] then ''none'' else s)\<rparr>;
          entries = q_entries q @ [entry];
          s = q_summary q
      in q\<lparr>q_next := qid + 1,
           q_entries := entries,
           q_keys := (if present then dict_set (the key) (length entries - 1) (q_keys q)
                      else q_keys q),
           q_summary := s\<lparr>ds_inserted_keys :=
                            (if present then ds_inserted_keys s @ [the key] else ds_inserted_keys s),
                          ds_inserted := ds_inserted s + 1\<rparr>\<rparr>)"

definition log_duplicate :: "dedup_queue \<Rightarrow> string \<Rightarrow> string \<Rightarrow> nat option \<Rightarrow> dedup_queue" where
  "log_duplicate q k reason qid =
     q\<lparr>q_logs := q_logs q @ [\<lparr>dlog_key = k, dlog_reason = reason, dlog_queue_id = qid\<rparr>]\<rparr>"

text \<open>One round of the loop of \<open>StreamDedupQueue.ingest\<close>.\<close>

definition ingest_event ::
    "jsonpath_engine \<Rightarrow> dedup_config \<Rightarrow> string list \<Rightarrow> dedup_queue \<Rightarrow> json \<Rightarrow> dedup_queue" where
  "ingest_event jp cfg seeds q item =
     (case item of
        JObj ev \<Rightarrow>
          (case extract_dedup_key jp ev cfg of
             None \<Rightarrow> insert_new q ev None None
           | Some (key, src) \<Rightarrow>
               (let in_run = dict_has (q_keys q) key;
                    in_seed = key \<in> set seeds
                in if \<not> (in_run \<or> in_seed) then insert_new q ev (Some key) (Some src)
                   else
                     (let queue_id = dict_get (q_keys q) key;
                          reason = (if in_run then ''key_in_current_run'' else ''key_in_scope_registry'');
                          s1 = inc_duplicate_counter (q_summary q) src;
                          s2 = (if in_seed then s1\<lparr>ds_seed_duplicates := ds_seed_duplicates s1 + 1\<rparr> else s1);
                          s3 = (if in_run then s2\<lparr>ds_run_duplicates := ds_run_duplicates s2 + 1\<rparr> else s2);
                          q1 = q\<lparr>q_summary := s3\<rparr>
                      in if dc_handling cfg = Keep_Latest \<and> in_run \<and> queue_id \<noteq> None then
                           (let idx = the (dict_get (q_keys q) key);
                                old = q_entries q ! idx;
                                replaced = attach_dedup_metadata (copy_event_dict ev) (Some key) (qe_id old);
                                entry = \<lparr>qe_id = qe_id old, qe_key = key, qe_event = replaced,
                                         qe_source = (if src = [] then qe_source old else src)\<rparr>;
                                q2 = q1\<lparr>q_entries := (q_entries q1)[idx := entry]\<rparr>
                            in log_duplicate q2 key ''keep_latest_replace'' (Some (qe_id old)))
                         else log_duplicate q1 key reason queue_id)))
      | other \<Rightarrow> insert_new q [(''value'', other)] None None)"

definition ingest :: "jsonpath_engine \<Rightarrow> dedup_config \<Rightarrow> string list \<Rightarrow> json list \<Rightarrow> dedup_queue" where
  "ingest jp cfg seeds events =
     (let q0 = new_queue cfg;
          q1 = q0\<lparr>q_summary := (q_summary q0)\<lparr>ds_total_events := length events\<rparr>\<rparr>
      in foldl (ingest_event jp cfg seeds) q1 events)"

abbreviation queued :: "dedup_queue \<Rightarrow> json list" where
  "queued q \<equiv> map (\<lambda>e. JObj (qe_event e)) (q_entries q)"

definition apply_stream_dedup ::
    "jsonpath_engine \<Rightarrow> (string \<Rightarrow> int option) \<Rightarrow> int \<Rightarrow> registry_row list option \<Rightarrow> int option \<Rightarrow>
     json list \<Rightarrow> event option \<Rightarrow> int \<Rightarrow> event option \<Rightarrow> bool \<Rightarrow> json list \<times> dedup_summary option" where
  "apply_stream_dedup jp parse_iso now db cp_row_updated events stream_config stream_id checkpoint apply_dedup =
     (let cfg = parse_dedup_config stream_config
      in if \<not> apply_dedup \<or> \<not> dc_enabled cfg \<or> events = [] then (events, None)
         else
           (let seeds = load_dedup_seed_keys parse_iso now db cp_row_updated stream_id cfg checkpoint None;
                q = ingest jp cfg seeds (filter is_obj events)
            in (queued q, Some (q_summary q))))"

definition propagate_dedup_metadata :: "event \<Rightarrow> event \<Rightarrow> event" where
  "propagate_dedup_metadata raw enriched =
     foldl (\<lambda>e k. case dict_get raw k of
                    Some v \<Rightarrow> if dict_has e k then e else dict_set k v e
                  | None \<Rightarrow> e)
       enriched [GDC_DEDUP_KEY_META, GDC_DEDUP_QUEUE_ID_META]"

section \<open>The registry\<close>

definition delivered_entry :: "json \<Rightarrow> (string \<times> int option) option" where
  "delivered_entry e =
     (case e of
        JObj ev \<Rightarrow>
          (case dict_get ev GDC_DEDUP_KEY_META of
             Some (JStr k) \<Rightarrow>
               (if py_strip k = [] then None
                else Some (py_strip k,
                           case dict_get ev GDC_DEDUP_QUEUE_ID_META of
                             Some (JInt i) \<Rightarrow> Some i
                           | Some (JBool b) \<Rightarrow> Some (if b then 1 else 0)
                           | _ \<Rightarrow> None))
           | _ \<Rightarrow> None)
      | _ \<Rightarrow> None)"

definition extract_delivered_dedup_entries :: "json list \<Rightarrow> (string \<times> int option) list" where
  "extract_delivered_dedup_entries events = List.map_filter delivered_entry events"

fun add_keys :: "string list \<Rightarrow> string list \<Rightarrow> string list" where
  "add_keys seen [] = seen"
| "add_keys seen (k # ks) = add_keys (if k \<in> set seen then seen else seen @ [k]) ks"

text \<open>The second component is the \<open>dedup_keys\<close> payload of the \<open>dedup_registry\<close> log row,
  if one is emitted.\<close>

definition record_dedup_registry_for_route_success ::
    "json list \<Rightarrow> dedup_summary \<Rightarrow> dedup_summary \<times> string list option" where
  "record_dedup_registry_for_route_success route_events s =
     (let d0 = extract_delivered_dedup_entries route_events;
          delivered = (if d0 = [] then map (\<lambda>k. (k, None)) (ds_inserted_keys s) else d0)
      in if delivered = [] then (s, None)
         else
           (let keys = map fst delivered;
                rec_keys = add_keys (ds_recorded_keys s) keys;
                n = length rec_keys
            in (s\<lparr>ds_recorded_keys := rec_keys,
                  ds_registry_recorded := n,
                  ds_record_stage := Some ''delivery_success'',
                  ds_registry_skipped := length (ds_inserted_keys s) - n\<rparr>,
                Some keys)))"

definition finalize_dedup_registry_summary ::
    "json list \<Rightarrow> dedup_summary option \<Rightarrow> bool \<Rightarrow> dedup_summary option" where
  "finalize_dedup_registry_summary successful_events summary dry_run =
     (case summary of
        None \<Rightarrow> None
      | Some s \<Rightarrow>
          (let p0 = extract_delivered_dedup_entries successful_events;
               pending = (if p0 = [] then map (\<lambda>k. (k, None)) (ds_inserted_keys s) else p0)
           in if dry_run then
                Some (s\<lparr>ds_registry_recorded := 0, ds_registry_skipped := length pending,
                        ds_record_stage := None\<rparr>)
              else if ds_registry_recorded s = 0 then
                Some (s\<lparr>ds_registry_skipped := length pending, ds_record_stage := None\<rparr>)
              else
                Some (s\<lparr>ds_registry_skipped := length (ds_inserted_keys s) - ds_registry_recorded s\<rparr>)))"

section \<open>Specification of the queue\<close>

text \<open>The key of an item of the batch, the first occurrences of keys outside \<open>seen\<close> (items
  without a key are all kept), and the queue id and key written into what is kept.\<close>

definition item_key :: "jsonpath_engine \<Rightarrow> dedup_config \<Rightarrow> json \<Rightarrow> string option" where
  "item_key jp cfg item =
     (case item of JObj ev \<Rightarrow> map_option fst (extract_dedup_key jp ev cfg) | _ \<Rightarrow> None)"

definition wrap_item :: "json \<Rightarrow> event" where
  "wrap_item item = (case item of JObj ev \<Rightarrow> ev | other \<Rightarrow> [(''value'', other)])"

fun first_occurrences :: "(json \<Rightarrow> string option) \<Rightarrow> string set \<Rightarrow> json list \<Rightarrow> json list" where
  "first_occurrences key seen [] = []"
| "first_occurrences key seen (x # xs) =
     (case key x of
        None \<Rightarrow> x # first_occurrences key seen xs
      | Some k \<Rightarrow> if k \<in> seen then first_occurrences key seen xs
                  else x # first_occurrences key (insert k seen) xs)"

fun tag_from :: "(json \<Rightarrow> string option) \<Rightarrow> nat \<Rightarrow> json list \<Rightarrow> json list" where
  "tag_from key n [] = []"
| "tag_from key n (x # xs) =
     JObj (attach_dedup_metadata (wrap_item x) (key x) n) # tag_from key (n + 1) xs"

text \<open>The last item of the batch with the same key, the item itself where it has none.\<close>

definition latest_of :: "(json \<Rightarrow> string option) \<Rightarrow> json list \<Rightarrow> json \<Rightarrow> json" where
  "latest_of key xs x =
     (if key x = None then x else last (x # filter (\<lambda>y. key y = key x) xs))"

lemma first_occurrences_append:
  "first_occurrences key seen (xs @ ys) =
     first_occurrences key seen xs @
     first_occurrences key (seen \<union> {k. \<exists>x \<in> set xs. key x = Some k}) ys"
proof (induction xs arbitrary: seen)
  case Nil
  then show ?case by simp
next
  case (Cons x xs)
  have "insert k seen \<union> {k. \<exists>x \<in> set xs. key x = Some k}
      = seen \<union> {j. \<exists>y \<in> set (x # xs). key y = Some j}" if "key x = Some k" for k
    using that by auto
  moreover have "seen \<union> {k. \<exists>x \<in> set xs. key x = Some k}
      = seen \<union> {j. \<exists>y \<in> set (x # xs). key y = Some j}" if "key x = Some k" "k \<in> seen" for k
    using that by auto
  ultimately show ?case using Cons.IH by (auto split: option.splits)
qed

lemma set_first_occurrences: "set (first_occurrences key seen xs) \<subseteq> set xs"
proof (induction xs arbitrary: seen)
  case (Cons x xs)
  then show ?case
    using Cons.IH[of seen] Cons.IH[of "insert (the (key x)) seen"]
    by (auto split: option.splits if_splits)
qed simp

lemma first_occurrences_keys:
  "Some ` seen \<inter> key ` set (first_occurrences key seen xs) = {}
   \<and> distinct (List.map_filter key (first_occurrences key seen xs))"
proof (induction xs arbitrary: seen)
  case Nil
  then show ?case by (simp add: List.map_filter_def)
next
  case (Cons x xs)
  have notin: "k \<notin> set (List.map_filter key (first_occurrences key (insert k seen) xs))" for k
    using Cons.IH[of "insert k seen"] by (auto simp: List.map_filter_def image_iff)
  show ?case
    using Cons.IH notin
    by (auto split: option.splits simp: List.map_filter_def image_iff, blast+)
qed

lemma first_occurrences_complete:
  "x \<in> set xs \<Longrightarrow> key x = Some k \<Longrightarrow> k \<notin> seen \<Longrightarrow>
     \<exists>y \<in> set (first_occurrences key seen xs). key y = Some k"
proof (induction xs arbitrary: seen)
  case (Cons z zs)
  show ?case
  proof (cases "key z = Some k")
    case True
    with Cons.prems show ?thesis by simp
  next
    case False
    with Cons.prems have "x \<in> set zs" by auto
    with Cons False show ?thesis by (auto split: option.splits)
  qed
qed simp

lemma first_occurrences_keyless:
  "filter (\<lambda>x. key x = None) (first_occurrences key seen xs) = filter (\<lambda>x. key x = None) xs"
  by (induction xs arbitrary: seen) (auto split: option.splits)

lemma first_occurrences_all_seen:
  "(\<forall>x \<in> set xs. \<exists>k \<in> seen. key x = Some k) \<Longrightarrow> first_occurrences key seen xs = []"
  by (induction xs) (auto split: option.splits)

lemma length_tag_from [simp]: "length (tag_from key n xs) = length xs"
  by (induction xs arbitrary: n) auto

lemma tag_from_append:
  "tag_from key n (xs @ ys) = tag_from key n xs @ tag_from key (n + length xs) ys"
  by (induction xs arbitrary: n) auto

section \<open>The queue implements its specification\<close>

lemma normalize_key_nonempty: "normalize_key_value v = Some t \<Longrightarrow> t \<noteq> []"
  by (auto simp: normalize_key_value_def Let_def split: json.splits if_splits)

lemma first_alias_nonempty: "first_alias_key ev as = Some t \<Longrightarrow> t \<noteq> []"
  by (induction as) (auto split: option.splits dest: normalize_key_nonempty)

lemma extract_dedup_key_nonempty: "extract_dedup_key jp ev cfg = Some (k, src) \<Longrightarrow> k \<noteq> []"
  by (auto simp: extract_dedup_key_def Let_def split: if_splits option.splits
      dest: first_alias_nonempty normalize_key_nonempty)

lemma inc_duplicate_counter_simps [simp]:
  "ds_duplicate_events (inc_duplicate_counter s src) = ds_duplicate_events s + 1"
  "ds_inserted (inc_duplicate_counter s src) = ds_inserted s"
  "ds_total_events (inc_duplicate_counter s src) = ds_total_events s"
  "ds_inserted_keys (inc_duplicate_counter s src) = ds_inserted_keys s"
  by (simp_all add: inc_duplicate_counter_def Let_def)

lemma insert_new_simps [simp]:
  "q_next (insert_new q ev key src) = q_next q + 1"
  "queued (insert_new q ev key src) =
     queued q @ [JObj (attach_dedup_metadata ev key (q_next q))]"
  "length (q_entries (insert_new q ev key src)) = length (q_entries q) + 1"
  "ds_inserted (q_summary (insert_new q ev key src)) = ds_inserted (q_summary q) + 1"
  "ds_duplicate_events (q_summary (insert_new q ev key src)) = ds_duplicate_events (q_summary q)"
  "ds_total_events (q_summary (insert_new q ev key src)) = ds_total_events (q_summary q)"
  by (simp_all add: insert_new_def Let_def)

lemma insert_new_ids [simp]:
  "map qe_id (q_entries (insert_new q ev key src)) = map qe_id (q_entries q) @ [q_next q]"
  by (simp add: insert_new_def Let_def)

lemma insert_new_keys [simp]:
  "q_keys (insert_new q ev None src) = q_keys q"
  "k \<noteq> [] \<Longrightarrow> q_keys (insert_new q ev (Some k) src) = dict_set k (length (q_entries q)) (q_keys q)"
  by (simp_all add: insert_new_def Let_def)

lemma log_duplicate_simps [simp]:
  "q_entries (log_duplicate q k r i) = q_entries q"
  "q_keys (log_duplicate q k r i) = q_keys q"
  "q_next (log_duplicate q k r i) = q_next q"
  "q_summary (log_duplicate q k r i) = q_summary q"
  by (simp_all add: log_duplicate_def)

text \<open>The three cases of a round: no key, a new key, a duplicate.\<close>

lemma ingest_event_keyless:
  "item_key jp cfg item = None \<Longrightarrow>
     ingest_event jp cfg seeds q item = insert_new q (wrap_item item) None None"
  by (auto simp: ingest_event_def item_key_def wrap_item_def split: json.splits option.splits)

lemma ingest_event_new:
  assumes "item_key jp cfg item = Some k" "k \<notin> set seeds" "dict_get (q_keys q) k = None"
  shows "\<exists>src. ingest_event jp cfg seeds q item = insert_new q (wrap_item item) (Some k) (Some src)"
  using assms
  by (auto simp: ingest_event_def item_key_def wrap_item_def split: json.splits option.splits)

lemma ingest_event_duplicate:
  assumes "item_key jp cfg item = Some k" "k \<in> set seeds \<or> dict_get (q_keys q) k \<noteq> None"
  shows "q_keys (ingest_event jp cfg seeds q item) = q_keys q"
    and "q_next (ingest_event jp cfg seeds q item) = q_next q"
    and "ds_inserted (q_summary (ingest_event jp cfg seeds q item)) = ds_inserted (q_summary q)"
    and "ds_duplicate_events (q_summary (ingest_event jp cfg seeds q item))
           = ds_duplicate_events (q_summary q) + 1"
    and "ds_total_events (q_summary (ingest_event jp cfg seeds q item)) = ds_total_events (q_summary q)"
    and "length (q_entries (ingest_event jp cfg seeds q item)) = length (q_entries q)"
  using assms
  by (auto simp: ingest_event_def item_key_def Let_def split: json.splits option.splits)

lemma ingest_event_duplicate_entries:
  assumes "item_key jp cfg item = Some k" "k \<in> set seeds \<or> dict_get (q_keys q) k \<noteq> None"
  shows "queued (ingest_event jp cfg seeds q item) =
     (case dict_get (q_keys q) k of
        Some i \<Rightarrow> if dc_handling cfg = Keep_Latest
                  then (queued q)[i := JObj (attach_dedup_metadata (wrap_item item) (Some k)
                                              (qe_id (q_entries q ! i)))]
                  else queued q
      | None \<Rightarrow> queued q)"
  using assms
  by (auto simp: ingest_event_def item_key_def wrap_item_def Let_def map_update
      split: json.splits option.splits)

lemma ingest_event_duplicate_ids:
  assumes "item_key jp cfg item = Some k" "k \<in> set seeds \<or> dict_get (q_keys q) k \<noteq> None"
    and "\<And>i. dict_get (q_keys q) k = Some i \<Longrightarrow> i < length (q_entries q)"
  shows "map qe_id (q_entries (ingest_event jp cfg seeds q item)) = map qe_id (q_entries q)"
  using assms
  by (auto simp: ingest_event_def item_key_def Let_def map_update intro!: list_update_same_conv[THEN iffD2]
      split: json.splits option.splits)

lemmas ingest_event_cases = ingest_event_duplicate ingest_event_duplicate_entries

text \<open>Keeping the first: the queue holds the first occurrences, in order, each with its key
  and position written in.\<close>

lemma foldl_ingest_first:
  assumes "dc_handling cfg \<noteq> Keep_Latest"
  shows "queued (foldl (ingest_event jp cfg seeds) q items) =
     queued q @ tag_from (item_key jp cfg) (q_next q)
       (first_occurrences (item_key jp cfg) (set seeds \<union> dom (dict_get (q_keys q))) items)"
proof (induction items arbitrary: q)
  case Nil
  then show ?case by simp
next
  case (Cons x xs)
  let ?key = "item_key jp cfg" and ?q' = "ingest_event jp cfg seeds q x"
  consider (none) "?key x = None"
    | (new) k where "?key x = Some k" "k \<notin> set seeds" "dict_get (q_keys q) k = None"
    | (dup) k where "?key x = Some k" "k \<in> set seeds \<or> dict_get (q_keys q) k \<noteq> None"
    by (cases "?key x") auto
  then show ?case
  proof cases
    case none
    then show ?thesis using Cons.IH[of ?q'] by (simp add: ingest_event_keyless)
  next
    case new
    obtain src where q': "?q' = insert_new q (wrap_item x) (Some k) (Some src)"
      using ingest_event_new[OF new] by blast
    have "k \<noteq> []"
      using new(1) by (auto simp: item_key_def split: json.splits dest: extract_dedup_key_nonempty)
    then have "set seeds \<union> dom (dict_get (q_keys ?q'))
        = insert k (set seeds \<union> dom (dict_get (q_keys q)))"
      by (auto simp: q' dict_simps split: if_splits)
    with new q' show ?thesis using Cons.IH[of ?q'] by auto
  next
    case dup
    then have "k \<in> set seeds \<union> dom (dict_get (q_keys q))" by auto
    with dup assms show ?thesis
      using Cons.IH[of ?q'] ingest_event_cases[OF dup] by (auto split: option.splits)
  qed
qed

lemma ingest_first:
  "dc_handling cfg \<noteq> Keep_Latest \<Longrightarrow>
     queued (ingest jp cfg seeds items) =
     tag_from (item_key jp cfg) 1 (first_occurrences (item_key jp cfg) (set seeds) items)"
  by (simp add: ingest_def Let_def new_queue_def foldl_ingest_first)

text \<open>Keeping the latest: the same positions, each with the last item of its key. The
  invariant ties the index of keys to the positions.\<close>

definition latest_inv ::
    "jsonpath_engine \<Rightarrow> dedup_config \<Rightarrow> string list \<Rightarrow> json list \<Rightarrow> dedup_queue \<Rightarrow> bool" where
  "latest_inv jp cfg seeds items q \<longleftrightarrow>
     (let key = item_key jp cfg; fo = first_occurrences key (set seeds) items
      in queued q = tag_from key 1 (map (latest_of key items) fo) \<and>
         q_next q = length fo + 1 \<and>
         map qe_id (q_entries q) = [1..<length fo + 1] \<and>
         (\<forall>k i. dict_get (q_keys q) k = Some i \<longleftrightarrow> i < length fo \<and> key (fo ! i) = Some k))"

lemma key_latest_of: "key (latest_of key xs x) = key x"
proof -
  have "last (x # filter (\<lambda>y. key y = key x) xs) \<in> set (x # filter (\<lambda>y. key y = key x) xs)"
    by (rule last_in_set) simp
  then show ?thesis by (auto simp: latest_of_def)
qed

lemma latest_of_snoc:
  "latest_of key (xs @ [y]) x = (if key x \<noteq> None \<and> key y = key x then y else latest_of key xs x)"
  by (auto simp: latest_of_def)

lemma tag_from_nth:
  "i < length xs \<Longrightarrow>
     tag_from key n xs ! i = JObj (attach_dedup_metadata (wrap_item (xs ! i)) (key (xs ! i)) (n + i))"
  by (induction xs arbitrary: n i) (auto simp: nth_Cons split: nat.split)

lemma tag_from_update:
  "i < length xs \<Longrightarrow>
     tag_from key n (xs[i := x]) = (tag_from key n xs)[i := JObj (attach_dedup_metadata (wrap_item x) (key x) (n + i))]"
  by (induction xs arbitrary: n i) (auto split: nat.split)

lemma latest_inv_init:
  "latest_inv jp cfg seeds [] ((new_queue cfg)\<lparr>q_summary := s\<rparr>)"
  by (simp add: latest_inv_def new_queue_def)

lemma latest_inv_len: "latest_inv jp cfg seeds items q \<Longrightarrow>
    length (q_entries q) = length (first_occurrences (item_key jp cfg) (set seeds) items)"
  by (simp add: latest_inv_def Let_def) (metis length_map length_tag_from)

text \<open>A round that appends keeps the invariant.\<close>

lemma latest_inv_append:
  assumes inv: "latest_inv jp cfg seeds items q"
    and fo: "first_occurrences (item_key jp cfg) (set seeds) (items @ [x])
               = first_occurrences (item_key jp cfg) (set seeds) items @ [x]"
    and same: "\<And>y. y \<in> set (first_occurrences (item_key jp cfg) (set seeds) items) \<Longrightarrow>
                 latest_of (item_key jp cfg) (items @ [x]) y = latest_of (item_key jp cfg) items y"
    and self: "latest_of (item_key jp cfg) (items @ [x]) x = x"
    and q': "q' = insert_new q (wrap_item x) (item_key jp cfg x) src"
    and keys: "\<And>k i. dict_get (q_keys q') k = Some i \<longleftrightarrow>
                 (if item_key jp cfg x = Some k then i = length (q_entries q)
                  else dict_get (q_keys q) k = Some i)"
    and new: "\<And>k i. item_key jp cfg x = Some k \<Longrightarrow> dict_get (q_keys q) k \<noteq> Some i"
  shows "latest_inv jp cfg seeds (items @ [x]) q'"
proof -
  let ?key = "item_key jp cfg" let ?fo = "first_occurrences ?key (set seeds) items"
  note inv' = inv[unfolded latest_inv_def Let_def]
  have m: "map (latest_of ?key (items @ [x])) (?fo @ [x]) = map (latest_of ?key items) ?fo @ [x]"
    using same self by simp
  have old: "dict_get (q_keys q) k = Some i \<longleftrightarrow> i < length ?fo \<and> ?key (?fo ! i) = Some k" for k i
    using inv' by blast
  have idx: "dict_get (q_keys q') k = Some i \<longleftrightarrow> i < length (?fo @ [x]) \<and> ?key ((?fo @ [x]) ! i) = Some k"
    for k i
  proof (cases "?key x = Some k")
    case True
    with keys[of k i] new[OF True, of i] old[of k i] latest_inv_len[OF inv] show ?thesis
      by (cases rule: linorder_cases[of i "length ?fo"]) (simp_all add: nth_append)
  next
    case False
    with keys[of k i] old[of k i] show ?thesis
      by (cases rule: linorder_cases[of i "length ?fo"]) (simp_all add: nth_append)
  qed
  have "queued q' = tag_from ?key 1 (map (latest_of ?key items) ?fo @ [x])"
    using inv' by (simp add: q' tag_from_append)
  then show ?thesis
    unfolding latest_inv_def Let_def fo m using inv' idx by (simp add: q')
qed

lemma latest_inv_keyless:
  assumes "latest_inv jp cfg seeds items q" "item_key jp cfg x = None"
  shows "latest_inv jp cfg seeds (items @ [x]) (ingest_event jp cfg seeds q x)"
  by (rule latest_inv_append[OF assms(1), where src = None])
    (use assms(2) in \<open>auto simp: ingest_event_keyless first_occurrences_append latest_of_snoc
       latest_of_def\<close>)

lemma latest_inv_new:
  assumes inv: "latest_inv jp cfg seeds items q"
    and new: "item_key jp cfg x = Some k" "k \<notin> set seeds" "dict_get (q_keys q) k = None"
  shows "latest_inv jp cfg seeds (items @ [x]) (ingest_event jp cfg seeds q x)"
proof -
  let ?key = "item_key jp cfg" let ?fo = "first_occurrences ?key (set seeds) items"
  have no_fo: "?key y \<noteq> Some k" if y: "y \<in> set ?fo" for y
  proof
    assume "?key y = Some k"
    moreover from y obtain i where "i < length ?fo" "?fo ! i = y" by (auto simp: in_set_conv_nth)
    ultimately have "dict_get (q_keys q) k = Some i"
      using inv by (auto simp: latest_inv_def Let_def)
    with new(3) show False by simp
  qed
  then have no_items: "?key y \<noteq> Some k" if "y \<in> set items" for y
    using first_occurrences_complete[OF that _ new(2)] by blast
  obtain src where q': "ingest_event jp cfg seeds q x = insert_new q (wrap_item x) (Some k) (Some src)"
    using ingest_event_new[OF new] by blast
  have ne: "k \<noteq> []"
    using new(1) by (auto simp: item_key_def split: json.splits dest: extract_dedup_key_nonempty)
  show ?thesis
  proof (rule latest_inv_append[OF inv, where src = "Some src"])
    show "first_occurrences ?key (set seeds) (items @ [x]) = ?fo @ [x]"
      using new no_items by (auto simp: first_occurrences_append)
    show "latest_of ?key (items @ [x]) y = latest_of ?key items y" if "y \<in> set ?fo" for y
      using no_fo[OF that] new(1) by (auto simp: latest_of_snoc)
    show "latest_of ?key (items @ [x]) x = x" using new(1) by (simp add: latest_of_snoc)
    show "dict_get (q_keys (ingest_event jp cfg seeds q x)) j = Some i \<longleftrightarrow>
        (if ?key x = Some j then i = length (q_entries q) else dict_get (q_keys q) j = Some i)" for j i
      using new(1) ne by (auto simp: q' dict_simps)
    show "dict_get (q_keys q) j \<noteq> Some i" if "?key x = Some j" for j i
      using new that by auto
  qed (simp add: q' new(1))
qed

lemma latest_inv_duplicate:
  assumes inv: "latest_inv jp cfg seeds items q" and latest: "dc_handling cfg = Keep_Latest"
    and dup: "item_key jp cfg x = Some k" "k \<in> set seeds \<or> dict_get (q_keys q) k \<noteq> None"
  shows "latest_inv jp cfg seeds (items @ [x]) (ingest_event jp cfg seeds q x)"
proof -
  let ?key = "item_key jp cfg" let ?fo = "first_occurrences ?key (set seeds) items"
  let ?q' = "ingest_event jp cfg seeds q x"
  note inv' = inv[unfolded latest_inv_def Let_def]
  have len: "length (q_entries q) = length ?fo"
    using inv' by (metis length_map length_tag_from)
  have idx: "i < length ?fo \<and> ?key (?fo ! i) = Some k" if "dict_get (q_keys q) k = Some i" for i
    using inv' that by blast
  have seen: "k \<in> set seeds \<union> {j. \<exists>y \<in> set items. ?key y = Some j}"
  proof (cases "k \<in> set seeds")
    case False
    with dup(2) obtain i where "dict_get (q_keys q) k = Some i" by auto
    with idx have "?fo ! i \<in> set items" "?key (?fo ! i) = Some k"
      using set_first_occurrences[of ?key "set seeds" items] by auto
    then show ?thesis by blast
  qed simp
  have fo: "first_occurrences ?key (set seeds) (items @ [x]) = ?fo"
    using dup(1) seen by (simp add: first_occurrences_append)
  have ids: "map qe_id (q_entries ?q') = map qe_id (q_entries q)"
    using ingest_event_duplicate_ids[OF dup] idx len by metis
  have "queued ?q' = tag_from ?key 1 (map (latest_of ?key (items @ [x])) ?fo)"
  proof (cases "dict_get (q_keys q) k")
    case None
    then have "?key (?fo ! i) \<noteq> Some k" if "i < length ?fo" for i
      using inv' that by (metis option.distinct(1))
    then have "latest_of ?key (items @ [x]) y = latest_of ?key items y" if "y \<in> set ?fo" for y
      using that dup(1) by (auto simp: latest_of_snoc in_set_conv_nth)
    then have m: "map (latest_of ?key (items @ [x])) ?fo = map (latest_of ?key items) ?fo" by simp
    have "queued ?q' = queued q" using None ingest_event_duplicate_entries[OF dup] by simp
    then show ?thesis unfolding m using inv' by simp
  next
    case (Some i)
    note i = idx[OF Some]
    have only: "?key (?fo ! j) = Some k \<longleftrightarrow> j = i" if "j < length ?fo" for j
      using inv' that Some i by (metis option.inject)
    have upd: "map (latest_of ?key (items @ [x])) ?fo = (map (latest_of ?key items) ?fo)[i := x]"
    proof (rule nth_equalityI)
      fix j assume "j < length (map (latest_of ?key (items @ [x])) ?fo)"
      then have j: "j < length ?fo" by simp
      show "map (latest_of ?key (items @ [x])) ?fo ! j = (map (latest_of ?key items) ?fo)[i := x] ! j"
      proof (cases "j = i")
        case True
        with j i dup(1) show ?thesis by (simp add: latest_of_snoc)
      next
        case False
        with only[OF j] dup(1) have "?key (?fo ! j) \<noteq> ?key x" by simp
        with j False show ?thesis by (simp add: latest_of_snoc)
      qed
    qed simp
    have "qe_id (q_entries q ! i) = map qe_id (q_entries q) ! i" using i len by simp
    also have "\<dots> = [1..<length ?fo + 1] ! i" using inv' by presburger
    also have "\<dots> = 1 + i" using i by (simp del: upt_Suc)
    finally have "qe_id (q_entries q ! i) = 1 + i" .
    with Some latest ingest_event_duplicate_entries[OF dup]
    have "queued ?q' = (queued q)[i := JObj (attach_dedup_metadata (wrap_item x) (Some k) (1 + i))]"
      by simp
    moreover have "queued q = tag_from ?key 1 (map (latest_of ?key items) ?fo)" using inv' by blast
    ultimately show ?thesis
      unfolding upd using i dup(1) by (simp add: tag_from_update)
  qed
  with inv' fo ids ingest_event_duplicate[OF dup] show ?thesis
    by (simp add: latest_inv_def)
qed

lemma ingest_latest:
  assumes "dc_handling cfg = Keep_Latest"
  shows "queued (ingest jp cfg seeds items) =
     tag_from (item_key jp cfg) 1
       (map (latest_of (item_key jp cfg) items) (first_occurrences (item_key jp cfg) (set seeds) items))"
proof -
  have "latest_inv jp cfg seeds xs (foldl (ingest_event jp cfg seeds) ((new_queue cfg)\<lparr>q_summary := s\<rparr>) xs)"
    for xs s
  proof (induction xs rule: rev_induct)
    case Nil
    show ?case by (simp add: latest_inv_init)
  next
    case (snoc x xs)
    then show ?case
      using latest_inv_keyless latest_inv_new latest_inv_duplicate assms
      by (cases "item_key jp cfg x") (simp, metis foldl_Cons foldl_Nil foldl_append)
  qed
  then show ?thesis by (simp add: ingest_def Let_def latest_inv_def)
qed

section \<open>What the queue promises\<close>

lemma normalize_key_stripped: "normalize_key_value v = Some t \<Longrightarrow> py_strip t = t"
  by (auto simp: normalize_key_value_def Let_def split: json.splits if_splits)

lemma first_alias_stripped: "first_alias_key ev as = Some t \<Longrightarrow> py_strip t = t"
  by (induction as) (auto split: option.splits dest: normalize_key_stripped)

lemma item_key_stripped: "item_key jp cfg x = Some k \<Longrightarrow> py_strip k = k \<and> k \<noteq> []"
  by (auto simp: item_key_def extract_dedup_key_def Let_def
      split: json.splits if_splits option.splits
      dest: first_alias_stripped normalize_key_stripped first_alias_nonempty normalize_key_nonempty)

definition unmarked :: "json \<Rightarrow> bool" where
  "unmarked x \<longleftrightarrow> is_obj x \<and> dict_get (obj_of x) GDC_DEDUP_KEY_META = None"

lemma delivered_entry_tagged:
  assumes "unmarked x" "\<And>k. key x = Some k \<Longrightarrow> py_strip k = k \<and> k \<noteq> []"
  shows "delivered_entry (JObj (attach_dedup_metadata (wrap_item x) (key x) n))
           = map_option (\<lambda>k. (k, Some (int n))) (key x)"
  using assms
  by (cases x; cases "key x")
    (auto simp: unmarked_def delivered_entry_def attach_dedup_metadata_def wrap_item_def dict_simps
      GDC_DEDUP_KEY_META_def GDC_DEDUP_QUEUE_ID_META_def)

lemma delivered_tag_from:
  assumes "\<And>x. x \<in> set xs \<Longrightarrow> unmarked x" "\<And>x k. key x = Some k \<Longrightarrow> py_strip k = k \<and> k \<noteq> []"
  shows "map fst (extract_delivered_dedup_entries (tag_from key n xs)) = List.map_filter key xs"
  using assms
  by (induction xs arbitrary: n)
    (auto simp: extract_delivered_dedup_entries_def List.map_filter_simps delivered_entry_tagged
      split: option.split)

lemma set_map_filter_first:
  "set (List.map_filter key (first_occurrences key seen xs)) = {k. \<exists>x \<in> set xs. key x = Some k} - seen"
  (is "?L = ?R")
proof
  show "?L \<subseteq> ?R"
    using set_first_occurrences[of key seen xs] first_occurrences_keys[of seen key xs]
    by (auto simp: List.map_filter_def) (metis IntI emptyE image_eqI)
  show "?R \<subseteq> ?L"
  proof
    fix k assume "k \<in> ?R"
    then obtain x where "x \<in> set xs" "key x = Some k" "k \<notin> seen" by auto
    then have "\<exists>y \<in> set (first_occurrences key seen xs). key y = Some k"
      by (rule first_occurrences_complete)
    then show "k \<in> ?L" by (force simp: List.map_filter_def)
  qed
qed

lemma map_filter_latest: "List.map_filter key (map (latest_of key xs) ys) = List.map_filter key ys"
  by (induction ys) (auto simp: List.map_filter_simps key_latest_of split: option.split)

lemma latest_of_mem: "y \<in> set xs \<Longrightarrow> latest_of key xs y \<in> set xs"
proof -
  assume y: "y \<in> set xs"
  have "last (y # filter (\<lambda>z. key z = key y) xs) \<in> set (y # filter (\<lambda>z. key z = key y) xs)"
    by (rule last_in_set) simp
  with y show ?thesis by (auto simp: latest_of_def)
qed

text \<open>The queue as one function of the batch.\<close>

definition dedup_spec :: "jsonpath_engine \<Rightarrow> dedup_config \<Rightarrow> string list \<Rightarrow> json list \<Rightarrow> json list" where
  "dedup_spec jp cfg seeds items =
     (let key = item_key jp cfg; fo = first_occurrences key (set seeds) items
      in if dc_handling cfg = Keep_Latest then map (latest_of key items) fo else fo)"

lemma ingest_spec:
  "queued (ingest jp cfg seeds items) = tag_from (item_key jp cfg) 1 (dedup_spec jp cfg seeds items)"
  by (simp add: dedup_spec_def Let_def ingest_first ingest_latest)

lemma dedup_spec_keys:
  "List.map_filter (item_key jp cfg) (dedup_spec jp cfg seeds items)
     = List.map_filter (item_key jp cfg) (first_occurrences (item_key jp cfg) (set seeds) items)"
  by (simp add: dedup_spec_def Let_def map_filter_latest)

lemma set_dedup_spec: "set (dedup_spec jp cfg seeds items) \<subseteq> set items"
  using set_first_occurrences[of "item_key jp cfg" "set seeds" items]
  by (auto simp: dedup_spec_def Let_def intro: latest_of_mem)

text \<open>Every round counts once.\<close>

lemma ingest_event_counts:
  "ds_inserted (q_summary (ingest_event jp cfg seeds q x)) + ds_duplicate_events (q_summary (ingest_event jp cfg seeds q x))
     = ds_inserted (q_summary q) + ds_duplicate_events (q_summary q) + 1
   \<and> ds_total_events (q_summary (ingest_event jp cfg seeds q x)) = ds_total_events (q_summary q)
   \<and> length (q_entries (ingest_event jp cfg seeds q x)) + ds_inserted (q_summary q)
     = length (q_entries q) + ds_inserted (q_summary (ingest_event jp cfg seeds q x))"
proof -
  consider (none) "item_key jp cfg x = None"
    | (new) k where "item_key jp cfg x = Some k" "k \<notin> set seeds" "dict_get (q_keys q) k = None"
    | (dup) k where "item_key jp cfg x = Some k" "k \<in> set seeds \<or> dict_get (q_keys q) k \<noteq> None"
    by (cases "item_key jp cfg x") auto
  then show ?thesis
  proof cases
    case none then show ?thesis by (simp add: ingest_event_keyless)
  next
    case new
    then obtain src where "ingest_event jp cfg seeds q x = insert_new q (wrap_item x) (Some k) (Some src)"
      using ingest_event_new by blast
    then show ?thesis by simp
  next
    case dup then show ?thesis using ingest_event_duplicate[OF dup] by simp
  qed
qed

lemma foldl_ingest_counts:
  "ds_inserted (q_summary (foldl (ingest_event jp cfg seeds) q xs))
     + ds_duplicate_events (q_summary (foldl (ingest_event jp cfg seeds) q xs))
     = ds_inserted (q_summary q) + ds_duplicate_events (q_summary q) + length xs
   \<and> ds_total_events (q_summary (foldl (ingest_event jp cfg seeds) q xs)) = ds_total_events (q_summary q)
   \<and> length (q_entries (foldl (ingest_event jp cfg seeds) q xs)) + ds_inserted (q_summary q)
     = length (q_entries q) + ds_inserted (q_summary (foldl (ingest_event jp cfg seeds) q xs))"
proof (induction xs arbitrary: q)
  case (Cons x xs)
  show ?case using Cons.IH[of "ingest_event jp cfg seeds q x"] ingest_event_counts[of jp cfg seeds q x] by simp
qed simp

lemma ingest_counts:
  "ds_total_events (q_summary (ingest jp cfg seeds xs)) = length xs"
  "ds_inserted (q_summary (ingest jp cfg seeds xs))
     + ds_duplicate_events (q_summary (ingest jp cfg seeds xs)) = length xs"
  "length (q_entries (ingest jp cfg seeds xs)) = ds_inserted (q_summary (ingest jp cfg seeds xs))"
  using foldl_ingest_counts[of jp cfg seeds
    "(new_queue cfg)\<lparr>q_summary := (q_summary (new_queue cfg))\<lparr>ds_total_events := length xs\<rparr>\<rparr>" xs]
  by (simp_all only: ingest_def Let_def) (simp_all add: new_queue_def new_summary_def)

section \<open>The registry seeds the next run\<close>

lemma in_payload_keys:
  "k \<in> set ks \<Longrightarrow> py_strip k = k \<Longrightarrow> k \<noteq> [] \<Longrightarrow>
     k \<in> set (payload_keys (JObj [(''dedup_keys'', JList (map JStr ks))]))"
  by (force simp: payload_keys_def)

lemma newest_row_seeds:
  assumes "dc_scope cfg = Last_N_Hours" "rr_stream_id r = sid" "rr_stage r = ''dedup_registry''"
    and "now - (case dc_window_hours cfg of None \<Rightarrow> 24 | Some h \<Rightarrow> if h > 0 then h else 24) * 3600 \<le> rr_created_at r"
    and "\<forall>w \<in> set rows. rr_id w < rr_id r" "k \<in> set (payload_keys (rr_payload r))"
  shows "k \<in> set (load_dedup_seed_keys parse_iso now (Some (rows @ [r])) cpu sid cfg cp upd)"
proof -
  let ?P = "\<lambda>w. rr_stream_id w = sid \<and> rr_stage w = ''dedup_registry'' \<and>
     now - (case dc_window_hours cfg of None \<Rightarrow> 24 | Some h \<Rightarrow> if h > 0 then h else 24) * 3600 \<le> rr_created_at w"
  have since: "scope_since parse_iso now cfg cp upd =
      Some (now - (case dc_window_hours cfg of None \<Rightarrow> 24 | Some h \<Rightarrow> if h > 0 then h else 24) * 3600)"
    using assms(1) by (simp add: scope_since_def Let_def split: option.split)
  have hits: "filter ?P (rows @ [r]) = filter ?P rows @ [r]" using assms(2-4) by simp
  define t where "t = sort_key rr_id (filter ?P (rows @ [r]))"
  have t: "r \<in> set t" "set t \<subseteq> insert r (set rows)" "sorted (map rr_id t)"
    unfolding t_def hits by auto
  then have ne: "t \<noteq> []" by auto
  have "last t = r"
  proof (rule ccontr)
    assume "last t \<noteq> r"
    with last_in_set[OF ne] t(2) assms(5) have "rr_id (last t) < rr_id r" by auto
    with sorted_map_last_ge[OF t(3,1)] show False by simp
  qed
  with ne have "hd (rev t) = r" "rev t \<noteq> []" by (simp_all add: hd_rev)
  then have "r \<in> set (take 500 (rev t))" by (cases "rev t") auto
  moreover have "load_dedup_seed_keys parse_iso now (Some (rows @ [r])) cpu sid cfg cp upd
      = concat (map (\<lambda>r. payload_keys (rr_payload r)) (take 500 (rev t)))"
    using assms(1) unfolding load_dedup_seed_keys_def since t_def by (simp del: filter_append)
  ultimately show ?thesis using assms(6) by auto
qed

section \<open>Properties\<close>

text \<open>C2: With deduplication enabled, the batch that enters the pipeline is exactly the
  specification: the first occurrence of every key that the registry does not hold (with
  \<open>keep_latest\<close> the last item of that key, in the same place), in arrival order, items
  without a key untouched, each kept item carrying its key and its queue position.\<close>

theorem dedup_queue_spec:
  assumes "dc_enabled (parse_dedup_config sc)" "evs \<noteq> []"
  shows "fst (apply_stream_dedup jp parse_iso now db cpu evs sc sid cp True) =
     tag_from (item_key jp (parse_dedup_config sc)) 1
       (dedup_spec jp (parse_dedup_config sc)
         (load_dedup_seed_keys parse_iso now db cpu sid (parse_dedup_config sc) cp None)
         (filter is_obj evs))"
  using assms by (simp add: apply_stream_dedup_def Let_def ingest_spec)

definition sample_stream_config :: "string \<Rightarrow> event option" where
  "sample_stream_config h =
     Some [(''deduplication'', JObj [(''enabled'', JBool True), (''scope'', JStr ''last_n_hours''),
                                     (''duplicate_handling'', JStr h)])]"

lemma sample_stream_config_enabled: "dc_enabled (parse_dedup_config (sample_stream_config h))"
  by (simp add: sample_stream_config_def parse_dedup_config_def Let_def)

definition sample_batch :: "json list" where
  "sample_batch = [JObj [(''event_id'', JStr ''a''), (''n'', JInt 1)], JObj [(''n'', JInt 2)],
                   JObj [(''event_id'', JStr '' a ''), (''n'', JInt 3)]]"

theorem dedup_queue_spec_witness:
  "fst (apply_stream_dedup (\<lambda>_ _. None) (\<lambda>_. None) 0 None None sample_batch
          (sample_stream_config ''keep_latest'') 1 None True) =
     [JObj [(''event_id'', JStr '' a ''), (''n'', JInt 3), (''__gdc_dedup_key'', JStr ''a''),
            (''__gdc_dedup_queue_id'', JInt 1)],
      JObj [(''n'', JInt 2)]]"
proof -
  have "sample_batch \<noteq> []" by (simp add: sample_batch_def)
  note t = dedup_queue_spec[OF sample_stream_config_enabled[of "''keep_latest''"] this,
      of "\<lambda>_ _. None" "\<lambda>_. None" 0 None None 1 None]
  show ?thesis unfolding t by code_simp
qed

text \<open>C1: Exactly once: the keys carried by the batch that leaves the queue, which are the
  keys the registry records on delivery, are pairwise distinct and are exactly the keys of
  the fetched events that the registry does not hold yet. No new key is lost and none is
  delivered twice.\<close>

theorem dedup_exactly_once:
  assumes "dc_enabled (parse_dedup_config sc)" "evs \<noteq> []"
    and "\<forall>x \<in> set evs. is_obj x \<longrightarrow> unmarked x"
  shows "let cfg = parse_dedup_config sc;
      seeds = load_dedup_seed_keys parse_iso now db cpu sid cfg cp None;
      keys = map fst (extract_delivered_dedup_entries
        (fst (apply_stream_dedup jp parse_iso now db cpu evs sc sid cp True)))
    in distinct keys \<and>
       set keys = {k. \<exists>x \<in> set evs. is_obj x \<and> item_key jp cfg x = Some k} - set seeds"
proof -
  define cfg where "cfg = parse_dedup_config sc"
  define seeds where "seeds = load_dedup_seed_keys parse_iso now db cpu sid cfg cp None"
  let ?items = "filter is_obj evs" let ?key = "item_key jp cfg"
  let ?out = "fst (apply_stream_dedup jp parse_iso now db cpu evs sc sid cp True)"
  have "fst (apply_stream_dedup jp parse_iso now db cpu evs sc sid cp True)
      = tag_from ?key 1 (dedup_spec jp cfg seeds ?items)"
    using assms(1,2) by (simp add: apply_stream_dedup_def Let_def ingest_spec cfg_def seeds_def)
  moreover have "unmarked x" if "x \<in> set (dedup_spec jp cfg seeds ?items)" for x
    using that set_dedup_spec[of jp cfg seeds ?items] assms(3) by auto
  ultimately have "map fst (extract_delivered_dedup_entries ?out) = List.map_filter ?key (first_occurrences ?key (set seeds) ?items)"
    by (simp add: delivered_tag_from item_key_stripped dedup_spec_keys)
  then show ?thesis
    unfolding Let_def cfg_def[symmetric] seeds_def[symmetric] using first_occurrences_keys[of "set seeds" ?key ?items]
    by (auto simp: set_map_filter_first)
qed

theorem dedup_exactly_once_witness:
  "set (map fst (extract_delivered_dedup_entries
      (fst (apply_stream_dedup (\<lambda>_ _. None) (\<lambda>_. None) 0 None None sample_batch
          (sample_stream_config ''skip_duplicate'') 1 None True)))) = {''a''}"
proof -
  have "sample_batch \<noteq> []" "\<forall>x \<in> set sample_batch. is_obj x \<longrightarrow> unmarked x"
    by (simp_all add: sample_batch_def unmarked_def GDC_DEDUP_KEY_META_def)
  note t = dedup_exactly_once[OF sample_stream_config_enabled[of "''skip_duplicate''"] this,
      of "\<lambda>_. None" 0 None None 1 None "\<lambda>_ _. None"]
  have "item_key (\<lambda>_ _. None) (parse_dedup_config (sample_stream_config ''skip_duplicate'')) x
      = (if x = sample_batch ! 1 then None else Some ''a'')" if "x \<in> set sample_batch" for x
    using that by (simp add: sample_batch_def) (elim disjE; simp; code_simp)
  moreover have "load_dedup_seed_keys (\<lambda>_. None) 0 None None 1
      (parse_dedup_config (sample_stream_config ''skip_duplicate'')) None None = []"
    by (simp add: load_dedup_seed_keys_def)
  ultimately show ?thesis using t unfolding Let_def by (auto simp: sample_batch_def)
qed

text \<open>Every event of the batch is counted once, as inserted or as a duplicate, and the
  batch that leaves the queue has exactly the inserted ones.\<close>

theorem dedup_accounting:
  assumes "apply_stream_dedup jp parse_iso now db cpu evs sc sid cp b = (out, Some s)"
  shows "ds_total_events s = length (filter is_obj evs) \<and>
    ds_inserted s + ds_duplicate_events s = ds_total_events s \<and> length out = ds_inserted s"
  using assms ingest_counts by (auto simp: apply_stream_dedup_def Let_def split: if_splits)

theorem dedup_accounting_witness:
  "ds_duplicate_events (the (snd (apply_stream_dedup (\<lambda>_ _. None) (\<lambda>_. None) 0 None None sample_batch
      (sample_stream_config ''keep_first'') 1 None True))) = 1"
proof -
  obtain out s where r: "apply_stream_dedup (\<lambda>_ _. None) (\<lambda>_. None) 0 None None sample_batch
      (sample_stream_config ''keep_first'') 1 None True = (out, Some s)"
    using sample_stream_config_enabled[of "''keep_first''"]
    by (simp add: apply_stream_dedup_def Let_def sample_batch_def)
  have "length (fst (apply_stream_dedup (\<lambda>_ _. None) (\<lambda>_. None) 0 None None sample_batch
      (sample_stream_config ''keep_first'') 1 None True)) = 2" by code_simp
  then have "length out = 2" by (simp add: r)
  with dedup_accounting[OF r] have "ds_duplicate_events s = 1" by (simp add: sample_batch_def)
  with r show ?thesis by simp
qed

text \<open>What the registry records after one route's delivery is what the next run reads
  back: a later batch whose keys were all registered inside the window enters the pipeline
  empty, whichever route the delivery was for.\<close>

theorem registered_batch_is_dropped:
  assumes "dc_enabled (parse_dedup_config sc)" "dc_scope (parse_dedup_config sc) = Last_N_Hours"
    and "snd (record_dedup_registry_for_route_success route_events s) = Some ks"
    and "rr_payload r = JObj [(''dedup_keys'', JList (map JStr ks))]"
    and "rr_stream_id r = sid" "rr_stage r = ''dedup_registry''" "now \<le> rr_created_at r"
    and "\<forall>w \<in> set rows. rr_id w < rr_id r"
    and "evs \<noteq> []" "\<forall>x \<in> set evs. \<exists>k \<in> set ks. item_key jp (parse_dedup_config sc) x = Some k"
  shows "fst (apply_stream_dedup jp parse_iso now (Some (rows @ [r])) cpu evs sc sid cp True) = []"
proof -
  let ?cfg = "parse_dedup_config sc"
  let ?seeds = "load_dedup_seed_keys parse_iso now (Some (rows @ [r])) cpu sid ?cfg cp None"
  have window: "now - (case dc_window_hours ?cfg of None \<Rightarrow> 24 | Some h \<Rightarrow> if h > 0 then h else 24) * 3600
      \<le> rr_created_at r"
    using assms(7) by (auto split: option.splits)
  have "\<exists>k \<in> set ?seeds. item_key jp ?cfg x = Some k" if "x \<in> set evs" for x
  proof -
    from assms(10) that obtain k where k: "k \<in> set ks" "item_key jp ?cfg x = Some k" by blast
    then have "k \<in> set (payload_keys (rr_payload r))"
      using item_key_stripped[OF k(2)] by (simp add: assms(4) in_payload_keys)
    with k show ?thesis
      using newest_row_seeds[OF assms(2,5,6) window assms(8), of k parse_iso cpu cp None] by blast
  qed
  then have "first_occurrences (item_key jp ?cfg) (set ?seeds) (filter is_obj evs) = []"
    by (intro first_occurrences_all_seen) auto
  with assms(1,9) show ?thesis
    by (simp add: apply_stream_dedup_def Let_def ingest_spec dedup_spec_def)
qed

definition sample_registry_row :: registry_row where
  "sample_registry_row = \<lparr>rr_id = 7, rr_stream_id = 1, rr_stage = ''dedup_registry'',
     rr_created_at = 10, rr_payload = JObj [(''dedup_keys'', JList (map JStr [''a'']))]\<rparr>"

theorem registered_batch_is_dropped_witness:
  "fst (apply_stream_dedup (\<lambda>_ _. None) (\<lambda>_. None) 5 (Some ([] @ [sample_registry_row])) None
      [JObj [(''event_id'', JStr ''a'')]] (sample_stream_config ''skip_duplicate'') 1 None True) = []"
proof (rule registered_batch_is_dropped[where ks = "[''a'']" and s = "new_summary default_dedup_config"
        and route_events = "[JObj [(''__gdc_dedup_key'', JStr ''a'')]]", OF sample_stream_config_enabled])
  show "dc_scope (parse_dedup_config (sample_stream_config ''skip_duplicate'')) = Last_N_Hours"
    by (simp add: sample_stream_config_def parse_dedup_config_def Let_def get_str_or_def)
  show "snd (record_dedup_registry_for_route_success [JObj [(''__gdc_dedup_key'', JStr ''a'')]]
      (new_summary default_dedup_config)) = Some [''a'']"
    by code_simp
  show "\<forall>x \<in> set [JObj [(''event_id'', JStr ''a'')]]. \<exists>k \<in> set [''a''].
      item_key (\<lambda>_ _. None) (parse_dedup_config (sample_stream_config ''skip_duplicate'')) x = Some k"
    by (simp, code_simp)
qed (simp_all add: sample_registry_row_def)

end
