(* ===== verification/Classification.thy ===== *)
theory Classification
  imports Json_Values
begin

text \<open>
  \<open>app/classification\<close> (levels, field keys, engine) and \<open>app/route_classification\<close>
  (resolver and stage): the sensitivity level of a batch from the findings and rules, the
  governance floor of a route, and the level written into and read from events. A set of
  finding classes is a list here; every use is membership or a maximum.
\<close>

section \<open>Levels\<close>

datatype level = PUBLIC | INTERNAL | CONFIDENTIAL | RESTRICTED

fun level_str :: "level \<Rightarrow> string" where
  "level_str PUBLIC = ''PUBLIC''"
| "level_str INTERNAL = ''INTERNAL''"
| "level_str CONFIDENTIAL = ''CONFIDENTIAL''"
| "level_str RESTRICTED = ''RESTRICTED''"

fun level_rank :: "level \<Rightarrow> int" where
  "level_rank PUBLIC = 0"
| "level_rank INTERNAL = 1"
| "level_rank CONFIDENTIAL = 2"
| "level_rank RESTRICTED = 3"

text \<open>Levels are ordered by rank, so the order lemmas of the library apply to them.\<close>

instantiation level :: linorder
begin

definition less_eq_level :: "level \<Rightarrow> level \<Rightarrow> bool" where
  "less_eq_level a b \<longleftrightarrow> level_rank a \<le> level_rank b"

definition less_level :: "level \<Rightarrow> level \<Rightarrow> bool" where
  "less_level a b \<longleftrightarrow> level_rank a < level_rank b"

instance
proof
  fix x y z :: level
  show "x < y \<longleftrightarrow> x \<le> y \<and> \<not> y \<le> x" by (auto simp: less_eq_level_def less_level_def)
  show "x \<le> x" by (simp add: less_eq_level_def)
  show "x \<le> y \<Longrightarrow> y \<le> z \<Longrightarrow> x \<le> z" by (simp add: less_eq_level_def)
  show "x \<le> y \<Longrightarrow> y \<le> x \<Longrightarrow> x = y" by (cases x; cases y; simp add: less_eq_level_def)
  show "x \<le> y \<or> y \<le> x" by (auto simp: less_eq_level_def)
qed

end

definition normalize_level :: "string \<Rightarrow> level option" where
  "normalize_level s =
     (let raw = py_upper (py_strip s)
      in if raw = ''PUBLIC'' then Some PUBLIC
         else if raw = ''INTERNAL'' then Some INTERNAL
         else if raw = ''CONFIDENTIAL'' then Some CONFIDENTIAL
         else if raw = ''RESTRICTED'' then Some RESTRICTED
         else None)"

fun max_level_loop :: "level \<Rightarrow> int \<Rightarrow> string list \<Rightarrow> level" where
  "max_level_loop best best_rank [] = best"
| "max_level_loop best best_rank (l # ls) =
     (case normalize_level l of
        None \<Rightarrow> max_level_loop best best_rank ls
      | Some n \<Rightarrow>
          if level_rank n > best_rank then max_level_loop n (level_rank n) ls
          else max_level_loop best best_rank ls)"

definition max_level :: "string list \<Rightarrow> level" where
  "max_level levels = (if levels = [] then INTERNAL else max_level_loop PUBLIC (- 1) levels)"

definition default_sensitivity_classification :: "string \<Rightarrow> level option" where
  "default_sensitivity_classification c =
     (if c = ''secret'' then Some RESTRICTED
      else if c = ''pii'' then Some CONFIDENTIAL
      else if c = ''security_metadata'' then Some INTERNAL
      else None)"

definition default_level_from_findings :: "string list \<Rightarrow> level" where
  "default_level_from_findings classes =
     (if classes = [] then INTERNAL
      else
        (let mapped = List.map_filter default_sensitivity_classification classes
         in if mapped = [] then INTERNAL else max_level (map level_str mapped)))"

section \<open>Event fields\<close>

definition read_classification_level :: "event \<Rightarrow> string option" where
  "read_classification_level ev =
     (let raw = (case dict_get ev ''classification_level_gdc'' of None \<Rightarrow> JNull | Some v \<Rightarrow> v);
          raw' = (if raw = JNull
                  then (case dict_get ev ''classification_level'' of None \<Rightarrow> JNull | Some v \<Rightarrow> v)
                  else raw)
      in if raw' = JNull then None else Some (py_str raw'))"

definition stamp_classification_level :: "level \<Rightarrow> event \<Rightarrow> event" where
  "stamp_classification_level l ev =
     (if dict_has ev ''classification_level''
      then dict_set ''classification_level_gdc'' (JStr (level_str l)) ev
      else dict_set ''classification_level'' (JStr (level_str l)) ev)"

definition stamp_events :: "level \<Rightarrow> json list \<Rightarrow> json list" where
  "stamp_events l evs =
     map (\<lambda>e. case e of JObj kvs \<Rightarrow> JObj (stamp_classification_level l kvs) | _ \<Rightarrow> e) evs"

section \<open>Engine\<close>

record class_rule =
  cr_name :: string
  cr_condition :: json
  cr_level :: string
  cr_enabled :: bool
  cr_id :: "int option"

definition finding_class :: "json \<Rightarrow> string option" where
  "finding_class f =
     (case f of
        JObj kvs \<Rightarrow> (case dict_get kvs ''sensitivity_class'' of
                       None \<Rightarrow> None | Some JNull \<Rightarrow> None | Some v \<Rightarrow> Some (py_str v))
      | _ \<Rightarrow> None)"

definition finding_classes :: "json list \<Rightarrow> string list" where
  "finding_classes findings = List.map_filter finding_class findings"

definition supported_rule_condition_classes :: "string list" where
  "supported_rule_condition_classes = [''secret'', ''pii'', ''security_metadata'']"

definition rule_condition_matches :: "json \<Rightarrow> string list \<Rightarrow> bool" where
  "rule_condition_matches cond classes =
     (case cond of
        JObj kvs \<Rightarrow>
          (case dict_get kvs ''sensitivity_class'' of
             None \<Rightarrow> False
           | Some JNull \<Rightarrow> False
           | Some v \<Rightarrow> py_str v \<in> set supported_rule_condition_classes \<and> py_str v \<in> set classes)
      | _ \<Rightarrow> False)"

definition matched_levels :: "string list \<Rightarrow> class_rule list \<Rightarrow> level list" where
  "matched_levels classes rules =
     List.map_filter (\<lambda>r. if rule_condition_matches (cr_condition r) classes
                          then normalize_level (cr_level r) else None)
       (filter cr_enabled rules)"

definition resolve_classification_level :: "string list \<Rightarrow> class_rule list \<Rightarrow> level \<times> nat" where
  "resolve_classification_level classes rules =
     (let ms = matched_levels classes rules
      in if ms \<noteq> [] then (max_level (map level_str ms), length ms)
         else (default_level_from_findings classes, 0))"

record class_result =
  cb_level :: level
  cb_matched :: nat
  cb_classified :: nat

text \<open>\<open>classify_batch\<close> stamps the events in place: the stamped events are returned.\<close>

definition classify_batch :: "json list \<Rightarrow> class_rule list \<Rightarrow> json list \<Rightarrow> json list \<times> class_result" where
  "classify_batch evs rules findings =
     (if evs = [] then ([], \<lparr>cb_level = INTERNAL, cb_matched = 0, cb_classified = 0\<rparr>)
      else
        (let (level, n) = resolve_classification_level (finding_classes findings) rules
         in (stamp_events level evs,
             \<lparr>cb_level = level, cb_matched = n, cb_classified = length (filter is_obj evs)\<rparr>)))"

definition classification_levels_from_events :: "json list \<Rightarrow> level list" where
  "classification_levels_from_events evs =
     List.map_filter (\<lambda>e. case e of
        JObj kvs \<Rightarrow> (case read_classification_level kvs of None \<Rightarrow> None | Some s \<Rightarrow> normalize_level s)
      | _ \<Rightarrow> None) evs"

section \<open>Route resolver and stage\<close>

text \<open>A governance route override; \<open>None\<close> is an absent key or \<open>None\<close>.\<close>

record route_override =
  ov_route_id :: "int option"
  ov_enabled :: "bool option"
  ov_field_path :: "string option"
  ov_protection_action :: "string option"
  ov_sensitivity_class :: "string option"
  ov_classification_level :: "string option"
  ov_delivery_behavior :: "string option"

definition override_for :: "int \<Rightarrow> route_override \<Rightarrow> bool" where
  "override_for route_id ov \<longleftrightarrow> (case ov_route_id ov of None \<Rightarrow> -1 | Some i \<Rightarrow> i) = route_id"

definition override_on :: "route_override \<Rightarrow> bool" where
  "override_on ov \<longleftrightarrow> (case ov_enabled ov of None \<Rightarrow> True | Some b \<Rightarrow> b)"

datatype persisted_source = From_Route | From_Stream | From_Empty

record class_config =
  cc_rules :: "class_rule list"
  cc_override_levels :: "level list"
  cc_source :: persisted_source
  cc_override_count :: nat
  cc_fallback_used :: bool

definition extract_override_levels :: "int \<Rightarrow> route_override list \<Rightarrow> level list" where
  "extract_override_levels route_id ovs =
     List.map_filter (\<lambda>ov. if override_for route_id ov \<and> override_on ov
                           then (case ov_classification_level ov of
                                   None \<Rightarrow> None | Some s \<Rightarrow> normalize_level s)
                           else None) ovs"

definition resolve_route_classification_config ::
    "int \<Rightarrow> class_rule list \<Rightarrow> class_rule list \<Rightarrow> route_override list \<Rightarrow> class_config" where
  "resolve_route_classification_config route_id route_rows stream_rows ovs =
     (let route_rules = filter cr_enabled route_rows;
          stream_rules = filter cr_enabled stream_rows;
          (persisted, src) =
            (if route_rules \<noteq> [] then (route_rules, From_Route)
             else if stream_rules \<noteq> [] then (stream_rules, From_Stream)
             else ([], From_Empty));
          levels = extract_override_levels route_id ovs
      in \<lparr>cc_rules = persisted, cc_override_levels = levels, cc_source = src,
          cc_override_count = length levels, cc_fallback_used = (src = From_Stream)\<rparr>)"

record route_class_result =
  rcr_level :: level
  rcr_matched :: nat
  rcr_source :: persisted_source
  rcr_override_applied :: bool

text \<open>The stage on the events of a route; \<open>enabled\<close> is \<open>classification_enabled()\<close>, and
  \<open>findings\<close> the findings of the shared batch, none without a detection context.\<close>

definition route_classification_stage ::
    "bool \<Rightarrow> class_config \<Rightarrow> json list option \<Rightarrow> json list \<Rightarrow> json list \<times> route_class_result option" where
  "route_classification_stage enabled config ctx_findings input_events =
     (if \<not> enabled then (input_events, None)
      else
        (let findings = (case ctx_findings of None \<Rightarrow> [] | Some fs \<Rightarrow> fs);
             (evs1, res) = classify_batch input_events (cc_rules config) findings;
             (evs2, level, applied) =
               (if cc_override_levels config \<noteq> [] then
                  (let eff = max_level (level_str (cb_level res) # map level_str (cc_override_levels config));
                       changed = eff \<noteq> cb_level res
                   in (if changed then stamp_events eff evs1 else evs1, eff, changed))
                else (evs1, cb_level res, False))
         in (evs2, Some \<lparr>rcr_level = level, rcr_matched = cb_matched res,
                         rcr_source = cc_source config, rcr_override_applied = applied\<rparr>)))"

section \<open>Levels form a ranked choice\<close>

lemma normalize_level_str [simp]: "normalize_level (level_str l) = Some l"
  by (cases l) (simp_all add: normalize_level_def py_upper_def py_strip_def py_lstrip_def py_isspace_def
      py_upper_char_def Let_def)

lemma level_rank_inj: "level_rank a = level_rank b \<Longrightarrow> a = b"
  by (cases a; cases b; simp)

lemma level_rank_nonneg [simp]: "0 \<le> level_rank l"
  by (cases l) simp_all

lemma max_level_loop_strongest:
  "max_level_loop b (level_rank b) (map level_str ls) = strongest_from level_rank b ls"
  by (induction ls arbitrary: b) auto

definition strongest_level :: "level list \<Rightarrow> level option" where
  "strongest_level ls = (if ls = [] then None else Some (max_level (map level_str ls)))"

lemma max_level_Cons: "max_level (level_str l # map level_str ls) = strongest_from level_rank l ls"
  using max_level_loop_strongest[of l ls] level_rank_nonneg[of l]
  by (simp add: max_level_def del: level_rank_nonneg)

interpretation level_choice: ranked_choice level_rank strongest_level
  by unfold_locales (simp_all add: strongest_level_def max_level_Cons)

lemma max_level_Max: "ls \<noteq> [] \<Longrightarrow> max_level (map level_str ls) = Max (set ls)"
proof -
  assume "ls \<noteq> []"
  then have s: "strongest_level ls = Some (max_level (map level_str ls))" by (simp add: strongest_level_def)
  show ?thesis
    using level_choice.pick_mem[OF s] level_choice.pick_ge[OF s]
    by (intro Max_eqI[symmetric]) (auto simp: less_eq_level_def)
qed

section \<open>Stamped levels read back\<close>

lemma read_stamp:
  "read_classification_level (stamp_classification_level l ev) =
     (if dict_has ev ''classification_level'' then Some (level_str l)
      else case dict_get ev ''classification_level_gdc'' of
             None \<Rightarrow> Some (level_str l)
           | Some JNull \<Rightarrow> Some (level_str l)
           | Some v \<Rightarrow> Some (py_str v))"
  by (auto simp: read_classification_level_def stamp_classification_level_def dict_simps Let_def
      split: option.splits json.splits)

text \<open>An event that carries no level of its own under the internal name.\<close>

definition unstamped :: "json \<Rightarrow> bool" where
  "unstamped e \<longleftrightarrow> (case e of JObj kvs \<Rightarrow>
      dict_has kvs ''classification_level'' \<or>
      dict_get kvs ''classification_level_gdc'' \<in> {None, Some JNull} | _ \<Rightarrow> True)"

lemma read_stamp_unstamped:
  "unstamped (JObj kvs) \<Longrightarrow> read_classification_level (stamp_classification_level l kvs) = Some (level_str l)"
  by (auto simp: unstamped_def read_stamp split: option.split json.split)

lemma stamp_twice_read:
  "unstamped (JObj kvs) \<Longrightarrow>
     read_classification_level (stamp_classification_level l' (stamp_classification_level l kvs)) = Some (level_str l')"
  by (auto simp: read_classification_level_def stamp_classification_level_def dict_simps Let_def
      split: option.split json.split)

lemma levels_of_stamped:
  "\<forall>e \<in> set evs. unstamped e \<Longrightarrow>
     set (classification_levels_from_events (stamp_events l evs)) = (if filter is_obj evs = [] then {} else {l})"
  by (induction evs)
    (auto simp: classification_levels_from_events_def stamp_events_def List.map_filter_simps
      read_stamp_unstamped split: json.splits option.splits)

lemma levels_of_restamped:
  "\<forall>e \<in> set evs. unstamped e \<Longrightarrow>
     set (classification_levels_from_events (stamp_events l' (stamp_events l evs)))
       = (if filter is_obj evs = [] then {} else {l'})"
  by (induction evs)
    (auto simp: classification_levels_from_events_def stamp_events_def List.map_filter_simps
      stamp_twice_read split: json.splits option.splits)

section \<open>Properties\<close>

text \<open>The governance floor: whatever the rules and findings say, the effective level of a
  route is the maximum of the engine's level and of every override level in force for that
  route; it is never below one of them.\<close>

theorem route_level_is_max:
  assumes "route_classification_stage True config fs evs = (out, Some res)"
  shows "rcr_level res = Max (insert (cb_level (snd (classify_batch evs (cc_rules config)
      (case fs of None \<Rightarrow> [] | Some f \<Rightarrow> f)))) (set (cc_override_levels config)))"
  using assms max_level_Max[of "cb_level (snd (classify_batch evs (cc_rules config)
      (case fs of None \<Rightarrow> [] | Some f \<Rightarrow> f))) # cc_override_levels config"]
  by (auto simp: route_classification_stage_def Let_def case_prod_beta split: if_splits)

definition sample_class_config :: class_config where
  "sample_class_config =
     resolve_route_classification_config 3
       [\<lparr>cr_name = ''r'', cr_condition = JObj [(''sensitivity_class'', JStr ''pii'')],
         cr_level = ''public'', cr_enabled = True, cr_id = None\<rparr>] []
       [\<lparr>ov_route_id = Some 3, ov_enabled = None, ov_field_path = None, ov_protection_action = None,
         ov_sensitivity_class = None, ov_classification_level = Some '' Confidential'', ov_delivery_behavior = None\<rparr>]"

theorem route_level_is_max_witness:
  "map_option rcr_level (snd (route_classification_stage True sample_class_config
     (Some [JObj [(''sensitivity_class'', JStr ''pii'')]]) [JObj []])) = Some CONFIDENTIAL"
proof -
  let ?fs = "[JObj [(''sensitivity_class'', JStr ''pii'')]]"
  obtain out res where r: "route_classification_stage True sample_class_config (Some ?fs) [JObj []] = (out, Some res)"
    by (simp add: route_classification_stage_def Let_def case_prod_beta)
  have "cb_level (snd (classify_batch [JObj []] (cc_rules sample_class_config) ?fs)) = PUBLIC"
    "cc_override_levels sample_class_config = [CONFIDENTIAL]"
    by code_simp+
  with route_level_is_max[OF r] have "rcr_level res = CONFIDENTIAL"
    by (simp add: less_eq_level_def max_def)
  with r show ?thesis by simp
qed

text \<open>What the classification stage decides is what the policy stage will read from its
  events: on events without a foreign internal level, the levels read back are exactly the
  effective level of the route, restamping included.\<close>

theorem policy_reads_route_level:
  assumes "route_classification_stage True config fs evs = (out, Some res)"
    and "\<forall>e \<in> set evs. unstamped e" "\<exists>e \<in> set evs. is_obj e"
  shows "set (classification_levels_from_events out) = {rcr_level res}"
  using assms levels_of_stamped levels_of_restamped
  by (auto simp: route_classification_stage_def classify_batch_def Let_def case_prod_beta
      filter_empty_conv split: if_splits)

theorem policy_reads_route_level_witness:
  "set (classification_levels_from_events (fst (route_classification_stage True sample_class_config None
      [JObj [(''classification_level'', JStr ''x'')]]))) = {CONFIDENTIAL}"
proof -
  let ?evs = "[JObj [(''classification_level'', JStr ''x'')]]"
  obtain out res where r: "route_classification_stage True sample_class_config None ?evs = (out, Some res)"
    by (simp add: route_classification_stage_def Let_def case_prod_beta)
  have "map_option rcr_level (snd (route_classification_stage True sample_class_config None ?evs)) = Some CONFIDENTIAL"
    by code_simp
  then have "rcr_level res = CONFIDENTIAL" unfolding r by simp
  moreover have "set (classification_levels_from_events out) = {rcr_level res}"
    by (rule policy_reads_route_level[OF r]) (simp_all add: unstamped_def)
  ultimately show ?thesis by (simp add: r)
qed

text \<open>An event that arrives with \<open>classification_level_gdc\<close> but without
  \<open>classification_level\<close> keeps the level it came with: whatever level is stamped, the value
  supplied by the source is the one read back.\<close>

theorem foreign_level_wins:
  assumes "dict_get ev ''classification_level'' = None" "dict_get ev ''classification_level_gdc'' = Some (JStr s)"
  shows "read_classification_level (stamp_classification_level l ev) = Some s"
  using assms by (simp add: read_stamp)

theorem foreign_level_wins_witness:
  "read_classification_level (stamp_classification_level RESTRICTED [(''classification_level_gdc'', JStr ''PUBLIC'')])
     = Some ''PUBLIC''"
  by (rule foreign_level_wins) simp_all

end
