(* ===== verification/Identity_Vault.thy ===== *)
theory Identity_Vault
  imports Json_Values
begin

text \<open>
  \<open>app/protection/identity_vault.py\<close>: the vault that maps a value, identified by a hash, to
  a stable token. The table is a list of rows with its two unique constraints, the
  PostgreSQL sequence a counter. SHA-256 is the parameter \<open>sha\<close>. Rows that other sessions
  commit between the lookup and the insert of one call are the parameter \<open>race\<close>, indexed
  by the sequence number the call has just drawn, so the retry loop is modelled with the
  conflicts that drive it.
\<close>

section \<open>State\<close>

record vault_entry =
  ve_stream :: int
  ve_path :: string
  ve_hash :: string
  ve_token :: string
  ve_created :: int
  ve_seen :: int

record vault =
  vault_rows :: "vault_entry list"
  vault_seq :: nat

type_synonym vault_key = "int \<times> string \<times> string"

abbreviation ve_key :: "vault_entry \<Rightarrow> vault_key" where
  "ve_key e \<equiv> (ve_stream e, ve_path e, ve_hash e)"

definition vault_find :: "vault \<Rightarrow> vault_key \<Rightarrow> vault_entry option" where
  "vault_find v k = List.find (\<lambda>e. ve_key e = k) (vault_rows v)"

text \<open>\<open>existing.last_seen_at = now\<close>\<close>

definition vault_touch :: "int \<Rightarrow> vault_key \<Rightarrow> vault \<Rightarrow> vault" where
  "vault_touch now k v =
     v\<lparr>vault_rows := map (\<lambda>e. if ve_key e = k then e\<lparr>ve_seen := now\<rparr> else e) (vault_rows v)\<rparr>"

text \<open>The insert, \<open>None\<close> where a unique constraint raises \<open>IntegrityError\<close>.\<close>

definition vault_insert :: "vault_entry \<Rightarrow> vault \<Rightarrow> vault option" where
  "vault_insert e v =
     (if list_ex (\<lambda>r. ve_key r = ve_key e \<or> ve_token r = ve_token e) (vault_rows v) then None
      else Some (v\<lparr>vault_rows := vault_rows v @ [e]\<rparr>))"

fun commit_others :: "vault_entry list \<Rightarrow> vault \<Rightarrow> vault" where
  "commit_others [] v = v"
| "commit_others (e # es) v =
     commit_others es (case vault_insert e v of None \<Rightarrow> v | Some v' \<Rightarrow> v')"

section \<open>Operations\<close>

definition vault_hash_salt :: "string \<Rightarrow> string \<Rightarrow> string" where
  "vault_hash_salt vault_salt protection_salt =
     (if py_strip vault_salt \<noteq> [] then py_strip vault_salt
      else if py_strip protection_salt \<noteq> [] then py_strip protection_salt
      else ''gdc-identity-vault-default-salt'')"

definition hash_original_value :: "(string \<Rightarrow> string) \<Rightarrow> string \<Rightarrow> int \<Rightarrow> string \<Rightarrow> string \<Rightarrow> string" where
  "hash_original_value sha salt stream_id field_path original_value =
     sha (salt @ int_str stream_id @ [CHR 0x0A] @ py_strip field_path @ [CHR 0x0A] @ py_strip original_value)"

definition format_token :: "nat \<Rightarrow> string" where
  "format_token n = ''USER_'' @ replicate (6 - length (nat_digits n)) (CHR ''0'') @ nat_digits n"

fun allocate_token ::
    "nat \<Rightarrow> int \<Rightarrow> (nat \<Rightarrow> vault_entry list) \<Rightarrow> vault_key \<Rightarrow> vault \<Rightarrow> (string + string) \<times> vault" where
  "allocate_token 0 now race k v = (Inl ''failed to allocate identity vault token'', v)"
| "allocate_token (Suc n) now race k v =
     (let seq = vault_seq v + 1;
          token = format_token seq;
          v1 = commit_others (race seq) (v\<lparr>vault_seq := seq\<rparr>);
          (sid, path, h) = k;
          row = \<lparr>ve_stream = sid, ve_path = path, ve_hash = h, ve_token = token,
                 ve_created = now, ve_seen = now\<rparr>
      in case vault_insert row v1 of
           Some v2 \<Rightarrow> (Inr token, v2)
         | None \<Rightarrow>
             (case vault_find v1 k of
                Some e \<Rightarrow> (Inr (ve_token e), vault_touch now k v1)
              | None \<Rightarrow> allocate_token n now race k v1))"

definition get_or_create_token ::
    "(string \<Rightarrow> string) \<Rightarrow> string \<Rightarrow> int \<Rightarrow> (nat \<Rightarrow> vault_entry list) \<Rightarrow> int \<Rightarrow> string \<Rightarrow> string \<Rightarrow> vault \<Rightarrow>
     (string + string) \<times> vault" where
  "get_or_create_token sha salt now race stream_id field_path original_value v =
     (let text_value = py_strip original_value; path = py_strip field_path
      in if text_value = [] then (Inl ''original_value must be non-empty for tokenization'', v)
         else if \<not> py_startswith path ''$'' then (Inl ''field_path must start with $'', v)
         else
           (let k = (stream_id, path, hash_original_value sha salt stream_id path text_value)
            in case vault_find v k of
                 Some e \<Rightarrow> (Inr (ve_token e), vault_touch now k v)
               | None \<Rightarrow> allocate_token 3 now race k v))"

record token_stats =
  ts_batch_items :: nat
  ts_cache_hits :: nat
  ts_created :: nat

type_synonym token_map = "(string \<times> string, string) dict"

text \<open>The first loop of the batch: valid items, each \<open>(path, value)\<close> once.\<close>

fun dedupe_items :: "(string \<times> string) list \<Rightarrow> (string \<times> string) list \<Rightarrow> (string \<times> string) list" where
  "dedupe_items acc [] = acc"
| "dedupe_items acc ((p, x) # items) =
     (let path = py_strip p; value = py_strip x
      in if \<not> py_startswith path ''$'' \<or> value = [] then dedupe_items acc items
         else if (path, value) \<in> set acc then dedupe_items acc items
         else dedupe_items (acc @ [(path, value)]) items)"

text \<open>The second: the rows known before the loop are reused, the others created. The result
  is \<open>Inl\<close> where \<open>get_or_create_token\<close> raises.\<close>

fun resolve_items ::
    "(string \<Rightarrow> string) \<Rightarrow> string \<Rightarrow> int \<Rightarrow> (nat \<Rightarrow> vault_entry list) \<Rightarrow> int \<Rightarrow> vault \<Rightarrow> (string \<times> string) list \<Rightarrow>
     token_map \<times> token_stats \<Rightarrow> vault \<Rightarrow> (string + token_map \<times> token_stats) \<times> vault" where
  "resolve_items sha salt now race sid v0 [] (tm, st) v = (Inr (tm, st), v)"
| "resolve_items sha salt now race sid v0 ((path, value) # items) (tm, st) v =
     (let k = (sid, path, hash_original_value sha salt sid path value)
      in case vault_find v0 k of
           Some e \<Rightarrow>
             resolve_items sha salt now race sid v0 items
               (dict_set (path, value) (ve_token e) tm, st\<lparr>ts_cache_hits := ts_cache_hits st + 1\<rparr>)
               (vault_touch now k v)
         | None \<Rightarrow>
             (case get_or_create_token sha salt now race sid path value v of
                (Inl e, v') \<Rightarrow> (Inl e, v')
              | (Inr t, v') \<Rightarrow>
                  resolve_items sha salt now race sid v0 items
                    (dict_set (path, value) t tm, st\<lparr>ts_created := ts_created st + 1\<rparr>) v'))"

definition get_or_create_tokens_batch ::
    "(string \<Rightarrow> string) \<Rightarrow> string \<Rightarrow> int \<Rightarrow> (nat \<Rightarrow> vault_entry list) \<Rightarrow> int \<Rightarrow> (string \<times> string) list \<Rightarrow> vault \<Rightarrow>
     (string + token_map \<times> token_stats) \<times> vault" where
  "get_or_create_tokens_batch sha salt now race sid items v =
     (let ded = dedupe_items [] items
      in resolve_items sha salt now race sid v ded
           ([], \<lparr>ts_batch_items = length ded, ts_cache_hits = 0, ts_created = 0\<rparr>) v)"

section \<open>The vault invariant\<close>

text \<open>No two rows share a key, no two rows share a token.\<close>

definition vault_ok :: "vault \<Rightarrow> bool" where
  "vault_ok v \<longleftrightarrow> distinct (map ve_key (vault_rows v)) \<and> distinct (map ve_token (vault_rows v))"

text \<open>The token the vault holds for a key.\<close>

definition token_of :: "vault \<Rightarrow> vault_key \<Rightarrow> string option" where
  "token_of v k = map_option ve_token (vault_find v k)"

text \<open>A later vault extends an earlier one when it keeps every token.\<close>

definition vault_extends :: "vault \<Rightarrow> vault \<Rightarrow> bool" where
  "vault_extends v v' \<longleftrightarrow> (\<forall>k t. token_of v k = Some t \<longrightarrow> token_of v' k = Some t)"

lemma vault_extends_refl [simp]: "vault_extends v v"
  by (simp add: vault_extends_def)

lemma vault_extends_trans: "vault_extends u v \<Longrightarrow> vault_extends v w \<Longrightarrow> vault_extends u w"
  by (simp add: vault_extends_def)

lemma touch_keys [simp]:
  "map ve_key (vault_rows (vault_touch now k v)) = map ve_key (vault_rows v)"
  "map ve_token (vault_rows (vault_touch now k v)) = map ve_token (vault_rows v)"
  by (simp_all add: vault_touch_def)

lemma touch_ok [simp]: "vault_ok (vault_touch now k v) = vault_ok v"
  by (simp add: vault_ok_def)

lemma find_map_same:
  "(\<And>x. P (f x) = P x) \<Longrightarrow> List.find P (map f xs) = map_option f (List.find P xs)"
  by (induction xs) auto

lemma token_of_touch [simp]: "token_of (vault_touch now k v) k' = token_of v k'"
proof -
  have "vault_find (vault_touch now k v) k'
      = map_option (\<lambda>e. if ve_key e = k then e\<lparr>ve_seen := now\<rparr> else e) (vault_find v k')"
    by (simp add: vault_find_def vault_touch_def find_map_same)
  then show ?thesis by (simp add: token_of_def option.map_comp comp_def if_distrib cong: if_cong)
qed

lemma token_of_seq [simp]: "token_of (v\<lparr>vault_seq := n\<rparr>) k = token_of v k"
  by (simp add: token_of_def vault_find_def)

lemma ok_seq [simp]: "vault_ok (v\<lparr>vault_seq := n\<rparr>) = vault_ok v"
  by (simp add: vault_ok_def)

lemma extends_touch [simp]: "vault_extends v (vault_touch now k v)"
  by (simp add: vault_extends_def)

lemma insert_ok:
  assumes "vault_insert e v = Some v'" "vault_ok v"
  shows "vault_ok v' \<and> vault_extends v v' \<and> token_of v' (ve_key e) = Some (ve_token e)"
proof -
  have fresh: "\<forall>r \<in> set (vault_rows v). ve_key r \<noteq> ve_key e \<and> ve_token r \<noteq> ve_token e"
    and v': "v' = v\<lparr>vault_rows := vault_rows v @ [e]\<rparr>"
    using assms(1) by (auto simp: vault_insert_def list_ex_iff split: if_splits)
  have "vault_ok v'" using assms(2) fresh v' by (force simp: vault_ok_def)
  moreover have "vault_extends v v'"
    by (auto simp: vault_extends_def token_of_def vault_find_def v' find_append split: option.splits)
  moreover have "List.find (\<lambda>r. ve_key r = ve_key e) (vault_rows v) = None"
    using fresh by (auto simp: find_None_iff)
  then have "token_of v' (ve_key e) = Some (ve_token e)"
    by (simp add: token_of_def vault_find_def v' find_append)
  ultimately show ?thesis by blast
qed

lemma commit_others_ok:
  "vault_ok v \<Longrightarrow> vault_ok (commit_others es v) \<and> vault_extends v (commit_others es v)"
proof (induction es v rule: commit_others.induct)
  case (2 e es v)
  show ?case
  proof (cases "vault_insert e v")
    case None
    with 2 show ?thesis by simp
  next
    case (Some v')
    with 2 insert_ok[OF Some] show ?thesis by (auto intro: vault_extends_trans)
  qed
qed simp

text \<open>Whatever the other sessions commit meanwhile, an allocation that returns a token
  returns the token the vault now holds for the key, and loses none.\<close>

lemma allocate_token_ok:
  "allocate_token n now race k v = (r, v') \<Longrightarrow> vault_ok v \<Longrightarrow>
     vault_ok v' \<and> vault_extends v v' \<and> (\<forall>t. r = Inr t \<longrightarrow> token_of v' k = Some t)"
proof (induction n now race k v rule: allocate_token.induct)
  case (2 n now race k v)
  obtain sid path h where k: "k = (sid, path, h)" by (cases k)
  let ?seq = "vault_seq v + 1"
  let ?v1 = "commit_others (race ?seq) (v\<lparr>vault_seq := ?seq\<rparr>)"
  let ?row = "\<lparr>ve_stream = sid, ve_path = path, ve_hash = h, ve_token = format_token ?seq,
                 ve_created = now, ve_seen = now\<rparr>"
  have v1: "vault_ok ?v1" "vault_extends v ?v1"
    using commit_others_ok[of "v\<lparr>vault_seq := ?seq\<rparr>" "race ?seq"] 2(3)
    by (auto simp: vault_extends_def)
  show ?case
  proof (cases "vault_insert ?row ?v1")
    case (Some v2)
    with insert_ok[OF Some v1(1)] v1 2(2) k show ?thesis
      by (auto simp: Let_def intro: vault_extends_trans)
  next
    case None
    show ?thesis
    proof (cases "vault_find ?v1 k")
      case (Some e)
      then have "token_of ?v1 k = Some (ve_token e)" by (simp add: token_of_def)
      with Some None v1 2(2) k show ?thesis by (auto simp: Let_def vault_extends_def)
    next
      case none: None
      from 2(1)[OF refl refl refl refl k[symmetric] refl refl None none]
      have "allocate_token n now race k ?v1 = (r, v') \<Longrightarrow> vault_ok ?v1 \<Longrightarrow>
        vault_ok v' \<and> vault_extends ?v1 v' \<and> (\<forall>t. r = Inr t \<longrightarrow> token_of v' k = Some t)"
        by simp
      with none None 2(2) k v1 show ?thesis by (auto simp: Let_def intro: vault_extends_trans)
    qed
  qed
qed auto

lemma get_or_create_token_ok:
  assumes "get_or_create_token sha salt now race sid path x v = (r, v')" "vault_ok v"
  shows "vault_ok v' \<and> vault_extends v v' \<and>
    (\<forall>t. r = Inr t \<longrightarrow>
       token_of v' (sid, py_strip path, hash_original_value sha salt sid (py_strip path) (py_strip x)) = Some t)"
  using assms allocate_token_ok
  by (auto simp: get_or_create_token_def Let_def token_of_def[of v] split: if_splits option.splits)

lemma token_key_unique:
  assumes "vault_ok v" "token_of v k = Some t" "token_of v k' = Some t"
  shows "k = k'"
proof -
  obtain e e' where "vault_find v k = Some e" "ve_token e = t" "vault_find v k' = Some e'" "ve_token e' = t"
    using assms(2,3) by (auto simp: token_of_def)
  then have "e \<in> set (vault_rows v)" "ve_key e = k" "e' \<in> set (vault_rows v)" "ve_key e' = k'" "ve_token e = ve_token e'"
    by (auto simp: vault_find_def dest: find_Some_mem)
  with assms(1) show ?thesis by (auto simp: vault_ok_def distinct_map inj_on_def)
qed

lemma resolve_items_ok:
  "resolve_items sha salt now race sid v0 items (tm, st) v = (r, v') \<Longrightarrow> vault_ok v \<Longrightarrow> vault_extends v0 v \<Longrightarrow>
     vault_ok v' \<and> vault_extends v v'"
proof (induction items arbitrary: tm st v)
  case (Cons item items)
  obtain path x where item: "item = (path, x)" by (cases item)
  let ?k = "(sid, path, hash_original_value sha salt sid path x)"
  show ?case
  proof (cases "vault_find v0 ?k")
    case (Some e)
    with Cons item show ?thesis by (auto simp: Let_def vault_extends_def)
  next
    case None
    obtain r1 v1 where g: "get_or_create_token sha salt now race sid path x v = (r1, v1)" by force
    from get_or_create_token_ok[OF g Cons.prems(2)] have ok: "vault_ok v1" "vault_extends v v1" by auto
    show ?thesis
    proof (cases r1)
      case (Inl e) with None g ok Cons.prems item show ?thesis by (auto simp: Let_def)
    next
      case (Inr t)
      with None g Cons.prems item
      have "resolve_items sha salt now race sid v0 items
          (dict_set (path, x) t tm, st\<lparr>ts_created := ts_created st + 1\<rparr>) v1 = (r, v')"
        by (simp add: Let_def)
      from Cons.IH[OF this ok(1)] ok(2) Cons.prems(3) show ?thesis
        by (blast intro: vault_extends_trans)
    qed
  qed
qed simp

section \<open>Properties\<close>


definition empty_vault :: vault where
  "empty_vault = \<lparr>vault_rows = [], vault_seq = 0\<rparr>"

definition rival_row :: vault_entry where
  "rival_row = \<lparr>ve_stream = 1, ve_path = ''$.u'', ve_hash = ''s'' @ ''1'' @ [CHR 0x0A] @ ''$.u'' @ [CHR 0x0A] @ ''bob'',
     ve_token = ''USER_000009'', ve_created = 0, ve_seen = 0\<rparr>"

lemma empty_vault_ok: "vault_ok empty_vault"
  by (simp add: vault_ok_def empty_vault_def)

lemma get_or_create_rival:
  "get_or_create_token id ''s'' 0 (\<lambda>n. if n = 1 then [rival_row] else []) 1 ''$.u'' ''bob'' empty_vault
     = (Inr ''USER_000009'', \<lparr>vault_rows = [rival_row], vault_seq = 1\<rparr>)"
  by code_simp


text \<open>Tokenization loses nothing: a batch lookup keeps both unique constraints of the vault
  and every token already handed out, on every path including the failing ones.\<close>

theorem token_batch_preserves_vault:
  assumes "vault_ok v" "get_or_create_tokens_batch sha salt now race sid items v = (r, v')"
  shows "vault_ok v' \<and> vault_extends v v'"
  using assms(2) resolve_items_ok[OF _ assms(1) vault_extends_refl]
  by (auto simp: get_or_create_tokens_batch_def Let_def)

theorem token_batch_preserves_vault_witness:
  "vault_ok (snd (get_or_create_tokens_batch id ''s'' 0 (\<lambda>n. if n = 1 then [rival_row] else []) 1
     [(''$.u'', ''bob''), (''$.u'', ''eve'')] empty_vault))"
  using token_batch_preserves_vault[OF empty_vault_ok, of id "''s''" 0 "\<lambda>n. if n = 1 then [rival_row] else []" 1
    "[(''$.u'', ''bob''), (''$.u'', ''eve'')]"]
  by (metis prod.collapse)

end
