(* ===== verification/Protection_Engine.thy ===== *)
theory Protection_Engine
  imports Identity_Vault
begin

text \<open>
  \<open>app/protection/engine.py\<close>, \<open>modes.py\<close>, \<open>field_drop.py\<close> and \<open>ephemeral.py\<close>: field paths,
  the traversals that collect, drop and mask the values at a path, the masking modes, one
  rule on one event, and the batch. The source mutates events in place and stops a rule
  at the first exception, leaving the leaves already masked; the traversal returns the
  event as it then stands together with the exception. HMAC-SHA256 is the parameter
  \<open>pe_hmac\<close> of the environment; durations are not modelled.
\<close>

section \<open>Field paths\<close>

definition flush :: "string \<Rightarrow> string list" where
  "flush buf = (if buf = [] then [] else [buf])"

fun split_segments :: "string \<Rightarrow> string \<Rightarrow> string list" where
  "split_segments buf [] = flush buf"
| "split_segments buf [c] =
     (if c = CHR ''.'' then flush buf else split_segments (buf @ [c]) [])"
| "split_segments buf (c # d # cs) =
     (if c = CHR ''['' \<and> d = CHR '']'' then
        flush buf @ [''[]''] @
        (case cs of
           [] \<Rightarrow> split_segments [] []
         | e # es \<Rightarrow> if e = CHR ''.'' then split_segments [] es else split_segments [] (e # es))
      else if c = CHR ''.'' then flush buf @ split_segments [] (d # cs)
      else split_segments (buf @ [c]) (d # cs))"

definition parse_field_path_segments :: "string \<Rightarrow> string list" where
  "parse_field_path_segments field_path =
     (if field_path = ''$'' then []
      else if py_startswith field_path ''$.'' then split_segments [] (drop 2 field_path)
      else if py_startswith field_path ''$''
        then split_segments [] (dropWhile (\<lambda>c. c = CHR ''.'') (drop 1 field_path))
      else split_segments [] field_path)"

section \<open>Traversals\<close>

fun collect_at_segments :: "string list \<Rightarrow> json \<Rightarrow> json list" where
  "collect_at_segments [] node = []"
| "collect_at_segments (seg # rest) node =
     (if seg = ''[]'' then
        (case node of JList items \<Rightarrow> concat (map (\<lambda>x. collect_at_segments rest x) items) | _ \<Rightarrow> [])
      else
        (case node of
           JObj kvs \<Rightarrow>
             (case dict_get kvs seg of
                None \<Rightarrow> []
              | Some child \<Rightarrow>
                  (case rest of
                     [] \<Rightarrow> [child]
                   | nxt # rest' \<Rightarrow>
                       if nxt = ''[]'' then
                         (case child of
                            JList items \<Rightarrow> concat (map (\<lambda>x. collect_at_segments rest' x) items)
                          | _ \<Rightarrow> [])
                       else if is_obj child then collect_at_segments rest child else []))
         | _ \<Rightarrow> []))"

fun drop_at_segments :: "string list \<Rightarrow> json \<Rightarrow> json \<times> nat" where
  "drop_at_segments [] node = (node, 0)"
| "drop_at_segments (seg # rest) node =
     (if seg = ''[]'' then
        (case node of
           JList items \<Rightarrow>
             (let rs = map (\<lambda>x. drop_at_segments rest x) items
              in (JList (map fst rs), sum_list (map snd rs)))
         | _ \<Rightarrow> (node, 0))
      else
        (case node of
           JObj kvs \<Rightarrow>
             (case dict_get kvs seg of
                None \<Rightarrow> (node, 0)
              | Some child \<Rightarrow>
                  (case rest of
                     [] \<Rightarrow> (JObj (dict_del seg kvs), 1)
                   | nxt # rest' \<Rightarrow>
                       if nxt = ''[]'' then
                         (case child of
                            JList items \<Rightarrow>
                              (let rs = map (\<lambda>x. drop_at_segments rest' x) items
                               in (JObj (dict_set seg (JList (map fst rs)) kvs), sum_list (map snd rs)))
                          | _ \<Rightarrow> (node, 0))
                       else
                         (let (child', n) = drop_at_segments rest child
                          in (JObj (dict_set seg child' kvs), n))))
         | _ \<Rightarrow> (node, 0)))"

text \<open>A masking step reads and changes a state \<open>'s\<close> (the vault) and may raise.\<close>

type_synonym 's leaf_step = "json \<Rightarrow> 's \<Rightarrow> (string + json) \<times> 's"
type_synonym 's node_step = "json \<Rightarrow> 's \<Rightarrow> (json \<times> (string + nat)) \<times> 's"

fun apply_items :: "'s node_step \<Rightarrow> json list \<Rightarrow> 's \<Rightarrow> (json list \<times> (string + nat)) \<times> 's" where
  "apply_items f [] s = (([], Inr 0), s)"
| "apply_items f (x # xs) s =
     (case f x s of
        ((x', Inl e), s1) \<Rightarrow> ((x' # xs, Inl e), s1)
      | ((x', Inr n), s1) \<Rightarrow>
          (case apply_items f xs s1 of
             ((xs', Inl e), s2) \<Rightarrow> ((x' # xs', Inl e), s2)
           | ((xs', Inr m), s2) \<Rightarrow> ((x' # xs', Inr (n + m)), s2)))"

fun apply_at_segments :: "'s leaf_step \<Rightarrow> string list \<Rightarrow> 's node_step" where
  "apply_at_segments leaf [] node s = ((node, Inr 0), s)"
| "apply_at_segments leaf (seg # rest) node s =
     (if seg = ''[]'' then
        (case node of
           JList items \<Rightarrow>
             (case apply_items (\<lambda>x t. apply_at_segments leaf rest x t) items s of
                ((items', r), s') \<Rightarrow> ((JList items', r), s'))
         | _ \<Rightarrow> ((node, Inr 0), s))
      else
        (case node of
           JObj kvs \<Rightarrow>
             (case dict_get kvs seg of
                None \<Rightarrow> ((node, Inr 0), s)
              | Some child \<Rightarrow>
                  (case rest of
                     [] \<Rightarrow>
                       (case leaf child s of
                          (Inl e, s') \<Rightarrow> ((node, Inl e), s')
                        | (Inr v, s') \<Rightarrow> ((JObj (dict_set seg v kvs), Inr 1), s'))
                   | nxt # rest' \<Rightarrow>
                       if nxt = ''[]'' then
                         (case child of
                            JList items \<Rightarrow>
                              (case apply_items (\<lambda>x t. apply_at_segments leaf rest' x t) items s of
                                 ((items', r), s') \<Rightarrow> ((JObj (dict_set seg (JList items') kvs), r), s'))
                          | _ \<Rightarrow> ((node, Inr 0), s))
                       else if is_obj child then
                         (case apply_at_segments leaf rest child s of
                            ((child', r), s') \<Rightarrow> ((JObj (dict_set seg child' kvs), r), s'))
                       else ((node, Inr 0), s)))
         | _ \<Rightarrow> ((node, Inr 0), s)))"

text \<open>\<open>remove_field_at_path\<close> of \<open>field_drop.py\<close>, whose traversal is the engine's.\<close>

definition remove_field_at_path :: "json \<Rightarrow> string \<Rightarrow> json \<times> nat" where
  "remove_field_at_path event field_path =
     (let segments = parse_field_path_segments field_path
      in if segments = [] then (event, 0) else drop_at_segments segments event)"

section \<open>Masking modes\<close>

definition mask_literal :: string where
  "mask_literal = ''********''"

definition full_mask_value :: "json \<Rightarrow> json" where
  "full_mask_value v =
     (case v of
        JNull \<Rightarrow> JNull | JStr _ \<Rightarrow> JStr mask_literal | JBool _ \<Rightarrow> JBool False
      | JInt _ \<Rightarrow> JNull | JFloat _ \<Rightarrow> JNull | JObj _ \<Rightarrow> JObj [] | JList _ \<Rightarrow> JList [])"

text \<open>\<open>str.partition("@")\<close>, and the match of \<open>_EMAIL_RE\<close> on a stripped text.\<close>

definition at_split :: "string \<Rightarrow> string \<times> string" where
  "at_split s = (takeWhile (\<lambda>c. c \<noteq> CHR ''@'') s, drop 1 (dropWhile (\<lambda>c. c \<noteq> CHR ''@'') s))"

definition email_re_match :: "string \<Rightarrow> bool" where
  "email_re_match s \<longleftrightarrow>
     (let (local, domain) = at_split s
      in CHR ''@'' \<in> set s \<and> local \<noteq> [] \<and> CHR ''@'' \<notin> set domain \<and> list_all (\<lambda>c. \<not> py_isspace c) s \<and>
         domain \<noteq> [] \<and> CHR ''.'' \<in> set (butlast (tl domain)))"

definition partial_mask_email :: "string \<Rightarrow> string" where
  "partial_mask_email email =
     (let (local, domain) = at_split email
      in if local = [] \<or> domain = [] then mask_literal
         else
           (let local_mask = [hd local] @ ''***'';
                parts = split_on (CHR ''.'') domain
            in if length parts < 2 then local_mask @ ''@'' @ [hd domain] @ ''***''
               else
                 (let tld = last parts; first_label = hd parts;
                      domain_mask = (if first_label \<noteq> [] then [hd first_label] @ ''***.'' @ tld
                                     else ''***.'' @ tld)
                  in local_mask @ ''@'' @ domain_mask)))"

definition last4 :: "string \<Rightarrow> string" where
  "last4 s = drop (length s - 4) s"

definition partial_mask_value :: "json \<Rightarrow> json" where
  "partial_mask_value v =
     (case v of
        JStr s \<Rightarrow>
          (let text = py_strip s
           in if text = [] then JStr mask_literal
              else if email_re_match text then JStr (partial_mask_email text)
              else
                (let digits = filter py_isdigit text
                 in if length digits \<ge> 7 then JStr (''***'' @ last4 digits)
                    else if length text \<le> 4 then JStr mask_literal
                    else JStr (''*******'' @ last4 text)))
      | _ \<Rightarrow> full_mask_value v)"

text \<open>The settings and the session of one batch. \<open>pe_db\<close> tells whether a session is there.\<close>

record protect_env =
  pe_enabled :: bool
  pe_hash_salt :: string
  pe_vault_salt :: string
  pe_hmac :: "string \<Rightarrow> string \<Rightarrow> string"
  pe_sha :: "string \<Rightarrow> string"
  pe_now :: int
  pe_race :: "nat \<Rightarrow> vault_entry list"
  pe_db :: bool

definition hmac_key_for_stream :: "protect_env \<Rightarrow> int \<Rightarrow> string" where
  "hmac_key_for_stream env stream_id =
     int_str stream_id @ '':'' @
       (if pe_hash_salt env = [] then ''gdc-protection-default-salt'' else pe_hash_salt env)"

definition hash_mask_value :: "protect_env \<Rightarrow> string \<Rightarrow> json \<Rightarrow> json" where
  "hash_mask_value env key v =
     (case v of JStr s \<Rightarrow> JStr (''sha256:'' @ pe_hmac env key s) | _ \<Rightarrow> full_mask_value v)"

definition tokenize_value :: "protect_env \<Rightarrow> int \<Rightarrow> string \<Rightarrow> token_map option \<Rightarrow> vault leaf_step" where
  "tokenize_value env stream_id field_path tm v vault =
     (case v of
        JNull \<Rightarrow> (Inr JNull, vault)
      | JStr s \<Rightarrow>
          (let text = py_strip s
           in if text = [] then (Inr (full_mask_value v), vault)
              else (case (case tm of None \<Rightarrow> None | Some m \<Rightarrow> dict_get m (py_strip field_path, py_strip text)) of
                      Some t \<Rightarrow> (Inr (JStr t), vault)
                    | None \<Rightarrow>
                        if \<not> pe_db env then (Inl ''database session required for tokenization'', vault)
                        else (case get_or_create_token (pe_sha env)
                                     (vault_hash_salt (pe_vault_salt env) (pe_hash_salt env))
                                     (pe_now env) (pe_race env) stream_id field_path text vault of
                                (Inl e, vault') \<Rightarrow> (Inl e, vault')
                              | (Inr t, vault') \<Rightarrow> (Inr (JStr t), vault'))))
      | _ \<Rightarrow> (Inr (full_mask_value v), vault))"

definition apply_protection_mode ::
    "protect_env \<Rightarrow> string \<Rightarrow> int \<Rightarrow> string \<Rightarrow> token_map option \<Rightarrow> vault leaf_step" where
  "apply_protection_mode env mode stream_id field_path tm v vault =
     (if mode = ''full_mask'' then (Inr (full_mask_value v), vault)
      else if mode = ''partial_mask'' then (Inr (partial_mask_value v), vault)
      else if mode = ''hash'' then
        (Inr (hash_mask_value env (hmac_key_for_stream env stream_id) v), vault)
      else if mode = ''tokenization'' then tokenize_value env stream_id field_path tm v vault
      else (Inl (''unsupported protection_mode: '' @ py_repr_str mode), vault))"

section \<open>Rules and batches\<close>

record prot_rule =
  pru_stream :: int
  pru_path :: string
  pru_mode :: string
  pru_class :: "string option"
  pru_enabled :: bool
  pru_id :: "int option"

record prot_warning =
  pw_path :: string
  pw_rule_id :: "int option"
  pw_message :: string

definition warning_for :: "prot_rule \<Rightarrow> string \<Rightarrow> prot_warning" where
  "warning_for rule msg =
     \<lparr>pw_path = pru_path rule,
      pw_rule_id = (case pru_id rule of None \<Rightarrow> None | Some i \<Rightarrow> if i = 0 then None else Some i),
      pw_message = msg\<rparr>"

definition apply_rule_to_event ::
    "protect_env \<Rightarrow> token_map option \<Rightarrow> prot_rule \<Rightarrow> json \<Rightarrow> vault \<Rightarrow>
     (json \<times> nat \<times> prot_warning option) \<times> vault" where
  "apply_rule_to_event env tm rule event vault =
     (let segments = parse_field_path_segments (pru_path rule)
      in if segments = [] then ((event, 0, Some (warning_for rule ''empty field_path segments'')), vault)
         else if pru_mode rule = ''drop_field'' then
           (let (event', n) = drop_at_segments segments event in ((event', n, None), vault))
         else
           (case apply_at_segments
                   (apply_protection_mode env (pru_mode rule) (pru_stream rule) (pru_path rule) tm)
                   segments event vault of
              ((event', Inr n), vault') \<Rightarrow> ((event', n, None), vault')
            | ((event', Inl e), vault') \<Rightarrow> ((event', 0, Some (warning_for rule e)), vault')))"

fun apply_rules ::
    "protect_env \<Rightarrow> token_map option \<Rightarrow> prot_rule list \<Rightarrow> json \<Rightarrow> vault \<Rightarrow>
     (json \<times> nat \<times> prot_warning list) \<times> vault" where
  "apply_rules env tm [] event vault = ((event, 0, []), vault)"
| "apply_rules env tm (rule # rules) event vault =
     (case apply_rule_to_event env tm rule event vault of
        ((event1, n, w), vault1) \<Rightarrow>
          (case apply_rules env tm rules event1 vault1 of
             ((event2, m, ws), vault2) \<Rightarrow>
               ((event2, n + m, (case w of None \<Rightarrow> ws | Some x \<Rightarrow> x # ws)), vault2)))"

fun protect_events ::
    "protect_env \<Rightarrow> token_map option \<Rightarrow> prot_rule list \<Rightarrow> json list \<Rightarrow> vault \<Rightarrow>
     (json list \<times> nat \<times> prot_warning list) \<times> vault" where
  "protect_events env tm rules [] vault = (([], 0, []), vault)"
| "protect_events env tm rules (raw # raws) vault =
     (if \<not> is_obj raw then
        (case protect_events env tm rules raws vault of
           ((out, m, ws), vault') \<Rightarrow> ((raw # out, m, ws), vault'))
      else
        (case apply_rules env tm rules (copy_json_value raw) vault of
           ((event, n, w), vault1) \<Rightarrow>
             (case protect_events env tm rules raws vault1 of
                ((out, m, ws), vault2) \<Rightarrow> ((event # out, n + m, w @ ws), vault2))))"

text \<open>\<open>collect_tokenization_targets\<close>: each \<open>(path, value)\<close> once, in order of appearance.\<close>

fun add_targets :: "string \<Rightarrow> (string \<times> string) list \<Rightarrow> json list \<Rightarrow> (string \<times> string) list" where
  "add_targets path acc [] = acc"
| "add_targets path acc (v # vs) =
     (case v of
        JStr s \<Rightarrow>
          (let canonical = py_strip s
           in if canonical = [] \<or> (path, canonical) \<in> set acc then add_targets path acc vs
              else add_targets path (acc @ [(path, canonical)]) vs)
      | _ \<Rightarrow> add_targets path acc vs)"

definition collect_tokenization_targets :: "json list \<Rightarrow> prot_rule list \<Rightarrow> (string \<times> string) list" where
  "collect_tokenization_targets events rules =
     (let enabled = filter (\<lambda>r. pru_enabled r \<and> pru_mode r = ''tokenization'') rules
      in foldl (\<lambda>acc raw. foldl (\<lambda>acc r.
            (let segments = parse_field_path_segments (pru_path r)
             in if segments = [] then acc
                else add_targets (pru_path r) acc (collect_at_segments segments raw))) acc enabled)
          [] (filter is_obj events))"

record protect_result =
  pr_events :: "json list"
  pr_masked :: nat
  pr_rules_applied :: nat
  pr_warnings :: "prot_warning list"
  pr_token_items :: nat
  pr_token_hits :: nat
  pr_token_created :: nat

definition bare_result :: "json list \<Rightarrow> protect_result" where
  "bare_result evs =
     \<lparr>pr_events = evs, pr_masked = 0, pr_rules_applied = 0, pr_warnings = [],
      pr_token_items = 0, pr_token_hits = 0, pr_token_created = 0\<rparr>"

text \<open>The rules in force: the enabled persisted ones, and the enabled ephemeral ones on other
  paths.\<close>

definition active_rules :: "prot_rule list \<Rightarrow> prot_rule list \<Rightarrow> prot_rule list" where
  "active_rules rules ephemeral =
     (let persisted = filter pru_enabled rules;
          paths = map pru_path persisted;
          extra = filter (\<lambda>r. pru_enabled r \<and> pru_path r \<notin> set paths) ephemeral
      in persisted @ extra)"

text \<open>\<open>Inl\<close> where the vault lookup of the batch raises; every other exception is a warning.\<close>

definition protect_batch ::
    "protect_env \<Rightarrow> int \<Rightarrow> json list \<Rightarrow> prot_rule list \<Rightarrow> prot_rule list \<Rightarrow> vault \<Rightarrow>
     (string + protect_result) \<times> vault" where
  "protect_batch env stream_id events rules ephemeral vault =
     (if events = [] then (Inr (bare_result []), vault)
      else
        (let enabled = active_rules rules ephemeral
         in if \<not> pe_enabled env \<or> enabled = [] then
              (Inr (bare_result (map copy_json_value events)), vault)
            else
              (let tok_rules = filter (\<lambda>r. pru_mode r = ''tokenization'') enabled;
                   targets = (if pe_db env \<and> tok_rules \<noteq> []
                              then collect_tokenization_targets events tok_rules else []);
                   looked = (if targets = []
                             then (Inr (None, \<lparr>ts_batch_items = 0, ts_cache_hits = 0, ts_created = 0\<rparr>), vault)
                             else
                               (case get_or_create_tokens_batch (pe_sha env)
                                       (vault_hash_salt (pe_vault_salt env) (pe_hash_salt env))
                                       (pe_now env) (pe_race env) stream_id targets vault of
                                  (Inl e, v) \<Rightarrow> (Inl e, v)
                                | (Inr (tm, st), v) \<Rightarrow> (Inr (Some tm, st), v)))
               in case looked of
                    (Inl e, v1) \<Rightarrow> (Inl e, v1)
                  | (Inr (tm, st), v1) \<Rightarrow>
                      (case protect_events env tm enabled events v1 of
                         ((out, n, ws), v2) \<Rightarrow>
                           (Inr \<lparr>pr_events = out, pr_masked = n, pr_rules_applied = length enabled,
                                 pr_warnings = ws, pr_token_items = ts_batch_items st,
                                 pr_token_hits = ts_cache_hits st, pr_token_created = ts_created st\<rparr>, v2)))))"

section \<open>The traversals, one segment at a time\<close>

text \<open>The look-ahead for a list marker is an optimisation: below a field every traversal is
  the same traversal of the child.\<close>

lemma collect_list: "collect_at_segments (''[]'' # rest) (JList xs) = concat (map (collect_at_segments rest) xs)"
  by simp

lemma collect_not_list: "\<forall>xs. node \<noteq> JList xs \<Longrightarrow> collect_at_segments (''[]'' # rest) node = []"
  by (cases node) auto

lemma collect_not_obj: "seg \<noteq> ''[]'' \<Longrightarrow> \<not> is_obj node \<Longrightarrow> collect_at_segments (seg # rest) node = []"
  by (cases node) auto

lemma collect_leaf:
  "seg \<noteq> ''[]'' \<Longrightarrow> collect_at_segments [seg] (JObj kvs) = (case dict_get kvs seg of None \<Rightarrow> [] | Some c \<Rightarrow> [c])"
  by (simp split: option.split)

lemma drop_leaf:
  "seg \<noteq> ''[]'' \<Longrightarrow> drop_at_segments [seg] (JObj kvs)
    = (case dict_get kvs seg of None \<Rightarrow> (JObj kvs, 0) | Some c \<Rightarrow> (JObj (dict_del seg kvs), 1))"
  by (simp split: option.split)

lemma apply_leaf:
  "seg \<noteq> ''[]'' \<Longrightarrow> apply_at_segments leaf [seg] (JObj kvs) s
    = (case dict_get kvs seg of None \<Rightarrow> ((JObj kvs, Inr 0), s)
       | Some c \<Rightarrow> (case leaf c s of (Inl e, s') \<Rightarrow> ((JObj kvs, Inl e), s')
                     | (Inr v, s') \<Rightarrow> ((JObj (dict_set seg v kvs), Inr 1), s')))"
  by (simp split: option.split)

lemma collect_field:
  assumes "seg \<noteq> ''[]''" "rest \<noteq> []"
  shows "collect_at_segments (seg # rest) (JObj kvs)
    = (case dict_get kvs seg of None \<Rightarrow> [] | Some c \<Rightarrow> collect_at_segments rest c)"
proof (cases "dict_get kvs seg")
  case (Some c)
  obtain nxt rest' where rest: "rest = nxt # rest'" using assms(2) by (cases rest) auto
  show ?thesis
  proof (cases "nxt = ''[]''")
    case True then show ?thesis using Some assms rest by (cases c) simp_all
  next
    case False then show ?thesis using Some assms rest by (cases c) simp_all
  qed
qed (use assms in simp)

lemma drop_field:
  assumes "seg \<noteq> ''[]''" "rest \<noteq> []"
  shows "drop_at_segments (seg # rest) (JObj kvs)
    = (case dict_get kvs seg of None \<Rightarrow> (JObj kvs, 0)
       | Some c \<Rightarrow> (let (c', n) = drop_at_segments rest c in (JObj (dict_set seg c' kvs), n)))"
proof (cases "dict_get kvs seg")
  case (Some c)
  obtain nxt rest' where rest: "rest = nxt # rest'" using assms(2) by (cases rest) auto
  show ?thesis
  proof (cases "nxt = ''[]''")
    case True then show ?thesis using Some assms rest by (cases c) (simp_all add: Let_def)
  next
    case False then show ?thesis using Some assms rest by simp
  qed
qed (use assms in simp)

lemma apply_field:
  assumes "seg \<noteq> ''[]''" "rest \<noteq> []"
  shows "apply_at_segments leaf (seg # rest) (JObj kvs) s
    = (case dict_get kvs seg of None \<Rightarrow> ((JObj kvs, Inr 0), s)
       | Some c \<Rightarrow> (case apply_at_segments leaf rest c s of
                      ((c', r), s') \<Rightarrow> ((JObj (dict_set seg c' kvs), r), s')))"
proof (cases "dict_get kvs seg")
  case (Some c)
  obtain nxt rest' where rest: "rest = nxt # rest'" using assms(2) by (cases rest) auto
  show ?thesis
  proof (cases "nxt = ''[]''")
    case True then show ?thesis using Some assms rest by (cases c) (auto split: prod.split)
  next
    case False then show ?thesis using Some assms rest by (cases c) (auto split: prod.split)
  qed
qed (use assms in simp)

lemmas field_steps = collect_field drop_field apply_field

lemmas segment_defs = collect_at_segments.simps(2) drop_at_segments.simps(2) apply_at_segments.simps(2)

declare segment_defs [simp del]

text \<open>The effect of a masking that cannot fail, as a function on values.\<close>

fun map_at :: "(json \<Rightarrow> json) \<Rightarrow> string list \<Rightarrow> json \<Rightarrow> json" where
  "map_at g [] node = node"
| "map_at g (seg # rest) node =
     (if seg = ''[]'' then (case node of JList xs \<Rightarrow> JList (map (\<lambda>x. map_at g rest x) xs) | _ \<Rightarrow> node)
      else (case node of
              JObj kvs \<Rightarrow>
                (case dict_get kvs seg of
                   None \<Rightarrow> node
                 | Some c \<Rightarrow> JObj (dict_set seg (if rest = [] then g c else map_at g rest c) kvs))
            | _ \<Rightarrow> node))"

lemma apply_items_pure:
  "(\<And>x t. x \<in> set xs \<Longrightarrow> f x t = ((h x, Inr (c x)), t)) \<Longrightarrow>
     apply_items f xs s = ((map h xs, Inr (sum_list (map c xs))), s)"
  by (induction xs arbitrary: s) auto

lemma apply_pure:
  assumes "\<And>v t. leaf v t = (Inr (g v), t)"
  shows "apply_at_segments leaf segs node s
    = ((map_at g segs node, Inr (length (collect_at_segments segs node))), s)"
proof (induction segs arbitrary: node s)
  case (Cons seg rest)
  show ?case
  proof (cases "seg = ''[]''")
    case True
    have "apply_items (apply_at_segments leaf rest) xs s
        = ((map (map_at g rest) xs, Inr (sum_list (map (\<lambda>x. length (collect_at_segments rest x)) xs))), s)" for xs
      by (rule apply_items_pure) (rule Cons.IH)
    with True show ?thesis by (cases node) (simp_all add: segment_defs length_concat comp_def)
  next
    case False
    show ?thesis
    proof (cases node)
      case (JObj kvs)
      with False show ?thesis
        by (cases "rest = []")
          (simp add: assms apply_leaf collect_leaf split: option.split,
           simp add: field_steps Cons.IH split: option.split)
    qed (use False in \<open>simp_all add: segment_defs\<close>)
  qed
qed simp

lemma collect_map_at: "collect_at_segments segs (map_at g segs node) = map g (collect_at_segments segs node)"
proof (induction segs arbitrary: node)
  case (Cons seg rest)
  show ?case
  proof (cases "seg = ''[]''")
    case True
    then show ?thesis by (cases node) (simp_all add: segment_defs map_concat Cons.IH comp_def)
  next
    case False
    show ?thesis
    proof (cases node)
      case (JObj kvs)
      with False show ?thesis
        by (cases "rest = []") (auto simp: collect_leaf collect_field Cons.IH dict_simps split: option.split)
    qed (use False in \<open>simp_all add: segment_defs\<close>)
  qed
qed simp

text \<open>Masking changes nothing but what is at the path.\<close>

lemma drop_map_at: "fst (drop_at_segments segs (map_at g segs node)) = fst (drop_at_segments segs node)"
proof (induction segs arbitrary: node)
  case (Cons seg rest)
  show ?case
  proof (cases "seg = ''[]''")
    case True
    then show ?thesis by (cases node) (simp_all add: segment_defs Cons.IH Let_def comp_def)
  next
    case False
    show ?thesis
    proof (cases node)
      case (JObj kvs)
      with False show ?thesis
        by (cases "rest = []")
          (auto simp: drop_leaf drop_field dict_simps Let_def case_prod_beta Cons.IH update_last split: option.split)
    qed (use False in \<open>simp_all add: segment_defs\<close>)
  qed
qed simp

lemma drop_count: "snd (drop_at_segments segs node) = length (collect_at_segments segs node)"
proof (induction segs arbitrary: node)
  case (Cons seg rest)
  show ?case
  proof (cases "seg = ''[]''")
    case True
    then show ?thesis by (cases node) (simp_all add: segment_defs Cons.IH Let_def comp_def length_concat)
  next
    case False
    show ?thesis
    proof (cases node)
      case (JObj kvs)
      with False show ?thesis
        by (cases "rest = []")
          (auto simp: drop_leaf collect_leaf drop_field collect_field Let_def case_prod_beta Cons.IH split: option.split)
    qed (use False in \<open>simp_all add: segment_defs\<close>)
  qed
qed simp

lemma collect_dropped: "collect_at_segments segs (fst (drop_at_segments segs node)) = []"
proof (induction segs arbitrary: node)
  case (Cons seg rest)
  show ?case
  proof (cases "seg = ''[]''")
    case True
    then show ?thesis by (cases node) (simp_all add: segment_defs Cons.IH Let_def comp_def)
  next
    case False
    show ?thesis
    proof (cases node)
      case (JObj kvs)
      with False show ?thesis
        by (cases "rest = []")
          (auto simp: drop_leaf collect_leaf drop_field collect_field Let_def case_prod_beta Cons.IH dict_simps split: option.split)
    qed (use False in \<open>simp_all add: segment_defs\<close>)
  qed
qed simp

text \<open>A predicate of the values at a path survives masking and dropping at any other path,
  when the values themselves keep it.\<close>

lemma collect_field_cong:
  "seg \<noteq> ''[]'' \<Longrightarrow> dict_get kvs seg = dict_get kvs' seg \<Longrightarrow>
     collect_at_segments (seg # rest) (JObj kvs) = collect_at_segments (seg # rest) (JObj kvs')"
  by (cases "rest = []") (simp_all add: collect_leaf collect_field)

lemma collect_at_set:
  assumes "seg \<noteq> ''[]''" "dict_get kvs q = Some c"
    and "list_all P (collect_at_segments (seg # rest) (JObj kvs))"
    and "seg = q \<Longrightarrow> rest = [] \<Longrightarrow> P c \<Longrightarrow> P c'"
    and "seg = q \<Longrightarrow> rest \<noteq> [] \<Longrightarrow> list_all P (collect_at_segments rest c) \<Longrightarrow>
           list_all P (collect_at_segments rest c')"
  shows "list_all P (collect_at_segments (seg # rest) (JObj (dict_set q c' kvs)))"
proof (cases "seg = q")
  case True
  with assms show ?thesis
    by (cases "rest = []") (simp_all add: collect_leaf collect_field dict_simps)
next
  case False
  then have "dict_get (dict_set q c' kvs) seg = dict_get kvs seg" by (simp add: dict_simps)
  with collect_field_cong[OF assms(1) this, of rest] assms(3) show ?thesis by simp
qed

lemma full_mask_collect [simp]: "collect_at_segments segs (full_mask_value v) = []"
proof (cases segs)
  case (Cons seg rest)
  then show ?thesis by (cases v) (simp_all add: full_mask_value_def segment_defs)
qed simp

lemma collect_all_map_at:
  assumes "\<And>v. P v \<Longrightarrow> P (full_mask_value v)" "\<And>v q. P v \<Longrightarrow> P (map_at full_mask_value q v)"
  shows "list_all P (collect_at_segments p node) \<Longrightarrow>
           list_all P (collect_at_segments p (map_at full_mask_value q node))"
proof (induction q arbitrary: p node)
  case (Cons s q')
  show ?case
  proof (cases p)
    case p: (Cons t p')
    consider (list) xs where "node = JList xs" "s = ''[]''" | (obj) kvs c where "node = JObj kvs" "s \<noteq> ''[]''" "dict_get kvs s = Some c"
      | (same) "map_at full_mask_value (s # q') node = node"
      by (cases node; cases "s = ''[]''"; cases "dict_get (obj_of node) s") auto
    then show ?thesis
    proof cases
      case list
      with Cons p show ?thesis
        by (cases "t = ''[]''") (auto simp: list_all_iff segment_defs)
    next
      case obj
      show ?thesis
      proof (cases "t = ''[]''")
        case False
        let ?c' = "if q' = [] then full_mask_value c else map_at full_mask_value q' c"
        have "list_all P (collect_at_segments (t # p') (JObj (dict_set s ?c' kvs)))"
          by (rule collect_at_set[OF False obj(3)])
            (use Cons p obj assms in \<open>auto split: if_splits\<close>)
        with obj p show ?thesis by simp
      qed (use obj p in \<open>simp add: segment_defs\<close>)
    next
      case same with Cons.prems show ?thesis by simp
    qed
  qed simp
qed simp

lemma collect_all_drop:
  assumes "\<And>v q. P v \<Longrightarrow> P (fst (drop_at_segments q v))"
  shows "list_all P (collect_at_segments p node) \<Longrightarrow>
           list_all P (collect_at_segments p (fst (drop_at_segments q node)))"
proof (induction q arbitrary: p node)
  case (Cons s q')
  show ?case
  proof (cases p)
    case p: (Cons t p')
    consider (list) xs where "node = JList xs" "s = ''[]''" | (obj) kvs c where "node = JObj kvs" "s \<noteq> ''[]''" "dict_get kvs s = Some c"
      | (same) "fst (drop_at_segments (s # q') node) = node"
      by (cases node; cases "s = ''[]''"; cases "dict_get (obj_of node) s") (auto simp: segment_defs)
    then show ?thesis
    proof cases
      case list
      with Cons p show ?thesis
        by (cases "t = ''[]''") (auto simp: list_all_iff segment_defs Let_def)
    next
      case obj
      show ?thesis
      proof (cases "t = ''[]''")
        case False
        show ?thesis
        proof (cases "q' = []")
          case True
          have "list_all P (collect_at_segments (t # p') (JObj (dict_del s kvs)))"
          proof (cases "t = s")
            case True then show ?thesis
              using False by (cases "p' = []") (simp_all add: collect_leaf collect_field dict_simps)
          next
            case ts: False
            then have "dict_get (dict_del s kvs) t = dict_get kvs t" by (simp add: dict_simps)
            with collect_field_cong[OF False this, of p'] Cons.prems obj p show ?thesis by simp
          qed
          with obj p True show ?thesis by (simp add: drop_leaf)
        next
          case q: False
          have "list_all P (collect_at_segments (t # p') (JObj (dict_set s (fst (drop_at_segments q' c)) kvs)))"
            by (rule collect_at_set[OF False obj(3)]) (use Cons p obj assms in auto)
          with obj p q show ?thesis by (simp add: drop_field Let_def case_prod_beta)
        qed
      qed (use obj p in \<open>cases "q' = []";
             simp add: collect_not_list drop_leaf drop_field Let_def case_prod_beta\<close>)
    next
      case same with Cons.prems show ?thesis by simp
    qed
  qed simp
qed simp

section \<open>Masked values\<close>

definition masked :: "json \<Rightarrow> bool" where
  "masked v \<longleftrightarrow> v \<in> {JNull, JStr mask_literal, JBool False, JObj [], JList []}"

lemma full_mask_masked [simp]: "masked (full_mask_value v)"
  by (cases v) (simp_all add: masked_def full_mask_value_def)

lemma all_full_masked [simp]: "list_all masked (map full_mask_value vs)"
  by (simp add: list_all_iff)

lemma masked_map_at [simp]: "masked v \<Longrightarrow> map_at g q v = v"
  by (cases q) (auto simp: masked_def)

lemma masked_drop [simp]: "masked v \<Longrightarrow> fst (drop_at_segments q v) = v"
  by (cases q) (auto simp: masked_def segment_defs)

lemma masked_survives_mask:
  "list_all masked (collect_at_segments p node) \<Longrightarrow>
     list_all masked (collect_at_segments p (map_at full_mask_value q node))"
  by (rule collect_all_map_at) auto

lemma masked_survives_drop:
  "list_all masked (collect_at_segments p node) \<Longrightarrow>
     list_all masked (collect_at_segments p (fst (drop_at_segments q node)))"
  by (rule collect_all_drop) auto

lemma empty_survives_mask:
  "collect_at_segments p node = [] \<Longrightarrow> collect_at_segments p (map_at full_mask_value q node) = []"
  using collect_all_map_at[of "\<lambda>_. False" p node q] by (simp add: list_all_iff)

lemma empty_survives_drop:
  "collect_at_segments p node = [] \<Longrightarrow> collect_at_segments p (fst (drop_at_segments q node)) = []"
  using collect_all_drop[of "\<lambda>_. False" p node q] by (simp add: list_all_iff)

section \<open>Rules and batches on values\<close>

text \<open>The modes that cannot fail, as functions on values.\<close>

definition pure_mode :: "protect_env \<Rightarrow> string \<Rightarrow> int \<Rightarrow> (json \<Rightarrow> json) option" where
  "pure_mode env mode sid =
     (if mode = ''full_mask'' then Some full_mask_value
      else if mode = ''partial_mask'' then Some partial_mask_value
      else if mode = ''hash'' then Some (hash_mask_value env (hmac_key_for_stream env sid))
      else None)"

lemma apply_rule_pure:
  assumes "pure_mode env (pru_mode r) (pru_stream r) = Some g" "parse_field_path_segments (pru_path r) = segs" "segs \<noteq> []"
  shows "apply_rule_to_event env tm r ev v = ((map_at g segs ev, length (collect_at_segments segs ev), None), v)"
proof -
  have "apply_at_segments (apply_protection_mode env (pru_mode r) (pru_stream r) (pru_path r) tm) segs ev v
      = ((map_at g segs ev, Inr (length (collect_at_segments segs ev))), v)"
    by (rule apply_pure) (use assms(1) in \<open>auto simp: pure_mode_def apply_protection_mode_def split: if_splits\<close>)
  moreover have "pru_mode r \<noteq> ''drop_field''" using assms(1) by (auto simp: pure_mode_def split: if_splits)
  ultimately show ?thesis using assms(2,3) by (simp add: apply_rule_to_event_def)
qed

lemma apply_rule_drop:
  assumes "pru_mode r = ''drop_field''" "parse_field_path_segments (pru_path r) = segs" "segs \<noteq> []"
  shows "apply_rule_to_event env tm r ev v
           = ((fst (drop_at_segments segs ev), length (collect_at_segments segs ev), None), v)"
  using assms by (simp add: apply_rule_to_event_def case_prod_beta drop_count)

definition strict_rule :: "prot_rule \<Rightarrow> bool" where
  "strict_rule r \<longleftrightarrow> pru_mode r \<in> {''full_mask'', ''drop_field''} \<and> parse_field_path_segments (pru_path r) \<noteq> []"

definition effective :: "prot_rule \<Rightarrow> json \<Rightarrow> bool" where
  "effective r ev \<longleftrightarrow>
     (let leaves = collect_at_segments (parse_field_path_segments (pru_path r)) ev
      in list_all masked leaves \<and> (pru_mode r = ''drop_field'' \<longrightarrow> leaves = []))"

lemma strict_rule_step:
  assumes "strict_rule r"
  obtains ev' n where "apply_rule_to_event env tm r ev v = ((ev', n, None), v)" "effective r ev'"
    "\<And>q. effective q ev \<Longrightarrow> effective q ev'"
proof -
  let ?segs = "parse_field_path_segments (pru_path r)"
  consider (full) "pru_mode r = ''full_mask''" | (dropped) "pru_mode r = ''drop_field''"
    using assms by (auto simp: strict_rule_def)
  then show thesis
  proof cases
    case full
    then have "pure_mode env (pru_mode r) (pru_stream r) = Some full_mask_value" by (simp add: pure_mode_def)
    from apply_rule_pure[OF this refl] assms full show thesis
      by (intro that[of "map_at full_mask_value ?segs ev"])
        (auto simp: strict_rule_def effective_def Let_def collect_map_at masked_survives_mask empty_survives_mask)
  next
    case dropped
    with apply_rule_drop[OF dropped refl] assms show thesis
      by (intro that[of "fst (drop_at_segments ?segs ev)"])
        (auto simp: strict_rule_def effective_def Let_def collect_dropped
          masked_survives_drop empty_survives_drop)
  qed
qed

lemma apply_rules_strict:
  "list_all strict_rule rules \<Longrightarrow>
     \<exists>ev' n. apply_rules env tm rules ev v = ((ev', n, []), v) \<and>
       (\<forall>r \<in> set rules. effective r ev') \<and> (\<forall>q. effective q ev \<longrightarrow> effective q ev')"
proof (induction rules arbitrary: ev)
  case (Cons r rs)
  then have "strict_rule r" by simp
  then obtain ev1 n1 where s: "apply_rule_to_event env tm r ev v = ((ev1, n1, None), v)" "effective r ev1"
    "\<And>q. effective q ev \<Longrightarrow> effective q ev1"
    by (rule strict_rule_step[of r env tm ev v]) blast
  have "list_all strict_rule rs" using Cons.prems by simp
  from Cons.IH[OF this, of ev1] obtain ev2 n2 where "apply_rules env tm rs ev1 v = ((ev2, n2, []), v)"
    "\<forall>r \<in> set rs. effective r ev2" "\<forall>q. effective q ev1 \<longrightarrow> effective q ev2"
    by blast
  with s show ?case by auto
qed simp

lemma protect_events_strict:
  "list_all strict_rule rules \<Longrightarrow>
     \<exists>out n. protect_events env tm rules evs v = ((out, n, []), v) \<and> length out = length evs \<and>
       (\<forall>i < length evs. is_obj (evs ! i) \<longrightarrow> (\<forall>r \<in> set rules. effective r (out ! i)))"
proof (induction evs)
  case (Cons e es)
  then obtain out n where IH: "protect_events env tm rules es v = ((out, n, []), v)" "length out = length es"
    "\<forall>i < length es. is_obj (es ! i) \<longrightarrow> (\<forall>r \<in> set rules. effective r (out ! i))"
    by blast
  obtain e' m where e': "apply_rules env tm rules e v = ((e', m, []), v)" "\<forall>r \<in> set rules. effective r e'"
    using apply_rules_strict[OF Cons.prems, of env tm e v] by blast
  show ?case
  proof (cases "is_obj e")
    case True
    with IH e' show ?thesis by (auto simp: nth_Cons split: nat.split)
  next
    case False
    with IH show ?thesis by (auto simp: nth_Cons split: nat.split)
  qed
qed simp

text \<open>What no rule names is untouched, whatever the mode does.\<close>

lemma apply_top_frame:
  assumes "apply_at_segments leaf segs (JObj kvs) s = ((ev', r), s')" "take 1 segs \<noteq> [k]"
  shows "is_obj ev' \<and> dict_get (obj_of ev') k = dict_get kvs k"
proof (cases segs)
  case (Cons seg rest)
  show ?thesis
  proof (cases "seg = ''[]''")
    case True
    with assms Cons show ?thesis by (auto simp: segment_defs)
  next
    case False
    with assms Cons show ?thesis
      by (cases "rest = []")
        (auto simp: apply_leaf apply_field dict_simps split: option.splits prod.splits sum.splits)
  qed
qed (use assms in auto)

lemma drop_top_frame:
  assumes "drop_at_segments segs (JObj kvs) = (ev', n)" "take 1 segs \<noteq> [k]"
  shows "is_obj ev' \<and> dict_get (obj_of ev') k = dict_get kvs k"
proof (cases segs)
  case (Cons seg rest)
  show ?thesis
  proof (cases "seg = ''[]''")
    case True
    with assms Cons show ?thesis by (auto simp: segment_defs)
  next
    case False
    with assms Cons show ?thesis
      by (cases "rest = []")
        (auto simp: drop_leaf drop_field dict_simps Let_def split: option.splits prod.splits)
  qed
qed (use assms in auto)

lemma apply_rule_frame:
  assumes "apply_rule_to_event env tm r ev v = ((ev', n, w), v')" "is_obj ev"
    and "take 1 (parse_field_path_segments (pru_path r)) \<noteq> [k]"
  shows "is_obj ev' \<and> dict_get (obj_of ev') k = dict_get (obj_of ev) k"
proof -
  obtain kvs where ev: "ev = JObj kvs" using assms(2) by (cases ev) auto
  show ?thesis
    using assms
    by (auto simp: ev apply_rule_to_event_def Let_def split: if_splits prod.splits sum.splits
        dest: apply_top_frame[OF _ assms(3)] drop_top_frame[OF _ assms(3)])
qed

lemma apply_rules_frame:
  "apply_rules env tm rules ev v = ((ev', n, ws), v') \<Longrightarrow> is_obj ev \<Longrightarrow>
     \<forall>r \<in> set rules. take 1 (parse_field_path_segments (pru_path r)) \<noteq> [k] \<Longrightarrow>
     is_obj ev' \<and> dict_get (obj_of ev') k = dict_get (obj_of ev) k"
proof (induction rules arbitrary: ev v n ws)
  case (Cons r rs)
  obtain ev1 m w v1 where s: "apply_rule_to_event env tm r ev v = ((ev1, m, w), v1)" by (metis prod_cases3 prod.collapse)
  obtain n2 ws2 where "apply_rules env tm rs ev1 v1 = ((ev', n2, ws2), v')"
    using Cons.prems(1) s by (auto split: prod.splits)
  from Cons.IH[OF this] apply_rule_frame[OF s] Cons.prems show ?case by auto
qed auto

lemma protect_events_frame:
  "protect_events env tm rules evs v = ((out, n, ws), v') \<Longrightarrow>
     \<forall>r \<in> set rules. take 1 (parse_field_path_segments (pru_path r)) \<noteq> [k] \<Longrightarrow>
     length out = length evs \<and>
     (\<forall>i < length evs. if is_obj (evs ! i)
        then is_obj (out ! i) \<and> dict_get (obj_of (out ! i)) k = dict_get (obj_of (evs ! i)) k
        else out ! i = evs ! i)"
proof (induction evs arbitrary: v out n ws)
  case (Cons e es)
  show ?case
  proof (cases "is_obj e")
    case True
    obtain e' m w v1 where s: "apply_rules env tm rules e v = ((e', m, w), v1)" by (metis prod_cases3 prod.collapse)
    then obtain out' n' ws' where t: "protect_events env tm rules es v1 = ((out', n', ws'), v')" "out = e' # out'"
      using Cons.prems(1) True by (auto split: prod.splits)
    from Cons.IH[OF t(1) Cons.prems(2)] apply_rules_frame[OF s True Cons.prems(2)] True t(2)
    show ?thesis by (auto simp: nth_Cons split: nat.split)
  next
    case False
    then obtain out' where t: "protect_events env tm rules es v = ((out', n, ws), v')" "out = e # out'"
      using Cons.prems(1) by (auto split: prod.splits)
    from Cons.IH[OF t(1) Cons.prems(2)] False t(2) show ?thesis by (auto simp: nth_Cons split: nat.split)
  qed
qed simp

section \<open>Paths, printed and parsed\<close>

text \<open>The path notation of the detectors: a field is \<open>.name\<close>, a list \<open>[]\<close>.\<close>

definition render_segments :: "string list \<Rightarrow> string" where
  "render_segments segs = ''$'' @ concat (map (\<lambda>s. if s = ''[]'' then s else CHR ''.'' # s) segs)"

definition plain_segment :: "string \<Rightarrow> bool" where
  "plain_segment s \<longleftrightarrow> s = ''[]'' \<or> (s \<noteq> [] \<and> CHR ''.'' \<notin> set s \<and> CHR ''['' \<notin> set s)"

lemma split_plain_char:
  "c \<noteq> CHR ''.'' \<Longrightarrow> c \<noteq> CHR ''['' \<Longrightarrow> split_segments buf (c # xs) = split_segments (buf @ [c]) xs"
  by (cases xs) simp_all

lemma split_plain_name:
  "CHR ''.'' \<notin> set s \<Longrightarrow> CHR ''['' \<notin> set s \<Longrightarrow> split_segments buf (s @ xs) = split_segments (buf @ s) xs"
proof (induction s arbitrary: buf)
  case (Cons c s)
  then show ?case by (auto simp: split_plain_char)
qed simp

lemma split_dot: "xs \<noteq> [] \<Longrightarrow> split_segments buf (CHR ''.'' # xs) = flush buf @ split_segments [] xs"
  by (cases xs) simp_all

lemma split_rendered:
  "list_all plain_segment segs \<Longrightarrow>
     split_segments buf (concat (map (\<lambda>s. if s = ''[]'' then s else CHR ''.'' # s) segs)) = flush buf @ segs"
proof (induction segs arbitrary: buf)
  case (Cons s segs)
  let ?r = "concat (map (\<lambda>s. if s = ''[]'' then s else CHR ''.'' # s) segs)"
  have IH: "split_segments [] ?r = segs" using Cons.IH[of "[]"] Cons.prems by (simp add: flush_def)
  show ?case
  proof (cases "s = ''[]''")
    case True
    have "(case ?r of [] \<Rightarrow> split_segments [] []
           | e # es \<Rightarrow> if e = CHR ''.'' then split_segments [] es else split_segments [] (e # es)) = segs"
    proof (cases ?r)
      case (Cons e es)
      have "split_segments [] (e # es) = segs" using IH unfolding Cons .
      moreover have "es \<noteq> []" if "e = CHR ''.''"
      proof (cases segs)
        case (Cons s' segs')
        with \<open>list_all plain_segment (s # segs)\<close> \<open>?r = e # es\<close> that show ?thesis
          by (auto simp: plain_segment_def split: if_splits)
      qed (use \<open>?r = e # es\<close> in simp)
      ultimately show ?thesis using Cons by (auto simp: split_dot flush_def)
    next
      case Nil
      with IH show ?thesis by (simp only: list.case)
    qed
    with True show ?thesis by simp
  next
    case False
    then have s: "CHR ''.'' \<notin> set s" "CHR ''['' \<notin> set s" "s \<noteq> []"
      using Cons.prems by (auto simp: plain_segment_def)
    have "split_segments buf (CHR ''.'' # s @ ?r) = flush buf @ split_segments s ?r"
      using s by (simp add: split_dot split_plain_name[of s "[]" ?r, simplified])
    also have "split_segments s ?r = s # segs"
      using Cons.IH[of s] Cons.prems s by (simp add: flush_def)
    finally show ?thesis using False by simp
  qed
qed simp

lemma parse_rendered:
  assumes "list_all plain_segment segs"
  shows "parse_field_path_segments (render_segments segs) = segs"
proof (cases segs)
  case Nil
  then show ?thesis by (simp add: parse_field_path_segments_def render_segments_def)
next
  case (Cons s rest)
  let ?r = "concat (map (\<lambda>s. if s = ''[]'' then s else CHR ''.'' # s) segs)"
  have r: "split_segments [] ?r = segs" using split_rendered[OF assms, of "[]"] by (simp add: flush_def)
  show ?thesis
  proof (cases "s = ''[]''")
    case True
    with r Cons show ?thesis
      by (simp add: parse_field_path_segments_def render_segments_def py_startswith_def)
  next
    case False
    with assms Cons have "s \<noteq> []" by (auto simp: plain_segment_def)
    with r Cons False have "split_segments [] (drop 1 ?r) = segs" by (simp add: split_dot flush_def)
    with Cons False show ?thesis
      by (simp add: parse_field_path_segments_def render_segments_def py_startswith_def)
  qed
qed

text \<open>Paths that end in a list marker select nothing in any traversal.\<close>

lemma trailing_list_collect: "collect_at_segments (segs @ [''[]'']) node = []"
proof (induction segs arbitrary: node)
  case Nil
  show ?case by (cases node) (simp_all add: segment_defs)
next
  case (Cons s segs)
  show ?case
  proof (cases "s = ''[]''")
    case True
    with Cons show ?thesis by (cases node) (simp_all add: segment_defs)
  next
    case False
    with Cons show ?thesis by (cases node) (simp_all add: collect_field collect_not_obj split: option.split)
  qed
qed

lemma trailing_list_apply: "apply_at_segments leaf (segs @ [''[]'']) node s = ((node, Inr 0), s)"
proof (induction segs arbitrary: node s)
  case Nil
  have "apply_items (apply_at_segments leaf []) xs t = ((xs, Inr 0), t)" for xs t
    by (induction xs) simp_all
  then show ?case by (cases node) (simp_all add: segment_defs)
next
  case (Cons seg segs)
  have items: "apply_items (\<lambda>x t. apply_at_segments leaf (segs @ [''[]'']) x t) xs t = ((xs, Inr 0), t)" for xs t
    by (induction xs) (simp_all add: Cons.IH)
  show ?case
  proof (cases "seg = ''[]''")
    case True
    then show ?thesis by (cases node) (simp_all add: segment_defs items)
  next
    case False
    show ?thesis
    proof (cases node)
      case (JObj kvs)
      with False show ?thesis by (simp add: apply_field Cons.IH split: option.split)
    qed (use False in \<open>simp_all add: segment_defs\<close>)
  qed
qed

lemma trailing_list_drop: "drop_at_segments (segs @ [''[]'']) node = (node, 0)"
proof (induction segs arbitrary: node)
  case Nil
  show ?case by (cases node) (simp_all add: segment_defs Let_def comp_def)
next
  case (Cons seg segs)
  show ?case
  proof (cases "seg = ''[]''")
    case True
    with Cons.IH show ?thesis by (cases node) (simp_all add: segment_defs Let_def comp_def)
  next
    case False
    show ?thesis
    proof (cases node)
      case (JObj kvs)
      with False show ?thesis by (simp add: drop_field Cons.IH Let_def split: option.split)
    qed (use False in \<open>simp_all add: segment_defs\<close>)
  qed
qed

section \<open>Properties\<close>

lemma protect_batch_strict:
  assumes "pe_enabled env" "list_all strict_rule (active_rules rules eph)"
  shows "\<exists>res. protect_batch env sid evs rules eph v = (Inr res, v) \<and> pr_warnings res = [] \<and>
    length (pr_events res) = length evs \<and>
    (\<forall>i < length evs. is_obj (evs ! i) \<longrightarrow>
       (\<forall>r \<in> set (active_rules rules eph). effective r (pr_events res ! i)))"
proof -
  let ?en = "active_rules rules eph"
  have "strict_rule r \<Longrightarrow> pru_mode r \<noteq> ''tokenization''" for r by (auto simp: strict_rule_def)
  with assms(2) have no_tok: "filter (\<lambda>r. pru_mode r = ''tokenization'') ?en = []"
    unfolding filter_empty_conv list_all_iff by blast
  obtain out n where out: "protect_events env None ?en evs v = ((out, n, []), v)" "length out = length evs"
    "\<forall>i < length evs. is_obj (evs ! i) \<longrightarrow> (\<forall>r \<in> set ?en. effective r (out ! i))"
    using protect_events_strict[OF assms(2), of env None evs v] by blast
  show ?thesis
  proof (cases "evs = [] \<or> ?en = []")
    case True
    then have "protect_batch env sid evs rules eph v = (Inr (bare_result evs), v)"
      by (auto simp: protect_batch_def Let_def map_idI)
    with True show ?thesis by (auto simp: bare_result_def)
  next
    case False
    then have "protect_batch env sid evs rules eph v =
      (Inr \<lparr>pr_events = out, pr_masked = n, pr_rules_applied = length ?en, pr_warnings = [],
            pr_token_items = 0, pr_token_hits = 0, pr_token_created = 0\<rparr>, v)"
      using assms(1) out(1) no_tok by (simp add: protect_batch_def Let_def)
    then show ?thesis using out(2,3) by simp
  qed
qed


definition sample_env :: protect_env where
  "sample_env = \<lparr>pe_enabled = True, pe_hash_salt = [], pe_vault_salt = [], pe_hmac = (\<lambda>_ s. rev s),
     pe_sha = id, pe_now = 0, pe_race = (\<lambda>_. []), pe_db = True\<rparr>"

definition sample_rule :: "string \<Rightarrow> string \<Rightarrow> prot_rule" where
  "sample_rule path mode = \<lparr>pru_stream = 1, pru_path = path, pru_mode = mode, pru_class = None,
     pru_enabled = True, pru_id = Some 1\<rparr>"

definition sample_event :: json where
  "sample_event = JObj [(''user'', JObj [(''ssn'', JStr ''123-45''), (''name'', JStr ''ann'')]),
     (''items'', JList [JObj [(''pin'', JInt 7)], JInt 3]), (''ok'', JBool True)]"


lemma protect_batch_objs:
  assumes "protect_batch env sid evs rules eph v = (Inr res, v')"
    and "\<forall>r \<in> set (active_rules rules eph). take 1 (parse_field_path_segments (pru_path r)) \<noteq> [k]"
  shows "length (pr_events res) = length evs \<and>
    (\<forall>i < length evs. if is_obj (evs ! i)
       then is_obj (pr_events res ! i) \<and> dict_get (obj_of (pr_events res ! i)) k = dict_get (obj_of (evs ! i)) k
       else pr_events res ! i = evs ! i)"
proof -
  have "pr_events res = evs \<or>
      (\<exists>tm w n ws v2. protect_events env tm (active_rules rules eph) evs w = ((pr_events res, n, ws), v2))"
    using assms(1)
    by (auto simp: protect_batch_def bare_result_def Let_def map_idI
        split: if_splits prod.splits sum.splits)
  then show ?thesis
  proof
    assume "\<exists>tm w n ws v2. protect_events env tm (active_rules rules eph) evs w = ((pr_events res, n, ws), v2)"
    then show ?thesis using protect_events_frame[OF _ assms(2)] by blast
  qed auto
qed

text \<open>Protection is confined to what the rules name: for every rule set and every mode,
  including rules that fail half-way, the events keep their number, order and kind, and a
  top-level field that no enabled rule's path starts with is delivered unchanged.\<close>

theorem protect_batch_frame:
  assumes "protect_batch env sid evs rules eph v = (Inr res, v')"
    and "\<forall>r \<in> set (active_rules rules eph). take 1 (parse_field_path_segments (pru_path r)) \<noteq> [k]"
  shows "length (pr_events res) = length evs \<and>
    (\<forall>i < length evs. if is_obj (evs ! i)
       then is_obj (pr_events res ! i) \<and> dict_get (obj_of (pr_events res ! i)) k = dict_get (obj_of (evs ! i)) k
       else pr_events res ! i = evs ! i)"
  using assms by (rule protect_batch_objs)

theorem protect_batch_frame_witness:
  "fst (protect_batch sample_env 1 [sample_event] [sample_rule ''$.user.ssn'' ''hash'', sample_rule ''$.ok[]'' ''bogus''] [] empty_vault)
     = Inr \<lparr>pr_events = [JObj [(''user'', JObj [(''ssn'', JStr ''sha256:54-321''), (''name'', JStr ''ann'')]),
              (''items'', JList [JObj [(''pin'', JInt 7)], JInt 3]), (''ok'', JBool True)]],
            pr_masked = 1, pr_rules_applied = 2, pr_warnings = [], pr_token_items = 0,
            pr_token_hits = 0, pr_token_created = 0\<rparr>
   \<and> dict_get (obj_of (pr_events (projr (fst (protect_batch sample_env 1 [sample_event]
        [sample_rule ''$.user.ssn'' ''hash'', sample_rule ''$.ok[]'' ''bogus''] [] empty_vault))) ! 0)) ''items''
     = dict_get (obj_of sample_event) ''items''"
proof -
  let ?rules = "[sample_rule ''$.user.ssn'' ''hash'', sample_rule ''$.ok[]'' ''bogus'']"
  let ?b = "protect_batch sample_env 1 [sample_event] ?rules [] empty_vault"
  have run: "fst ?b = Inr \<lparr>pr_events = [JObj [(''user'', JObj [(''ssn'', JStr ''sha256:54-321''), (''name'', JStr ''ann'')]),
              (''items'', JList [JObj [(''pin'', JInt 7)], JInt 3]), (''ok'', JBool True)]],
            pr_masked = 1, pr_rules_applied = 2, pr_warnings = [], pr_token_items = 0,
            pr_token_hits = 0, pr_token_created = 0\<rparr>" (is "_ = Inr ?res")
    by code_simp
  then have b: "?b = (Inr ?res, snd ?b)" by (metis prod.collapse)
  have "take 1 (parse_field_path_segments ''$.user.ssn'') = [''user'']" "take 1 (parse_field_path_segments ''$.ok[]'') = [''ok'']"
    by code_simp+
  then have names: "\<forall>r \<in> set (active_rules ?rules []). take 1 (parse_field_path_segments (pru_path r)) \<noteq> [''items'']"
    by (simp add: active_rules_def sample_rule_def)
  from protect_batch_frame[OF b names]
  have "dict_get (obj_of (pr_events ?res ! 0)) ''items'' = dict_get (obj_of sample_event) ''items''"
    by (simp add: sample_event_def)
  with run show ?thesis by (simp only: sum.sel simp_thms)
qed

text \<open>A masking rule does to an event exactly what its mode does to the values at its path:
  every such value is replaced by its masked form, in place and in order, nothing else in the
  event changes, and the reported count is the number of values.\<close>

theorem mask_rule_exact:
  assumes "pure_mode env (pru_mode r) (pru_stream r) = Some g"
    and "parse_field_path_segments (pru_path r) = segs" "segs \<noteq> []"
  shows "\<exists>ev'. apply_rule_to_event env tm r ev v = ((ev', length (collect_at_segments segs ev), None), v) \<and>
    collect_at_segments segs ev' = map g (collect_at_segments segs ev) \<and>
    fst (drop_at_segments segs ev') = fst (drop_at_segments segs ev)"
  using apply_rule_pure[OF assms, of tm ev v] by (simp add: collect_map_at drop_map_at)

theorem mask_rule_exact_witness:
  "collect_at_segments [''user'', ''name'']
     (fst (fst (apply_rule_to_event sample_env None (sample_rule ''user.name'' ''full_mask'') sample_event empty_vault)))
     = [JStr ''********'']"
proof -
  have "pure_mode sample_env (pru_mode (sample_rule ''user.name'' ''full_mask'')) (pru_stream (sample_rule ''user.name'' ''full_mask''))
      = Some full_mask_value"
    by (simp add: sample_rule_def pure_mode_def)
  moreover have "parse_field_path_segments (pru_path (sample_rule ''user.name'' ''full_mask'')) = [''user'', ''name'']"
    by code_simp
  ultimately obtain ev' where "fst (fst (apply_rule_to_event sample_env None (sample_rule ''user.name'' ''full_mask'') sample_event empty_vault)) = ev'"
    "collect_at_segments [''user'', ''name''] ev' = map full_mask_value (collect_at_segments [''user'', ''name''] sample_event)"
    using mask_rule_exact[of sample_env "sample_rule ''user.name'' ''full_mask''" full_mask_value "[''user'', ''name'']" None sample_event empty_vault]
    by force
  moreover have "collect_at_segments [''user'', ''name''] sample_event = [JStr ''ann'']" by code_simp
  ultimately show ?thesis by (simp add: full_mask_value_def mask_literal_def)
qed

text \<open>Field paths round-trip: a path printed from plain segments (names without dots or
  brackets, and list markers) is parsed back to exactly those segments.\<close>

theorem field_path_roundtrip:
  assumes "list_all plain_segment segs"
  shows "parse_field_path_segments (render_segments segs) = segs"
  using assms by (rule parse_rendered)

theorem field_path_roundtrip_witness:
  "parse_field_path_segments ''$.a.b[][].c'' = [''a'', ''b'', ''[]'', ''[]'', ''c'']"
  using field_path_roundtrip[of "[''a'', ''b'', ''[]'', ''[]'', ''c'']"]
  by (simp add: plain_segment_def render_segments_def)

text \<open>A rule whose path ends in a list marker protects nothing: in every mode, \<open>drop_field\<close>
  included, the event leaves as it came, the count is 0 and no warning is given. The
  detectors emit such paths for arrays of scalars.\<close>

theorem trailing_list_rule_is_inert:
  assumes "parse_field_path_segments (pru_path r) = segs @ [''[]'']"
  shows "apply_rule_to_event env tm r ev v = ((ev, 0, None), v)"
  using assms by (simp add: apply_rule_to_event_def Let_def trailing_list_apply trailing_list_drop)

theorem trailing_list_rule_is_inert_witness:
  "apply_rule_to_event sample_env None (sample_rule ''$.tags[]'' ''full_mask'')
     (JObj [(''tags'', JList [JStr ''secret''])]) empty_vault
   = ((JObj [(''tags'', JList [JStr ''secret''])], 0, None), empty_vault)"
proof -
  have "parse_field_path_segments (pru_path (sample_rule ''$.tags[]'' ''full_mask'')) = [''tags''] @ [''[]'']"
    by code_simp
  then show ?thesis by (rule trailing_list_rule_is_inert)
qed

section \<open>Steps that fail\<close>

text \<open>Where the step fails on every value at the path, the event stays as it was: the exception
  becomes a warning.\<close>

lemma apply_items_failing:
  "\<forall>x \<in> set xs. \<exists>r. f x s = ((x, r), s) \<Longrightarrow> \<exists>r. apply_items f xs s = ((xs, r), s)"
proof (induction xs)
  case (Cons x xs)
  then obtain r q where r: "f x s = ((x, r), s)" and q: "apply_items f xs s = ((xs, q), s)" by auto
  show ?case by (cases r; cases q) (simp_all add: r q)
qed simp

lemma apply_failing:
  "\<forall>v \<in> set (collect_at_segments segs node). \<exists>e. leaf v s = (Inl e, s) \<Longrightarrow>
   \<exists>r. apply_at_segments leaf segs node s = ((node, r), s)"
proof (induction segs arbitrary: node)
  case (Cons seg rest)
  show ?case
  proof (cases "seg = ''[]''")
    case True
    show ?thesis
    proof (cases node)
      case (JList xs)
      have "\<exists>r. apply_at_segments leaf rest x s = ((x, r), s)" if "x \<in> set xs" for x
        using Cons.IH[of x] Cons.prems that True JList by (simp add: collect_list)
      then have "\<exists>r. apply_items (\<lambda>x t. apply_at_segments leaf rest x t) xs s = ((xs, r), s)"
        by (intro apply_items_failing) blast
      with True JList show ?thesis by (auto simp: segment_defs)
    qed (use True in \<open>simp_all add: segment_defs\<close>)
  next
    case False
    show ?thesis
    proof (cases node)
      case (JObj kvs)
      show ?thesis
      proof (cases "rest = []")
        case True
        with False JObj Cons.prems show ?thesis
          by (auto simp: apply_leaf collect_leaf split: option.splits)
      next
        case nonempty: False
        show ?thesis
        proof (cases "dict_get kvs seg")
          case None
          with False nonempty JObj show ?thesis by (simp add: apply_field)
        next
          case (Some c)
          then have "\<exists>r. apply_at_segments leaf rest c s = ((c, r), s)"
            using Cons.IH[of c] Cons.prems False nonempty JObj by (simp add: collect_field)
          with Some False nonempty JObj show ?thesis by (auto simp: apply_field)
        qed
      qed
    qed (use False in \<open>simp_all add: segment_defs\<close>)
  qed
qed simp

definition raw_text :: "json \<Rightarrow> bool" where
  "raw_text v = (case v of JStr s \<Rightarrow> py_strip s \<noteq> [] | _ \<Rightarrow> False)"

lemma token_rule_fails:
  assumes "\<not> pe_db env" "pru_mode r = ''tokenization''"
    and "\<forall>v \<in> set (collect_at_segments (parse_field_path_segments (pru_path r)) ev). raw_text v"
  shows "\<exists>n w. apply_rule_to_event env None r ev v = ((ev, n, w), v)"
proof -
  let ?leaf = "apply_protection_mode env (pru_mode r) (pru_stream r) (pru_path r) None"
  have "\<exists>e. ?leaf x v = (Inl e, v)" if "raw_text x" for x
    using that assms(1,2)
    by (cases x) (simp_all add: raw_text_def apply_protection_mode_def tokenize_value_def Let_def)
  with assms(3) have "\<exists>q. apply_at_segments ?leaf (parse_field_path_segments (pru_path r)) ev v = ((ev, q), v)"
    by (intro apply_failing) blast
  then obtain q where q: "apply_at_segments ?leaf (parse_field_path_segments (pru_path r)) ev v = ((ev, q), v)" by blast
  show ?thesis using assms(2) q by (cases q) (simp_all add: apply_rule_to_event_def Let_def)
qed

lemma token_rules_fail:
  assumes "\<not> pe_db env"
  shows "\<forall>r \<in> set rules. pru_mode r = ''tokenization'' \<and>
     (\<forall>v \<in> set (collect_at_segments (parse_field_path_segments (pru_path r)) ev). raw_text v) \<Longrightarrow>
   \<exists>n ws. apply_rules env None rules ev v = ((ev, n, ws), v)"
proof (induction rules)
  case (Cons r rules)
  obtain n w where "apply_rule_to_event env None r ev v = ((ev, n, w), v)"
    using token_rule_fails[OF assms, of r ev v] Cons.prems by auto
  moreover obtain m ws where "apply_rules env None rules ev v = ((ev, m, ws), v)"
    using Cons.IH Cons.prems by auto
  ultimately show ?case by simp
qed simp

lemma protect_batch_sessionless:
  assumes "\<not> pe_db env"
    and "\<forall>r \<in> set (active_rules rules eph). pru_mode r = ''tokenization''"
    and "\<forall>e \<in> set evs. \<forall>r \<in> set (active_rules rules eph).
           \<forall>v \<in> set (collect_at_segments (parse_field_path_segments (pru_path r)) e). raw_text v"
  shows "\<exists>res. protect_batch env sid evs rules eph v = (Inr res, v) \<and> pr_events res = evs"
proof -
  let ?en = "active_rules rules eph"
  have "\<exists>n ws. protect_events env None ?en evs v = ((evs, n, ws), v)"
    using assms(3)
  proof (induction evs)
    case (Cons e evs)
    obtain n ws where "apply_rules env None ?en e v = ((e, n, ws), v)"
      using token_rules_fail[OF assms(1), of ?en e v] assms(2) Cons.prems by auto
    moreover obtain m us where "protect_events env None ?en evs v = ((evs, m, us), v)"
      using Cons.IH Cons.prems by auto
    ultimately show ?case by simp
  qed simp
  then show ?thesis
    using assms(1) by (auto simp: protect_batch_def bare_result_def Let_def map_idI)
qed

end
