(* ===== verification/Drift_Policy.thy ===== *)
theory Drift_Policy
  imports Classification Protection_Engine Stream_Dedup
begin

text \<open>
  \<open>app/schema_drift_policy\<close>: what happens to fields the schema has not seen. From the open
  drift findings of a stream, the paths of the enriched batch and the detected sensitive
  paths, the orchestrator picks one action for the batch and derives protection rules for
  this batch only, a quarantine gate or a review gate. The findings and the paths of the
  persisted rules come from the database and are parameters.
\<close>

section \<open>Configuration\<close>

datatype drift_action = Noop | Pass_Through | Require_Review | Drop_Field | Auto_Protect | Quarantine_Batch

record drift_config =
  dp_normal :: drift_action
  dp_sensitive :: drift_action

definition drift_text :: "json option \<Rightarrow> string" where
  "drift_text v = (case v of None \<Rightarrow> [] | Some JNull \<Rightarrow> [] | Some x \<Rightarrow> py_strip (py_str x))"

definition normalize_normal :: "json option \<Rightarrow> drift_action" where
  "normalize_normal v =
     (let raw = drift_text v
      in if raw = ''require_review'' then Require_Review
         else if raw = ''drop_field'' then Drop_Field
         else if raw = ''quarantine'' then Quarantine_Batch
         else Pass_Through)"

definition normalize_sensitive :: "json option \<Rightarrow> drift_action" where
  "normalize_sensitive v =
     (let raw = drift_text v
      in if raw = ''require_review'' then Require_Review
         else if raw = ''drop_field'' then Drop_Field
         else if raw = ''quarantine'' then Quarantine_Batch
         else Auto_Protect)"

definition normalize_schema_drift_policy :: "event \<Rightarrow> drift_config" where
  "normalize_schema_drift_policy doc =
     \<lparr>dp_normal = normalize_normal (dict_get doc ''unknown_normal_field_policy''),
      dp_sensitive = normalize_sensitive (dict_get doc ''unknown_sensitive_field_policy'')\<rparr>"

definition load_schema_drift_policy :: "event option \<Rightarrow> drift_config" where
  "load_schema_drift_policy config_json =
     (let dflt = \<lparr>dp_normal = Pass_Through, dp_sensitive = Auto_Protect\<rparr>;
          root = (case config_json of None \<Rightarrow> [] | Some c \<Rightarrow> c)
      in case dict_get root ''governance'' of
           Some (JObj governance) \<Rightarrow>
             (case dict_get governance ''schema_drift_policy'' of
                Some (JObj raw) \<Rightarrow> normalize_schema_drift_policy raw
              | _ \<Rightarrow> dflt)
         | _ \<Rightarrow> dflt)"

section \<open>Paths\<close>

definition normalize_protection_json_path :: "string \<Rightarrow> string" where
  "normalize_protection_json_path path =
     (let trimmed = py_strip path
      in if trimmed = [] then [] else if py_startswith trimmed ''$'' then trimmed else ''$.'' @ trimmed)"

text \<open>The substitution of \<open>\[\d+\]\<close> by nothing.\<close>

function strip_indexes :: "string \<Rightarrow> string" where
  "strip_indexes [] = []"
| "strip_indexes (c # cs) =
     (let ds = takeWhile py_isdigit cs; rest = dropWhile py_isdigit cs
      in if c = CHR ''['' \<and> ds \<noteq> [] \<and> take 1 rest = '']'' then strip_indexes (drop 1 rest)
         else c # strip_indexes cs)"
  by pat_completeness auto

termination
  by (relation "measure length") (auto simp: le_imp_less_Suc length_dropWhile_le less_Suc_eq_le
      intro: le_trans[OF diff_le_self])

definition leaf_segment :: "string \<Rightarrow> string" where
  "leaf_segment field_path =
     (let normalized = normalize_protection_json_path field_path;
          leaf = last (split_on (CHR ''.'') normalized)
      in py_lower (filter (\<lambda>c. c \<noteq> CHR ''$'') (strip_indexes leaf)))"

text \<open>\<open>flatten_field_paths\<close> of \<open>app/runtime/response_analysis.py\<close>: fields of nested objects,
  lists as a whole, at most \<open>mf\<close> paths and \<open>md\<close> levels.\<close>

fun flat_walk :: "nat \<Rightarrow> nat \<Rightarrow> string list \<Rightarrow> string \<Rightarrow> nat \<Rightarrow> json \<Rightarrow> string list"
  and flat_fields :: "nat \<Rightarrow> nat \<Rightarrow> string list \<Rightarrow> string \<Rightarrow> nat \<Rightarrow> (string \<times> json) list \<Rightarrow> string list" where
  "flat_walk mf md out path depth v =
     (if length out \<ge> mf \<or> depth > md then out
      else
        (let out1 = (if path \<noteq> [] \<and> path \<noteq> ''$'' then out @ [path] else out)
         in case v of
              JObj kvs \<Rightarrow> flat_fields mf md out1 path depth kvs
            | _ \<Rightarrow> out1))"
| "flat_fields mf md out path depth [] = out"
| "flat_fields mf md out path depth ((k, v) # rest) =
     (if length out \<ge> mf then out
      else
        (let next_path = (if path = ''$'' then ''$.'' @ k else path @ ''.'' @ k)
         in flat_fields mf md (flat_walk mf md out next_path (depth + 1) v) path depth rest))"

definition flatten_field_paths :: "nat \<Rightarrow> nat \<Rightarrow> json \<Rightarrow> string list" where
  "flatten_field_paths mf md obj = (if is_obj obj then flat_walk mf md [] ''$'' 0 obj else [])"

text \<open>The Python set of paths, as a list without repetitions.\<close>

definition collect_enriched_field_paths :: "nat \<Rightarrow> nat \<Rightarrow> json list \<Rightarrow> string list" where
  "collect_enriched_field_paths mf md events =
     remdups (filter (\<lambda>p. p \<noteq> [])
       (map normalize_protection_json_path (concat (map (flatten_field_paths mf md) (filter is_obj events)))))"

definition path_exists_on_event :: "jsonpath_engine \<Rightarrow> event \<Rightarrow> string \<Rightarrow> bool" where
  "path_exists_on_event jp ev field_path =
     (let normalized = normalize_protection_json_path field_path
      in if normalized = [] \<or> normalized = ''$'' then False
         else (case extract_one jp ev (Some normalized) of
                 None \<Rightarrow> False | Some v \<Rightarrow> v \<noteq> JNull))"

definition path_exists_in_batch :: "jsonpath_engine \<Rightarrow> json list \<Rightarrow> string \<Rightarrow> bool" where
  "path_exists_in_batch jp events field_path =
     list_ex (\<lambda>e. is_obj e \<and> path_exists_on_event jp (obj_of e) field_path) events"

record mapping_rule =
  mr_output :: string
  mr_source :: string
  mr_transforms :: "string list"

fun first_truthy :: "event \<Rightarrow> string list \<Rightarrow> string" where
  "first_truthy d [] = []"
| "first_truthy d (k # ks) =
     (case dict_get d k of None \<Rightarrow> first_truthy d ks
      | Some v \<Rightarrow> if truthy v then py_str v else first_truthy d ks)"

definition parse_mapping_rule :: "string \<Rightarrow> json \<Rightarrow> mapping_rule option" where
  "parse_mapping_rule output_field raw =
     (case raw of
        JStr s \<Rightarrow> (if py_strip s = [] then None
                   else Some \<lparr>mr_output = output_field, mr_source = py_strip s, mr_transforms = []\<rparr>)
      | JObj d \<Rightarrow>
          (let path = py_strip (first_truthy d [''source_json_path'', ''json_path'', ''path''])
           in if path = [] then None
              else Some \<lparr>mr_output = output_field, mr_source = path,
                         mr_transforms = (case dict_get d ''transforms'' of
                                            Some (JList ts) \<Rightarrow> map py_str ts | _ \<Rightarrow> [])\<rparr>)
      | _ \<Rightarrow> None)"

definition normalize_field_mappings :: "string list \<Rightarrow> event \<Rightarrow> mapping_rule list" where
  "normalize_field_mappings meta_keys fm =
     List.map_filter (\<lambda>(k, raw). if k \<in> set meta_keys \<or> k = ''transform_rules'' \<or> py_startswith k ''_'' then None
                                 else parse_mapping_rule k raw) fm"

definition build_protection_path_alias_map :: "string list \<Rightarrow> event \<Rightarrow> event \<Rightarrow> (string, string) dict" where
  "build_protection_path_alias_map meta_keys fm enrichment =
     (let a0 = foldl (\<lambda>a r. let source = normalize_protection_json_path (mr_source r);
                               output = normalize_protection_json_path (mr_output r)
                           in if source \<noteq> [] \<and> output \<noteq> [] then dict_set source output a else a)
                 [] (normalize_field_mappings meta_keys fm)
      in foldl (\<lambda>a (k, raw).
            (let target = normalize_protection_json_path (py_strip k)
             in if py_strip k = [] \<or> target = [] then a
                else (case raw of
                        JObj d \<Rightarrow>
                          (let src = py_strip (first_truthy d [''source_field'', ''normalize_source_field''])
                           in if src \<noteq> [] then dict_set (normalize_protection_json_path src) target a else a)
                      | JStr s \<Rightarrow> (if py_strip s \<noteq> []
                                   then dict_set (normalize_protection_json_path (py_strip s)) target a else a)
                      | _ \<Rightarrow> a))) a0 enrichment)"

datatype path_resolve = Resolved string | Required | Ambiguous string "string list" | Missing string

definition resolve_protection_field_path ::
    "string \<Rightarrow> string list \<Rightarrow> (string, string) dict \<Rightarrow> path_resolve" where
  "resolve_protection_field_path selected runtime_paths alias =
     (let normalized = normalize_protection_json_path selected;
          path_set = remdups (map normalize_protection_json_path runtime_paths)
      in if normalized = [] then Required
         else if normalized \<in> set path_set then Resolved normalized
         else (case dict_get alias normalized of
                 Some a \<Rightarrow> if a \<noteq> [] \<and> a \<in> set path_set then Resolved a
                           else (let leafs = filter (\<lambda>p. leaf_segment p = leaf_segment normalized) path_set
                                 in if length leafs = 1 then Resolved (hd leafs)
                                    else if leafs \<noteq> [] then Ambiguous normalized leafs
                                    else Missing normalized)
               | None \<Rightarrow> (let leafs = filter (\<lambda>p. leaf_segment p = leaf_segment normalized) path_set
                          in if length leafs = 1 then Resolved (hd leafs)
                             else if leafs \<noteq> [] then Ambiguous normalized leafs
                             else Missing normalized)))"

section \<open>The orchestrator\<close>

record open_drift =
  od_id :: int
  od_category :: string
  od_path :: string

record unknown_field =
  uf_extracted :: string
  uf_enriched :: string
  uf_drift_id :: int
  uf_sensitive :: bool
  uf_class :: "string option"
  uf_policy :: drift_action

record drift_result =
  dr_enabled :: bool
  dr_batch_action :: drift_action
  dr_unknown :: "unknown_field list"
  dr_unresolved :: "string list"
  dr_should_quarantine :: bool
  dr_quarantine_type :: "string option"
  dr_review :: "unknown_field list"
  dr_ephemeral :: "prot_rule list"

definition new_drift_result :: "bool \<Rightarrow> drift_result" where
  "new_drift_result en =
     \<lparr>dr_enabled = en, dr_batch_action = Noop, dr_unknown = [], dr_unresolved = [],
      dr_should_quarantine = False, dr_quarantine_type = None, dr_review = [], dr_ephemeral = []\<rparr>"

definition auto_protect_mode_for_class :: "string option \<Rightarrow> string" where
  "auto_protect_mode_for_class cls =
     (case cls of
        None \<Rightarrow> ''partial_mask''
      | Some c \<Rightarrow> if py_strip c = ''secret'' then ''full_mask'' else ''partial_mask'')"

definition finding_str :: "event \<Rightarrow> string \<Rightarrow> string" where
  "finding_str f k = (case dict_get f k of None \<Rightarrow> [] | Some v \<Rightarrow> if truthy v then py_strip (py_str v) else [])"

text \<open>\<open>_sensitive_paths_from_context\<close>: the class of a path, \<open>[]\<close> for none.\<close>

definition sensitive_paths :: "json list option \<Rightarrow> (string, string) dict" where
  "sensitive_paths ctx_findings =
     (case ctx_findings of None \<Rightarrow> []
      | Some fs \<Rightarrow>
          foldl (\<lambda>out item.
             case item of
               JObj f \<Rightarrow>
                 (let path = finding_str f ''field_path''; cls = finding_str f ''sensitivity_class''
                  in if path = [] then out
                     else dict_set path (if cls \<noteq> [] then cls
                                         else (case dict_get out path of None \<Rightarrow> [] | Some c \<Rightarrow> c)) out)
             | _ \<Rightarrow> out) [] fs)"

definition index_aliases :: "(string, string) dict \<Rightarrow> (string, string) dict \<Rightarrow> (string, string) dict" where
  "index_aliases alias sens =
     foldl (\<lambda>m (src, cls).
        case dict_get alias src of
          Some a \<Rightarrow> if a \<noteq> [] \<and> \<not> dict_has m a then dict_set a cls m else m
        | None \<Rightarrow> m) sens sens"

definition action_strength :: "drift_action \<Rightarrow> nat" where
  "action_strength a =
     (case a of Drop_Field \<Rightarrow> 1 | Auto_Protect \<Rightarrow> 1 | Quarantine_Batch \<Rightarrow> 2 | _ \<Rightarrow> 0)"

definition resolve_batch_action :: "drift_action \<Rightarrow> drift_action \<Rightarrow> bool \<Rightarrow> bool \<Rightarrow> drift_action" where
  "resolve_batch_action normal sensitive has_normal has_sensitive =
     (let actions = (if has_normal then [(action_strength normal, normal, False)] else []) @
                    (if has_sensitive then [(action_strength sensitive, sensitive, True)] else [])
      in if actions = [] then Noop
         else
           (let top = Max (set (map fst actions));
                strongest = filter (\<lambda>a. fst a = top) actions;
                sens_first = filter (\<lambda>a. snd (snd a)) strongest
            in if length strongest = 1 then fst (snd (hd strongest))
               else if sens_first \<noteq> [] then fst (snd (hd sens_first))
               else fst (snd (hd strongest))))"

text \<open>The first loop: each finding to an unknown field of the batch, or unresolved.\<close>

definition match_drift ::
    "jsonpath_engine \<Rightarrow> json list \<Rightarrow> string list \<Rightarrow> (string, string) dict \<Rightarrow> (string, string) dict \<Rightarrow> drift_config \<Rightarrow>
     unknown_field list \<times> string list \<Rightarrow> open_drift \<Rightarrow> unknown_field list \<times> string list" where
  "match_drift jp events runtime_paths alias sens cfg acc d =
     (let extracted = py_strip (od_path d)
      in if extracted = [] then acc
         else (case resolve_protection_field_path extracted runtime_paths alias of
                 Resolved p \<Rightarrow>
                   (if \<not> path_exists_in_batch jp events p then acc
                    else (fst acc @ [\<lparr>uf_extracted = extracted, uf_enriched = p, uf_drift_id = od_id d,
                                      uf_sensitive = dict_has sens p, uf_class = dict_get sens p,
                                      uf_policy = (if dict_has sens p then dp_sensitive cfg else dp_normal cfg)\<rparr>],
                          snd acc))
               | _ \<Rightarrow> (fst acc, snd acc @ [extracted])))"

definition ephemeral_rule :: "int \<Rightarrow> unknown_field \<Rightarrow> string \<Rightarrow> prot_rule" where
  "ephemeral_rule stream_id u mode =
     \<lparr>pru_stream = stream_id, pru_path = uf_enriched u, pru_mode = mode, pru_class = uf_class u,
      pru_enabled = True, pru_id = None\<rparr>"

definition apply_schema_drift_policy_to_batch ::
    "jsonpath_engine \<Rightarrow> nat \<Rightarrow> nat \<Rightarrow> string list \<Rightarrow> bool \<Rightarrow> bool \<Rightarrow> int \<Rightarrow> event option \<Rightarrow> event \<Rightarrow> event \<Rightarrow>
     open_drift list \<Rightarrow> string list \<Rightarrow> json list \<Rightarrow> json list option \<Rightarrow> drift_result" where
  "apply_schema_drift_policy_to_batch jp mf md meta_keys enabled has_db stream_id stream_config fm enrichment
       drifts existing_paths events ctx_findings =
     (let config = load_schema_drift_policy stream_config;
          r0 = new_drift_result enabled;
          open_drifts = filter (\<lambda>d. od_category d = ''field_added'') drifts
      in if \<not> enabled \<or> \<not> has_db \<or> events = [] then r0
         else if open_drifts = [] then r0
         else
           (let runtime_paths = collect_enriched_field_paths mf md events;
                alias = build_protection_path_alias_map meta_keys fm enrichment;
                sens = index_aliases alias (sensitive_paths ctx_findings);
                (unknown, unresolved) =
                  foldl (match_drift jp events runtime_paths alias sens config) ([], []) open_drifts
            in if unknown = [] then r0\<lparr>dr_unresolved := unresolved\<rparr>
               else
                 (let action = resolve_batch_action (dp_normal config) (dp_sensitive config)
                                 (list_ex (\<lambda>u. \<not> uf_sensitive u) unknown) (list_ex uf_sensitive unknown);
                      r1 = r0\<lparr>dr_batch_action := action, dr_unknown := unknown, dr_unresolved := unresolved\<rparr>
                  in (case action of
                        Require_Review \<Rightarrow> r1\<lparr>dr_review := filter (\<lambda>u. uf_policy u = Require_Review) unknown\<rparr>
                      | Auto_Protect \<Rightarrow>
                          r1\<lparr>dr_ephemeral :=
                            map (\<lambda>u. ephemeral_rule stream_id u (auto_protect_mode_for_class (uf_class u)))
                              (filter (\<lambda>u. uf_sensitive u \<and> dp_sensitive config = Auto_Protect \<and>
                                           uf_enriched u \<notin> set existing_paths) unknown)\<rparr>
                      | Drop_Field \<Rightarrow>
                          r1\<lparr>dr_ephemeral :=
                            map (\<lambda>u. ephemeral_rule stream_id u ''drop_field'')
                              (filter (\<lambda>u. uf_policy u = Drop_Field \<and> uf_enriched u \<notin> set existing_paths) unknown)\<rparr>
                      | Quarantine_Batch \<Rightarrow>
                          (let q0 = filter (\<lambda>u. uf_policy u = Quarantine_Batch) unknown;
                               q = (if q0 = [] then unknown else q0);
                               dominant = (case List.find uf_sensitive q of Some u \<Rightarrow> u | None \<Rightarrow> hd q)
                           in r1\<lparr>dr_should_quarantine := True,
                                 dr_quarantine_type := Some (if uf_sensitive dominant then ''unknown_sensitive''
                                                             else ''unknown_normal'')\<rparr>)
                      | _ \<Rightarrow> r1))))"

section \<open>What the orchestrator guarantees\<close>

text \<open>The value space of the two policies.\<close>

definition drift_config_ok :: "drift_config \<Rightarrow> bool" where
  "drift_config_ok c \<longleftrightarrow>
     dp_normal c \<in> {Pass_Through, Require_Review, Drop_Field, Quarantine_Batch} \<and>
     dp_sensitive c \<in> {Auto_Protect, Require_Review, Drop_Field, Quarantine_Batch}"

lemma load_schema_drift_policy_ok: "drift_config_ok (load_schema_drift_policy c)"
  by (auto simp: drift_config_ok_def load_schema_drift_policy_def normalize_schema_drift_policy_def
      normalize_normal_def normalize_sensitive_def Let_def split: option.split json.split)

abbreviation policy_of :: "drift_config \<Rightarrow> unknown_field \<Rightarrow> drift_action" where
  "policy_of c u \<equiv> (if uf_sensitive u then dp_sensitive c else dp_normal c)"

lemma match_drift_policy:
  "\<forall>u \<in> set (fst acc). uf_policy u = policy_of c u \<Longrightarrow>
     \<forall>u \<in> set (fst (match_drift jp evs ps alias sens c acc d)). uf_policy u = policy_of c u"
  by (auto simp: match_drift_def Let_def split: path_resolve.split)

lemma unknown_policy:
  "\<forall>u \<in> set (fst acc). uf_policy u = policy_of c u \<Longrightarrow>
     \<forall>u \<in> set (fst (foldl (match_drift jp evs ps alias sens c) acc ds)). uf_policy u = policy_of c u"
proof (induction ds arbitrary: acc)
  case (Cons d ds)
  show ?case using Cons.IH[OF match_drift_policy[OF Cons.prems]] by simp
qed simp

text \<open>The action of a batch with unknown fields, by the policies of the fields it has.\<close>

lemma resolve_action_quarantine:
  assumes "drift_config_ok c" "us \<noteq> []"
  shows "resolve_batch_action (dp_normal c) (dp_sensitive c) (list_ex (\<lambda>u. \<not> uf_sensitive u) us) (list_ex uf_sensitive us)
           = Quarantine_Batch
         \<longleftrightarrow> (\<exists>u \<in> set us. policy_of c u = Quarantine_Batch)"
proof -
  have "list_ex (\<lambda>u. \<not> uf_sensitive u) us \<or> list_ex uf_sensitive us"
    using assms(2) by (cases us) auto
  moreover have "(\<exists>u \<in> set us. policy_of c u = Quarantine_Batch) \<longleftrightarrow>
      (list_ex (\<lambda>u. \<not> uf_sensitive u) us \<and> dp_normal c = Quarantine_Batch) \<or>
      (list_ex uf_sensitive us \<and> dp_sensitive c = Quarantine_Batch)"
    by (auto simp: list_ex_iff)
  ultimately show ?thesis
    using assms(1)
    by (cases "list_ex (\<lambda>u. \<not> uf_sensitive u) us"; cases "list_ex uf_sensitive us")
      (auto simp: drift_config_ok_def resolve_batch_action_def action_strength_def Let_def)
qed

text \<open>The result of a batch that has unknown fields.\<close>

lemma drift_result_cases:
  assumes "r = apply_schema_drift_policy_to_batch jp mf md mk en db sid sc fm enr drifts existing evs fs"
    and "dr_unknown r \<noteq> []"
  defines "c \<equiv> load_schema_drift_policy sc"
  shows "\<forall>u \<in> set (dr_unknown r). uf_policy u = policy_of c u"
    and "dr_batch_action r = resolve_batch_action (dp_normal c) (dp_sensitive c)
           (list_ex (\<lambda>u. \<not> uf_sensitive u) (dr_unknown r)) (list_ex uf_sensitive (dr_unknown r))"
    and "dr_should_quarantine r \<longleftrightarrow> dr_batch_action r = Quarantine_Batch"
    and "dr_review r = (if dr_batch_action r = Require_Review
           then filter (\<lambda>u. uf_policy u = Require_Review) (dr_unknown r) else [])"
    and "dr_ephemeral r =
           (if dr_batch_action r = Auto_Protect then
              map (\<lambda>u. ephemeral_rule sid u (auto_protect_mode_for_class (uf_class u)))
                (filter (\<lambda>u. uf_sensitive u \<and> dp_sensitive c = Auto_Protect \<and> uf_enriched u \<notin> set existing) (dr_unknown r))
            else if dr_batch_action r = Drop_Field then
              map (\<lambda>u. ephemeral_rule sid u ''drop_field'')
                (filter (\<lambda>u. uf_policy u = Drop_Field \<and> uf_enriched u \<notin> set existing) (dr_unknown r))
            else [])"
proof -
  define al where "al = build_protection_path_alias_map mk fm enr"
  define open_drifts where "open_drifts = filter (\<lambda>d. od_category d = ''field_added'') drifts"
  define acc where "acc = foldl (match_drift jp evs (collect_enriched_field_paths mf md evs) al
      (index_aliases al (sensitive_paths fs)) c) ([], []) open_drifts"
  define act where "act = resolve_batch_action (dp_normal c) (dp_sensitive c)
      (list_ex (\<lambda>u. \<not> uf_sensitive u) (fst acc)) (list_ex uf_sensitive (fst acc))"
  have run: "en" "db" "evs \<noteq> []" "open_drifts \<noteq> []" "fst acc \<noteq> []"
    using assms(1,2)
    by (auto simp: apply_schema_drift_policy_to_batch_def Let_def new_drift_result_def case_prod_beta
        acc_def al_def open_drifts_def c_def split: if_splits)
  let ?r1 = "(new_drift_result en)\<lparr>dr_batch_action := act, dr_unknown := fst acc, dr_unresolved := snd acc\<rparr>"
  have r: "r = (case act of
      Require_Review \<Rightarrow> ?r1\<lparr>dr_review := filter (\<lambda>u. uf_policy u = Require_Review) (fst acc)\<rparr>
    | Auto_Protect \<Rightarrow> ?r1\<lparr>dr_ephemeral := map (\<lambda>u. ephemeral_rule sid u (auto_protect_mode_for_class (uf_class u)))
        (filter (\<lambda>u. uf_sensitive u \<and> dp_sensitive c = Auto_Protect \<and> uf_enriched u \<notin> set existing) (fst acc))\<rparr>
    | Drop_Field \<Rightarrow> ?r1\<lparr>dr_ephemeral := map (\<lambda>u. ephemeral_rule sid u ''drop_field'')
        (filter (\<lambda>u. uf_policy u = Drop_Field \<and> uf_enriched u \<notin> set existing) (fst acc))\<rparr>
    | Quarantine_Batch \<Rightarrow>
        (let q0 = filter (\<lambda>u. uf_policy u = Quarantine_Batch) (fst acc);
             q = (if q0 = [] then fst acc else q0);
             dominant = (case List.find uf_sensitive q of Some u \<Rightarrow> u | None \<Rightarrow> hd q)
         in ?r1\<lparr>dr_should_quarantine := True,
               dr_quarantine_type := Some (if uf_sensitive dominant then ''unknown_sensitive'' else ''unknown_normal'')\<rparr>)
    | _ \<Rightarrow> ?r1)"
    using assms(1) run
    unfolding apply_schema_drift_policy_to_batch_def Let_def act_def acc_def al_def open_drifts_def c_def
    by (simp add: case_prod_beta)
  have u: "dr_unknown r = fst acc" and b: "dr_batch_action r = act"
    and q: "dr_should_quarantine r \<longleftrightarrow> act = Quarantine_Batch"
    unfolding r by (cases act; simp add: Let_def new_drift_result_def)+
  show "\<forall>u \<in> set (dr_unknown r). uf_policy u = policy_of c u"
    unfolding u acc_def by (rule unknown_policy) simp
  show "dr_batch_action r = resolve_batch_action (dp_normal c) (dp_sensitive c)
      (list_ex (\<lambda>u. \<not> uf_sensitive u) (dr_unknown r)) (list_ex uf_sensitive (dr_unknown r))"
    unfolding u b act_def ..
  show "dr_should_quarantine r \<longleftrightarrow> dr_batch_action r = Quarantine_Batch" unfolding b q ..
  show "dr_review r = (if dr_batch_action r = Require_Review
      then filter (\<lambda>u. uf_policy u = Require_Review) (dr_unknown r) else [])"
    unfolding b u unfolding r by (cases act) (simp_all add: Let_def new_drift_result_def)
  show "dr_ephemeral r =
      (if dr_batch_action r = Auto_Protect then
         map (\<lambda>u. ephemeral_rule sid u (auto_protect_mode_for_class (uf_class u)))
           (filter (\<lambda>u. uf_sensitive u \<and> dp_sensitive c = Auto_Protect \<and> uf_enriched u \<notin> set existing) (dr_unknown r))
       else if dr_batch_action r = Drop_Field then
         map (\<lambda>u. ephemeral_rule sid u ''drop_field'')
           (filter (\<lambda>u. uf_policy u = Drop_Field \<and> uf_enriched u \<notin> set existing) (dr_unknown r))
       else [])"
    unfolding b u unfolding r by (cases act) (simp_all add: Let_def new_drift_result_def)
qed

section \<open>Properties\<close>

text \<open>A batch with one mapped new field of each kind, used by the witnesses.\<close>

definition sample_drift_config :: "string \<Rightarrow> string \<Rightarrow> event option" where
  "sample_drift_config normal sensitive =
     Some [(''governance'', JObj [(''schema_drift_policy'',
        JObj [(''unknown_normal_field_policy'', JStr normal), (''unknown_sensitive_field_policy'', JStr sensitive)])])]"

definition sample_drift :: "string \<Rightarrow> string \<Rightarrow> drift_result" where
  "sample_drift normal sensitive =
     apply_schema_drift_policy_to_batch (\<lambda>_ _. Some [JStr ''v'']) 220 8 [] True True 1
       (sample_drift_config normal sensitive) [] []
       [\<lparr>od_id = 1, od_category = ''field_added'', od_path = ''$.a''\<rparr>,
        \<lparr>od_id = 2, od_category = ''field_added'', od_path = ''$.b''\<rparr>] []
       [JObj [(''a'', JStr ''v''), (''b'', JStr ''w'')]]
       (Some [JObj [(''field_path'', JStr ''$.b''), (''sensitivity_class'', JStr ''secret'')]])"

text \<open>A batch is quarantined for schema drift exactly when one of its unknown fields has
  the policy \<open>quarantine\<close>: the strength order never lets another field's policy hide it.\<close>

theorem drift_quarantine_exact:
  assumes "r = apply_schema_drift_policy_to_batch jp mf md mk en db sid sc fm enr drifts existing evs fs"
    and "dr_unknown r \<noteq> []"
  shows "dr_should_quarantine r \<longleftrightarrow> (\<exists>u \<in> set (dr_unknown r). uf_policy u = Quarantine_Batch)"
proof -
  note c = drift_result_cases[OF assms]
  have "(\<exists>u \<in> set (dr_unknown r). uf_policy u = Quarantine_Batch) \<longleftrightarrow>
      (\<exists>u \<in> set (dr_unknown r). policy_of (load_schema_drift_policy sc) u = Quarantine_Batch)"
    using c(1) by (intro bex_cong) auto
  then show ?thesis
    unfolding c(3,2) using resolve_action_quarantine[OF load_schema_drift_policy_ok assms(2)] by simp
qed

theorem drift_quarantine_exact_witness: "dr_should_quarantine (sample_drift ''quarantine'' ''auto_protect'')"
proof -
  have ne: "dr_unknown (sample_drift ''quarantine'' ''auto_protect'') \<noteq> []" by code_simp
  have "list_ex (\<lambda>u. uf_policy u = Quarantine_Batch) (dr_unknown (sample_drift ''quarantine'' ''auto_protect''))"
    by code_simp
  with drift_quarantine_exact[OF sample_drift_def ne] show ?thesis by (simp add: list_ex_iff)
qed



text \<open>In a mixed batch under the default sensitive policy, the policy of the normal fields is
  lost when it is \<open>drop_field\<close> or \<open>require_review\<close>: the action is \<open>auto_protect\<close>, no review is
  asked for, nothing is quarantined, and no rule of the batch is for a normal field, so the
  unknown normal fields are delivered as they came.\<close>

theorem mixed_batch_loses_normal_policy:
  assumes "r = apply_schema_drift_policy_to_batch jp mf md mk en db sid sc fm enr drifts existing evs fs"
    and "dp_normal (load_schema_drift_policy sc) \<in> {Drop_Field, Require_Review}"
    and "dp_sensitive (load_schema_drift_policy sc) = Auto_Protect"
    and "\<exists>u \<in> set (dr_unknown r). \<not> uf_sensitive u" "\<exists>u \<in> set (dr_unknown r). uf_sensitive u"
  shows "dr_batch_action r = Auto_Protect \<and> dr_review r = [] \<and> \<not> dr_should_quarantine r \<and>
    (\<forall>rule \<in> set (dr_ephemeral r). pru_mode rule \<noteq> ''drop_field'' \<and>
       (\<exists>u \<in> set (dr_unknown r). uf_sensitive u \<and> pru_path rule = uf_enriched u))"
proof -
  have ne: "dr_unknown r \<noteq> []" using assms(4) by auto
  note c = drift_result_cases[OF assms(1) ne]
  have "dr_batch_action r = Auto_Protect"
    unfolding c(2) using assms(2-5)
    by (auto simp: resolve_batch_action_def action_strength_def list_ex_iff Let_def)
  with c(3,4,5) show ?thesis
    by (auto simp: ephemeral_rule_def auto_protect_mode_for_class_def split: option.splits if_splits)
qed

theorem mixed_batch_loses_normal_policy_witness:
  "dr_batch_action (sample_drift ''drop_field'' ''auto_protect'') = Auto_Protect"
proof -
  let ?r = "sample_drift ''drop_field'' ''auto_protect''"
  have "list_ex (\<lambda>u. \<not> uf_sensitive u) (dr_unknown ?r)" "list_ex uf_sensitive (dr_unknown ?r)"
    by code_simp+
  then have kinds: "\<exists>u \<in> set (dr_unknown ?r). \<not> uf_sensitive u" "\<exists>u \<in> set (dr_unknown ?r). uf_sensitive u"
    by (simp_all add: list_ex_iff)
  have "dp_normal (load_schema_drift_policy (sample_drift_config ''drop_field'' ''auto_protect'')) \<in> {Drop_Field, Require_Review}"
    "dp_sensitive (load_schema_drift_policy (sample_drift_config ''drop_field'' ''auto_protect'')) = Auto_Protect"
    by code_simp+
  from mixed_batch_loses_normal_policy[OF sample_drift_def this kinds] show ?thesis by blast
qed

end
