(* ===== verification/Route_Policy.thy ===== *)
theory Route_Policy
  imports Drift_Policy
begin

text \<open>
  \<open>app/protection/policy_engine.py\<close>, \<open>app/route_policy\<close>, \<open>app/quarantine/policy_integration.py\<close>
  and \<open>recording.py\<close>: the rules that match a batch, the governance behaviour of a route, the
  schema drift gates, and the decision that lets the events of a route go on or stops them.
  Sensitive detection, where the engine calls it itself, is the parameter \<open>detect\<close>; the
  regular expressions of AI rules are the parameter \<open>re_search\<close>.
\<close>

section \<open>Policy engine\<close>

record policy_rule =
  po_name :: string
  po_condition :: json
  po_action :: string
  po_enabled :: bool
  po_id :: "int option"

record policy_evaluation =
  pv_policy_id :: int
  pv_matched :: bool
  pv_name :: string
  pv_action :: string

record policy_batch =
  pb_evaluations :: "policy_evaluation list"
  pb_matched :: "string list"
  pb_policy_count :: nat
  pb_matched_count :: nat
  pb_audit_count :: nat

definition empty_policy_batch :: policy_batch where
  "empty_policy_batch =
     \<lparr>pb_evaluations = [], pb_matched = [], pb_policy_count = 0, pb_matched_count = 0, pb_audit_count = 0\<rparr>"

definition supported_condition_classes :: "string list" where
  "supported_condition_classes = [''secret'', ''pii'', ''security_metadata'']"

definition condition_matches :: "json \<Rightarrow> string list \<Rightarrow> level list \<Rightarrow> bool" where
  "condition_matches cond classes levels =
     (case cond of
        JObj d \<Rightarrow>
          (let cls_cond = (case dict_get d ''sensitivity_class'' of
                             None \<Rightarrow> False | Some JNull \<Rightarrow> False
                           | Some v \<Rightarrow> py_str v \<in> set supported_condition_classes \<and> py_str v \<in> set classes)
           in case dict_get d ''classification_level'' of
                None \<Rightarrow> cls_cond
              | Some JNull \<Rightarrow> cls_cond
              | Some v \<Rightarrow> (case normalize_level (py_str v) of
                            None \<Rightarrow> False | Some l \<Rightarrow> l \<in> set levels))
      | _ \<Rightarrow> False)"

definition evaluate_injected_policy_batch ::
    "(json list \<Rightarrow> json list) \<Rightarrow> policy_rule list \<Rightarrow> json list \<Rightarrow> json list option \<Rightarrow> policy_batch" where
  "evaluate_injected_policy_batch detect rules events findings =
     (if events = [] then empty_policy_batch
      else
        (let enabled = filter po_enabled rules
         in if enabled = [] then empty_policy_batch
            else
              (let fs = (case findings of None \<Rightarrow> detect events | Some f \<Rightarrow> f);
                   classes = finding_classes fs;
                   levels = classification_levels_from_events events;
                   hit = (\<lambda>r. condition_matches (po_condition r) classes levels);
                   hits = filter hit enabled
               in \<lparr>pb_evaluations =
                     map (\<lambda>r. \<lparr>pv_policy_id = (case po_id r of None \<Rightarrow> 0 | Some i \<Rightarrow> i), pv_matched = hit r,
                              pv_name = po_name r, pv_action = po_action r\<rparr>) enabled,
                   pb_matched = map po_name hits,
                   pb_policy_count = length enabled,
                   pb_matched_count = length hits,
                   pb_audit_count = length (filter (\<lambda>r. po_action r = ''audit_only'') hits)\<rparr>)))"

text \<open>\<open>evaluate_event\<close>: the enabled rules on one event.\<close>

definition evaluate_event :: "json list \<Rightarrow> json \<Rightarrow> policy_rule list \<Rightarrow> (int \<times> bool) list" where
  "evaluate_event findings ev rules =
     map (\<lambda>r. (the (po_id r), condition_matches (po_condition r) (finding_classes findings)
                                (classification_levels_from_events [ev])))
       (filter po_enabled rules)"

section \<open>AI policies\<close>

datatype ai_action = AI_Allow | AI_Mask | AI_Redact | AI_Deny | AI_Block | AI_Other string
datatype ai_inspection = Insp_Regex | Insp_Keyword | Insp_Pii | Insp_Secret | Insp_Sensitive | Insp_Other string

record ai_rule =
  ai_id :: int
  ai_name :: string
  ai_action_type :: ai_action
  ai_inspection_type :: ai_inspection
  ai_condition :: json

definition ai_severity :: "ai_action \<Rightarrow> nat" where
  "ai_severity a = (case a of AI_Allow \<Rightarrow> 0 | AI_Mask \<Rightarrow> 1 | AI_Redact \<Rightarrow> 2 | AI_Deny \<Rightarrow> 3 | AI_Block \<Rightarrow> 4
                    | AI_Other _ \<Rightarrow> 0)"

definition cond_str :: "event \<Rightarrow> string \<Rightarrow> string" where
  "cond_str d k = (case dict_get d k of None \<Rightarrow> [] | Some v \<Rightarrow> if truthy v then py_str v else [])"

definition cond_ignore_case :: "event \<Rightarrow> bool" where
  "cond_ignore_case d = (case dict_get d ''ignore_case'' of None \<Rightarrow> True | Some v \<Rightarrow> truthy v)"

definition has_substring :: "string \<Rightarrow> string \<Rightarrow> bool" where
  "has_substring text sub \<longleftrightarrow> list_ex (\<lambda>i. take (length sub) (drop i text) = sub) [0..<length text + 1]"

text \<open>\<open>re_search pattern text ignore_case\<close>, \<open>None\<close> where the pattern is invalid.\<close>

definition ai_rule_matches ::
    "(string \<Rightarrow> string \<Rightarrow> bool \<Rightarrow> bool option) \<Rightarrow> ai_rule \<Rightarrow> string \<Rightarrow> string list \<Rightarrow> bool" where
  "ai_rule_matches re_search rule text classes =
     (let cond = (case ai_condition rule of JObj d \<Rightarrow> d | _ \<Rightarrow> [])
      in case ai_inspection_type rule of
           Insp_Regex \<Rightarrow>
             (let pattern = cond_str cond ''pattern''
              in if pattern = [] then False
                 else (case re_search pattern text (cond_ignore_case cond) of None \<Rightarrow> False | Some b \<Rightarrow> b))
         | Insp_Keyword \<Rightarrow>
             (let keyword = cond_str cond ''keyword''
              in if keyword = [] then False
                 else if cond_ignore_case cond then has_substring (py_lower text) (py_lower keyword)
                 else has_substring text keyword)
         | Insp_Pii \<Rightarrow> ''pii'' \<in> set classes
         | Insp_Secret \<Rightarrow> ''secret'' \<in> set classes
         | Insp_Sensitive \<Rightarrow> list_ex (\<lambda>c. c \<in> set classes) [''pii'', ''secret'', ''security_metadata'']
         | Insp_Other _ \<Rightarrow> False)"

fun resolve_ai_loop :: "ai_action \<Rightarrow> nat \<Rightarrow> ai_rule list \<Rightarrow> ai_action" where
  "resolve_ai_loop best score [] = best"
| "resolve_ai_loop best score (r # rs) =
     (let a = ai_action_type r; s = ai_severity a
      in if s \<ge> score then resolve_ai_loop a s rs else resolve_ai_loop best score rs)"

definition resolve_ai_policy_decision :: "ai_rule list \<Rightarrow> ai_action" where
  "resolve_ai_policy_decision matches = resolve_ai_loop AI_Allow 0 matches"

record ai_batch =
  aib_decision :: ai_action
  aib_matched :: "ai_rule list"
  aib_policy_count :: nat
  aib_findings :: "json list"

text \<open>\<open>rules\<close> is the result of the query (enabled rules of the stream and target, by id),
  \<open>None\<close> without a session; \<open>from_text\<close> is \<open>_findings_from_text\<close>.\<close>

definition evaluate_ai_policy_rules ::
    "(string \<Rightarrow> string \<Rightarrow> bool \<Rightarrow> bool option) \<Rightarrow> (string \<Rightarrow> json list) \<Rightarrow> ai_rule list option \<Rightarrow> string \<Rightarrow>
     json list option \<Rightarrow> ai_batch" where
  "evaluate_ai_policy_rules re_search from_text db_rules text findings =
     (let allow = \<lparr>aib_decision = AI_Allow, aib_matched = [], aib_policy_count = 0, aib_findings = []\<rparr>
      in case db_rules of
           None \<Rightarrow> allow
         | Some rules \<Rightarrow>
             (if py_strip text = [] \<or> rules = [] then allow
              else
                (let given = (case findings of None \<Rightarrow> [] | Some f \<Rightarrow> f);
                     shared = (if given = [] then from_text text else given);
                     matched = filter (\<lambda>r. ai_rule_matches re_search r text (finding_classes shared)) rules
                 in \<lparr>aib_decision = resolve_ai_policy_decision matched, aib_matched = matched,
                     aib_policy_count = length rules, aib_findings = shared\<rparr>)))"

section \<open>Governance behaviour and drift gates\<close>

datatype behavior = Beh_Continue | Beh_Require_Review | Beh_Block | Beh_Quarantine

definition normalize_delivery_behavior :: "string option \<Rightarrow> behavior option" where
  "normalize_delivery_behavior raw =
     (case raw of None \<Rightarrow> None
      | Some r \<Rightarrow>
          (let key = py_lower (py_strip r)
           in if key = ''continue'' \<or> key = ''continue_delivery'' \<or> key = ''allow'' then Some Beh_Continue
              else if key = ''block'' then Some Beh_Block
              else if key = ''quarantine'' then Some Beh_Quarantine
              else if key = ''require_review'' \<or> key = ''review'' then Some Beh_Require_Review
              else None))"

fun behavior_precedence :: "behavior \<Rightarrow> int" where
  "behavior_precedence Beh_Quarantine = 4"
| "behavior_precedence Beh_Block = 3"
| "behavior_precedence Beh_Require_Review = 2"
| "behavior_precedence Beh_Continue = 1"

fun most_restrictive_loop :: "behavior option \<Rightarrow> int \<Rightarrow> behavior list \<Rightarrow> behavior option" where
  "most_restrictive_loop best score [] = best"
| "most_restrictive_loop best score (b # bs) =
     (if behavior_precedence b > score then most_restrictive_loop (Some b) (behavior_precedence b) bs
      else most_restrictive_loop best score bs)"

definition pick_most_restrictive :: "behavior list \<Rightarrow> behavior option" where
  "pick_most_restrictive candidates = most_restrictive_loop None 0 candidates"

record governance_rule =
  gr_enabled :: "bool option"
  gr_default_behavior :: "string option"

definition override_behaviors :: "int \<Rightarrow> route_override list \<Rightarrow> behavior list" where
  "override_behaviors route_id ovs =
     List.map_filter (\<lambda>ov. if override_for route_id ov \<and> override_on ov
                           then normalize_delivery_behavior (ov_delivery_behavior ov) else None) ovs"

definition extract_route_override_delivery_behavior :: "int \<Rightarrow> route_override list \<Rightarrow> behavior option" where
  "extract_route_override_delivery_behavior route_id ovs = pick_most_restrictive (override_behaviors route_id ovs)"

definition extract_stream_default_delivery_behavior :: "governance_rule list \<Rightarrow> behavior option" where
  "extract_stream_default_delivery_behavior rules =
     pick_most_restrictive (List.map_filter (\<lambda>r.
        if (case gr_enabled r of None \<Rightarrow> True | Some b \<Rightarrow> b)
        then normalize_delivery_behavior (gr_default_behavior r) else None) rules)"

definition resolve_effective_delivery_behavior ::
    "int \<Rightarrow> route_override list \<Rightarrow> governance_rule list \<Rightarrow> behavior option" where
  "resolve_effective_delivery_behavior route_id ovs rules =
     (case extract_route_override_delivery_behavior route_id ovs of
        Some b \<Rightarrow> Some b
      | None \<Rightarrow> extract_stream_default_delivery_behavior rules)"

text \<open>The drift gates of a route: \<open>(review_required, quarantine_required)\<close>.\<close>

definition derive_drift_gates :: "drift_result option \<Rightarrow> int \<Rightarrow> route_override list \<Rightarrow> bool \<times> bool" where
  "derive_drift_gates drift route_id ovs =
     (let (review, quar) = (case drift of
            None \<Rightarrow> (False, False)
          | Some d \<Rightarrow> (dr_batch_action d = Require_Review \<or> dr_review d \<noteq> [], dr_should_quarantine d));
          first = (case override_behaviors route_id ovs of [] \<Rightarrow> None | b # _ \<Rightarrow> Some b)
      in (review \<or> first = Some Beh_Require_Review, quar \<or> first = Some Beh_Quarantine))"

section \<open>Resolver and decision\<close>

record policy_config =
  pc_rules :: "policy_rule list"
  pc_override :: "behavior option"
  pc_source :: persisted_source
  pc_override_count :: nat
  pc_fallback_used :: bool
  pc_drift_review :: bool
  pc_drift_quarantine :: bool

definition resolve_route_policy_config ::
    "int \<Rightarrow> policy_rule list \<Rightarrow> policy_rule list \<Rightarrow> route_override list \<Rightarrow> governance_rule list \<Rightarrow>
     drift_result option \<Rightarrow> policy_config" where
  "resolve_route_policy_config route_id route_rows stream_rows ovs gov drift =
     (let route_rules = filter po_enabled route_rows;
          stream_rules = filter po_enabled stream_rows;
          (persisted, src) =
            (if route_rules \<noteq> [] then (route_rules, From_Route)
             else if stream_rules \<noteq> [] then (stream_rules, From_Stream)
             else ([], From_Empty));
          (review, quar) = derive_drift_gates drift route_id ovs
      in \<lparr>pc_rules = persisted, pc_override = resolve_effective_delivery_behavior route_id ovs gov,
          pc_source = src, pc_override_count = length (override_behaviors route_id ovs),
          pc_fallback_used = (src = From_Stream), pc_drift_review = review, pc_drift_quarantine = quar\<rparr>)"

definition policy_config_empty :: "policy_config \<Rightarrow> bool" where
  "policy_config_empty c \<longleftrightarrow>
     pc_rules c = [] \<and> pc_override c = None \<and> \<not> pc_drift_review c \<and> \<not> pc_drift_quarantine c"

datatype decision = Allow | Audit | Require_Review_Decision | Block | Quarantine

fun decision_precedence :: "decision \<Rightarrow> int" where
  "decision_precedence Allow = 1"
| "decision_precedence Audit = 2"
| "decision_precedence Require_Review_Decision = 3"
| "decision_precedence Block = 4"
| "decision_precedence Quarantine = 5"

text \<open>\<open>max(candidates, key=...)\<close> returns the first of the maximal candidates.\<close>

fun py_max :: "('a \<Rightarrow> int) \<Rightarrow> 'a \<Rightarrow> 'a list \<Rightarrow> 'a" where
  "py_max key best [] = best"
| "py_max key best (x # xs) = (if key x > key best then py_max key x xs else py_max key best xs)"

definition pick_strongest :: "decision list \<Rightarrow> decision" where
  "pick_strongest cs = (case cs of [] \<Rightarrow> Allow | c # cs' \<Rightarrow> py_max decision_precedence c cs')"

definition matched_quarantine_evaluations :: "policy_batch \<Rightarrow> policy_evaluation list" where
  "matched_quarantine_evaluations b =
     filter (\<lambda>i. pv_matched i \<and> pv_action i = ''quarantine'') (pb_evaluations b)"

definition should_quarantine_batch :: "policy_batch \<Rightarrow> bool" where
  "should_quarantine_batch b \<longleftrightarrow> matched_quarantine_evaluations b \<noteq> []"

definition build_quarantine_reason :: "policy_batch \<Rightarrow> string" where
  "build_quarantine_reason b =
     (let matched = matched_quarantine_evaluations b
      in if matched = [] then ''policy:unknown''
         else
           (let names = filter (\<lambda>n. n \<noteq> []) (map pv_name matched)
            in if names \<noteq> [] then ''policy:'' @ join_with '','' names
               else ''policy:rule_'' @ int_str (pv_policy_id (hd matched))))"

definition merge_route_policy_decision :: "policy_batch \<Rightarrow> policy_config \<Rightarrow> decision \<times> string" where
  "merge_route_policy_decision b c =
     (let quar = (if matched_quarantine_evaluations b \<noteq> [] then [(Quarantine, ''matched_policy_quarantine'')] else []);
          audits = filter (\<lambda>i. pv_matched i \<and> pv_action i = ''audit_only'') (pb_evaluations b);
          aud = (if audits \<noteq> [] then [(Audit, ''matched_policy_audit'')] else []);
          ovr = (case pc_override c of
                   Some Beh_Block \<Rightarrow> [(Block, ''delivery_behavior_block'')]
                 | Some Beh_Quarantine \<Rightarrow> [(Quarantine, ''delivery_behavior_quarantine'')]
                 | Some Beh_Require_Review \<Rightarrow> [(Require_Review_Decision, ''delivery_behavior_require_review'')]
                 | _ \<Rightarrow> []);
          dq = (if pc_drift_quarantine c then [(Quarantine, ''schema_drift_quarantine'')] else []);
          dr = (if pc_drift_review c then [(Require_Review_Decision, ''schema_drift_require_review'')] else []);
          all = quar @ aud @ ovr @ dq @ dr;
          reasons = (if all = [] then [''default_allow''] else map snd all)
      in (pick_strongest (Allow # map fst all), join_with '';'' reasons))"

definition delivery_allowed_for_decision :: "decision \<Rightarrow> bool" where
  "delivery_allowed_for_decision d \<longleftrightarrow> d = Allow \<or> d = Audit"

section \<open>Quarantine recording\<close>

record quarantine_row =
  qr_id :: int
  qr_stream :: int
  qr_route :: int
  qr_destination :: int
  qr_reason :: string
  qr_payload :: "json list"
  qr_policy_ids :: "int list"
  qr_decision_reason :: string
  qr_level :: "level option"
  qr_drift :: bool

definition snapshot_events :: "json list \<Rightarrow> json list" where
  "snapshot_events evs = map copy_json_value (filter is_obj (take 500 evs))"

text \<open>\<open>insert_ok\<close> is False where the database rejects the row: the source logs and returns
  \<open>None\<close>. The row's id is the length of the table plus one.\<close>

definition record_route_policy_quarantine_event ::
    "bool \<Rightarrow> int \<Rightarrow> int \<Rightarrow> int \<Rightarrow> json list \<Rightarrow> policy_batch \<Rightarrow> string \<Rightarrow> level option \<Rightarrow> bool \<Rightarrow>
     quarantine_row list \<Rightarrow> quarantine_row option \<times> quarantine_row list" where
  "record_route_policy_quarantine_event insert_ok stream_id route_id dest_id evs b decision_reason lvl drift table =
     (let matched = matched_quarantine_evaluations b
      in if matched = [] \<and> \<not> drift then (None, table)
         else
           (let payload = snapshot_events evs
            in if payload = [] \<or> \<not> insert_ok then (None, table)
               else
                 (let reason = (if matched \<noteq> [] then build_quarantine_reason b
                                else take 256 (''policy:drift_quarantine:'' @ decision_reason));
                      row = \<lparr>qr_id = int (length table) + 1, qr_stream = stream_id, qr_route = route_id,
                             qr_destination = dest_id, qr_reason = take 256 reason, qr_payload = payload,
                             qr_policy_ids = map pv_policy_id matched, qr_decision_reason = decision_reason,
                             qr_level = lvl, qr_drift = drift\<rparr>
                  in (Some row, table @ [row]))))"

section \<open>Stage\<close>

definition merge_schema_drift_quarantine :: "policy_batch \<Rightarrow> string \<Rightarrow> string list \<Rightarrow> policy_batch" where
  "merge_schema_drift_quarantine b policy_type field_paths =
     (if field_paths = [] then b
      else
        (let name = ''schema_drift:'' @ policy_type;
             evals = pb_evaluations b @ [\<lparr>pv_policy_id = 0, pv_matched = True, pv_name = name,
                                          pv_action = ''quarantine''\<rparr>]
         in b\<lparr>pb_evaluations := evals, pb_matched := pb_matched b @ [name],
              pb_matched_count := length (filter pv_matched evals)\<rparr>))"

record policy_result =
  pres_decision :: decision
  pres_matched_count :: nat
  pres_source :: persisted_source
  pres_allowed :: bool
  pres_quarantine_recorded :: bool
  pres_override_applied :: bool
  pres_reason :: string
  pres_batch :: policy_batch
  pres_quarantine_id :: "int option"

definition drift_field_paths :: "drift_result option \<Rightarrow> string list" where
  "drift_field_paths drift =
     (case drift of None \<Rightarrow> []
      | Some d \<Rightarrow>
          (let p0 = map uf_enriched (filter (\<lambda>u. uf_policy u = Quarantine_Batch) (dr_unknown d));
               p1 = (if p0 = [] then filter (\<lambda>p. p \<noteq> []) (map uf_enriched (dr_unknown d)) else p0)
           in filter (\<lambda>p. p \<noteq> []) p1))"

text \<open>The evaluation of the stage, and its quarantine branch.\<close>

definition stage_findings :: "json list option \<Rightarrow> json list" where
  "stage_findings ctx_findings = (case ctx_findings of None \<Rightarrow> [] | Some f \<Rightarrow> f)"

definition stage_policy_batch ::
    "(json list \<Rightarrow> json list) \<Rightarrow> policy_config \<Rightarrow> json list option \<Rightarrow> json list \<Rightarrow> policy_batch" where
  "stage_policy_batch detect config ctx_findings events =
     (if events \<noteq> [] \<and> (pc_rules config \<noteq> [] \<or> \<not> policy_config_empty config)
      then evaluate_injected_policy_batch detect (pc_rules config) events (Some (stage_findings ctx_findings))
      else empty_policy_batch)"

definition stage_quarantine ::
    "bool \<Rightarrow> bool \<Rightarrow> int \<Rightarrow> int \<Rightarrow> int \<Rightarrow> policy_config \<Rightarrow> drift_result option \<Rightarrow> level option \<Rightarrow> json list \<Rightarrow>
     policy_batch \<Rightarrow> decision \<Rightarrow> string \<Rightarrow> quarantine_row list \<Rightarrow>
     quarantine_row option \<times> quarantine_row list \<times> policy_batch" where
  "stage_quarantine has_db insert_ok stream_id route_id dest_id config drift lvl events batch decision reason table =
     (if decision = Quarantine \<and> has_db \<and> events \<noteq> [] then
        (let drift_only = \<not> should_quarantine_batch batch \<and> pc_drift_quarantine config;
             ptype = (case drift of None \<Rightarrow> ''unknown_normal''
                      | Some d \<Rightarrow> (case dr_quarantine_type d of None \<Rightarrow> ''unknown_normal''
                                   | Some t \<Rightarrow> if t = [] then ''unknown_normal'' else t));
             batch1 = (if drift_only
                       then merge_schema_drift_quarantine batch ptype (drift_field_paths drift)
                       else batch);
             (row, table') = record_route_policy_quarantine_event insert_ok stream_id route_id dest_id events
                               batch1 reason lvl drift_only table
         in (row, table', batch1))
      else (None, table, batch))"

definition route_policy_stage ::
    "(json list \<Rightarrow> json list) \<Rightarrow> bool \<Rightarrow> bool \<Rightarrow> int \<Rightarrow> int \<Rightarrow> int \<Rightarrow> policy_config \<Rightarrow> drift_result option \<Rightarrow>
     json list option \<Rightarrow> level option \<Rightarrow> json list \<Rightarrow> quarantine_row list \<Rightarrow>
     (json list \<times> policy_result) \<times> quarantine_row list" where
  "route_policy_stage detect has_db insert_ok stream_id route_id dest_id config drift ctx_findings lvl input_events table =
     (let batch0 = stage_policy_batch detect config ctx_findings input_events;
          (decision, reason) = merge_route_policy_decision batch0 config;
          allowed = delivery_allowed_for_decision decision;
          (row, table', batch1) = stage_quarantine has_db insert_ok stream_id route_id dest_id config drift lvl
                                    input_events batch0 decision reason table
      in ((if allowed then input_events else [],
           \<lparr>pres_decision = decision, pres_matched_count = pb_matched_count batch1, pres_source = pc_source config,
            pres_allowed = allowed, pres_quarantine_recorded = (row \<noteq> None),
            pres_override_applied = (pc_override config \<noteq> None), pres_reason = reason, pres_batch = batch1,
            pres_quarantine_id = map_option qr_id row\<rparr>), table'))"

section \<open>The two choices are ranked choices\<close>

lemma py_max_strongest: "py_max key b xs = strongest_from key b xs"
  by (induction xs arbitrary: b) auto

definition strongest_decision :: "decision list \<Rightarrow> decision option" where
  "strongest_decision cs = (if cs = [] then None else Some (pick_strongest cs))"

interpretation decision_choice: ranked_choice decision_precedence strongest_decision
  by unfold_locales (simp_all add: strongest_decision_def pick_strongest_def py_max_strongest)

lemma behavior_precedence_pos [simp]: "0 < behavior_precedence b"
  by (cases b) simp_all

lemma most_restrictive_strongest:
  "most_restrictive_loop (Some b) (behavior_precedence b) bs = Some (strongest_from behavior_precedence b bs)"
  by (induction bs arbitrary: b) auto

interpretation behavior_choice: ranked_choice behavior_precedence pick_most_restrictive
  by unfold_locales (simp_all add: pick_most_restrictive_def most_restrictive_strongest)

lemma decision_precedence_inj: "decision_precedence a = decision_precedence b \<Longrightarrow> a = b"
  by (cases a; cases b; simp)

lemma behavior_precedence_inj: "behavior_precedence a = behavior_precedence b \<Longrightarrow> a = b"
  by (cases a; cases b; simp)

text \<open>A decision is the strongest candidate: it is a candidate, and it is the one of highest
  precedence.\<close>

lemma pick_strongest_eq:
  assumes "d \<in> set (c # cs)" "\<And>e. e \<in> set (c # cs) \<Longrightarrow> decision_precedence e \<le> decision_precedence d"
  shows "pick_strongest (c # cs) = d"
  using decision_choice.pick_eq_top[of "c # cs" "pick_strongest (c # cs)" d] decision_precedence_inj assms
  by (auto simp: strongest_decision_def)

lemma condition_matches_level:
  "dict_get d ''classification_level'' = Some (JStr s) \<Longrightarrow> normalize_level s = Some l \<Longrightarrow>
     condition_matches (JObj d) classes levels \<longleftrightarrow> l \<in> set levels"
  by (simp add: condition_matches_def Let_def)

lemma rank_Quarantine_top [simp]: "decision_precedence e \<le> 5"
  by (cases e) simp_all

text \<open>The evaluations of the batch that matter to the decision.\<close>

abbreviation quarantine_hit :: "policy_batch \<Rightarrow> bool" where
  "quarantine_hit b \<equiv> list_ex (\<lambda>i. pv_matched i \<and> pv_action i = ''quarantine'') (pb_evaluations b)"

abbreviation audit_hit :: "policy_batch \<Rightarrow> bool" where
  "audit_hit b \<equiv> list_ex (\<lambda>i. pv_matched i \<and> pv_action i = ''audit_only'') (pb_evaluations b)"

lemma filter_nonempty: "filter P xs \<noteq> [] \<longleftrightarrow> list_ex P xs"
  by (auto simp: filter_empty_conv list_ex_iff)

definition candidates :: "policy_batch \<Rightarrow> policy_config \<Rightarrow> decision set" where
  "candidates b c =
     insert Allow
       ((if quarantine_hit b then {Quarantine} else {}) \<union> (if audit_hit b then {Audit} else {}) \<union>
        (case pc_override c of Some Beh_Block \<Rightarrow> {Block} | Some Beh_Quarantine \<Rightarrow> {Quarantine}
           | Some Beh_Require_Review \<Rightarrow> {Require_Review_Decision} | _ \<Rightarrow> {}) \<union>
        (if pc_drift_quarantine c then {Quarantine} else {}) \<union>
        (if pc_drift_review c then {Require_Review_Decision} else {}))"

lemma decision_is_top:
  assumes "d \<in> candidates b c" "\<And>e. e \<in> candidates b c \<Longrightarrow> decision_precedence e \<le> decision_precedence d"
  shows "fst (merge_route_policy_decision b c) = d"
  unfolding merge_route_policy_decision_def Let_def fst_conv
  by (rule pick_strongest_eq)
    (use assms in \<open>auto simp: candidates_def matched_quarantine_evaluations_def filter_nonempty
       split: if_splits option.splits behavior.splits\<close>)

lemma decision_exact:
  "fst (merge_route_policy_decision b c) =
     (if quarantine_hit b \<or> pc_override c = Some Beh_Quarantine \<or> pc_drift_quarantine c then Quarantine
      else if pc_override c = Some Beh_Block then Block
      else if pc_override c = Some Beh_Require_Review \<or> pc_drift_review c then Require_Review_Decision
      else if audit_hit b then Audit else Allow)"
  by (rule decision_is_top)
    (auto simp: candidates_def split: option.splits behavior.splits if_splits)

lemma record_row:
  assumes "record_route_policy_quarantine_event ok sid rid did evs b reason lvl drift table = (Some row, table')"
  shows "table' = table @ [row] \<and> qr_payload row = snapshot_events evs \<and> qr_route row = rid \<and> qr_stream row = sid"
  using assms by (auto simp: record_route_policy_quarantine_event_def Let_def split: if_splits)

lemma snapshot_nonempty: "length evs \<le> 500 \<Longrightarrow> \<exists>e \<in> set evs. is_obj e \<Longrightarrow> snapshot_events evs \<noteq> []"
  by (auto simp: snapshot_events_def filter_empty_conv)

text \<open>The stage, with its evaluation and its quarantine branch named.\<close>

lemma stage_parts:
  assumes "route_policy_stage detect has_db ok sid rid did c drift fs lvl evs table = ((out, res), table')"
    and "b = stage_policy_batch detect c fs evs" "d = fst (merge_route_policy_decision b c)"
    and "q = stage_quarantine has_db ok sid rid did c drift lvl evs b d (snd (merge_route_policy_decision b c)) table"
  shows "pres_decision res = d" "pres_allowed res = delivery_allowed_for_decision d"
    "out = (if delivery_allowed_for_decision d then evs else [])"
    "pres_quarantine_recorded res = (fst q \<noteq> None)" "table' = fst (snd q)"
  using assms(1) by (auto simp: route_policy_stage_def Let_def case_prod_beta assms(2-4))

lemma quarantine_hit_matched: "matched_quarantine_evaluations b \<noteq> [] \<longleftrightarrow> quarantine_hit b"
  by (simp add: matched_quarantine_evaluations_def filter_nonempty)

lemma stage_quarantine_records:
  assumes "evs \<noteq> []" "snapshot_events evs \<noteq> []" "quarantine_hit b \<or> pc_drift_quarantine c"
  shows "\<exists>row b1. stage_quarantine True True sid rid did c drift lvl evs b Quarantine reason table = (Some row, table @ [row], b1) \<and>
    qr_route row = rid \<and> qr_payload row = snapshot_events evs"
  using assms quarantine_hit_matched[of b]
  by (auto simp: stage_quarantine_def record_route_policy_quarantine_event_def Let_def should_quarantine_batch_def
      simp del: list_ex_iff)

lemma stage_quarantine_silent:
  assumes "\<not> quarantine_hit b" "\<not> pc_drift_quarantine c"
  shows "stage_quarantine has_db ok sid rid did c drift lvl evs b d reason table = (None, table, b)"
  using assms quarantine_hit_matched[of b]
  by (auto simp: stage_quarantine_def record_route_policy_quarantine_event_def Let_def should_quarantine_batch_def)

lemma stage_batch_nonempty:
  "evs \<noteq> [] \<Longrightarrow> pc_rules c \<noteq> [] \<or> \<not> policy_config_empty c \<Longrightarrow>
     stage_policy_batch detect c fs evs = evaluate_injected_policy_batch detect (pc_rules c) evs (Some (stage_findings fs))"
  by (simp add: stage_policy_batch_def)

section \<open>Properties\<close>

text \<open>C6: The gate of a route: its events go on to delivery, all of them unchanged, exactly when
  no matched rule quarantines, no governance behaviour blocks, quarantines or asks for review,
  and no schema drift gate is set; otherwise none of them does.\<close>

theorem delivery_gate_exact:
  assumes "route_policy_stage detect has_db ok sid rid did c drift fs lvl evs table = ((out, res), table')"
    and "evs \<noteq> []" "\<not> policy_config_empty c"
  shows "out = (if \<not> quarantine_hit (evaluate_injected_policy_batch detect (pc_rules c) evs
                     (Some (stage_findings fs)))
                   \<and> pc_override c \<in> {None, Some Beh_Continue} \<and> \<not> pc_drift_quarantine c \<and> \<not> pc_drift_review c
                then evs else [])"
proof -
  note st = stage_parts[OF assms(1) refl refl refl]
  have "delivery_allowed_for_decision (fst (merge_route_policy_decision b c)) \<longleftrightarrow>
      \<not> quarantine_hit b \<and> pc_override c \<in> {None, Some Beh_Continue} \<and> \<not> pc_drift_quarantine c \<and> \<not> pc_drift_review c" for b
    by (cases "pc_override c"; cases "the (pc_override c)")
      (simp_all add: decision_exact delivery_allowed_for_decision_def)
  with st(3) show ?thesis using stage_batch_nonempty assms(2,3) by simp
qed

definition sample_policy :: "string \<Rightarrow> policy_rule" where
  "sample_policy action = \<lparr>po_name = ''p'', po_condition = JObj [(''classification_level'', JStr ''restricted'')],
     po_action = action, po_enabled = True, po_id = Some 4\<rparr>"

definition sample_policy_config :: "string \<Rightarrow> policy_config" where
  "sample_policy_config action = resolve_route_policy_config 3 [sample_policy action] [] [] [] None"

definition stamped_event :: json where
  "stamped_event = JObj [(''classification_level'', JStr ''RESTRICTED'')]"

lemma sample_policy_config_simps:
  "pc_rules (sample_policy_config a) = [sample_policy a]" "pc_override (sample_policy_config a) = None"
  "\<not> pc_drift_quarantine (sample_policy_config a)" "\<not> pc_drift_review (sample_policy_config a)"
  "\<not> policy_config_empty (sample_policy_config a)"
  by (simp_all add: sample_policy_config_def resolve_route_policy_config_def sample_policy_def derive_drift_gates_def
      override_behaviors_def resolve_effective_delivery_behavior_def extract_route_override_delivery_behavior_def
      extract_stream_default_delivery_behavior_def pick_most_restrictive_def policy_config_empty_def
      List.map_filter_simps)

theorem delivery_gate_exact_witness:
  "fst (fst (route_policy_stage (\<lambda>_. []) True True 1 3 9 (sample_policy_config ''quarantine'') None None None
     [stamped_event] [])) = []
   \<and> fst (fst (route_policy_stage (\<lambda>_. []) True True 1 3 9 (sample_policy_config ''audit_only'') None None None
     [stamped_event] [])) = [stamped_event]"
proof -
  have gate: "fst (fst (route_policy_stage (\<lambda>_. []) True True 1 3 9 (sample_policy_config a) None None None
      [stamped_event] [])) =
    (if \<not> quarantine_hit (evaluate_injected_policy_batch (\<lambda>_. []) [sample_policy a] [stamped_event] (Some []))
     then [stamped_event] else [])" for a
  proof -
    obtain out res t where r: "route_policy_stage (\<lambda>_. []) True True 1 3 9 (sample_policy_config a) None None None
      [stamped_event] [] = ((out, res), t)" by (metis prod.collapse)
    from delivery_gate_exact[OF r] show ?thesis
      by (simp add: r sample_policy_config_simps stage_findings_def)
  qed
  have "quarantine_hit (evaluate_injected_policy_batch (\<lambda>_. []) [sample_policy ''quarantine''] [stamped_event] (Some []))"
    "\<not> quarantine_hit (evaluate_injected_policy_batch (\<lambda>_. []) [sample_policy ''audit_only''] [stamped_event] (Some []))"
    by code_simp+
  then show ?thesis unfolding gate by simp
qed

text \<open>A quarantine by a matched rule or by a drift gate is recorded: with a database that
  accepts the row, the table gains one row for the route holding the event objects of the
  batch, and nothing is delivered.\<close>

theorem quarantine_is_recorded:
  assumes "route_policy_stage detect True True sid rid did c drift fs lvl evs table = ((out, res), table')"
    and "\<exists>e \<in> set evs. is_obj e" "length evs \<le> 500" "pc_rules c \<noteq> []"
    and "quarantine_hit (evaluate_injected_policy_batch detect (pc_rules c) evs
           (Some (stage_findings fs))) \<or> pc_drift_quarantine c"
  shows "out = [] \<and> pres_decision res = Quarantine \<and> pres_quarantine_recorded res \<and>
    (\<exists>row. table' = table @ [row] \<and> qr_route row = rid \<and> qr_payload row = filter is_obj evs)"
proof -
  let ?b = "evaluate_injected_policy_batch detect (pc_rules c) evs (Some (stage_findings fs))"
  have ne: "evs \<noteq> []" using assms(2) by auto
  have snap: "snapshot_events evs = filter is_obj evs"
    using assms(3) by (simp add: snapshot_events_def map_idI)
  have some: "snapshot_events evs \<noteq> []" using assms(2) unfolding snap by (auto simp: filter_empty_conv)
  have b: "stage_policy_batch detect c fs evs = ?b" using ne assms(4) by (simp add: stage_batch_nonempty)
  have dec: "fst (merge_route_policy_decision ?b c) = Quarantine" using assms(5) by (auto simp: decision_exact)
  note st = stage_parts[OF assms(1) b[symmetric] dec[symmetric] refl]
  from stage_quarantine_records[OF ne some assms(5)] st snap show ?thesis
    by (metis delivery_allowed_for_decision_def decision.distinct(7,13) fst_conv option.distinct(1) snd_conv)
qed

theorem quarantine_is_recorded_witness:
  "map qr_payload (snd (route_policy_stage (\<lambda>_. []) True True 1 3 9 (sample_policy_config ''quarantine'') None None None
     [stamped_event] [])) = [[stamped_event]]"
proof -
  obtain out res table' where r: "route_policy_stage (\<lambda>_. []) True True 1 3 9 (sample_policy_config ''quarantine'') None None None
     [stamped_event] [] = ((out, res), table')" by (metis prod.collapse)
  have "quarantine_hit (evaluate_injected_policy_batch (\<lambda>_. []) [sample_policy ''quarantine''] [stamped_event] (Some []))"
    by code_simp
  with quarantine_is_recorded[OF r] have "\<exists>row. table' = [row] \<and> qr_payload row = [stamped_event]"
    by (auto simp: sample_policy_config_simps stamped_event_def stage_findings_def)
  with r show ?thesis by auto
qed

text \<open>A quarantine that comes only from a stream's default delivery behaviour is recorded
  nowhere: with no override for the route and no drift result, the events of a batch that
  no quarantine rule matches are neither delivered nor stored.\<close>

theorem default_quarantine_loses_batch:
  assumes "c = resolve_route_policy_config rid route_rows stream_rows [] gov None"
    and "extract_stream_default_delivery_behavior gov = Some Beh_Quarantine"
    and "route_policy_stage detect True True sid rid did c drift fs lvl evs table = ((out, res), table')"
    and "evs \<noteq> []"
    and "\<not> quarantine_hit (evaluate_injected_policy_batch detect (pc_rules c) evs
           (Some (stage_findings fs)))"
  shows "out = [] \<and> table' = table \<and> pres_decision res = Quarantine \<and> \<not> pres_quarantine_recorded res"
proof -
  let ?b = "evaluate_injected_policy_batch detect (pc_rules c) evs (Some (stage_findings fs))"
  have c: "pc_override c = Some Beh_Quarantine" "\<not> pc_drift_quarantine c" "\<not> policy_config_empty c"
    using assms(2)
    by (simp_all add: assms(1) resolve_route_policy_config_def derive_drift_gates_def override_behaviors_def
        resolve_effective_delivery_behavior_def extract_route_override_delivery_behavior_def
        pick_most_restrictive_def policy_config_empty_def List.map_filter_simps case_prod_beta Let_def)
  have b: "stage_policy_batch detect c fs evs = ?b" using assms(4) c(3) by (simp add: stage_batch_nonempty)
  have dec: "fst (merge_route_policy_decision ?b c) = Quarantine" using c(1) by (simp add: decision_exact)
  note st = stage_parts[OF assms(3) b[symmetric] dec[symmetric] refl]
  with stage_quarantine_silent[OF assms(5) c(2)] show ?thesis
    by (simp add: delivery_allowed_for_decision_def)
qed

theorem default_quarantine_loses_batch_witness:
  "snd (route_policy_stage (\<lambda>_. []) True True 1 3 9
     (resolve_route_policy_config 3 [sample_policy ''audit_only''] [] []
        [\<lparr>gr_enabled = None, gr_default_behavior = Some ''quarantine''\<rparr>] None) None None None [stamped_event] []) = []"
proof -
  let ?gov = "[\<lparr>gr_enabled = None, gr_default_behavior = Some ''quarantine''\<rparr>]"
  let ?c = "resolve_route_policy_config 3 [sample_policy ''audit_only''] [] [] ?gov None"
  obtain out res table' where r: "route_policy_stage (\<lambda>_. []) True True 1 3 9 ?c None None None [stamped_event] []
      = ((out, res), table')" by (metis prod.collapse)
  have d: "extract_stream_default_delivery_behavior ?gov = Some Beh_Quarantine" by code_simp
  have "\<not> quarantine_hit (evaluate_injected_policy_batch (\<lambda>_. []) (pc_rules ?c) [stamped_event] (Some (stage_findings None)))"
    by code_simp
  with default_quarantine_loses_batch[OF refl d r] have "table' = []" by simp
  with r show ?thesis by simp
qed

text \<open>The behaviour in force on a route is a configured one, none configured on the same
  layer is more restrictive, and the stream's defaults count only where the route has no
  override of its own.\<close>

theorem effective_behavior_most_restrictive:
  assumes "resolve_effective_delivery_behavior rid ovs gov = Some b" "override_behaviors rid ovs \<noteq> []"
  shows "b \<in> set (override_behaviors rid ovs) \<and>
    (\<forall>b' \<in> set (override_behaviors rid ovs). behavior_precedence b' \<le> behavior_precedence b)"
proof -
  have "pick_most_restrictive (override_behaviors rid ovs) \<noteq> None"
    using assms(2) behavior_choice.pick_None by simp
  with assms(1) have "pick_most_restrictive (override_behaviors rid ovs) = Some b"
    by (auto simp: resolve_effective_delivery_behavior_def extract_route_override_delivery_behavior_def)
  then show ?thesis using behavior_choice.pick_mem behavior_choice.pick_ge by blast
qed

definition behavior_override :: "string \<Rightarrow> route_override" where
  "behavior_override b = \<lparr>ov_route_id = Some 3, ov_enabled = None, ov_field_path = None, ov_protection_action = None,
     ov_sensitivity_class = None, ov_classification_level = None, ov_delivery_behavior = Some b\<rparr>"

theorem effective_behavior_most_restrictive_witness:
  "resolve_effective_delivery_behavior 3 [behavior_override ''review'', behavior_override '' Block''] [] = Some Beh_Block"
proof -
  let ?ovs = "[behavior_override ''review'', behavior_override '' Block'']"
  have o: "override_behaviors 3 ?ovs = [Beh_Require_Review, Beh_Block]" by code_simp
  then obtain b where b: "resolve_effective_delivery_behavior 3 ?ovs [] = Some b"
    using behavior_choice.pick_None[of "override_behaviors 3 ?ovs"]
    by (cases "pick_most_restrictive (override_behaviors 3 ?ovs)")
      (auto simp: resolve_effective_delivery_behavior_def extract_route_override_delivery_behavior_def)
  from effective_behavior_most_restrictive[OF this] have "behavior_precedence Beh_Block \<le> behavior_precedence b" "b \<in> {Beh_Require_Review, Beh_Block}"
    by (simp_all add: o)
  with b show ?thesis by auto
qed

end
