(* ===== verification/Delivery_Stage.thy ===== *)
theory Delivery_Stage
  imports Route_Policy
begin

text \<open>
  \<open>app/route_delivery\<close>: the delivery stage of a route, between the policy decision and the
  adapter. It decides whether the events are sent, and turns the outcome of the send into the
  result that the fan-out and the checkpoint read. The send function of the runner is the
  parameter \<open>send\<close>, a state transformer. Durations and timestamps are left out.
\<close>

section \<open>Outcomes and results\<close>

record send_outcome =
  so_success :: bool
  so_stage :: "string option"
  so_error :: "string option"
  so_rate_limited :: bool
  so_destination_disabled :: bool
  so_failure_absorbed :: bool
  so_primary_failed :: bool
  so_fo_attempted :: bool
  so_fo_succeeded :: bool
  so_fo_secondary :: bool

definition plain_outcome :: "bool \<Rightarrow> string \<Rightarrow> string option \<Rightarrow> send_outcome" where
  "plain_outcome ok stage err =
     \<lparr>so_success = ok, so_stage = Some stage, so_error = err, so_rate_limited = False,
      so_destination_disabled = False, so_failure_absorbed = False, so_primary_failed = False,
      so_fo_attempted = False, so_fo_succeeded = False, so_fo_secondary = False\<rparr>"

datatype disposition = Delivered | Delivered_Review_Required | Blocked_Route | Quarantined_Route

datatype health = Healthy | Health_Warning | Health_Failed

datatype skip_reason =
    Route_Disabled | No_Events | No_Send_Fn | Rate_Limited | Destination_Disabled
  | Policy_Blocked | Policy_Review | Policy_Quarantine

record delivery_result =
  dl_route :: int
  dl_destination :: int
  dl_allowed :: bool
  dl_disposition :: disposition
  dl_success :: "bool option"
  dl_error :: "string option"
  dl_action :: decision
  dl_reason :: string
  dl_skip :: "skip_reason option"
  dl_event_count :: nat
  dl_stage :: "string option"
  dl_quarantine_id :: "int option"
  dl_health :: health
  dl_absorbed :: bool
  dl_fo_attempted :: bool
  dl_fo_succeeded :: bool

section \<open>The stage\<close>

definition skip_reason_for_decision :: "decision \<Rightarrow> skip_reason option" where
  "skip_reason_for_decision d =
     (case d of Block \<Rightarrow> Some Policy_Blocked | Require_Review_Decision \<Rightarrow> Some Policy_Review
      | Quarantine \<Rightarrow> Some Policy_Quarantine | _ \<Rightarrow> None)"

definition resolve_delivery_disposition :: "policy_result \<Rightarrow> bool \<Rightarrow> disposition" where
  "resolve_delivery_disposition pr send_attempted =
     (if pres_decision pr = Quarantine then Quarantined_Route
      else if pres_decision pr = Block \<or> pres_decision pr = Require_Review_Decision then Blocked_Route
      else if send_attempted \<or> pres_allowed pr then Delivered
      else Blocked_Route)"

definition classify_route_delivery_health ::
    "disposition \<Rightarrow> bool option \<Rightarrow> send_outcome option \<Rightarrow> health" where
  "classify_route_delivery_health disp success out =
     (if disp = Quarantined_Route then Health_Failed
      else if disp = Blocked_Route then Health_Warning
      else if disp = Delivered_Review_Required then Health_Warning
      else if success = Some False then Health_Failed
      else if (case out of None \<Rightarrow> False | Some so \<Rightarrow> so_rate_limited so) then Health_Warning
      else Healthy)"

text \<open>The part of the stage that a send outcome decides: \<open>(skip_reason, delivery_success,
  delivery_error, adapter_stage, failure_absorbed, failover_attempted, failover_succeeded)\<close>.\<close>

definition read_outcome ::
    "send_outcome \<Rightarrow> skip_reason option \<times> bool option \<times> string option \<times> string option \<times> bool \<times> bool \<times> bool" where
  "read_outcome so =
     (if so_rate_limited so then
        (Some Rate_Limited, None, Some ''destination rate limited'', Some ''destination_rate_limited'',
         False, False, False)
      else if so_destination_disabled so then
        (Some Destination_Disabled, None, Some ''destination disabled'', Some ''route_skip'', False, False, False)
      else
        (None, Some (so_success so), so_error so, so_stage so, so_failure_absorbed so, so_fo_attempted so,
         so_fo_succeeded so))"

definition route_delivery_stage ::
    "int \<Rightarrow> int \<Rightarrow> bool \<Rightarrow> policy_result \<Rightarrow> json list \<Rightarrow>
     (json list \<Rightarrow> 's \<Rightarrow> send_outcome \<times> 's) option \<Rightarrow> int option \<Rightarrow> 's \<Rightarrow> delivery_result \<times> 's" where
  "route_delivery_stage route_id dest_id enabled pr events send_fn quarantine_id s =
     (let finish = (\<lambda>disp out (skip, ok, err, stage, absorbed, fo_a, fo_s).
            \<lparr>dl_route = route_id, dl_destination = dest_id, dl_allowed = pres_allowed pr,
             dl_disposition = disp, dl_success = ok, dl_error = err, dl_action = pres_decision pr,
             dl_reason = pres_reason pr, dl_skip = skip, dl_event_count = length events, dl_stage = stage,
             dl_quarantine_id = quarantine_id, dl_health = classify_route_delivery_health disp ok out,
             dl_absorbed = absorbed, dl_fo_attempted = fo_a, dl_fo_succeeded = fo_s\<rparr>)
      in if \<not> enabled then
           (finish Blocked_Route None (Some Route_Disabled, None, None, None, False, False, False), s)
         else if \<not> pres_allowed pr then
           (finish (resolve_delivery_disposition pr False) None
              (skip_reason_for_decision (pres_decision pr), None, None, None, False, False, False), s)
         else if events = [] then
           (finish Delivered None (Some No_Events, Some True, None, None, False, False, False), s)
         else (case send_fn of
             None \<Rightarrow> (finish Delivered None (Some No_Send_Fn, Some True, None, None, False, False, False), s)
           | Some send \<Rightarrow>
               (let (out, s') = send events s
                in (finish Delivered (Some out) (read_outcome out), s'))))"

section \<open>Counters\<close>

record delivery_counters =
  dc_attempt :: nat
  dc_success :: nat
  dc_failure :: nat
  dc_quarantine :: nat
  dc_review :: nat
  dc_blocked :: nat

definition zero_counters :: delivery_counters where
  "zero_counters = \<lparr>dc_attempt = 0, dc_success = 0, dc_failure = 0, dc_quarantine = 0, dc_review = 0, dc_blocked = 0\<rparr>"

definition apply_delivery_metrics :: "delivery_counters \<Rightarrow> delivery_result \<Rightarrow> delivery_counters" where
  "apply_delivery_metrics m0 r =
     (let m = m0\<lparr>dc_attempt := dc_attempt m0 + 1\<rparr>
      in if dl_disposition r = Delivered \<and> dl_success r = Some True then m\<lparr>dc_success := dc_success m + 1\<rparr>
         else if dl_disposition r = Delivered \<and> dl_success r = Some False then m\<lparr>dc_failure := dc_failure m + 1\<rparr>
         else if dl_disposition r = Quarantined_Route then m\<lparr>dc_quarantine := dc_quarantine m + 1\<rparr>
         else if dl_disposition r = Blocked_Route \<and> dl_action r = Require_Review_Decision
           then m\<lparr>dc_review := dc_review m + 1\<rparr>
         else if dl_disposition r = Blocked_Route then m\<lparr>dc_blocked := dc_blocked m + 1\<rparr>
         else m)"

section \<open>What the stage guarantees\<close>

text \<open>The cases of the stage, as the pipeline and the fan-out use them.\<close>

lemma delivery_stage_stopped:
  assumes "\<not> enabled \<or> \<not> pres_allowed pr \<or> events = []"
  shows "snd (route_delivery_stage rid did enabled pr events send_fn q s) = s"
  using assms by (auto simp: route_delivery_stage_def Let_def)

lemma delivery_stage_sends:
  assumes "enabled" "pres_allowed pr" "events \<noteq> []" "send events s = (out, s')"
  shows "snd (route_delivery_stage rid did enabled pr events (Some send) q s) = s'"
    and "dl_success (fst (route_delivery_stage rid did enabled pr events (Some send) q s)) =
           (if so_rate_limited out \<or> so_destination_disabled out then None else Some (so_success out))"
    and "dl_skip (fst (route_delivery_stage rid did enabled pr events (Some send) q s)) =
           (if so_rate_limited out then Some Rate_Limited
            else if so_destination_disabled out then Some Destination_Disabled else None)"
    and "dl_absorbed (fst (route_delivery_stage rid did enabled pr events (Some send) q s)) =
           (\<not> so_rate_limited out \<and> \<not> so_destination_disabled out \<and> so_failure_absorbed out)"
    and "dl_disposition (fst (route_delivery_stage rid did enabled pr events (Some send) q s)) = Delivered"
  using assms by (simp_all add: route_delivery_stage_def read_outcome_def Let_def)

lemma delivery_stage_allowed [simp]:
  "dl_allowed (fst (route_delivery_stage rid did enabled pr events send_fn q s)) = pres_allowed pr"
  "dl_route (fst (route_delivery_stage rid did enabled pr events send_fn q s)) = rid"
  "dl_action (fst (route_delivery_stage rid did enabled pr events send_fn q s)) = pres_decision pr"
  by (simp_all add: route_delivery_stage_def Let_def split: option.splits prod.splits)

text \<open>A result that claims a success: nothing to send, nothing to send with, or the adapter
  path reported a success for these events.\<close>

lemma delivery_stage_success_cases:
  assumes "dl_success (fst (route_delivery_stage rid did enabled pr events send_fn q s)) = Some True"
  obtains "enabled" "pres_allowed pr" "events = []"
    | "enabled" "pres_allowed pr" "events \<noteq> []" "send_fn = None"
    | send out s' where "enabled" "pres_allowed pr" "events \<noteq> []" "send_fn = Some send" "send events s = (out, s')"
        "so_success out" "\<not> so_rate_limited out" "\<not> so_destination_disabled out"
        "snd (route_delivery_stage rid did enabled pr events send_fn q s) = s'"
  using assms
  by (auto simp: route_delivery_stage_def read_outcome_def Let_def
      split: if_splits option.splits prod.splits)

text \<open>Every result is counted once, in at most one class.\<close>

lemma apply_delivery_metrics_total:
  "dc_attempt (apply_delivery_metrics m r) = dc_attempt m + 1"
  by (simp add: apply_delivery_metrics_def Let_def)

end
