(* ===== verification/Delivery_Log.thy ===== *)
theory Delivery_Log
  imports Json_Values
begin

text \<open>
  The delivery log: \<open>StreamRunner._log\<close>, \<open>_build_delivery_log_row\<close> and
  \<open>_persist_delivery_log\<close>, \<open>app/schema_drift_policy/delivery_log_stages.py\<close> and
  \<open>app/logs/payload_sample.py\<close>. A payload is the dict the runner logs; the rows of the table
  are built from the payloads kept until the end of the run.
\<close>

section \<open>Stages and rows\<close>

definition drift_log_stages :: "string list" where
  "drift_log_stages =
     [''schema_drift_policy'', ''schema_drift_policy_review_required'',
      ''schema_drift_policy_path_resolution_failed'', ''schema_drift_policy_auto_protect_applied'']"

definition persisted_stages :: "string list" where
  "persisted_stages =
     [''run_started'', ''run_failed'', ''source_fetch'', ''parse'', ''mapping'', ''enrichment'',
      ''classification_complete'', ''protection_complete'', ''policy_evaluation_complete'',
      ''ai_policy_prompt'', ''ai_policy_response'', ''dynamic_routing_complete'',
      ''dynamic_route_send_success'', ''dynamic_route_send_failed'', ''dynamic_route_send_skip'',
      ''dynamic_route_send_rate_limited'', ''dynamic_route_skip'', ''dynamic_route_rate_limited'',
      ''failover_routing_complete'', ''failover_route_attempt'', ''failover_route_send_success'',
      ''failover_route_send_failed'', ''route'', ''route_send_success'', ''route_send_failed'',
      ''route_retry_success'', ''route_retry_failed'', ''source_rate_limited'',
      ''destination_rate_limited'', ''route_skip'', ''route_unknown_failure_policy'',
      ''route_processing_loop'', ''checkpoint_update'', ''run_complete'', ''dedup_queue_insert'',
      ''dedup_registry''] @ drift_log_stages"

text \<open>\<open>str(payload.get(k) or "").strip()\<close>\<close>

definition text_or :: "event \<Rightarrow> string \<Rightarrow> string" where
  "text_or p k = (case dict_get p k of None \<Rightarrow> [] | Some v \<Rightarrow> if truthy v then py_strip (py_str v) else [])"

definition or_else :: "string \<Rightarrow> string \<Rightarrow> string" where
  "or_else s d = (if s = [] then d else s)"

definition schema_drift_policy_delivery_log_message :: "event \<Rightarrow> string option" where
  "schema_drift_policy_delivery_log_message p =
     (let stage = text_or p ''stage''
      in if stage = ''schema_drift_policy_auto_protect_applied'' then
           Some (''Auto protect applied: '' @ or_else (text_or p ''field_path'') ''unknown path''
                 @ '' ('' @ or_else (text_or p ''protection_mode'') ''unknown mode'' @ '')'')
         else if stage = ''schema_drift_policy_review_required'' then
           Some (''Schema drift policy review required: '' @ or_else (text_or p ''field_path'') ''unknown path''
                 @ '' ('' @ or_else (text_or p ''policy_type'') ''unknown'' @ '')'')
         else if stage = ''schema_drift_policy_path_resolution_failed'' then
           (let given = (case dict_get p ''extracted_path'' of
                           Some v \<Rightarrow> if truthy v then ''extracted_path'' else ''field_path''
                         | None \<Rightarrow> ''field_path'')
            in Some (''Schema drift path resolution failed: '' @ or_else (text_or p given) ''unknown path''))
         else if stage = ''schema_drift_policy'' then
           (let action = text_or p ''action''
            in Some (if action \<noteq> [] then ''Schema drift policy: '' @ action else ''Schema drift policy applied''))
         else None)"

datatype log_level = Lvl_Info | Lvl_Warn | Lvl_Error

record log_row =
  lr_stage :: string
  lr_level :: log_level
  lr_status :: string
  lr_message :: string
  lr_error_code :: "string option"
  lr_stream :: "int option"
  lr_route :: "int option"
  lr_destination :: "int option"
  lr_retry_count :: int
  lr_payload :: event

definition type_code :: "event \<Rightarrow> string option" where
  "type_code p = (case dict_get p ''error_type'' of
                    None \<Rightarrow> None | Some v \<Rightarrow> if truthy v then Some (py_str v) else None)"

definition failed_code :: "event \<Rightarrow> string" where
  "failed_code p =
     (case dict_get p ''error_code'' of
        Some v \<Rightarrow> if truthy v then py_str v
                 else (case type_code p of Some t \<Rightarrow> t | None \<Rightarrow> ''RUNTIME_INTERNAL_ERROR'')
      | None \<Rightarrow> (case type_code p of Some t \<Rightarrow> t | None \<Rightarrow> ''RUNTIME_INTERNAL_ERROR''))"

text \<open>The chain of stages: level, status and error code.\<close>

definition stage_outcome :: "string \<Rightarrow> event \<Rightarrow> log_level \<times> string \<times> string option" where
  "stage_outcome stage p =
     (if stage \<in> {''route_send_failed'', ''route_retry_failed'', ''dynamic_route_send_failed'',
                  ''failover_route_send_failed''}
      then (Lvl_Error, ''FAILED'', type_code p)
      else if stage = ''run_failed'' then (Lvl_Error, ''FAILED'', Some (failed_code p))
      else if stage = ''source_rate_limited'' then (Lvl_Warn, ''RATE_LIMITED'', Some ''SOURCE_RATE_LIMITED'')
      else if stage \<in> {''destination_rate_limited'', ''dynamic_route_rate_limited'',
                       ''dynamic_route_send_rate_limited''}
      then (Lvl_Warn, ''RATE_LIMITED'', Some ''DESTINATION_RATE_LIMITED'')
      else if stage \<in> {''route_skip'', ''dynamic_route_send_skip'', ''dynamic_route_skip''}
      then (Lvl_Info, ''SKIPPED'', None)
      else if stage = ''route_unknown_failure_policy'' then
        (Lvl_Error, ''FAILED'', Some ''UNKNOWN_FAILURE_POLICY'')
      else if stage \<in> {''run_complete'', ''checkpoint_update''} then (Lvl_Info, ''COMPLETED'', None)
      else if stage = ''schema_drift_policy_path_resolution_failed'' then (Lvl_Warn, ''OK'', None)
      else (Lvl_Info, ''OK'', None))"

text \<open>An id in a payload of the runner is an integer or absent.\<close>

definition int_field :: "event \<Rightarrow> string \<Rightarrow> int option" where
  "int_field p k = (case dict_get p k of Some (JInt i) \<Rightarrow> Some i | _ \<Rightarrow> None)"

definition nonzero_field :: "event \<Rightarrow> string \<Rightarrow> int option" where
  "nonzero_field p k = (case int_field p k of Some i \<Rightarrow> if i = 0 then None else Some i | None \<Rightarrow> None)"

definition retry_field :: "string \<Rightarrow> event \<Rightarrow> int" where
  "retry_field stage p =
     (let n = (case nonzero_field p ''retry_count'' of Some i \<Rightarrow> i | None \<Rightarrow> 0)
      in if stage = ''route_retry_success'' then
           (case nonzero_field p ''attempt'' of Some i \<Rightarrow> i | None \<Rightarrow> n)
         else if stage = ''route_retry_failed'' then n
         else 0)"

section \<open>Payload samples\<close>

definition sample_field :: "string \<times> json \<Rightarrow> (string \<times> json) option" where
  "sample_field kv =
     (let k = fst kv; v = snd kv
      in if k \<in> {''checkpoint_before'', ''checkpoint_after''} then
           (case v of JObj d \<Rightarrow> Some (k, JObj (the (slim_checkpoint_for_log (Some d)))) | _ \<Rightarrow> Some (k, v))
         else if k = ''replay_events'' \<and> (case v of JList _ \<Rightarrow> True | _ \<Rightarrow> False) then
           (case v of JList xs \<Rightarrow> Some (k, JList (copy_events (filter is_obj xs) None)) | _ \<Rightarrow> None)
         else if k \<in> {''enriched_events'', ''events'', ''mapped_event_samples'', ''raw_response''} then None
         else Some (k, copy_json_value v))"

definition build_delivery_log_payload_sample :: "event \<Rightarrow> event" where
  "build_delivery_log_payload_sample p = List.map_filter sample_field p"

definition build_delivery_log_row :: "event \<Rightarrow> log_row option" where
  "build_delivery_log_row p =
     (let stage = (case dict_get p ''stage'' of None \<Rightarrow> [] | Some v \<Rightarrow> py_strip (py_str v))
      in if stage \<notin> set persisted_stages then None
         else
           (let (level, status, code) = stage_outcome stage p;
                message = (case schema_drift_policy_delivery_log_message p of
                             Some m \<Rightarrow> m
                           | None \<Rightarrow> (case dict_get p ''message'' of
                                        Some v \<Rightarrow> if truthy v then py_str v else stage
                                      | None \<Rightarrow> stage))
            in Some \<lparr>lr_stage = stage, lr_level = level, lr_status = status, lr_message = message,
                     lr_error_code = code, lr_stream = int_field p ''stream_id'',
                     lr_route = int_field p ''route_id'', lr_destination = int_field p ''destination_id'',
                     lr_retry_count = retry_field stage p, lr_payload = build_delivery_log_payload_sample p\<rparr>))"

definition persist_delivery_log :: "event \<Rightarrow> event list \<Rightarrow> event list" where
  "persist_delivery_log p pending = (if build_delivery_log_row p = None then pending else pending @ [p])"

text \<open>\<open>_log\<close> adds the ids of the run to the payload.\<close>

definition log_payload :: "string option \<Rightarrow> int option \<Rightarrow> event \<Rightarrow> event list \<Rightarrow> event list" where
  "log_payload run_id connector_id p pending =
     (let p1 = (case run_id of Some r \<Rightarrow> if r = [] then p else dict_set ''run_id'' (JStr r) p | None \<Rightarrow> p);
          p2 = (case connector_id of Some c \<Rightarrow> dict_set ''connector_id'' (JInt c) p1 | None \<Rightarrow> p1)
      in persist_delivery_log p2 pending)"

section \<open>Facts\<close>

lemma persist_prefix: "\<exists>new. persist_delivery_log p pending = pending @ new"
  by (simp add: persist_delivery_log_def)

lemma log_payload_prefix: "\<exists>new. log_payload r c p pending = pending @ new"
  unfolding log_payload_def Let_def by (rule persist_prefix)

text \<open>Ids are added without changing the stage.\<close>

lemma log_payload_stage:
  "x \<in> set (log_payload r c p pending) \<Longrightarrow> x \<in> set pending \<or> dict_get x ''stage'' = dict_get p ''stage''"
  by (auto simp: log_payload_def persist_delivery_log_def dict_simps Let_def split: option.splits if_splits)

lemma build_row_persisted:
  "dict_get p ''stage'' = Some v \<Longrightarrow> py_strip (py_str v) \<in> set persisted_stages \<Longrightarrow>
     \<exists>row. build_delivery_log_row p = Some row"
  by (auto simp: build_delivery_log_row_def Let_def split: prod.splits)

lemma sample_field_key: "sample_field kv = Some kv' \<Longrightarrow> fst kv' = fst kv"
  by (auto simp: sample_field_def Let_def split: if_splits json.splits)

lemma map_filter_get:
  assumes "\<And>kv kv'. f kv = Some kv' \<Longrightarrow> fst kv' = fst kv" "\<And>v. f (k, v) = None"
  shows "dict_get (List.map_filter f p) k = None"
  using assms
proof (induction p)
  case (Cons kv p)
  have IH: "dict_get (List.map_filter f p) k = None"
    using Cons by blast
  show ?case
  proof (cases "f kv")
    case None
    then show ?thesis using IH by (simp add: List.map_filter_simps)
  next
    case (Some kv')
    have "fst kv' \<noteq> k"
      using Cons.prems(1)[OF Some] Cons.prems(2)[of "snd kv"] Some by (cases kv) auto
    then show ?thesis using IH Some by (cases kv') (simp add: List.map_filter_simps)
  qed
qed (simp add: List.map_filter_simps)

text \<open>Event bodies stay out of the delivery log: whatever the runner logs, a stored row has
  no \<open>events\<close>, \<open>enriched_events\<close>, \<open>mapped_event_samples\<close> or \<open>raw_response\<close> field, and it has
  the stage of the payload.\<close>

theorem log_row_drops_event_bodies:
  assumes "build_delivery_log_row p = Some row"
    and "k \<in> {''events'', ''enriched_events'', ''mapped_event_samples'', ''raw_response''}"
  shows "dict_get (lr_payload row) k = None \<and> lr_stage row \<in> set persisted_stages"
proof -
  have none: "sample_field (k, v) = None" for v
    using assms(2) by (auto simp: sample_field_def Let_def)
  have "dict_get (List.map_filter sample_field p) k = None"
    using map_filter_get[of sample_field k p] sample_field_key none by blast
  then show ?thesis
    using assms(1)
    by (auto simp: build_delivery_log_row_def build_delivery_log_payload_sample_def Let_def
        split: if_splits prod.splits)
qed

theorem log_row_drops_event_bodies_witness:
  "\<exists>row. build_delivery_log_row [(''stage'', JStr ''run_complete''), (''events'', JList [JInt 1])] = Some row \<and>
     dict_get (lr_payload row) ''events'' = None \<and> lr_stage row \<in> set persisted_stages"
proof -
  let ?p = "[(''stage'', JStr ''run_complete''), (''events'', JList [JInt 1])]"
  obtain row where r: "build_delivery_log_row ?p = Some row"
    using build_row_persisted[of ?p] by (auto simp: persisted_stages_def py_strip_def py_lstrip_def py_isspace_def)
  have "dict_get (lr_payload row) ''events'' = None \<and> lr_stage row \<in> set persisted_stages"
    by (rule log_row_drops_event_bodies[OF r]) simp
  then show ?thesis using r by blast
qed

text \<open>The checkpoint preview of the log is not always a preview: a checkpoint without
  transport fields, whose last event has no id or timestamp field, is logged whole, with the
  event as it was before protection.\<close>

theorem checkpoint_preview_leaks_event:
  assumes "\<And>k. k \<in> set checkpoint_log_meta_keys \<Longrightarrow> dict_get ck k = None"
    and "dict_get ck ''last_success_event'' = Some (JObj ev)"
    and "\<And>k. k \<in> set event_id_preview_keys \<Longrightarrow> dict_get ev k = None"
  shows "sample_field (''checkpoint_after'', JObj ck) = Some (''checkpoint_after'', JObj ck)"
proof -
  have none: "pick_keys ks d = []" if "\<And>k. k \<in> set ks \<Longrightarrow> dict_get d k = None" for ks d
    using that by (induction ks) auto
  have "pick_keys checkpoint_log_meta_keys ck = []" "pick_keys event_id_preview_keys ev = []"
    using assms by (auto intro: none)
  then show ?thesis
    using assms(2) by (simp add: sample_field_def slim_checkpoint_for_log_def)
qed

theorem checkpoint_preview_leaks_event_witness:
  "sample_field (''checkpoint_after'', JObj [(''last_success_event'', JObj [(''ssn'', JStr ''123'')])]) =
     Some (''checkpoint_after'', JObj [(''last_success_event'', JObj [(''ssn'', JStr ''123'')])])"
  by (rule checkpoint_preview_leaks_event)
     (auto simp: checkpoint_log_meta_keys_def event_id_preview_keys_def)

end
