(* ===== verification/Send_Path.thy ===== *)
theory Send_Path
  imports Rate_Limiter Stream_Dedup Delivery_Stage Delivery_Log
begin

text \<open>
  The send path of \<open>app/runners/stream_runner.py\<close>: \<open>_send_route_events\<close> with the destination
  limiter, the adapter, Active/Standby failover (\<open>app/failover_routing\<close>), the failure policies
  and the recording of failed batches for replay (\<open>app/replay\<close>), and \<open>_deliver_dynamic_routes\<close>.
  The adapters are the parameter \<open>se_net\<close>: the result of the \<open>n\<close>-th adapter call. The
  monotonic clock is \<open>se_clock\<close>, read by the limiter. Latencies are left out. The state
  holds what the runner keeps for the end of the run, and the trace of adapter calls.
\<close>

section \<open>Configuration\<close>

record destination =
  d_id :: "int option"
  d_enabled :: bool
  d_type :: string
  d_name :: string
  d_config :: event
  d_rate_limit :: "rate_cfg option"

record route =
  r_id :: int
  r_enabled :: bool
  r_destination :: destination
  r_rate_limit :: "rate_cfg option"
  r_failure_policy :: string
  r_retry_count :: nat
  r_backoff :: rat
  r_formatter :: "event option"

text \<open>What the code asks of an exception.\<close>

record exn =
  ex_type :: string
  ex_message :: string
  ex_ai_policy :: bool
  ex_http_status :: "int option"
  ex_cause_status :: "int option"
  ex_own_status :: "int option"
  ex_dest_send :: bool
  ex_os :: bool
  ex_httpx_timeout :: bool

record prefix_context =
  px_stream :: string
  px_stream_id :: int
  px_dest_name :: string
  px_dest_type :: string
  px_route :: int

record send_call =
  sc_type :: string
  sc_events :: "json list"
  sc_config :: event
  sc_formatter :: "event option"
  sc_prefix :: prefix_context

record failover_rule =
  fr_id :: int
  fr_stream :: int
  fr_primary :: int
  fr_secondary :: int
  fr_enabled :: bool

record binding =
  fb_route :: int
  fb_primary :: int
  fb_secondary :: int
  fb_type :: string
  fb_config :: event
  fb_name :: string
  fb_enabled :: bool
  fb_rate_limit :: "rate_cfg option"

text \<open>\<open>se_bindings_ok\<close>: the query of the failover rules does not raise. \<open>se_resolve\<close> is
  \<open>resolve_destination_runtime_config\<close>, \<open>None\<close> where it raises.\<close>

record send_env =
  se_stream :: int
  se_stream_name :: string
  se_run_id :: "string option"
  se_connector :: "int option"
  se_clock :: "nat \<Rightarrow> rat"
  se_net :: "nat \<Rightarrow> send_call \<Rightarrow> exn option"
  se_rules :: "failover_rule list"
  se_destinations :: "(int, destination) dict"
  se_bindings_ok :: bool
  se_resolve :: "string \<Rightarrow> event \<Rightarrow> event option"
  se_dry_run :: bool
  se_replay_window :: bool
  se_replay_ok :: bool
  se_ai_holder :: bool

datatype delivery_kind = Base_Route | Failover_Secondary | Dynamic_Route_Kind

record replay_row =
  rp_stream :: int
  rp_destination :: int
  rp_kind :: delivery_kind
  rp_events :: "json list"
  rp_type :: string
  rp_formatter :: "event option"
  rp_route :: "int option"
  rp_dynamic :: "int option"
  rp_failover :: "int option"
  rp_error_type :: "string option"
  rp_error_message :: "string option"

record run_state =
  rs_windows :: windows
  rs_ticks :: nat
  rs_sends :: "(send_call \<times> exn option) list"
  rs_logs :: "event list"
  rs_status :: "(int, string) dict"
  rs_disabled :: "int list"
  rs_sleeps :: "rat list"
  rs_replay :: "replay_row list"
  rs_dedup :: "dedup_summary option"
  rs_blocked :: "exn option"

section \<open>Elementary operations\<close>

definition emit_log :: "send_env \<Rightarrow> event \<Rightarrow> run_state \<Rightarrow> run_state" where
  "emit_log env p st = st\<lparr>rs_logs := log_payload (se_run_id env) (se_connector env) p (rs_logs st)\<rparr>"

definition opt_int :: "int option \<Rightarrow> json" where
  "opt_int x = (case x of None \<Rightarrow> JNull | Some i \<Rightarrow> JInt i)"

definition ask_limiter :: "send_env \<Rightarrow> int \<Rightarrow> rate_cfg option \<Rightarrow> run_state \<Rightarrow> bool \<times> run_state" where
  "ask_limiter env key cfg st =
     (let (ok, ws) = destination_allow (se_clock env (rs_ticks st)) (rs_windows st) key cfg
      in (ok, st\<lparr>rs_windows := ws, rs_ticks := rs_ticks st + 1\<rparr>))"

text \<open>\<open>_effective_destination_rate_limit_json\<close>: \<open>None\<close> is an absent or empty dict.\<close>

definition effective_destination_rate_limit :: "route \<Rightarrow> rate_cfg option" where
  "effective_destination_rate_limit r =
     (case r_rate_limit r of Some c \<Rightarrow> Some c | None \<Rightarrow> d_rate_limit (r_destination r))"

definition set_stream_status :: "send_env \<Rightarrow> string \<Rightarrow> run_state \<Rightarrow> run_state" where
  "set_stream_status env status st = st\<lparr>rs_status := dict_set (se_stream env) status (rs_status st)\<rparr>"

definition disable_route :: "route \<Rightarrow> run_state \<Rightarrow> run_state" where
  "disable_route r st =
     st\<lparr>rs_disabled := (if r_id r \<in> set (rs_disabled st) then rs_disabled st else rs_disabled st @ [r_id r])\<rparr>"

definition prefix_delivery_context :: "send_env \<Rightarrow> route \<Rightarrow> prefix_context" where
  "prefix_delivery_context env r =
     \<lparr>px_stream = se_stream_name env, px_stream_id = se_stream env, px_dest_name = d_name (r_destination r),
      px_dest_type = d_type (r_destination r), px_route = r_id r\<rparr>"

text \<open>\<open>_send_to_destination\<close>: the JSON part of the keys it adds to the configuration.\<close>

definition send_to_destination :: "send_env \<Rightarrow> send_call \<Rightarrow> run_state \<Rightarrow> exn option \<times> run_state" where
  "send_to_destination env call st =
     (let call' = call\<lparr>sc_config := dict_set ''_stream_id'' (JInt (se_stream env))
                                    (dict_set ''_policy_db_short_sessions'' (JBool True) (sc_config call))\<rparr>;
          result = se_net env (length (rs_sends st)) call'
      in (result, st\<lparr>rs_sends := rs_sends st @ [(call', result)]\<rparr>))"

definition primary_call :: "send_env \<Rightarrow> route \<Rightarrow> json list \<Rightarrow> send_call" where
  "primary_call env r events =
     \<lparr>sc_type = py_upper (d_type (r_destination r)), sc_events = events,
      sc_config = d_config (r_destination r), sc_formatter = r_formatter r,
      sc_prefix = prefix_delivery_context env r\<rparr>"

definition record_route_dedup :: "send_env \<Rightarrow> route \<Rightarrow> json list \<Rightarrow> run_state \<Rightarrow> run_state" where
  "record_route_dedup env r events st =
     (case rs_dedup st of
        None \<Rightarrow> st
      | Some summary \<Rightarrow>
          (let (summary', keys) = record_dedup_registry_for_route_success events summary;
               st1 = st\<lparr>rs_dedup := Some summary'\<rparr>
           in case keys of
                None \<Rightarrow> st1
              | Some ks \<Rightarrow>
                  emit_log env ([(''stage'', JStr ''dedup_registry''), (''dedup_keys'', JList (map JStr ks)),
                            (''stream_id'', JInt (se_stream env)), (''route_id'', JInt (r_id r))]
                           @ (case d_id (r_destination r) of None \<Rightarrow> [] | Some d \<Rightarrow> [(''destination_id'', JInt d)])) st1))"

section \<open>Failover\<close>

definition http_status_from_error :: "exn \<Rightarrow> int option" where
  "http_status_from_error e =
     (case ex_http_status e of Some s \<Rightarrow> Some s
      | None \<Rightarrow> (case ex_cause_status e of Some s \<Rightarrow> Some s | None \<Rightarrow> ex_own_status e))"

definition is_failover_eligible_error :: "exn \<Rightarrow> bool" where
  "is_failover_eligible_error e =
     (if ex_ai_policy e then False
      else case http_status_from_error e of
             Some s \<Rightarrow> s \<noteq> 429 \<and> 500 \<le> s \<and> s < 600
           | None \<Rightarrow> ex_dest_send e \<or> ex_os e \<or> ex_httpx_timeout e)"

fun load_bindings :: "(int, destination) dict \<Rightarrow> failover_rule list \<Rightarrow> (int, binding) dict \<Rightarrow> (int, binding) dict" where
  "load_bindings dests [] out = out"
| "load_bindings dests (r # rs) out =
     (if dict_has out (fr_primary r) then load_bindings dests rs out
      else case dict_get dests (fr_secondary r) of
             None \<Rightarrow> load_bindings dests rs out
           | Some d \<Rightarrow>
               load_bindings dests rs
                 (dict_set (fr_primary r)
                    \<lparr>fb_route = fr_id r, fb_primary = fr_primary r, fb_secondary = fr_secondary r,
                     fb_type = py_upper (d_type d), fb_config = d_config d, fb_name = d_name d,
                     fb_enabled = d_enabled d, fb_rate_limit = d_rate_limit d\<rparr> out))"

text \<open>The rules come ordered by id.\<close>

definition load_failover_bindings_by_primary :: "send_env \<Rightarrow> (int, binding) dict" where
  "load_failover_bindings_by_primary env =
     load_bindings (se_destinations env)
       (filter (\<lambda>r. fr_stream r = se_stream env \<and> fr_enabled r) (se_rules env)) []"

record failover_result =
  fo_attempted :: bool
  fo_succeeded :: bool
  fo_secondary :: bool
  fo_error :: "exn option"

definition no_failover :: failover_result where
  "no_failover = \<lparr>fo_attempted = False, fo_succeeded = False, fo_secondary = False, fo_error = None\<rparr>"

definition failover_log :: "send_env \<Rightarrow> string \<Rightarrow> route \<Rightarrow> int \<Rightarrow> binding \<Rightarrow> event \<Rightarrow> event" where
  "failover_log env stage r primary b extra =
     [(''stage'', JStr stage), (''stream_id'', JInt (se_stream env)), (''failover_route_id'', JInt (fb_route b)),
      (''route_id'', JInt (r_id r)), (''primary_destination_id'', JInt primary),
      (''secondary_destination_id'', JInt (fb_secondary b))] @ extra"

definition error_fields :: "exn \<Rightarrow> event" where
  "error_fields e = [(''error_type'', JStr (ex_type e)), (''message'', JStr (ex_message e))]"

definition secondary_call :: "send_env \<Rightarrow> route \<Rightarrow> binding \<Rightarrow> json list \<Rightarrow> send_call" where
  "secondary_call env r b events =
     \<lparr>sc_type = fb_type b, sc_events = events,
      sc_config = (case se_resolve env (fb_type b) (fb_config b) of Some c \<Rightarrow> c | None \<Rightarrow> fb_config b),
      sc_formatter = r_formatter r,
      sc_prefix = \<lparr>px_stream = se_stream_name env, px_stream_id = se_stream env, px_dest_name = fb_name b,
                   px_dest_type = fb_type b, px_route = r_id r\<rparr>\<rparr>"

definition attempt_failover_send ::
    "send_env \<Rightarrow> route \<Rightarrow> int \<Rightarrow> json list \<Rightarrow> (int, binding) dict \<Rightarrow> exn \<Rightarrow> run_state \<Rightarrow>
     failover_result \<times> run_state" where
  "attempt_failover_send env r primary events bindings err st =
     (if \<not> is_failover_eligible_error err then (no_failover, st)
      else case dict_get bindings primary of
        None \<Rightarrow> (no_failover, st)
      | Some b \<Rightarrow>
          (if \<not> fb_enabled b then
             (no_failover\<lparr>fo_attempted := True\<rparr>,
              emit_log env (failover_log env ''failover_route_attempt'' r primary b
                ((''skip_reason'', JStr ''secondary_destination_disabled'') # error_fields err)) st)
           else
             (let (ok, st1) = ask_limiter env (- (fb_route b + 1000000)) (fb_rate_limit b) st
              in if \<not> ok then
                   (no_failover\<lparr>fo_attempted := True\<rparr>,
                    emit_log env (failover_log env ''failover_route_attempt'' r primary b
                      [(''skip_reason'', JStr ''secondary_rate_limited'')]) st1)
                 else
                   (let st2 = emit_log env (failover_log env ''failover_route_attempt'' r primary b (error_fields err)) st1;
                        (res, st3) = send_to_destination env (secondary_call env r b events) st2
                    in case res of
                         None \<Rightarrow>
                           (\<lparr>fo_attempted = True, fo_succeeded = True, fo_secondary = True, fo_error = None\<rparr>,
                            emit_log env (failover_log env ''failover_route_send_success'' r primary b
                              [(''event_count'', JInt (int (length events)))]) st3)
                       | Some e2 \<Rightarrow>
                           (\<lparr>fo_attempted = True, fo_succeeded = False, fo_secondary = True, fo_error = Some e2\<rparr>,
                            emit_log env (failover_log env ''failover_route_send_failed'' r primary b
                              (error_fields e2)) st3)))))"

section \<open>Replay recording\<close>

definition is_replay_record_eligible :: "exn option \<Rightarrow> bool \<Rightarrow> bool" where
  "is_replay_record_eligible err rate_limited =
     (if rate_limited then False
      else case err of
             None \<Rightarrow> True
           | Some e \<Rightarrow> if ex_ai_policy e then False else http_status_from_error e \<noteq> Some 429)"

definition record_stream_replay_event :: "send_env \<Rightarrow> replay_row \<Rightarrow> exn option \<Rightarrow> run_state \<Rightarrow> run_state" where
  "record_stream_replay_event env row err st =
     (if rp_events row = [] \<or> \<not> is_replay_record_eligible err False then st
      else
        (let payload = copy_events (rp_events row) (Some 500)
         in if payload = [] \<or> \<not> se_replay_ok env then st
            else st\<lparr>rs_replay := rs_replay st @
                      [row\<lparr>rp_events := payload, rp_error_type := map_option ex_type err,
                           rp_error_message := map_option (\<lambda>e. take 2000 (ex_message e)) err\<rparr>]\<rparr>))"

definition maybe_record_replay_event :: "send_env \<Rightarrow> replay_row \<Rightarrow> exn option \<Rightarrow> run_state \<Rightarrow> run_state" where
  "maybe_record_replay_event env row err st =
     (if se_dry_run env \<or> se_replay_window env then st
      else if rp_events row = [] \<or> rp_destination row \<le> 0 then st
      else if (case err of Some e \<Rightarrow> ex_ai_policy e | None \<Rightarrow> False) then st
      else record_stream_replay_event env row err st)"

definition replay_request ::
    "send_env \<Rightarrow> int option \<Rightarrow> int \<Rightarrow> delivery_kind \<Rightarrow> json list \<Rightarrow> string \<Rightarrow> event option \<Rightarrow> replay_row" where
  "replay_request env route_id dest kind events dtype fmt =
     \<lparr>rp_stream = se_stream env, rp_destination = dest, rp_kind = kind, rp_events = events, rp_type = dtype,
      rp_formatter = fmt,
      rp_route = (case route_id of Some i \<Rightarrow> if i = 0 then None else Some i | None \<Rightarrow> None),
      rp_dynamic = None, rp_failover = None, rp_error_type = None, rp_error_message = None\<rparr>"

section \<open>Failure policies\<close>

definition route_log :: "send_env \<Rightarrow> string \<Rightarrow> route \<Rightarrow> event \<Rightarrow> event" where
  "route_log env stage r extra =
     [(''stage'', JStr stage), (''stream_id'', JInt (se_stream env)), (''route_id'', JInt (r_id r))] @ extra"

text \<open>The retry loop: the remaining attempts, from attempt \<open>idx\<close> on. The waiting time after a
  failed attempt doubles, after the last one too.\<close>

fun retry_loop ::
    "send_env \<Rightarrow> route \<Rightarrow> json list \<Rightarrow> nat \<Rightarrow> nat \<Rightarrow> exn option \<Rightarrow> run_state \<Rightarrow>
     (bool \<times> exn option) \<times> run_state" where
  "retry_loop env r events idx 0 prev st = ((False, prev), st)"
| "retry_loop env r events idx (Suc n) prev st =
     (let (res, st1) = send_to_destination env (primary_call env r events) st
      in case res of
           None \<Rightarrow>
             ((True, prev),
              record_route_dedup env r events
                (emit_log env (route_log env ''route_retry_success'' r
                   [(''attempt'', JInt (int idx + 1)), (''retry_count'', JInt (int idx + 1))]) st1))
         | Some e \<Rightarrow>
             retry_loop env r events (idx + 1) n (Some e)
               (st1\<lparr>rs_sleeps := rs_sleeps st1 @ [max (r_backoff r * 2 ^ idx) 0]\<rparr>))"

definition retry_failed_log :: "send_env \<Rightarrow> route \<Rightarrow> json list \<Rightarrow> exn option \<Rightarrow> event" where
  "retry_failed_log env r events prev =
     route_log env ''route_retry_failed'' r
       [(''retry_count'', JInt (int (r_retry_count r))),
        (''error_type'', case prev of None \<Rightarrow> JNull | Some e \<Rightarrow> JStr (ex_type e)),
        (''message'', JStr (case prev of None \<Rightarrow> ''retry failed'' | Some e \<Rightarrow> ex_message e)),
        (''replay_events'', JList (copy_events events (Some 500))),
        (''event_count'', JInt (int (length events)))]"

definition base_replay_request :: "send_env \<Rightarrow> route \<Rightarrow> int \<Rightarrow> json list \<Rightarrow> replay_row" where
  "base_replay_request env r dest events =
     replay_request env (Some (r_id r)) dest Base_Route events (py_upper (d_type (r_destination r))) (r_formatter r)"

text \<open>\<open>_apply_failure_policy\<close>, as \<open>_send_route_events\<close> calls it: the failure is already logged.\<close>

definition failure_policy_of :: "route \<Rightarrow> string" where
  "failure_policy_of r = py_upper (r_failure_policy r)"

definition apply_failure_policy :: "send_env \<Rightarrow> route \<Rightarrow> json list \<Rightarrow> run_state \<Rightarrow> bool \<times> run_state" where
  "apply_failure_policy env r events st =
     (let policy = failure_policy_of r
      in if policy = ''LOG_AND_CONTINUE'' then (True, st)
         else if policy = ''PAUSE_STREAM_ON_FAILURE'' then (False, set_stream_status env ''PAUSED'' st)
         else if policy = ''DISABLE_ROUTE_ON_FAILURE'' then (False, disable_route r st)
         else if policy = ''RETRY_AND_BACKOFF'' then
           (if events = [] then (False, st)
            else
              (let ((ok, prev), st1) = retry_loop env r events 0 (r_retry_count r) None st
               in if ok then (True, st1)
                  else
                    (let st2 = emit_log env (retry_failed_log env r events prev) st1
                     in (False,
                         case d_id (r_destination r) of
                           None \<Rightarrow> st2
                         | Some d \<Rightarrow> maybe_record_replay_event env (base_replay_request env r d events) prev st2))))
         else (False, emit_log env (route_log env ''route_unknown_failure_policy'' r
                        [(''failure_policy'', JStr policy)]) st))"

section \<open>One route\<close>

definition first_keys :: "json list \<Rightarrow> json" where
  "first_keys events =
     JList (case events of JObj kvs # _ \<Rightarrow> map JStr (take 24 (map fst kvs)) | _ \<Rightarrow> [])"

definition send_success_log :: "send_env \<Rightarrow> route \<Rightarrow> json list \<Rightarrow> event" where
  "send_success_log env r events =
     route_log env ''route_send_success'' r
       [(''destination_id'', opt_int (d_id (r_destination r))),
        (''destination_type'', JStr (py_upper (d_type (r_destination r)))),
        (''event_count'', JInt (int (length events))), (''first_event_keys_preview'', first_keys events)]"

definition send_failed_log :: "send_env \<Rightarrow> route \<Rightarrow> json list \<Rightarrow> exn \<Rightarrow> event" where
  "send_failed_log env r events e =
     route_log env ''route_send_failed'' r
       [(''destination_id'', opt_int (d_id (r_destination r))),
        (''destination_type'', JStr (py_upper (d_type (r_destination r)))),
        (''failure_policy'', JStr (failure_policy_of r)), (''error_type'', JStr (ex_type e)),
        (''message'', JStr (ex_message e)), (''event_count'', JInt (int (length events)))]"

text \<open>The bindings the failure branch works with: those given, else those it loads, none where
  the load raises; it has none at all (\<open>None\<close>) for a destination without id and none given.\<close>

definition send_bindings :: "send_env \<Rightarrow> route \<Rightarrow> (int, binding) dict option \<Rightarrow> (int, binding) dict option" where
  "send_bindings env r given =
     (case given of
        Some b \<Rightarrow> Some b
      | None \<Rightarrow> (case d_id (r_destination r) of
                   None \<Rightarrow> None
                 | Some _ \<Rightarrow> Some (if se_bindings_ok env then load_failover_bindings_by_primary env else [])))"

text \<open>The recording of the failed batch at the end of the failure branch.\<close>

definition record_failed_batch ::
    "send_env \<Rightarrow> route \<Rightarrow> json list \<Rightarrow> (int, binding) dict option \<Rightarrow> failover_result \<Rightarrow> exn \<Rightarrow> run_state \<Rightarrow> run_state" where
  "record_failed_batch env r events bindings fo err st =
     (case bindings of
        None \<Rightarrow> st
      | Some bs \<Rightarrow>
          (let fo_binding = (case d_id (r_destination r) of None \<Rightarrow> None | Some d \<Rightarrow> dict_get bs d)
           in case (if fo_secondary fo \<and> \<not> fo_succeeded fo then fo_binding else None) of
                Some b \<Rightarrow>
                  maybe_record_replay_event env
                    ((replay_request env (Some (r_id r)) (fb_secondary b) Failover_Secondary events (fb_type b)
                        (r_formatter r))\<lparr>rp_failover := Some (fb_route b)\<rparr>) (fo_error fo) st
              | None \<Rightarrow>
                  (case d_id (r_destination r) of
                     Some d \<Rightarrow>
                       (if \<not> fo_succeeded fo \<and> \<not> fo_secondary fo
                        then maybe_record_replay_event env (base_replay_request env r d events) (Some err) st
                        else st)
                   | None \<Rightarrow> st)))"

text \<open>Failover, policy and recording after the primary adapter raised \<open>err\<close>.\<close>

definition failover_step ::
    "send_env \<Rightarrow> route \<Rightarrow> json list \<Rightarrow> (int, binding) dict option \<Rightarrow> exn \<Rightarrow> run_state \<Rightarrow> failover_result \<times> run_state" where
  "failover_step env r events bindings err st =
     (case d_id (r_destination r) of
        None \<Rightarrow> (no_failover, st)
      | Some d \<Rightarrow> attempt_failover_send env r d events (case bindings of None \<Rightarrow> [] | Some b \<Rightarrow> b) err st)"

definition handle_send_failure ::
    "send_env \<Rightarrow> route \<Rightarrow> json list \<Rightarrow> (int, binding) dict option \<Rightarrow> bool \<Rightarrow> exn \<Rightarrow> run_state \<Rightarrow>
     send_outcome \<times> run_state" where
  "handle_send_failure env r events given record_replay err st =
     (let st1 = (if ex_ai_policy err \<and> se_ai_holder env then st\<lparr>rs_blocked := Some err\<rparr> else st);
          st2 = emit_log env (send_failed_log env r events err) st1;
          bindings = send_bindings env r given;
          (fo, st3) = failover_step env r events bindings err st2;
          (policy_ok, st4) = (if fo_attempted fo \<and> fo_succeeded fo then (True, st3)
                              else apply_failure_policy env r events st3);
          recovered = (if fo_attempted fo \<and> \<not> fo_succeeded fo then False else policy_ok);
          st5 = (if record_replay then record_failed_batch env r events bindings fo err st4 else st4);
          base = \<lparr>so_success = False, so_stage = Some ''route_send_failed'', so_error = Some (ex_message err),
                  so_rate_limited = False, so_destination_disabled = False, so_failure_absorbed = False,
                  so_primary_failed = True, so_fo_attempted = fo_attempted fo, so_fo_succeeded = False,
                  so_fo_secondary = fo_secondary fo\<rparr>
      in (if recovered \<and> fo_attempted fo \<and> fo_succeeded fo then
            base\<lparr>so_success := True, so_stage := Some ''failover_route_send_success'', so_error := None,
                 so_fo_succeeded := True\<rparr>
          else if recovered \<and> failure_policy_of r = ''LOG_AND_CONTINUE'' then base\<lparr>so_failure_absorbed := True\<rparr>
          else if recovered then
            base\<lparr>so_success := True, so_stage := Some ''route_send_success'', so_error := None\<rparr>
          else base, st5))"

definition send_route_events ::
    "send_env \<Rightarrow> route \<Rightarrow> json list \<Rightarrow> (int, binding) dict option \<Rightarrow> bool \<Rightarrow> run_state \<Rightarrow>
     send_outcome \<times> run_state" where
  "send_route_events env r events given record_replay st =
     (if \<not> d_enabled (r_destination r) then
        ((plain_outcome False ''route_skip'' (Some ''destination disabled''))\<lparr>so_destination_disabled := True\<rparr>, st)
      else
        (let (ok, st1) = ask_limiter env (r_id r) (effective_destination_rate_limit r) st
         in if \<not> ok then
              ((plain_outcome False ''destination_rate_limited'' (Some ''destination rate limited''))
                 \<lparr>so_rate_limited := True\<rparr>,
               emit_log env (route_log env ''destination_rate_limited'' r
                 [(''destination_id'', opt_int (d_id (r_destination r))),
                  (''message'', JStr ''destination rate limited'')])
                 (set_stream_status env ''RATE_LIMITED_DESTINATION'' st1))
            else
              (let (res, st2) = send_to_destination env (primary_call env r events) st1
               in case res of
                    None \<Rightarrow>
                      (plain_outcome True ''route_send_success'' None,
                       record_route_dedup env r events (emit_log env (send_success_log env r events) st2))
                  | Some err \<Rightarrow> handle_send_failure env r events given record_replay err st2)))"

text \<open>\<open>_deliver_single_route\<close>: the route row of the context, by id.\<close>

definition deliver_single_route ::
    "send_env \<Rightarrow> route list \<Rightarrow> int \<Rightarrow> json list \<Rightarrow> run_state \<Rightarrow> send_outcome \<times> run_state" where
  "deliver_single_route env routes route_id events st =
     (case find (\<lambda>r. r_id r = route_id) routes of
        None \<Rightarrow> (plain_outcome False ''route_send_failed'' (Some ''route not found''), st)
      | Some r \<Rightarrow> send_route_events env r events None True st)"

section \<open>Frames\<close>

text \<open>What each elementary operation leaves alone: the trace of sends and the replay rows.\<close>

lemma emit_log_frame [simp, frame_simps]:
  "rs_sends (emit_log env p st) = rs_sends st"
  "rs_replay (emit_log env p st) = rs_replay st"
  "rs_dedup (emit_log env p st) = rs_dedup st"
  "rs_windows (emit_log env p st) = rs_windows st"
  "rs_ticks (emit_log env p st) = rs_ticks st"
  by (simp_all add: emit_log_def)

lemma set_stream_status_frame [simp, frame_simps]:
  "rs_sends (set_stream_status env s st) = rs_sends st"
  "rs_replay (set_stream_status env s st) = rs_replay st"
  by (simp_all add: set_stream_status_def)

lemma disable_route_frame [simp, frame_simps]:
  "rs_sends (disable_route r st) = rs_sends st"
  "rs_replay (disable_route r st) = rs_replay st"
  by (simp_all add: disable_route_def)

lemma record_route_dedup_frame [simp, frame_simps]:
  "rs_sends (record_route_dedup env r evs st) = rs_sends st"
  "rs_replay (record_route_dedup env r evs st) = rs_replay st"
  by (simp_all add: record_route_dedup_def Let_def split: option.splits prod.splits)

lemma record_stream_replay_event_sends [simp, frame_simps]:
  "rs_sends (record_stream_replay_event env row err st) = rs_sends st"
  by (simp add: record_stream_replay_event_def Let_def)

lemma maybe_record_sends [simp, frame_simps]:
  "rs_sends (maybe_record_replay_event env row err st) = rs_sends st"
  by (simp add: maybe_record_replay_event_def split: option.splits)

lemma record_failed_batch_sends [simp, frame_simps]:
  "rs_sends (record_failed_batch env r evs bs fo err st) = rs_sends st"
  by (simp add: record_failed_batch_def Let_def split: option.splits)

lemma ask_limiter_frame:
  "ask_limiter env k cfg st = (ok, st') \<Longrightarrow> rs_sends st' = rs_sends st \<and> rs_replay st' = rs_replay st"
  by (auto simp: ask_limiter_def split: prod.splits)

lemma ask_limiter_unlimited [simp]:
  "ask_limiter env k None st = (True, st\<lparr>rs_ticks := rs_ticks st + 1\<rparr>)"
  by (simp add: ask_limiter_def destination_allow_def)

definition runtime_call :: "send_env \<Rightarrow> send_call \<Rightarrow> send_call" where
  "runtime_call env call =
     call\<lparr>sc_config := dict_set ''_stream_id'' (JInt (se_stream env))
                       (dict_set ''_policy_db_short_sessions'' (JBool True) (sc_config call))\<rparr>"

lemma send_to_destination_eq:
  "send_to_destination env call st =
     (se_net env (length (rs_sends st)) (runtime_call env call),
      st\<lparr>rs_sends := rs_sends st @ [(runtime_call env call, se_net env (length (rs_sends st)) (runtime_call env call))]\<rparr>)"
  by (simp add: send_to_destination_def runtime_call_def Let_def)

lemma runtime_call_events [simp]: "sc_events (runtime_call env call) = sc_events call"
  by (simp add: runtime_call_def)

section \<open>The calls of a send\<close>

abbreviation own_call :: "send_env \<Rightarrow> route \<Rightarrow> json list \<Rightarrow> send_call" where
  "own_call env r evs \<equiv> runtime_call env (primary_call env r evs)"

abbreviation delivered_in :: "(send_call \<times> exn option) list \<Rightarrow> bool" where
  "delivered_in tr \<equiv> list_ex (\<lambda>(c, res). res = None) tr"

lemma retry_loop_trace:
  "retry_loop env r evs idx n prev st = ((ok, lst), st') \<Longrightarrow>
     \<exists>new. rs_sends st' = rs_sends st @ new \<and> length new \<le> n \<and>
       (\<forall>x \<in> set new. fst x = own_call env r evs) \<and> (ok \<longleftrightarrow> delivered_in new) \<and>
       rs_replay st' = rs_replay st"
proof (induction n arbitrary: idx prev st)
  case 0
  then show ?case by simp
next
  case (Suc n)
  let ?c = "own_call env r evs"
  let ?st1 = "st\<lparr>rs_sends := rs_sends st @ [(?c, se_net env (length (rs_sends st)) ?c)]\<rparr>"
  show ?case
  proof (cases "se_net env (length (rs_sends st)) ?c")
    case None
    have "ok" "rs_sends st' = rs_sends st @ [(?c, None)]" "rs_replay st' = rs_replay st"
      using Suc.prems None by (auto simp: send_to_destination_eq)
    then show ?thesis by (intro exI[of _ "[(?c, None)]"]) simp
  next
    case (Some e)
    obtain new where new: "rs_sends st' = rs_sends ?st1 @ new" "length new \<le> n"
        "\<forall>x \<in> set new. fst x = ?c" "ok \<longleftrightarrow> delivered_in new" "rs_replay st' = rs_replay ?st1"
      using Suc.prems Some
        Suc.IH[of "idx + 1" "Some e" "?st1\<lparr>rs_sleeps := rs_sleeps ?st1 @ [max (r_backoff r * 2 ^ idx) 0]\<rparr>"]
      by (auto simp: send_to_destination_eq)
    then show ?thesis
      using Some by (intro exI[of _ "(?c, Some e) # new"]) simp
  qed
qed

text \<open>The failure policy delivers exactly when a retry does; logging and continuing sends
  nothing.\<close>

lemma apply_failure_policy_trace:
  assumes "apply_failure_policy env r evs st = (ok, st')"
  shows "\<exists>new. rs_sends st' = rs_sends st @ new \<and> length new \<le> r_retry_count r \<and>
           (\<forall>x \<in> set new. fst x = own_call env r evs) \<and>
           (failure_policy_of r \<noteq> ''LOG_AND_CONTINUE'' \<longrightarrow> (ok \<longleftrightarrow> delivered_in new)) \<and>
           (failure_policy_of r = ''LOG_AND_CONTINUE'' \<longrightarrow> new = [])"
proof (cases "failure_policy_of r = ''RETRY_AND_BACKOFF'' \<and> evs \<noteq> []")
  case True
  obtain ok1 lst st1 where loop: "retry_loop env r evs 0 (r_retry_count r) None st = ((ok1, lst), st1)"
    by (metis surj_pair)
  have "rs_sends st' = rs_sends st1" "ok = ok1"
    using assms loop True by (auto simp: apply_failure_policy_def Let_def split: if_splits option.splits)
  then show ?thesis
    using retry_loop_trace[OF loop] True by auto
next
  case False
  then have "rs_sends st' = rs_sends st" "failure_policy_of r \<noteq> ''LOG_AND_CONTINUE'' \<longrightarrow> \<not> ok"
    using assms by (auto simp: apply_failure_policy_def Let_def split: if_splits)
  then show ?thesis by (intro exI[of _ "[]"]) auto
qed

text \<open>Failover either calls nothing, and then has not succeeded, or makes one call, to the
  secondary bound to the destination, whose result is the failover's.\<close>

lemma failover_step_cases:
  assumes "failover_step env r evs bs err st = (fo, st')"
  obtains (idle) "\<not> fo_secondary fo" "\<not> fo_succeeded fo" "rs_sends st' = rs_sends st" "rs_replay st' = rs_replay st"
  | (called) d b b0 where "d_id (r_destination r) = Some d" "bs = Some b0" "dict_get b0 d = Some b" "fb_enabled b"
      "fo_attempted fo" "fo_secondary fo" "fo_succeeded fo \<longleftrightarrow> fo_error fo = None"
      "fo_error fo = se_net env (length (rs_sends st)) (runtime_call env (secondary_call env r b evs))"
      "rs_sends st' = rs_sends st @ [(runtime_call env (secondary_call env r b evs), fo_error fo)]"
      "rs_replay st' = rs_replay st"
proof (cases "d_id (r_destination r)")
  case None
  then show ?thesis using assms idle by (auto simp: failover_step_def no_failover_def)
next
  case (Some d)
  let ?bs = "case bs of None \<Rightarrow> [] | Some b \<Rightarrow> b"
  have att: "attempt_failover_send env r d evs ?bs err st = (fo, st')"
    using assms Some by (simp add: failover_step_def)
  show ?thesis
  proof (cases "is_failover_eligible_error err \<and> dict_get ?bs d \<noteq> None")
    case False
    then have "fo = no_failover" "st' = st"
      using att by (auto simp: attempt_failover_send_def split: option.splits if_splits)
    then show ?thesis using idle by (simp add: no_failover_def)
  next
    case True
    then obtain b where b: "dict_get ?bs d = Some b" by blast
    then obtain b0 where b0: "bs = Some b0" "dict_get b0 d = Some b" by (cases bs) auto
    obtain ok st1 where lim: "ask_limiter env (- (fb_route b + 1000000)) (fb_rate_limit b) st = (ok, st1)"
      by (metis surj_pair)
    note frame = ask_limiter_frame[OF lim]
    show ?thesis
    proof (cases "fb_enabled b \<and> ok")
      case False
      then have "\<not> fo_secondary fo" "\<not> fo_succeeded fo" "rs_sends st' = rs_sends st" "rs_replay st' = rs_replay st"
        using att b True lim frame
        by (auto simp: attempt_failover_send_def no_failover_def split: if_splits)
      then show ?thesis by (rule idle)
    next
      case en: True
      let ?c = "runtime_call env (secondary_call env r b evs)"
      have "fo_attempted fo" "fo_secondary fo" "fo_succeeded fo \<longleftrightarrow> fo_error fo = None"
          "fo_error fo = se_net env (length (rs_sends st)) ?c"
          "rs_sends st' = rs_sends st @ [(?c, fo_error fo)]" "rs_replay st' = rs_replay st"
        using att b True lim en frame
        by (cases "se_net env (length (rs_sends st)) ?c";
            auto simp: attempt_failover_send_def send_to_destination_eq)+
      with called[OF Some b0] en show ?thesis by simp
    qed
  qed
qed

text \<open>The calls a send may make, and its failure branch.\<close>

definition allowed_call :: "send_env \<Rightarrow> route \<Rightarrow> json list \<Rightarrow> (int, binding) dict option \<Rightarrow> send_call \<Rightarrow> bool" where
  "allowed_call env r evs bs c \<longleftrightarrow>
     c = own_call env r evs \<or>
     (\<exists>d b b0. d_id (r_destination r) = Some d \<and> bs = Some b0 \<and> dict_get b0 d = Some b \<and> fb_enabled b \<and>
        c = runtime_call env (secondary_call env r b evs))"

lemma handle_send_failure_cases:
  assumes "handle_send_failure env r evs given rp err st = (out, st')"
  obtains fo st3 pol st4 where
    "failover_step env r evs (send_bindings env r given) err
       (emit_log env (send_failed_log env r evs err)
         (if ex_ai_policy err \<and> se_ai_holder env then st\<lparr>rs_blocked := Some err\<rparr> else st)) = (fo, st3)"
    "(if fo_attempted fo \<and> fo_succeeded fo then (True, st3) else apply_failure_policy env r evs st3) = (pol, st4)"
    "st' = (if rp then record_failed_batch env r evs (send_bindings env r given) fo err st4 else st4)"
    "so_fo_attempted out = fo_attempted fo"
    "so_rate_limited out = False" "so_destination_disabled out = False"
    "so_success out \<longleftrightarrow> pol \<and> (fo_attempted fo \<and> fo_succeeded fo \<or> \<not> fo_attempted fo \<and> failure_policy_of r \<noteq> ''LOG_AND_CONTINUE'')"
    "so_fo_succeeded out \<longleftrightarrow> pol \<and> fo_attempted fo \<and> fo_succeeded fo"
    "so_failure_absorbed out \<longleftrightarrow> pol \<and> \<not> fo_attempted fo \<and> failure_policy_of r = ''LOG_AND_CONTINUE''"
proof -
  let ?st2 = "emit_log env (send_failed_log env r evs err)
         (if ex_ai_policy err \<and> se_ai_holder env then st\<lparr>rs_blocked := Some err\<rparr> else st)"
  obtain fo st3 where fo: "failover_step env r evs (send_bindings env r given) err ?st2 = (fo, st3)"
    by (metis surj_pair)
  obtain pol st4 where pol: "(if fo_attempted fo \<and> fo_succeeded fo then (True, st3) else apply_failure_policy env r evs st3) = (pol, st4)"
    by (metis surj_pair)
  show ?thesis
    by (rule that[OF fo pol])
       (use assms fo pol in \<open>auto simp: handle_send_failure_def Let_def split: if_splits\<close>)
qed

lemma handle_send_failure_trace:
  assumes run: "handle_send_failure env r evs given rp err st = (out, st')"
  shows "\<exists>new. rs_sends st' = rs_sends st @ new \<and> length new \<le> r_retry_count r + 1 \<and>
           (\<forall>x \<in> set new. allowed_call env r evs (send_bindings env r given) (fst x)) \<and>
           (so_success out \<longrightarrow> delivered_in new) \<and>
           (delivered_in new \<and> (so_fo_attempted out \<longrightarrow> so_fo_succeeded out) \<longrightarrow> so_success out)"
  using run
proof (rule handle_send_failure_cases)
  fix fo st3 pol st4
  let ?bs = "send_bindings env r given"
  let ?st2 = "emit_log env (send_failed_log env r evs err)
         (if ex_ai_policy err \<and> se_ai_holder env then st\<lparr>rs_blocked := Some err\<rparr> else st)"
  assume fo: "failover_step env r evs ?bs err ?st2 = (fo, st3)"
    and pol: "(if fo_attempted fo \<and> fo_succeeded fo then (True, st3) else apply_failure_policy env r evs st3) = (pol, st4)"
    and st': "st' = (if rp then record_failed_batch env r evs ?bs fo err st4 else st4)"
    and out: "so_fo_attempted out = fo_attempted fo"
      "so_success out \<longleftrightarrow> pol \<and> (fo_attempted fo \<and> fo_succeeded fo \<or> \<not> fo_attempted fo \<and> failure_policy_of r \<noteq> ''LOG_AND_CONTINUE'')"
      "so_fo_succeeded out \<longleftrightarrow> pol \<and> fo_attempted fo \<and> fo_succeeded fo"
  have sends: "rs_sends st' = rs_sends st4" "rs_sends ?st2 = rs_sends st"
    by (simp_all add: st')
  have own: "allowed_call env r evs ?bs (own_call env r evs)"
    by (simp add: allowed_call_def)
  obtain new2 where new2: "rs_sends st4 = rs_sends st3 @ new2" "length new2 \<le> r_retry_count r"
      "\<forall>x \<in> set new2. fst x = own_call env r evs"
      "fo_attempted fo \<and> fo_succeeded fo \<Longrightarrow> pol \<and> new2 = []"
      "\<not> (fo_attempted fo \<and> fo_succeeded fo) \<Longrightarrow> failure_policy_of r \<noteq> ''LOG_AND_CONTINUE'' \<Longrightarrow> pol \<longleftrightarrow> delivered_in new2"
      "\<not> (fo_attempted fo \<and> fo_succeeded fo) \<Longrightarrow> failure_policy_of r = ''LOG_AND_CONTINUE'' \<Longrightarrow> new2 = []"
  proof (cases "fo_attempted fo \<and> fo_succeeded fo")
    case True
    then show ?thesis using that[of "[]"] pol by simp
  next
    case False
    then have "apply_failure_policy env r evs st3 = (pol, st4)" using pol by (auto split: if_splits)
    from apply_failure_policy_trace[OF this] False show ?thesis using that by blast
  qed
  from fo show ?thesis
  proof (cases rule: failover_step_cases)
    case idle
    then show ?thesis
      using new2 sends out own
      by (intro exI[of _ new2]) (cases "failure_policy_of r = ''LOG_AND_CONTINUE''"; auto)
  next
    case (called d b b0)
    let ?c = "runtime_call env (secondary_call env r b evs)"
    have "allowed_call env r evs ?bs ?c"
      using called by (auto simp: allowed_call_def)
    then show ?thesis
      using called new2 sends out own
      by (intro exI[of _ "(?c, fo_error fo) # new2"]) (cases "failure_policy_of r = ''LOG_AND_CONTINUE''"; auto)
  qed
qed

text \<open>The three ways through a send: stopped before the adapter, delivered, or failed.\<close>

lemma send_route_events_cases:
  assumes "send_route_events env r evs given rp st = (out, st')"
  obtains (stopped) "so_destination_disabled out \<or> so_rate_limited out" "\<not> so_success out" "\<not> so_failure_absorbed out"
      "rs_sends st' = rs_sends st" "rs_replay st' = rs_replay st"
  | (delivered) "so_success out" "\<not> so_rate_limited out" "\<not> so_destination_disabled out"
      "rs_sends st' = rs_sends st @ [(own_call env r evs, None)]" "rs_replay st' = rs_replay st"
  | (failed) err st1 where "se_net env (length (rs_sends st)) (own_call env r evs) = Some err"
      "rs_sends st1 = rs_sends st @ [(own_call env r evs, Some err)]" "rs_replay st1 = rs_replay st"
      "handle_send_failure env r evs given rp err st1 = (out, st')"
proof (cases "d_enabled (r_destination r)")
  case False
  then show ?thesis
    using assms stopped by (auto simp: send_route_events_def plain_outcome_def)
next
  case True
  obtain ok st0 where lim: "ask_limiter env (r_id r) (effective_destination_rate_limit r) st = (ok, st0)"
    by (metis surj_pair)
  note frame = ask_limiter_frame[OF lim]
  show ?thesis
  proof (cases ok)
    case False
    then show ?thesis
      using assms True lim frame stopped by (auto simp: send_route_events_def plain_outcome_def)
  next
    case ok: True
    show ?thesis
    proof (cases "se_net env (length (rs_sends st)) (own_call env r evs)")
      case None
      then show ?thesis
        using assms True lim ok frame delivered
        by (auto simp: send_route_events_def plain_outcome_def send_to_destination_eq)
    next
      case (Some err)
      show ?thesis
        by (rule failed[of err "st0\<lparr>rs_sends := rs_sends st0 @ [(own_call env r evs, Some err)]\<rparr>"])
           (use assms True lim ok frame Some in \<open>auto simp: send_route_events_def send_to_destination_eq\<close>)
    qed
  qed
qed

section \<open>The replay rows of a failure\<close>

definition recordable :: "send_env \<Rightarrow> json list \<Rightarrow> bool" where
  "recordable env evs \<longleftrightarrow>
     \<not> se_dry_run env \<and> \<not> se_replay_window env \<and> se_replay_ok env \<and> evs \<noteq> [] \<and> list_all is_obj evs"

definition recordable_error :: "exn \<Rightarrow> bool" where
  "recordable_error e \<longleftrightarrow> \<not> ex_ai_policy e \<and> http_status_from_error e \<noteq> Some 429"

lemma maybe_record_prefix: "\<exists>new. rs_replay (maybe_record_replay_event env row err st) = rs_replay st @ new"
  by (auto simp: maybe_record_replay_event_def record_stream_replay_event_def Let_def split: option.splits)

lemma copy_objs: "list_all is_obj evs \<Longrightarrow> copy_events evs (Some n) = take n evs"
  by (auto simp: copy_events_def list_all_iff map_idI filter_id_conv dest: in_set_takeD)

lemma maybe_record_row:
  assumes "recordable env (rp_events row)" "0 < rp_destination row" "\<And>e. err = Some e \<Longrightarrow> recordable_error e"
  shows "\<exists>x. rs_replay (maybe_record_replay_event env row err st) = rs_replay st @ [x] \<and>
             rp_events x = take 500 (rp_events row) \<and> rp_destination x = rp_destination row \<and> rp_kind x = rp_kind row"
proof -
  have el: "is_replay_record_eligible err False" "\<not> (case err of Some e \<Rightarrow> ex_ai_policy e | None \<Rightarrow> False)"
    using assms(3) by (cases err; simp add: is_replay_record_eligible_def recordable_error_def)+
  have "rp_events row \<noteq> []" "list_all is_obj (rp_events row)"
    using assms(1) by (simp_all add: recordable_def)
  then have "copy_events (rp_events row) (Some 500) = take 500 (rp_events row)" "take 500 (rp_events row) \<noteq> []"
    by (simp_all add: copy_objs)
  then show ?thesis
    using assms(1,2) el
    by (simp add: maybe_record_replay_event_def record_stream_replay_event_def recordable_def Let_def)
qed

lemma apply_failure_policy_replay:
  assumes "apply_failure_policy env r evs st = (ok, st')"
  shows "\<exists>new. rs_replay st' = rs_replay st @ new"
proof (cases "failure_policy_of r = ''RETRY_AND_BACKOFF'' \<and> evs \<noteq> []")
  case True
  obtain ok1 lst st1 where loop: "retry_loop env r evs 0 (r_retry_count r) None st = ((ok1, lst), st1)"
    by (metis surj_pair)
  have "rs_replay st1 = rs_replay st"
    using retry_loop_trace[OF loop] by blast
  moreover have "\<exists>new. rs_replay st' = rs_replay st1 @ new"
  proof (cases "d_id (r_destination r)")
    case None
    then show ?thesis
      using assms loop True by (auto simp: apply_failure_policy_def Let_def split: if_splits)
  next
    case (Some d)
    show ?thesis
      using assms loop True Some
        maybe_record_prefix[of env "base_replay_request env r d evs" lst "emit_log env (retry_failed_log env r evs lst) st1"]
      by (auto simp: apply_failure_policy_def Let_def split: if_splits)
  qed
  ultimately show ?thesis by simp
next
  case False
  then show ?thesis
    using assms by (auto simp: apply_failure_policy_def Let_def split: if_splits)
qed

lemma failure_kept_by_policy:
  assumes "handle_send_failure env r evs given True err st = (out, st')"
    and "\<not> so_success out" "recordable env evs" "d_id (r_destination r) = Some d" "0 < d" "recordable_error err"
    and net: "\<And>n c e. se_net env n c = Some e \<Longrightarrow> recordable_error e"
    and sec: "\<And>bs b. send_bindings env r given = Some bs \<Longrightarrow> dict_get bs d = Some b \<Longrightarrow> 0 < fb_secondary b"
  shows "\<exists>new x. rs_replay st' = rs_replay st @ new @ [x] \<and> rp_events x = take 500 evs \<and>
           (rp_kind x = Base_Route \<and> rp_destination x = d \<or>
            rp_kind x = Failover_Secondary \<and>
              (\<exists>bs b. send_bindings env r given = Some bs \<and> dict_get bs d = Some b \<and> rp_destination x = fb_secondary b))"
  using assms(1)
proof (rule handle_send_failure_cases)
  fix fo st3 pol st4
  let ?bs = "send_bindings env r given"
  let ?st1 = "if ex_ai_policy err \<and> se_ai_holder env then st\<lparr>rs_blocked := Some err\<rparr> else st"
  let ?st2 = "emit_log env (send_failed_log env r evs err) ?st1"
  assume fo: "failover_step env r evs ?bs err ?st2 = (fo, st3)"
    and pol: "(if fo_attempted fo \<and> fo_succeeded fo then (True, st3) else apply_failure_policy env r evs st3) = (pol, st4)"
    and st': "st' = (if True then record_failed_batch env r evs ?bs fo err st4 else st4)"
    and out: "so_success out \<longleftrightarrow> pol \<and> (fo_attempted fo \<and> fo_succeeded fo \<or> \<not> fo_attempted fo \<and> failure_policy_of r \<noteq> ''LOG_AND_CONTINUE'')"
  have st2: "rs_replay ?st2 = rs_replay st" by simp
  obtain bs where bs: "?bs = Some bs"
    using assms(4) by (cases given) (auto simp: send_bindings_def)
  have nfo: "\<not> (fo_attempted fo \<and> fo_succeeded fo)"
    using out assms(2) pol by auto
  then have "apply_failure_policy env r evs st3 = (pol, st4)"
    using pol by (auto split: if_splits)
  from apply_failure_policy_replay[OF this] obtain new where new: "rs_replay st4 = rs_replay st3 @ new" ..
  from fo show ?thesis
  proof (cases rule: failover_step_cases)
    case idle
    have eq: "st' = maybe_record_replay_event env (base_replay_request env r d evs) (Some err) st4"
      using st' bs idle assms(4) by (simp add: record_failed_batch_def)
    obtain x where "rs_replay st' = rs_replay st4 @ [x]" "rp_events x = take 500 evs" "rp_destination x = d" "rp_kind x = Base_Route"
      using maybe_record_row[of env "base_replay_request env r d evs" "Some err" st4] assms(3,5,6)
      unfolding eq by (auto simp: base_replay_request_def replay_request_def)
    then show ?thesis using new idle(4) st2 by auto
  next
    case (called d' b b0)
    have b: "d' = d" "b0 = bs" "dict_get bs d = Some b"
      using called(1-3) assms(4) bs by auto
    have "\<not> fo_succeeded fo" using called(5) nfo by blast
    then obtain e2 where e2: "fo_error fo = Some e2" using called(7) by auto
    let ?row = "(replay_request env (Some (r_id r)) (fb_secondary b) Failover_Secondary evs (fb_type b) (r_formatter r))
                  \<lparr>rp_failover := Some (fb_route b)\<rparr>"
    have eq: "st' = maybe_record_replay_event env ?row (Some e2) st4"
      using st' bs called b assms(4) e2 \<open>\<not> fo_succeeded fo\<close> by (simp add: record_failed_batch_def)
    have "recordable_error e2"
      using net called(8) e2 by metis
    then obtain x where "rs_replay st' = rs_replay st4 @ [x]" "rp_events x = take 500 evs"
        "rp_destination x = fb_secondary b" "rp_kind x = Failover_Secondary"
      using maybe_record_row[of env ?row "Some e2" st4] assms(3) sec[OF bs b(3)]
      unfolding eq by (auto simp: replay_request_def)
    then show ?thesis using new called(10) st2 bs b by auto
  qed
qed

section \<open>Properties\<close>

text \<open>A webhook route, a network that fails at given calls, and the states the witnesses start
  from.\<close>

definition hook_destination :: "int \<Rightarrow> destination" where
  "hook_destination i =
     \<lparr>d_id = Some i, d_enabled = True, d_type = ''webhook'', d_name = ''hook'', d_config = [], d_rate_limit = None\<rparr>"

definition hook_route :: "string \<Rightarrow> route" where
  "hook_route policy =
     \<lparr>r_id = 1, r_enabled = True, r_destination = hook_destination 1, r_rate_limit = None,
      r_failure_policy = policy, r_retry_count = 2, r_backoff = 1, r_formatter = None\<rparr>"

definition send_error :: exn where
  "send_error =
     \<lparr>ex_type = ''DestinationSendError'', ex_message = ''down'', ex_ai_policy = False, ex_http_status = None,
      ex_cause_status = None, ex_own_status = None, ex_dest_send = True, ex_os = False, ex_httpx_timeout = False\<rparr>"

definition failing_env :: "nat list \<Rightarrow> send_env" where
  "failing_env fails =
     \<lparr>se_stream = 7, se_stream_name = ''s'', se_run_id = None, se_connector = None, se_clock = (\<lambda>_. 0),
      se_net = (\<lambda>n c. if n \<in> set fails then Some send_error else None), se_rules = [], se_destinations = [],
      se_bindings_ok = True, se_resolve = (\<lambda>t c. Some c), se_dry_run = False, se_replay_window = False,
      se_replay_ok = True, se_ai_holder = False\<rparr>"

definition idle_state :: run_state where
  "idle_state =
     \<lparr>rs_windows = [], rs_ticks = 0, rs_sends = [], rs_logs = [], rs_status = [], rs_disabled = [],
      rs_sleeps = [], rs_replay = [], rs_dedup = None, rs_blocked = None\<rparr>"

definition hook_binding :: binding where
  "hook_binding =
     \<lparr>fb_route = 3, fb_primary = 1, fb_secondary = 2, fb_type = ''WEBHOOK'', fb_config = [], fb_name = ''spare'',
      fb_enabled = True, fb_rate_limit = None\<rparr>"

lemmas send_samples = hook_destination_def hook_route_def send_error_def failing_env_def idle_state_def hook_binding_def

lemma failing_env_recordable:
  "recordable (failing_env fs) [JObj []]" "se_net (failing_env fs) n c = Some e \<Longrightarrow> recordable_error e"
  by (auto simp: recordable_def recordable_error_def send_samples http_status_from_error_def split: if_splits)

lemma send_route_trace:
  assumes "send_route_events env r events given record_replay st = (out, st')"
  shows "\<exists>new. rs_sends st' = rs_sends st @ new \<and> length new \<le> r_retry_count r + 2 \<and>
           (\<forall>x \<in> set new. allowed_call env r events (send_bindings env r given) (fst x)) \<and>
           (so_success out \<longrightarrow> delivered_in new) \<and>
           (delivered_in new \<and> (so_fo_attempted out \<longrightarrow> so_fo_succeeded out) \<longrightarrow> so_success out)"
  using assms
proof (cases rule: send_route_events_cases)
  case stopped
  then show ?thesis by (intro exI[of _ "[]"]) simp
next
  case delivered
  then show ?thesis
    by (intro exI[of _ "[(own_call env r events, None)]"]) (simp add: allowed_call_def)
next
  case (failed err st1)
  obtain new where new: "rs_sends st' = rs_sends st1 @ new" "length new \<le> r_retry_count r + 1"
      "\<forall>x \<in> set new. allowed_call env r events (send_bindings env r given) (fst x)"
      "so_success out \<longrightarrow> delivered_in new"
      "delivered_in new \<and> (so_fo_attempted out \<longrightarrow> so_fo_succeeded out) \<longrightarrow> so_success out"
    using handle_send_failure_trace[OF failed(4)] by blast
  then show ?thesis
    using failed by (intro exI[of _ "(own_call env r events, Some err) # new"]) (simp add: allowed_call_def)
qed

text \<open>C9: What the send path reports is what it did: it makes at most \<open>retry_count + 2\<close> adapter
  calls, all with the events of the route and all to its destination or the enabled secondary
  bound to it; it reports a success only if one of them succeeded, and, unless a failover was
  tried and failed, whenever one of them succeeded.\<close>

theorem send_outcome_exact:
  assumes "send_route_events env r events given record_replay st = (out, st')"
  shows "\<exists>new. rs_sends st' = rs_sends st @ new \<and> length new \<le> r_retry_count r + 2 \<and>
           (\<forall>x \<in> set new. allowed_call env r events (send_bindings env r given) (fst x)) \<and>
           (so_success out \<longrightarrow> delivered_in new) \<and>
           (delivered_in new \<and> (so_fo_attempted out \<longrightarrow> so_fo_succeeded out) \<longrightarrow> so_success out)"
  using assms by (rule send_route_trace)

theorem send_outcome_exact_witness:
  "\<exists>out st' new. send_route_events (failing_env [0]) (hook_route ''RETRY_AND_BACKOFF'') [JObj []] None True idle_state = (out, st') \<and>
     so_success out \<and> rs_sends st' = [] @ new \<and> length new \<le> 4 \<and> delivered_in new"
proof -
  let ?run = "send_route_events (failing_env [0]) (hook_route ''RETRY_AND_BACKOFF'') [JObj []] None True idle_state"
  obtain out st' where run: "?run = (out, st')" by (metis surj_pair)
  have "so_success (fst ?run)" by code_simp
  then have ok: "so_success out" using run by simp
  have "rs_sends idle_state = []" "r_retry_count (hook_route ''RETRY_AND_BACKOFF'') = 2"
    by (simp_all add: send_samples)
  with send_outcome_exact[OF run] ok run show ?thesis by auto
qed



text \<open>When the secondary fails and a retry of the primary then succeeds, the destination has
  the events, but the send reports a failure and the batch is stored for replay to the
  secondary: the run counts the route as failed, does not advance the checkpoint, and the
  destination receives the events again.\<close>

theorem retry_after_failover_hidden:
  assumes run: "send_route_events env r events (Some bs) True st = (out, st')"
    and dest: "d_enabled (r_destination r)" "d_id (r_destination r) = Some d"
    and free: "effective_destination_rate_limit r = None" "fb_rate_limit b = None"
    and bound: "dict_get bs d = Some b" "fb_enabled b" "0 < fb_secondary b"
    and policy: "failure_policy_of r = ''RETRY_AND_BACKOFF''" "r_retry_count r = Suc k" "events \<noteq> []"
    and net: "se_net env (length (rs_sends st)) (own_call env r events) = Some e1" "is_failover_eligible_error e1"
      "se_net env (length (rs_sends st) + 1) (runtime_call env (secondary_call env r b events)) = Some e2"
      "se_net env (length (rs_sends st) + 2) (own_call env r events) = None"
    and rec: "recordable env events" "recordable_error e2"
  shows "\<not> so_success out \<and> rs_sends st' = rs_sends st @
           [(own_call env r events, Some e1), (runtime_call env (secondary_call env r b events), Some e2),
            (own_call env r events, None)] \<and>
         (\<exists>x. rs_replay st' = rs_replay st @ [x] \<and> rp_kind x = Failover_Secondary \<and> rp_events x = take 500 events)"
proof -
  let ?c1 = "own_call env r events" and ?c2 = "runtime_call env (secondary_call env r b events)"
  let ?st1 = "st\<lparr>rs_ticks := rs_ticks st + 1, rs_sends := rs_sends st @ [(?c1, Some e1)]\<rparr>"
  let ?st2 = "emit_log env (send_failed_log env r events e1)
                (if ex_ai_policy e1 \<and> se_ai_holder env then ?st1\<lparr>rs_blocked := Some e1\<rparr> else ?st1)"
  have handled: "handle_send_failure env r events (Some bs) True e1 ?st1 = (out, st')"
    using run dest free net(1) by (auto simp: send_route_events_def send_to_destination_eq)
  obtain fo st3 where fo: "failover_step env r events (Some bs) e1 ?st2 = (fo, st3)"
    by (metis surj_pair)
  have fo_eq: "fo = \<lparr>fo_attempted = True, fo_succeeded = False, fo_secondary = True, fo_error = Some e2\<rparr>"
    and st3: "rs_sends st3 = rs_sends st @ [(?c1, Some e1), (?c2, Some e2)]" "rs_replay st3 = rs_replay st"
    using fo dest free bound net(2,3)
    by (auto simp: failover_step_def attempt_failover_send_def send_to_destination_eq split: if_splits)
  obtain st4 where pol: "apply_failure_policy env r events st3 = (True, st4)"
    and st4: "rs_sends st4 = rs_sends st3 @ [(?c1, None)]" "rs_replay st4 = rs_replay st3"
    using policy net(4) st3 by (simp add: apply_failure_policy_def send_to_destination_eq)
  let ?row = "(replay_request env (Some (r_id r)) (fb_secondary b) Failover_Secondary events (fb_type b) (r_formatter r))
                \<lparr>rp_failover := Some (fb_route b)\<rparr>"
  have bnd: "send_bindings env r (Some bs) = Some bs" by (simp add: send_bindings_def)
  have st': "\<not> so_success out \<and> st' = maybe_record_replay_event env ?row (Some e2) st4"
    using handled
  proof (rule handle_send_failure_cases)
    fix fo' st3' pol' st4'
    assume A: "failover_step env r events (send_bindings env r (Some bs)) e1
        (emit_log env (send_failed_log env r events e1)
          (if ex_ai_policy e1 \<and> se_ai_holder env then ?st1\<lparr>rs_blocked := Some e1\<rparr> else ?st1)) = (fo', st3')"
      and B: "(if fo_attempted fo' \<and> fo_succeeded fo' then (True, st3') else apply_failure_policy env r events st3') = (pol', st4')"
      and C: "st' = (if True then record_failed_batch env r events (send_bindings env r (Some bs)) fo' e1 st4' else st4')"
      and D: "so_success out \<longleftrightarrow> pol' \<and> (fo_attempted fo' \<and> fo_succeeded fo' \<or> \<not> fo_attempted fo' \<and> failure_policy_of r \<noteq> ''LOG_AND_CONTINUE'')"
    have eq: "fo' = fo" "st3' = st3" using A fo unfolding bnd by simp_all
    moreover have "st4' = st4" using B pol unfolding eq fo_eq by simp
    ultimately show ?thesis
      using C D dest bound fo_eq by (simp add: bnd record_failed_batch_def)
  qed
  obtain x where "rs_replay st' = rs_replay st4 @ [x]" "rp_events x = take 500 events" "rp_kind x = Failover_Secondary"
    using maybe_record_row[of env ?row "Some e2" st4] rec bound(3) unfolding conjunct2[OF st']
    by (auto simp: replay_request_def)
  moreover have "rs_sends st' = rs_sends st4" unfolding conjunct2[OF st'] by simp
  ultimately show ?thesis using conjunct1[OF st'] st3 st4 by simp
qed

theorem retry_after_failover_hidden_witness:
  "\<exists>out st'. send_route_events (failing_env [0, 1]) (hook_route ''RETRY_AND_BACKOFF'') [JObj []] (Some [(1, hook_binding)]) True idle_state = (out, st') \<and>
     \<not> so_success out \<and> length (rs_sends st') = 3 \<and> snd (rs_sends st' ! 2) = None \<and> length (rs_replay st') = 1"
proof -
  let ?r = "hook_route ''RETRY_AND_BACKOFF''"
  obtain out st' where run: "send_route_events (failing_env [0, 1]) ?r [JObj []] (Some [(1, hook_binding)]) True idle_state = (out, st')"
    by (metis surj_pair)
  have "\<not> so_success out \<and> rs_sends st' = rs_sends idle_state @
           [(own_call (failing_env [0, 1]) ?r [JObj []], Some send_error),
            (runtime_call (failing_env [0, 1]) (secondary_call (failing_env [0, 1]) ?r hook_binding [JObj []]), Some send_error),
            (own_call (failing_env [0, 1]) ?r [JObj []], None)] \<and>
         (\<exists>x. rs_replay st' = rs_replay idle_state @ [x] \<and> rp_kind x = Failover_Secondary \<and> rp_events x = take 500 [JObj []])"
    by (rule retry_after_failover_hidden[OF run, where k = 1 and d = 1])
       (simp_all add: send_samples effective_destination_rate_limit_def failure_policy_of_def py_upper_def
          py_upper_char_def is_failover_eligible_error_def http_status_from_error_def recordable_def recordable_error_def)
  then show ?thesis using run by (auto simp: idle_state_def)
qed

end
