(* ===== verification/Fan_Out.thy ===== *)
theory Fan_Out
  imports Send_Path "HOL-Library.Sublist"
begin

text \<open>
  Fan-out of one batch: \<open>app/dynamic_routing/dynamic_routing_engine.py\<close>, and of
  \<open>app/runners/stream_runner.py\<close> \<open>_deliver_dynamic_routes\<close>, \<open>_fan_out\<close> with both its branches and
  \<open>_route_delivery_fan_out_outcome\<close>, which decides whether the checkpoint may move.
  Cumulative totals of earlier runs in the log rows are left out.
\<close>

section \<open>Dynamic routing engine\<close>

record dynamic_rule =
  dy_id :: int
  dy_stream :: int
  dy_name :: string
  dy_destination :: int
  dy_enabled :: bool
  dy_condition :: json

record dynamic_match =
  dm_route :: int
  dm_name :: string
  dm_destination :: int
  dm_dest_name :: string
  dm_type :: string
  dm_config :: event
  dm_rate_limit :: "rate_cfg option"
  dm_enabled :: bool

record dynamic_result =
  dyr_matches :: "dynamic_match list"
  dyr_route_count :: nat
  dyr_matched_count :: nat

definition dynamic_condition_matches :: "json \<Rightarrow> string list \<Rightarrow> level list \<Rightarrow> bool" where
  "dynamic_condition_matches cond classes levels =
     (case cond of
        JObj d \<Rightarrow>
          (case dict_get d ''classification_level'' of
             Some (JNull) \<Rightarrow> (case dict_get d ''sensitivity_class'' of
                 None \<Rightarrow> False | Some JNull \<Rightarrow> False
               | Some v \<Rightarrow> py_str v \<in> set supported_condition_classes \<and> py_str v \<in> set classes)
           | None \<Rightarrow> (case dict_get d ''sensitivity_class'' of
                 None \<Rightarrow> False | Some JNull \<Rightarrow> False
               | Some v \<Rightarrow> py_str v \<in> set supported_condition_classes \<and> py_str v \<in> set classes)
           | Some v \<Rightarrow> (case normalize_level (py_str v) of None \<Rightarrow> False | Some l \<Rightarrow> l \<in> set levels))
      | _ \<Rightarrow> False)"

definition match_of :: "(string \<Rightarrow> event \<Rightarrow> event) \<Rightarrow> dynamic_rule \<Rightarrow> int \<Rightarrow> destination \<Rightarrow> dynamic_match" where
  "match_of resolve r did d =
     \<lparr>dm_route = dy_id r, dm_name = dy_name r, dm_destination = did, dm_dest_name = d_name d,
      dm_type = py_upper (py_strip (d_type d)), dm_config = resolve (py_upper (py_strip (d_type d))) (d_config d),
      dm_rate_limit = d_rate_limit d, dm_enabled = d_enabled d\<rparr>"

fun match_rules ::
    "(string \<Rightarrow> event \<Rightarrow> event) \<Rightarrow> (int, destination) dict \<Rightarrow> (dynamic_rule \<Rightarrow> bool) \<Rightarrow> dynamic_rule list \<Rightarrow>
     int list \<Rightarrow> dynamic_match list" where
  "match_rules resolve dests hit [] seen = []"
| "match_rules resolve dests hit (r # rs) seen =
     (if \<not> hit r then match_rules resolve dests hit rs seen
      else case dict_get dests (dy_destination r) of
             None \<Rightarrow> match_rules resolve dests hit rs seen
           | Some d \<Rightarrow>
               if dy_destination r \<in> set seen then match_rules resolve dests hit rs seen
               else match_of resolve r (dy_destination r) d
                    # match_rules resolve dests hit rs (seen @ [dy_destination r]))"

text \<open>\<open>evaluate_batch\<close>; the rules come ordered by id, \<open>None\<close> is no session.\<close>

definition evaluate_dynamic_batch ::
    "(json list \<Rightarrow> json list) \<Rightarrow> (string \<Rightarrow> event \<Rightarrow> event) \<Rightarrow> int \<Rightarrow> dynamic_rule list option \<Rightarrow>
     (int, destination) dict \<Rightarrow> json list \<Rightarrow> json list option \<Rightarrow> dynamic_result" where
  "evaluate_dynamic_batch detect resolve stream_id db_rules dests events findings =
     (let none = \<lparr>dyr_matches = [], dyr_route_count = 0, dyr_matched_count = 0\<rparr>
      in case db_rules of
           None \<Rightarrow> none
         | Some rows \<Rightarrow>
             (if events = [] then none
              else
                (let rules = filter (\<lambda>r. dy_stream r = stream_id \<and> dy_enabled r) rows
                 in if rules = [] then none
                    else
                      (let classes = finding_classes (case findings of None \<Rightarrow> detect events | Some f \<Rightarrow> f);
                           levels = classification_levels_from_events events;
                           ms = match_rules resolve dests
                                  (\<lambda>r. dynamic_condition_matches (dy_condition r) classes levels) rules []
                       in \<lparr>dyr_matches = ms, dyr_route_count = length rules, dyr_matched_count = length ms\<rparr>))))"

section \<open>Dynamic deliveries\<close>

definition dynamic_log :: "send_env \<Rightarrow> string \<Rightarrow> dynamic_match \<Rightarrow> event \<Rightarrow> event" where
  "dynamic_log env stage m extra =
     [(''stage'', JStr stage), (''stream_id'', JInt (se_stream env)), (''dynamic_route_id'', JInt (dm_route m)),
      (''destination_id'', JInt (dm_destination m))] @ extra"

definition dynamic_call :: "send_env \<Rightarrow> dynamic_match \<Rightarrow> json list \<Rightarrow> send_call" where
  "dynamic_call env m events =
     \<lparr>sc_type = py_upper (dm_type m), sc_events = events, sc_config = dm_config m, sc_formatter = None,
      sc_prefix = \<lparr>px_stream = se_stream_name env, px_stream_id = se_stream env, px_dest_name = dm_dest_name m,
                   px_dest_type = py_upper (dm_type m), px_route = 0\<rparr>\<rparr>"

definition deliver_dynamic_route ::
    "send_env \<Rightarrow> json list \<Rightarrow> int list \<Rightarrow> dynamic_match \<Rightarrow> run_state \<Rightarrow> nat \<times> run_state" where
  "deliver_dynamic_route env events skip m st =
     (if dm_destination m \<in> set skip then
        (0, emit_log env (dynamic_log env ''dynamic_route_send_skip'' m
               [(''skip_reason'', JStr ''duplicate_base_destination'')]) st)
      else if \<not> dm_enabled m then
        (0, emit_log env (dynamic_log env ''dynamic_route_send_skip'' m
               [(''skip_reason'', JStr ''destination_disabled'')]) st)
      else
        (let (ok, st1) = ask_limiter env (- dm_route m) (dm_rate_limit m) st
         in if \<not> ok then (0, emit_log env (dynamic_log env ''dynamic_route_send_rate_limited'' m []) st1)
            else
              (let (res, st2) = send_to_destination env (dynamic_call env m events) st1
               in case res of
                    None \<Rightarrow>
                      (1, emit_log env (dynamic_log env ''dynamic_route_send_success'' m
                             [(''destination_type'', JStr (py_upper (dm_type m))),
                              (''event_count'', JInt (int (length events)))]) st2)
                  | Some e \<Rightarrow>
                      (0, maybe_record_replay_event env
                            ((replay_request env None (dm_destination m) Dynamic_Route_Kind events
                                (py_upper (dm_type m)) None)\<lparr>rp_dynamic := Some (dm_route m)\<rparr>) (Some e)
                            (emit_log env (dynamic_log env ''dynamic_route_send_failed'' m
                               ((''failure_policy'', JStr ''LOG_AND_CONTINUE'') # error_fields e)) st2)))))"

fun deliver_matches ::
    "send_env \<Rightarrow> json list \<Rightarrow> int list \<Rightarrow> dynamic_match list \<Rightarrow> nat \<Rightarrow> run_state \<Rightarrow> nat \<times> run_state" where
  "deliver_matches env events skip [] n st = (n, st)"
| "deliver_matches env events skip (m # ms) n st =
     (let (k, st') = deliver_dynamic_route env events skip m st
      in deliver_matches env events skip ms (n + k) st')"

definition deliver_dynamic_routes ::
    "send_env \<Rightarrow> json list \<Rightarrow> dynamic_result \<Rightarrow> int list \<Rightarrow> run_state \<Rightarrow> nat \<times> run_state" where
  "deliver_dynamic_routes env events dyn skip st =
     (if events = [] then (0, st) else deliver_matches env events skip (dyr_matches dyn) 0 st)"

section \<open>The outcome of the routes\<close>

record fan_out_outcome =
  fan_events :: "json list"
  fan_log_continue :: "int list"
  fan_dynamic_sent :: nat
  fan_fo_attempts :: nat
  fan_fo_successes :: nat
  fan_fo_failures :: nat

definition no_fan_out :: fan_out_outcome where
  "no_fan_out = \<lparr>fan_events = [], fan_log_continue = [], fan_dynamic_sent = 0, fan_fo_attempts = 0,
                 fan_fo_successes = 0, fan_fo_failures = 0\<rparr>"

text \<open>The loop variables of both loops over the routes.\<close>

record loop_state =
  lp_required_ok :: bool
  lp_delivered :: bool
  lp_saw_route :: bool
  lp_log_continue :: "int list"
  lp_fo_attempts :: nat
  lp_fo_successes :: nat
  lp_fo_failures :: nat

definition loop_start :: loop_state where
  "loop_start = \<lparr>lp_required_ok = True, lp_delivered = False, lp_saw_route = False, lp_log_continue = [],
                 lp_fo_attempts = 0, lp_fo_successes = 0, lp_fo_failures = 0\<rparr>"

definition count_failover :: "bool \<Rightarrow> bool \<Rightarrow> loop_state \<Rightarrow> loop_state" where
  "count_failover attempted succeeded l =
     (if attempted then
        (let l1 = l\<lparr>lp_fo_attempts := lp_fo_attempts l + 1\<rparr>
         in if succeeded then l1\<lparr>lp_fo_successes := lp_fo_successes l1 + 1\<rparr>
            else l1\<lparr>lp_fo_failures := lp_fo_failures l1 + 1\<rparr>)
      else l)"

text \<open>One result of the pipeline; \<open>None\<close> is a stage result without a delivery result.\<close>

definition outcome_step :: "(int \<times> delivery_result option) \<Rightarrow> loop_state \<Rightarrow> loop_state" where
  "outcome_step res l0 =
     (case snd res of
        None \<Rightarrow> l0
      | Some d \<Rightarrow>
          (let l = count_failover (dl_fo_attempted d) (dl_fo_succeeded d) l0
           in if \<not> dl_allowed d then l
              else if dl_skip d = Some Rate_Limited then l\<lparr>lp_required_ok := False\<rparr>
              else if dl_skip d = Some No_Events \<or> dl_skip d = Some Destination_Disabled then l
              else
                (let l1 = l\<lparr>lp_saw_route := True\<rparr>
                 in case dl_success d of
                      Some True \<Rightarrow> l1\<lparr>lp_delivered := True\<rparr>
                    | Some False \<Rightarrow>
                        if dl_absorbed d then l1\<lparr>lp_log_continue := lp_log_continue l1 @ [fst res]\<rparr>
                        else l1\<lparr>lp_required_ok := False\<rparr>
                    | None \<Rightarrow> l1\<lparr>lp_required_ok := False\<rparr>)))"

definition route_delivery_fan_out_outcome ::
    "(int \<times> delivery_result option) list \<Rightarrow> json list \<Rightarrow> fan_out_outcome" where
  "route_delivery_fan_out_outcome results reference_events =
     (let l = fold outcome_step results loop_start;
          counts = no_fan_out\<lparr>fan_fo_attempts := lp_fo_attempts l, fan_fo_successes := lp_fo_successes l,
                             fan_fo_failures := lp_fo_failures l\<rparr>
      in if \<not> lp_saw_route l then counts
         else if lp_required_ok l \<and> lp_delivered l then
           counts\<lparr>fan_events := copy_events reference_events None, fan_log_continue := lp_log_continue l\<rparr>
         else counts\<lparr>fan_log_continue := lp_log_continue l\<rparr>)"

section \<open>Fan-out\<close>

definition add_id :: "int option \<Rightarrow> int list \<Rightarrow> int list" where
  "add_id x ids = (case x of None \<Rightarrow> ids | Some i \<Rightarrow> if i \<in> set ids then ids else ids @ [i])"

definition secondary_ids :: "(int, binding) dict \<Rightarrow> int list \<Rightarrow> int list" where
  "secondary_ids bs ids = fold (\<lambda>(k, b). add_id (Some (fb_secondary b))) bs ids"

definition loaded_bindings :: "send_env \<Rightarrow> (int, binding) dict" where
  "loaded_bindings env = (if se_bindings_ok env then load_failover_bindings_by_primary env else [])"

definition dynamic_complete_log :: "send_env \<Rightarrow> dynamic_result \<Rightarrow> nat \<Rightarrow> event" where
  "dynamic_complete_log env dyn sent =
     [(''stage'', JStr ''dynamic_routing_complete''), (''stream_id'', JInt (se_stream env)),
      (''message'', JStr ''dynamic routing evaluation complete''),
      (''dynamic_route_count'', JInt (int (dyr_route_count dyn))),
      (''matched_dynamic_route_count'', JInt (int (dyr_matched_count dyn))),
      (''dynamic_deliveries_this_run'', JInt (int sent))]"

definition failover_complete_log :: "send_env \<Rightarrow> nat \<Rightarrow> nat \<Rightarrow> nat \<Rightarrow> nat \<Rightarrow> event" where
  "failover_complete_log env n attempts successes failures =
     [(''stage'', JStr ''failover_routing_complete''), (''stream_id'', JInt (se_stream env)),
      (''message'', JStr ''failover routing evaluation complete''),
      (''failover_route_count'', JInt (int n)), (''attempt_count'', JInt (int attempts)),
      (''success_count'', JInt (int successes)), (''failure_count'', JInt (int failures))]"

text \<open>The branch of \<open>_fan_out\<close> that the run takes: the routes have been delivered by the pipeline,
  only the dynamic routes are left.\<close>

definition fan_out_after_pipeline ::
    "send_env \<Rightarrow> route list \<Rightarrow> json list \<Rightarrow> dynamic_result option \<Rightarrow> fan_out_outcome \<Rightarrow> run_state \<Rightarrow>
     fan_out_outcome \<times> run_state" where
  "fan_out_after_pipeline env routes events dyn outcome st =
     (let base = fold (\<lambda>r. add_id (d_id (r_destination r))) routes [];
          bs = loaded_bindings env;
          skip = secondary_ids bs base;
          (sent, st1) = (case dyn of
                           None \<Rightarrow> (0, st)
                         | Some d \<Rightarrow>
                             (let (n, s) = deliver_dynamic_routes env events d skip st
                              in (n, emit_log env (dynamic_complete_log env d n) s)));
          st2 = (if bs \<noteq> [] then
                   emit_log env (failover_complete_log env (length bs) (fan_fo_attempts outcome)
                     (fan_fo_successes outcome) (fan_fo_failures outcome)) st1
                 else st1)
      in (outcome\<lparr>fan_dynamic_sent := sent\<rparr>, st2))"

text \<open>The other branch: one route of the loop that sends to the routes itself, and the loop.
  The base destination ids are collected on the way.\<close>

definition off_route ::
    "send_env \<Rightarrow> (int, binding) dict \<Rightarrow> (int \<Rightarrow> json list) \<Rightarrow> route \<Rightarrow> (loop_state \<times> int list) \<times> run_state \<Rightarrow>
     (loop_state \<times> int list) \<times> run_state" where
  "off_route env bs payload r acc =
     (case acc of ((l, ids), st) \<Rightarrow>
       (if \<not> r_enabled r then
          ((l, ids), emit_log env (route_log env ''route_skip'' r
             [(''skip_reason'', JStr ''route_disabled''), (''message'', JStr ''route_disabled'')]) st)
        else if \<not> d_enabled (r_destination r) then
          ((l, ids), emit_log env (route_log env ''route_skip'' r
             [(''destination_id'', opt_int (d_id (r_destination r))),
              (''skip_reason'', JStr ''destination_disabled''), (''message'', JStr ''destination_disabled'')]) st)
        else
          (let l1 = l\<lparr>lp_saw_route := True\<rparr>;
               ids1 = add_id (d_id (r_destination r)) ids;
               events = payload (r_id r)
           in if events = [] then
                ((l1, ids1), emit_log env (route_log env ''route_skip'' r
                   [(''skip_reason'', JStr ''no_route_payload''), (''message'', JStr ''route_payload_empty'')]) st)
              else
                (let (out, st1) = send_route_events env r events (Some bs) True st;
                     l2 = count_failover (so_fo_attempted out) (so_fo_succeeded out) l1
                 in if so_rate_limited out then ((l2\<lparr>lp_required_ok := False\<rparr>, ids1), st1)
                    else if so_destination_disabled out then ((l2, ids1), st1)
                    else
                      (let l3 = (if so_primary_failed out \<and> failure_policy_of r = ''LOG_AND_CONTINUE'' \<or> so_failure_absorbed out
                                 then l2\<lparr>lp_log_continue := lp_log_continue l2 @ [r_id r]\<rparr> else l2)
                       in if so_success out \<or> so_failure_absorbed out then ((l3, ids1), st1)
                          else ((l3\<lparr>lp_required_ok := False\<rparr>, ids1), st1))))))"

definition fan_out_routes ::
    "send_env \<Rightarrow> route list \<Rightarrow> json list \<Rightarrow> dynamic_result option \<Rightarrow> bool \<Rightarrow> (int \<Rightarrow> json list option) option \<Rightarrow>
     run_state \<Rightarrow> fan_out_outcome \<times> run_state" where
  "fan_out_routes env routes events dyn has_enriched payloads st =
     (if routes = [] \<or> events = [] then (no_fan_out, st)
      else
        (let bs = loaded_bindings env;
             payload = (\<lambda>rid. case payloads of
                           None \<Rightarrow> events
                         | Some p \<Rightarrow> (case p rid of None \<Rightarrow> events | Some evs \<Rightarrow> evs));
             ((l, ids), st1) = fold (off_route env bs payload) routes ((loop_start, []), st);
             skip = secondary_ids bs ids;
             (sent, st2) = (case dyn of
                              None \<Rightarrow> (0, st1)
                            | Some d \<Rightarrow>
                                (let (n, s) = deliver_dynamic_routes env events d skip st1
                                 in (n, if has_enriched then emit_log env (dynamic_complete_log env d n) s else s)));
             st3 = (if bs \<noteq> [] then
                      emit_log env (failover_complete_log env (length bs) (lp_fo_attempts l) (lp_fo_successes l)
                        (lp_fo_failures l)) st2
                    else st2);
             counts = no_fan_out\<lparr>fan_dynamic_sent := sent, fan_fo_attempts := lp_fo_attempts l,
                                fan_fo_successes := lp_fo_successes l, fan_fo_failures := lp_fo_failures l\<rparr>
         in (if \<not> lp_saw_route l then no_fan_out\<lparr>fan_dynamic_sent := sent\<rparr>
             else if lp_required_ok l then
               counts\<lparr>fan_events := copy_events events None, fan_log_continue := lp_log_continue l\<rparr>
             else counts, st3)))"

section \<open>The condition of both engines\<close>

lemma dynamic_condition_is_policy_condition:
  "dynamic_condition_matches cond classes levels = condition_matches cond classes levels"
  by (auto simp: dynamic_condition_matches_def condition_matches_def Let_def
      split: json.splits option.splits)

section \<open>The loop over the results\<close>

text \<open>A result that delivered, and one that does not hold the checkpoint back.\<close>

definition delivering :: "delivery_result \<Rightarrow> bool" where
  "delivering d \<longleftrightarrow> dl_allowed d \<and> dl_skip d \<notin> {Some Rate_Limited, Some No_Events, Some Destination_Disabled} \<and>
     dl_success d = Some True"

definition harmless :: "delivery_result \<Rightarrow> bool" where
  "harmless d \<longleftrightarrow> \<not> dl_allowed d \<or>
     dl_skip d \<noteq> Some Rate_Limited \<and>
       (dl_skip d \<in> {Some No_Events, Some Destination_Disabled} \<or> dl_success d = Some True \<or>
        dl_success d = Some False \<and> dl_absorbed d)"

lemma count_failover_frame [simp, frame_simps]:
  "lp_required_ok (count_failover a b l) = lp_required_ok l"
  "lp_delivered (count_failover a b l) = lp_delivered l"
  "lp_saw_route (count_failover a b l) = lp_saw_route l"
  "lp_log_continue (count_failover a b l) = lp_log_continue l"
  by (simp_all add: count_failover_def Let_def)

lemma outcome_step_none [simp]: "outcome_step (i, None) l = l"
  by (simp add: outcome_step_def)

lemma outcome_step_some:
  "lp_required_ok (outcome_step (i, Some d) l) = (lp_required_ok l \<and> harmless d)"
  "lp_delivered (outcome_step (i, Some d) l) = (lp_delivered l \<or> delivering d)"
  "delivering d \<Longrightarrow> lp_saw_route (outcome_step (i, Some d) l)"
  "lp_saw_route l \<Longrightarrow> lp_saw_route (outcome_step (i, Some d) l)"
  by (auto simp: outcome_step_def delivering_def harmless_def Let_def split: option.splits bool.splits)

lemma outcome_loop:
  "(lp_required_ok (fold outcome_step results l) \<longleftrightarrow>
      lp_required_ok l \<and> (\<forall>i d. (i, Some d) \<in> set results \<longrightarrow> harmless d)) \<and>
   (lp_delivered (fold outcome_step results l) \<longleftrightarrow>
      lp_delivered l \<or> (\<exists>i d. (i, Some d) \<in> set results \<and> delivering d)) \<and>
   (lp_saw_route l \<or> (\<exists>i d. (i, Some d) \<in> set results \<and> delivering d) \<longrightarrow>
      lp_saw_route (fold outcome_step results l))"
proof (induction results arbitrary: l)
  case (Cons x xs)
  obtain i o' where x: "x = (i, o')" by (cases x)
  show ?case
  proof (cases o')
    case None
    then show ?thesis using Cons.IH[of l] by (auto simp: x)
  next
    case (Some d)
    then show ?thesis
      using Cons.IH[of "outcome_step x l"] outcome_step_some[where i = i and d = d and l = l]
      by (auto simp: x)
  qed
qed simp

lemma fan_out_events:
  "fan_events (route_delivery_fan_out_outcome results ref) =
     (if (\<exists>i d. (i, Some d) \<in> set results \<and> delivering d) \<and>
         (\<forall>i d. (i, Some d) \<in> set results \<longrightarrow> harmless d)
      then copy_events ref None else [])"
  using outcome_loop[where results = results and l = loop_start]
  by (auto simp: route_delivery_fan_out_outcome_def Let_def loop_start_def no_fan_out_def)

section \<open>Dynamic routes\<close>

lemma match_rules_destinations:
  "distinct (map dm_destination (match_rules resolve dests hit rs seen)) \<and>
   set (map dm_destination (match_rules resolve dests hit rs seen)) \<inter> set seen = {}"
  by (induction rs arbitrary: seen) (force simp: match_of_def split: option.splits)+

lemma evaluate_dynamic_distinct:
  "distinct (map dm_destination (dyr_matches (evaluate_dynamic_batch detect resolve sid rules dests evs fs)))"
  by (auto simp: evaluate_dynamic_batch_def Let_def match_rules_destinations split: option.splits)

lemma deliver_dynamic_route_cases:
  assumes "deliver_dynamic_route env evs skip m st = (k, st')"
  obtains (skipped) "k = 0" "rs_sends st' = rs_sends st"
  | (called) res where "dm_destination m \<notin> set skip" "dm_enabled m" "k = (if res = None then 1 else 0)"
      "rs_sends st' = rs_sends st @ [(runtime_call env (dynamic_call env m evs), res)]"
proof -
  obtain ok st1 where lim: "ask_limiter env (- dm_route m) (dm_rate_limit m) st = (ok, st1)"
    by (metis surj_pair)
  note frame = ask_limiter_frame[OF lim]
  show ?thesis
  proof (cases "dm_destination m \<in> set skip \<or> \<not> dm_enabled m \<or> \<not> ok")
    case True
    then have "k = 0" "rs_sends st' = rs_sends st"
      using assms lim frame by (auto simp: deliver_dynamic_route_def split: if_splits)
    then show ?thesis by (rule skipped)
  next
    case False
    let ?c = "runtime_call env (dynamic_call env m evs)"
    have "k = (if se_net env (length (rs_sends st)) ?c = None then 1 else 0)"
      "rs_sends st' = rs_sends st @ [(?c, se_net env (length (rs_sends st)) ?c)]"
      using assms lim frame False
      by (cases "se_net env (length (rs_sends st)) ?c";
          auto simp: deliver_dynamic_route_def send_to_destination_eq)+
    with False show ?thesis by (intro called) auto
  qed
qed

lemma deliver_matches_trace:
  "deliver_matches env evs skip ms n st = (k, st') \<Longrightarrow>
     \<exists>new sub. rs_sends st' = rs_sends st @ new \<and> subseq sub ms \<and>
       map fst new = map (\<lambda>m. runtime_call env (dynamic_call env m evs)) sub \<and>
       (\<forall>m \<in> set sub. dm_destination m \<notin> set skip \<and> dm_enabled m) \<and>
       k = n + length (filter (\<lambda>x. snd x = None) new)"
proof (induction ms arbitrary: n st)
  case Nil
  then show ?case by (intro exI[of _ "[]"]) simp
next
  case (Cons m ms)
  obtain j st1 where one: "deliver_dynamic_route env evs skip m st = (j, st1)"
    by (metis surj_pair)
  then have rest: "deliver_matches env evs skip ms (n + j) st1 = (k, st')"
    using Cons.prems by simp
  obtain new sub where IH: "rs_sends st' = rs_sends st1 @ new" "subseq sub ms"
      "map fst new = map (\<lambda>m. runtime_call env (dynamic_call env m evs)) sub"
      "\<forall>m \<in> set sub. dm_destination m \<notin> set skip \<and> dm_enabled m"
      "k = n + j + length (filter (\<lambda>x. snd x = None) new)"
    using Cons.IH[OF rest] by blast
  from one show ?case
  proof (cases rule: deliver_dynamic_route_cases)
    case skipped
    then show ?thesis
      using IH by (intro exI[of _ new] exI[of _ sub]) auto
  next
    case (called res)
    then show ?thesis
      using IH
      by (intro exI[of _ "(runtime_call env (dynamic_call env m evs), res) # new"] exI[of _ "m # sub"]) auto
  qed
qed

section \<open>Properties\<close>

text \<open>C10: The checkpoint moves only on a real delivery: after the pipeline, the fan-out has
  successful events exactly when some route delivered and no allowed route was rate limited or
  failed without its failure being absorbed; they are then the reference events.\<close>

theorem checkpoint_needs_delivery:
  assumes "list_all is_obj ref" "ref \<noteq> []"
  shows "(fan_events (route_delivery_fan_out_outcome results ref) = ref \<longleftrightarrow>
            (\<exists>i d. (i, Some d) \<in> set results \<and> delivering d) \<and>
            (\<forall>i d. (i, Some d) \<in> set results \<longrightarrow> harmless d)) \<and>
         (fan_events (route_delivery_fan_out_outcome results ref) \<in> {[], ref})"
proof -
  have "copy_events ref None = ref"
    using assms(1) by (intro copy_events_objs) (simp add: list_all_iff)
  then show ?thesis using assms(2) by (auto simp: fan_out_events)
qed

definition sample_result :: "bool \<Rightarrow> bool \<Rightarrow> delivery_result" where
  "sample_result ok absorbed =
     \<lparr>dl_route = 1, dl_destination = 1, dl_allowed = True, dl_disposition = Delivered, dl_success = Some ok,
      dl_error = None, dl_action = Allow, dl_reason = [], dl_skip = None, dl_event_count = 1, dl_stage = None,
      dl_quarantine_id = None, dl_health = Healthy, dl_absorbed = absorbed, dl_fo_attempted = False,
      dl_fo_succeeded = False\<rparr>"

theorem checkpoint_needs_delivery_witness:
  "fan_events (route_delivery_fan_out_outcome [(1, Some (sample_result True False)), (2, Some (sample_result False True))] [JObj []]) = [JObj []] \<and>
   fan_events (route_delivery_fan_out_outcome [(2, Some (sample_result False True))] [JObj []]) \<noteq> [JObj []]"
proof -
  have ok: "delivering (sample_result True False)" "harmless (sample_result True False)"
      "harmless (sample_result False True)" "\<not> delivering (sample_result False True)"
    by (simp_all add: delivering_def harmless_def sample_result_def)
  have ref: "list_all is_obj [JObj []]" "[JObj []] \<noteq> []" by simp_all
  show ?thesis
    unfolding conjunct1[OF checkpoint_needs_delivery[OF ref]] using ok by auto
qed

text \<open>Dynamic routing adds targets and duplicates none: after the pipeline, each destination of
  a matching dynamic rule gets the batch in at most one call, in the order of the rules, and no
  call goes to a destination of one of the stream's routes or to a failover secondary; every
  call carries the events handed to the fan-out, and the count is that of the successful calls.\<close>

theorem dynamic_routes_add_targets:
  assumes "dyn = evaluate_dynamic_batch detect resolve sid rules dests evs0 findings"
    and "fan_out_after_pipeline env routes events (Some dyn) outcome st = (out, st')"
  shows "\<exists>new sub. rs_sends st' = rs_sends st @ new \<and> subseq sub (dyr_matches dyn) \<and>
           distinct (map dm_destination sub) \<and>
           map fst new = map (\<lambda>m. runtime_call env (dynamic_call env m events)) sub \<and>
           (\<forall>m \<in> set sub. (\<forall>r \<in> set routes. d_id (r_destination r) \<noteq> Some (dm_destination m)) \<and>
              (\<forall>(k, b) \<in> set (loaded_bindings env). fb_secondary b \<noteq> dm_destination m)) \<and>
           fan_dynamic_sent out = length (filter (\<lambda>x. snd x = None) new) \<and>
           fan_events out = fan_events outcome"
proof -
  let ?base = "fold (\<lambda>r. add_id (d_id (r_destination r))) routes []"
  let ?skip = "secondary_ids (loaded_bindings env) ?base"
  have base: "set (fold (\<lambda>r. add_id (d_id (r_destination r))) rs ids) =
      set ids \<union> {i. \<exists>r \<in> set rs. d_id (r_destination r) = Some i}" for rs ids
    by (induction rs arbitrary: ids) (auto simp: add_id_def split: option.splits if_splits)
  have sec: "set (secondary_ids bs ids) = set ids \<union> {i. \<exists>(k, b) \<in> set bs. fb_secondary b = i}" for bs ids
    unfolding secondary_ids_def
    by (induction bs arbitrary: ids) (auto simp: add_id_def split: if_splits)
  obtain n s1 where run: "deliver_dynamic_routes env events dyn ?skip st = (n, s1)"
    by (metis surj_pair)
  have fin: "rs_sends st' = rs_sends s1" "fan_dynamic_sent out = n" "fan_events out = fan_events outcome"
    using assms(2) run by (auto simp: fan_out_after_pipeline_def Let_def)
  obtain new sub where tr: "rs_sends s1 = rs_sends st @ new" "subseq sub (dyr_matches dyn)"
      "map fst new = map (\<lambda>m. runtime_call env (dynamic_call env m events)) sub"
      "\<forall>m \<in> set sub. dm_destination m \<notin> set ?skip \<and> dm_enabled m"
      "n = length (filter (\<lambda>x. snd x = None) new)"
  proof (cases "events = []")
    case True
    then show ?thesis using that[of "[]" "[]"] run by (simp add: deliver_dynamic_routes_def)
  next
    case False
    then have "deliver_matches env events ?skip (dyr_matches dyn) 0 st = (n, s1)"
      using run by (simp add: deliver_dynamic_routes_def)
    from deliver_matches_trace[OF this] show ?thesis using that by auto
  qed
  have "distinct (map dm_destination sub)"
    using evaluate_dynamic_distinct[of detect resolve sid rules dests evs0 findings] tr(2)
    unfolding assms(1) by (auto simp: subseq_conv_nths nths_map[symmetric] intro: distinct_nthsI)
  moreover have "(\<forall>r \<in> set routes. d_id (r_destination r) \<noteq> Some (dm_destination m)) \<and>
      (\<forall>(k, b) \<in> set (loaded_bindings env). fb_secondary b \<noteq> dm_destination m)" if "m \<in> set sub" for m
    using tr(4) that unfolding sec base by auto
  ultimately show ?thesis
    by (intro exI[of _ new] exI[of _ sub] conjI ballI) (use tr fin in simp_all)
qed

definition pii_rule :: "int \<Rightarrow> int \<Rightarrow> dynamic_rule" where
  "pii_rule i dest =
     \<lparr>dy_id = i, dy_stream = 7, dy_name = ''pii'', dy_destination = dest, dy_enabled = True,
      dy_condition = JObj [(''sensitivity_class'', JStr ''pii'')]\<rparr>"

definition pii_matches :: dynamic_result where
  "pii_matches = evaluate_dynamic_batch (\<lambda>_. []) (\<lambda>t c. c) 7 (Some [pii_rule 1 5, pii_rule 2 5, pii_rule 3 1])
     [(5, hook_destination 5), (1, hook_destination 1)] [JObj []] (Some [JObj [(''sensitivity_class'', JStr ''pii'')]])"

theorem dynamic_routes_add_targets_witness:
  "\<exists>out st' new. fan_out_after_pipeline (failing_env []) [hook_route ''LOG_AND_CONTINUE''] [JObj []] (Some pii_matches) no_fan_out idle_state = (out, st') \<and>
     rs_sends st' = new \<and> fan_dynamic_sent out = 1 \<and> fan_dynamic_sent out = length (filter (\<lambda>x. snd x = None) new)"
proof -
  let ?run = "fan_out_after_pipeline (failing_env []) [hook_route ''LOG_AND_CONTINUE''] [JObj []] (Some pii_matches) no_fan_out idle_state"
  obtain out st' where run: "?run = (out, st')" by (metis surj_pair)
  have "fan_dynamic_sent (fst ?run) = 1" by code_simp
  then show ?thesis
    using dynamic_routes_add_targets[OF pii_matches_def run] run by (auto simp: idle_state_def)
qed

text \<open>The two branches of the fan-out disagree on absorbed failures: when the only destination
  of a stream is down under \<open>LOG_AND_CONTINUE\<close>, the branch that sends by itself returns the batch as
  successful, so the checkpoint would move past events nobody received, while the outcome
  computed from the pipeline's result of the same send has no successful events.\<close>

theorem off_branch_counts_absorbed:
  assumes route: "r_enabled r" "d_enabled (r_destination r)" "effective_destination_rate_limit r = None"
      "failure_policy_of r = ''LOG_AND_CONTINUE''"
    and down: "\<And>n c. \<exists>e. se_net env n c = Some e"
    and no_failover: "loaded_bindings env = []"
    and evs: "list_all is_obj events" "events \<noteq> []"
    and off: "fan_out_routes env [r] events None False None st = (out, st')"
  shows "fan_events out = events \<and> (\<exists>new. rs_sends st' = rs_sends st @ new \<and> \<not> delivered_in new)"
proof -
  obtain err where err: "se_net env (length (rs_sends st)) (own_call env r events) = Some err"
    using down by blast
  obtain so st1 where send: "send_route_events env r events (Some []) True st = (so, st1)"
    by (metis surj_pair)
  let ?st1 = "st\<lparr>rs_ticks := rs_ticks st + 1, rs_sends := rs_sends st @ [(own_call env r events, Some err)]\<rparr>"
  have handled: "handle_send_failure env r events (Some []) True err ?st1 = (so, st1)"
    using send route err by (auto simp: send_route_events_def send_to_destination_eq)
  have fo_none: "failover_step env r events (Some []) err s = (no_failover, s)" for s
    by (auto simp: failover_step_def attempt_failover_send_def split: option.splits)
  have pol: "apply_failure_policy env r events s = (True, s)" for s
    using route(4) by (simp add: apply_failure_policy_def)
  have so: "so_failure_absorbed so \<and> \<not> so_rate_limited so \<and> \<not> so_destination_disabled so \<and>
      rs_sends st1 = rs_sends st @ [(own_call env r events, Some err)]"
    using handled route(4)
    by (auto simp: handle_send_failure_def send_bindings_def fo_none pol no_failover_def Let_def)
  have "copy_events events None = events"
    using evs(1) by (intro copy_events_objs) (simp add: list_all_iff)
  then have "fan_events out = events" "rs_sends st' = rs_sends st1"
    using off route no_failover evs(2) send so
    by (auto simp: fan_out_routes_def off_route_def loop_start_def no_fan_out_def Let_def)
  then show ?thesis using so by auto
qed

theorem off_branch_counts_absorbed_witness:
  "fan_events (fst (fan_out_routes (failing_env [0, 1, 2]\<lparr>se_net := \<lambda>n c. Some send_error\<rparr>)
      [hook_route ''LOG_AND_CONTINUE''] [JObj []] None False None idle_state)) = [JObj []]"
proof -
  let ?env = "failing_env [0, 1, 2]\<lparr>se_net := \<lambda>n c. Some send_error\<rparr>"
  obtain out st' where run: "fan_out_routes ?env [hook_route ''LOG_AND_CONTINUE''] [JObj []] None False None idle_state = (out, st')"
    by (metis surj_pair)
  have "fan_events out = [JObj []] \<and> (\<exists>new. rs_sends st' = rs_sends idle_state @ new \<and> \<not> delivered_in new)"
    by (rule off_branch_counts_absorbed[OF _ _ _ _ _ _ _ _ run])
       (simp_all add: hook_route_def hook_destination_def effective_destination_rate_limit_def failure_policy_of_def
          py_upper_def py_upper_char_def loaded_bindings_def load_failover_bindings_by_primary_def failing_env_def)
  then show ?thesis using run by simp
qed

end
