(* ===== verification/Send_Time.thy ===== *)
theory Send_Time
  imports Fan_Out
begin

text \<open>
  How long the sends of a run can take: every adapter call returns or raises, the loops of
  \<open>app/runners/delivery\<close> are bounded by the retry count, and the only waiting is the backoff of the
  retry loop, whose sum is bounded here for one route and for a list of routes.
\<close>

section \<open>Waiting of one route\<close>

definition retry_budget :: "route \<Rightarrow> rat" where
  "retry_budget r = max (r_backoff r) 0 * (2 ^ r_retry_count r - 1)"

lemma budget_ge_0: "0 \<le> retry_budget r"
  by (simp add: retry_budget_def)

lemma sleeps_frame [simp]:
  "rs_sleeps (emit_log env p st) = rs_sleeps st"
  "rs_sleeps (set_stream_status env s st) = rs_sleeps st"
  "rs_sleeps (disable_route r st) = rs_sleeps st"
  by (simp_all add: emit_log_def set_stream_status_def disable_route_def)

lemma dedup_sleeps [simp]: "rs_sleeps (record_route_dedup env r evs st) = rs_sleeps st"
  by (simp add: record_route_dedup_def Let_def split: option.splits prod.splits)

lemma record_sleeps [simp]: "rs_sleeps (maybe_record_replay_event env row err st) = rs_sleeps st"
  by (simp add: maybe_record_replay_event_def record_stream_replay_event_def Let_def split: option.splits)

lemma record_batch_sleeps [simp]: "rs_sleeps (record_failed_batch env r evs bs fo err st) = rs_sleeps st"
  by (simp add: record_failed_batch_def Let_def split: option.splits)

lemma limiter_sleeps: "ask_limiter env k cfg st = (ok, st') \<Longrightarrow> rs_sleeps st' = rs_sleeps st"
  by (auto simp: ask_limiter_def split: prod.splits)

lemma failover_sleeps: "failover_step env r evs bs err st = (fo, st') \<Longrightarrow> rs_sleeps st' = rs_sleeps st"
  by (auto simp: failover_step_def attempt_failover_send_def send_to_destination_eq Let_def dest: limiter_sleeps
      split: option.splits if_splits prod.splits)

definition waits_at_most :: "nat \<Rightarrow> rat \<Rightarrow> run_state \<Rightarrow> run_state \<Rightarrow> bool" where
  "waits_at_most n b st st' \<longleftrightarrow> (\<exists>w. rs_sleeps st' = rs_sleeps st @ w \<and> length w \<le> n \<and> sum_list w \<le> b)"

lemma waits_same: "rs_sleeps st' = rs_sleeps st \<Longrightarrow> 0 \<le> b \<Longrightarrow> waits_at_most n b st st'"
  by (simp add: waits_at_most_def)

lemma waits_trans:
  assumes "waits_at_most n b st st1" "waits_at_most m c st1 st2"
  shows "waits_at_most (n + m) (b + c) st st2"
proof -
  obtain v w where "rs_sleeps st1 = rs_sleeps st @ v" "length v \<le> n" "sum_list v \<le> b"
      "rs_sleeps st2 = rs_sleeps st1 @ w" "length w \<le> m" "sum_list w \<le> c"
    using assms unfolding waits_at_most_def by auto
  then show ?thesis unfolding waits_at_most_def by (intro exI[of _ "v @ w"]) simp
qed

lemma retry_loop_waits:
  "retry_loop env r evs idx n prev st = (res, st') \<Longrightarrow>
     waits_at_most n (max (r_backoff r) 0 * (2 ^ (idx + n) - 2 ^ idx)) st st'"
proof (induction n arbitrary: idx prev st)
  case 0
  then show ?case by (simp add: waits_same)
next
  case (Suc n)
  let ?b = "max (r_backoff r) 0"
  let ?c = "own_call env r evs"
  let ?st1 = "st\<lparr>rs_sends := rs_sends st @ [(?c, se_net env (length (rs_sends st)) ?c)]\<rparr>"
  have b: "max (r_backoff r * 2 ^ idx) 0 = ?b * 2 ^ idx"
    by (cases "r_backoff r \<le> 0") (simp_all add: max_def mult_le_0_iff not_le)
  show ?case
  proof (cases "se_net env (length (rs_sends st)) ?c")
    case None
    have "(2::rat) ^ idx \<le> 2 ^ (idx + Suc n)" by (rule power_increasing) auto
    then show ?thesis using Suc.prems None by (intro waits_same) (auto simp: send_to_destination_eq)
  next
    case (Some e)
    let ?st2 = "?st1\<lparr>rs_sleeps := rs_sleeps ?st1 @ [max (r_backoff r * 2 ^ idx) 0]\<rparr>"
    have "waits_at_most n (?b * (2 ^ (idx + 1 + n) - 2 ^ (idx + 1))) ?st2 st'"
      using Suc.prems Some by (intro Suc.IH) (simp add: send_to_destination_eq)
    moreover have "waits_at_most 1 (?b * 2 ^ idx) st ?st2" by (simp add: waits_at_most_def b)
    ultimately have "waits_at_most (1 + n) (?b * 2 ^ idx + ?b * (2 ^ (idx + 1 + n) - 2 ^ (idx + 1))) st st'"
      by (rule waits_trans[rotated])
    moreover have "?b * 2 ^ idx + ?b * (2 ^ (idx + 1 + n) - 2 ^ (idx + 1)) = ?b * (2 ^ (idx + Suc n) - 2 ^ idx)"
      by (simp add: algebra_simps)
    ultimately show ?thesis by simp
  qed
qed

lemma failure_policy_waits:
  assumes "apply_failure_policy env r evs st = (ok, st')"
  shows "waits_at_most (r_retry_count r) (retry_budget r) st st'"
proof (cases "failure_policy_of r = ''RETRY_AND_BACKOFF'' \<and> evs \<noteq> []")
  case True
  obtain ok1 lst st1 where loop: "retry_loop env r evs 0 (r_retry_count r) None st = ((ok1, lst), st1)"
    by (metis surj_pair)
  have "waits_at_most (r_retry_count r) (retry_budget r) st st1"
    using retry_loop_waits[OF loop] by (simp add: retry_budget_def)
  moreover have "rs_sleeps st' = rs_sleeps st1"
    using assms loop True by (auto simp: apply_failure_policy_def Let_def split: if_splits option.splits)
  ultimately show ?thesis by (simp add: waits_at_most_def)
next
  case False
  then have "rs_sleeps st' = rs_sleeps st"
    using assms by (auto simp: apply_failure_policy_def Let_def split: if_splits)
  then show ?thesis by (rule waits_same) (rule budget_ge_0)
qed

lemma send_failure_waits:
  assumes "handle_send_failure env r evs given rp err st = (out, st')"
  shows "waits_at_most (r_retry_count r) (retry_budget r) st st'"
  using assms
proof (rule handle_send_failure_cases)
  fix fo st3 pol st4
  let ?st2 = "emit_log env (send_failed_log env r evs err)
         (if ex_ai_policy err \<and> se_ai_holder env then st\<lparr>rs_blocked := Some err\<rparr> else st)"
  assume fo: "failover_step env r evs (send_bindings env r given) err ?st2 = (fo, st3)"
    and pol: "(if fo_attempted fo \<and> fo_succeeded fo then (True, st3) else apply_failure_policy env r evs st3) = (pol, st4)"
    and st': "st' = (if rp then record_failed_batch env r evs (send_bindings env r given) fo err st4 else st4)"
  have "rs_sleeps st3 = rs_sleeps st" using failover_sleeps[OF fo] by (simp split: if_splits)
  moreover have "rs_sleeps st' = rs_sleeps st4" using st' by simp
  moreover have "waits_at_most (r_retry_count r) (retry_budget r) st3 st4"
    using pol by (auto split: if_splits intro: failure_policy_waits waits_same budget_ge_0)
  ultimately show ?thesis by (simp add: waits_at_most_def)
qed

lemma send_route_waits:
  assumes "send_route_events env r evs given rp st = (out, st')"
  shows "waits_at_most (r_retry_count r) (retry_budget r) st st'"
proof (cases "d_enabled (r_destination r)")
  case False
  then show ?thesis using assms by (auto simp: send_route_events_def intro: waits_same budget_ge_0)
next
  case True
  obtain ok st0 where lim: "ask_limiter env (r_id r) (effective_destination_rate_limit r) st = (ok, st0)"
    by (metis surj_pair)
  note frame = limiter_sleeps[OF lim]
  show ?thesis
  proof (cases "ok \<and> se_net env (length (rs_sends st0)) (own_call env r evs) \<noteq> None")
    case False
    then have "rs_sleeps st' = rs_sleeps st"
      using assms True lim frame by (auto simp: send_route_events_def send_to_destination_eq split: if_splits)
    then show ?thesis by (rule waits_same) (rule budget_ge_0)
  next
    case failed: True
    then obtain err where err: "se_net env (length (rs_sends st0)) (own_call env r evs) = Some err" by auto
    let ?st1 = "st0\<lparr>rs_sends := rs_sends st0 @ [(own_call env r evs, Some err)]\<rparr>"
    have "handle_send_failure env r evs given rp err ?st1 = (out, st')"
      using assms True lim failed err by (simp add: send_route_events_def send_to_destination_eq)
    from send_failure_waits[OF this] show ?thesis using frame by (simp add: waits_at_most_def)
  qed
qed

section \<open>The fan-out\<close>

text \<open>At most \<open>k\<close> adapter calls and \<open>b\<close> seconds of waiting.\<close>

definition effort :: "nat \<Rightarrow> rat \<Rightarrow> run_state \<Rightarrow> run_state \<Rightarrow> bool" where
  "effort k b st st' \<longleftrightarrow>
     (\<exists>calls waits. rs_sends st' = rs_sends st @ calls \<and> length calls \<le> k \<and>
        rs_sleeps st' = rs_sleeps st @ waits \<and> sum_list waits \<le> b)"

lemma effort_none: "rs_sends st' = rs_sends st \<Longrightarrow> rs_sleeps st' = rs_sleeps st \<Longrightarrow> 0 \<le> b \<Longrightarrow> effort k b st st'"
  by (simp add: effort_def)

lemma effort_trans:
  assumes "effort k b st st1" "effort m c st1 st2"
  shows "effort (k + m) (b + c) st st2"
proof -
  obtain calls waits calls' waits' where
    "rs_sends st1 = rs_sends st @ calls" "length calls \<le> k" "rs_sleeps st1 = rs_sleeps st @ waits" "sum_list waits \<le> b"
    "rs_sends st2 = rs_sends st1 @ calls'" "length calls' \<le> m" "rs_sleeps st2 = rs_sleeps st1 @ waits'" "sum_list waits' \<le> c"
    using assms unfolding effort_def by blast
  then show ?thesis unfolding effort_def by (intro exI[of _ "calls @ calls'"] exI[of _ "waits @ waits'"]) simp
qed

lemma effort_log: "effort k b st st' \<Longrightarrow> effort k b st (emit_log env p st')"
  by (simp add: effort_def)

lemma send_route_effort:
  assumes "send_route_events env r evs given rp st = (out, st')"
  shows "effort (r_retry_count r + 2) (retry_budget r) st st'"
proof -
  obtain calls where "rs_sends st' = rs_sends st @ calls" "length calls \<le> r_retry_count r + 2"
    using send_route_trace[OF assms] by blast
  moreover obtain waits where "rs_sleeps st' = rs_sleeps st @ waits" "sum_list waits \<le> retry_budget r"
    using send_route_waits[OF assms] unfolding waits_at_most_def by blast
  ultimately show ?thesis unfolding effort_def by blast
qed

lemma off_route_effort:
  assumes "off_route env bs payload r (x, st) = (y, st')"
  shows "effort (r_retry_count r + 2) (retry_budget r) st st'"
proof (cases "r_enabled r \<and> d_enabled (r_destination r) \<and> payload (r_id r) \<noteq> []")
  case True
  obtain out st1 where p: "send_route_events env r (payload (r_id r)) (Some bs) True st = (out, st1)"
    by (metis surj_pair)
  have "st' = st1" using assms True p by (cases x) (auto simp: off_route_def Let_def split: if_splits)
  then show ?thesis using send_route_effort[OF p] by simp
next
  case False
  then show ?thesis
    using assms by (cases x) (auto simp: off_route_def Let_def split: if_splits intro!: effort_none budget_ge_0)
qed

lemma fold_off_route_effort:
  "fold (off_route env bs payload) rs (x, st) = (y, st') \<Longrightarrow>
     effort (\<Sum>r\<leftarrow>rs. r_retry_count r + 2) (\<Sum>r\<leftarrow>rs. retry_budget r) st st'"
proof (induction rs arbitrary: x st)
  case (Cons r rs)
  obtain x1 st1 where p: "off_route env bs payload r (x, st) = (x1, st1)" by (metis surj_pair)
  then have "effort (\<Sum>r\<leftarrow>rs. r_retry_count r + 2) (\<Sum>r\<leftarrow>rs. retry_budget r) st1 st'"
    using Cons.prems by (intro Cons.IH) simp
  from effort_trans[OF off_route_effort[OF p] this] show ?case by simp
qed (simp add: effort_none)

lemma limiter_frames: "ask_limiter env k cfg st = (ok, st') \<Longrightarrow> rs_sends st' = rs_sends st \<and> rs_sleeps st' = rs_sleeps st"
  using ask_limiter_frame limiter_sleeps by blast

lemma dynamic_route_effort: "deliver_dynamic_route env evs skip m st = (k, st') \<Longrightarrow> effort 1 0 st st'"
  by (auto simp: deliver_dynamic_route_def effort_def send_to_destination_eq Let_def
      split: if_splits prod.splits option.splits dest!: limiter_frames)

lemma deliver_matches_effort: "deliver_matches env evs skip ms n st = (k, st') \<Longrightarrow> effort (length ms) 0 st st'"
proof (induction ms arbitrary: n st)
  case (Cons m ms)
  obtain j st1 where p: "deliver_dynamic_route env evs skip m st = (j, st1)" by (metis surj_pair)
  then have "effort (length ms) 0 st1 st'" using Cons.prems by (intro Cons.IH) simp
  from effort_trans[OF dynamic_route_effort[OF p] this] show ?case by simp
qed (simp add: effort_none)

definition dynamic_calls :: "dynamic_result option \<Rightarrow> nat" where
  "dynamic_calls dyn = (case dyn of None \<Rightarrow> 0 | Some d \<Rightarrow> length (dyr_matches d))"


definition down_env :: send_env where
  "down_env = failing_env [0..<6]"


end
