(* ===== verification/Route_Protection.thy ===== *)
theory Route_Protection
  imports Protection_Engine Classification "HOL-Library.List_Lexorder" "HOL-Library.Char_ord"
begin

text \<open>
  \<open>app/route_protection\<close>: the protection rules in force on one route (the route's own rules,
  else the stream's, with the governance overrides merged in), the ephemeral rules of the
  batch filtered for the route, and the stage that reuses the result of another route with
  the same effective configuration. The cache key is modelled as the value that
  \<open>json.dumps\<close> serialises; durations are not modelled.
\<close>

section \<open>Resolver\<close>

record rule_entry = prot_rule +
  re_source :: string

definition map_protection_action_to_mode :: "string option \<Rightarrow> string option" where
  "map_protection_action_to_mode action =
     (case action of None \<Rightarrow> None
      | Some a \<Rightarrow>
          (let n = py_lower (py_strip a)
           in if n \<in> {''audit'', ''audit_only''} then Some ''audit_only''
              else if n \<in> {''mask_partial'', ''partial_mask'', ''mask''} then Some ''partial_mask''
              else if n \<in> {''mask_full'', ''full_mask''} then Some ''full_mask''
              else if n \<in> {''tokenize'', ''tokenization''} then Some ''tokenization''
              else if n = ''hash'' then Some ''hash''
              else if n = ''drop_field'' then Some ''drop_field''
              else None))"

definition rule_entry_from_row :: "int \<Rightarrow> string \<Rightarrow> prot_rule \<Rightarrow> rule_entry" where
  "rule_entry_from_row stream_id source row =
     \<lparr>pru_stream = stream_id, pru_path = pru_path row, pru_mode = pru_mode row, pru_class = pru_class row,
      pru_enabled = pru_enabled row, pru_id = pru_id row, re_source = source\<rparr>"

definition index_rules_by_path :: "rule_entry list \<Rightarrow> (string, rule_entry) dict" where
  "index_rules_by_path rules =
     foldl (\<lambda>d r. if pru_enabled r then dict_set (pru_path r) r d else d) [] rules"

type_synonym override_state =
  "(string, rule_entry) dict \<times> string list \<times> (string, rule_entry) dict"

definition apply_override :: "int \<Rightarrow> override_state \<Rightarrow> route_override \<Rightarrow> override_state" where
  "apply_override stream_id st ov =
     (let (effective, audit, by_path) = st;
          field_path = (case ov_field_path ov of None \<Rightarrow> [] | Some p \<Rightarrow> py_strip p)
      in if \<not> override_on ov then st
         else if field_path = [] then st
         else (case map_protection_action_to_mode (ov_protection_action ov) of
                 None \<Rightarrow> st
               | Some action \<Rightarrow>
                   if action = ''audit_only'' then (dict_del field_path effective, audit @ [field_path], by_path)
                   else
                     (let entry = \<lparr>pru_stream = stream_id, pru_path = field_path, pru_mode = action,
                                   pru_class = Some (case ov_sensitivity_class ov of
                                                       None \<Rightarrow> ''pii'' | Some c \<Rightarrow> if c = [] then ''pii'' else c),
                                   pru_enabled = True, pru_id = None, re_source = ''route_override''\<rparr>
                      in (dict_set field_path entry effective, audit, dict_set field_path entry by_path))))"

definition apply_route_overrides ::
    "int \<Rightarrow> rule_entry list \<Rightarrow> route_override list \<Rightarrow> rule_entry list \<times> string list \<times> (string, rule_entry) dict" where
  "apply_route_overrides stream_id base_rules overrides =
     (let (effective, audit, by_path) = foldl (apply_override stream_id) (index_rules_by_path base_rules, [], []) overrides
      in (map snd effective, audit, by_path))"

record protection_config =
  pcf_rules :: "rule_entry list"
  pcf_audit_paths :: "string list"
  pcf_by_path :: "(string, rule_entry) dict"
  pcf_source :: persisted_source
  pcf_override_count :: nat
  pcf_ephemeral_count :: nat
  pcf_fallback_used :: bool

definition resolve_route_protection_config ::
    "int \<Rightarrow> int \<Rightarrow> prot_rule list \<Rightarrow> prot_rule list \<Rightarrow> route_override list \<Rightarrow> prot_rule list \<Rightarrow> protection_config" where
  "resolve_route_protection_config route_id stream_id route_rows stream_rows overrides ephemeral =
     (let route_rules = filter pru_enabled route_rows;
          stream_rules = filter pru_enabled stream_rows;
          (base, src) =
            (if route_rules \<noteq> [] then (map (rule_entry_from_row stream_id ''route'') route_rules, From_Route)
             else if stream_rules \<noteq> [] then (map (rule_entry_from_row stream_id ''stream'') stream_rules, From_Stream)
             else ([], From_Empty));
          mine = filter (override_for route_id) overrides;
          (rules, audit, by_path) = apply_route_overrides stream_id base mine
      in \<lparr>pcf_rules = rules, pcf_audit_paths = audit, pcf_by_path = by_path, pcf_source = src,
          pcf_override_count = length mine, pcf_ephemeral_count = length ephemeral,
          pcf_fallback_used = (src = From_Stream)\<rparr>)"

definition merge_one_ephemeral :: "protection_config \<Rightarrow> prot_rule \<Rightarrow> prot_rule option" where
  "merge_one_ephemeral config e =
     (let p = pru_path e
      in if p = [] then None
         else if p \<in> set (pcf_audit_paths config) then None
         else (case dict_get (pcf_by_path config) p of
                 Some ov \<Rightarrow> Some (e\<lparr>pru_mode := pru_mode ov, pru_enabled := True\<rparr>)
               | None \<Rightarrow> if p \<in> set (map pru_path (pcf_rules config)) then None else Some e))"

definition merge_ephemeral_for_route :: "prot_rule list \<Rightarrow> protection_config \<Rightarrow> prot_rule list" where
  "merge_ephemeral_for_route ephemeral config = List.map_filter (merge_one_ephemeral config) ephemeral"

section \<open>Cache key\<close>

type_synonym rule_key = "int \<times> string \<times> string \<times> string \<times> bool"

text \<open>\<open>str(rule.sensitivity_class)\<close> of a persisted entry, \<open>str(... or "")\<close> of an ephemeral one.\<close>

definition persisted_key :: "rule_entry \<Rightarrow> rule_key" where
  "persisted_key r = (pru_stream r, pru_path r, pru_mode r,
     (case pru_class r of None \<Rightarrow> ''None'' | Some c \<Rightarrow> c), pru_enabled r)"

definition ephemeral_key :: "prot_rule \<Rightarrow> rule_key" where
  "ephemeral_key r = (pru_stream r, pru_path r, pru_mode r,
     (case pru_class r of None \<Rightarrow> [] | Some c \<Rightarrow> c), pru_enabled r)"

abbreviation rk_path :: "rule_key \<Rightarrow> string" where
  "rk_path k \<equiv> fst (snd k)"

type_synonym protection_key = "string \<times> rule_key list \<times> rule_key list"

definition protection_execution_cache_key ::
    "string \<Rightarrow> protection_config \<Rightarrow> prot_rule list \<Rightarrow> protection_key" where
  "protection_execution_cache_key transform_key config merged =
     (transform_key, sort_key rk_path (map persisted_key (pcf_rules config)),
      sort_key rk_path (map ephemeral_key merged))"

section \<open>Stage\<close>

type_synonym protection_cache = "(protection_key, protect_result) dict"

text \<open>\<open>_canonical_protect_result\<close> and \<open>_route_local_protect_result\<close>: the copies of events.\<close>

definition canonical_protect_result :: "protect_result \<Rightarrow> protect_result" where
  "canonical_protect_result r = r\<lparr>pr_events := copy_events (pr_events r) None\<rparr>"

definition route_local_protect_result :: "protect_result \<Rightarrow> protect_result" where
  "route_local_protect_result r = r\<lparr>pr_events := copy_events (pr_events r) None\<rparr>"

record protection_stage_state =
  pss_cache :: protection_cache
  pss_executions :: nat
  pss_vault :: vault

definition route_protection_stage ::
    "protect_env \<Rightarrow> int \<Rightarrow> protection_config \<Rightarrow> prot_rule list \<Rightarrow> string \<Rightarrow> json list \<Rightarrow> protection_stage_state \<Rightarrow>
     (string + protect_result) \<times> protection_stage_state" where
  "route_protection_stage env stream_id config ephemeral transform_key input_events st =
     (let merged = merge_ephemeral_for_route ephemeral config;
          key = protection_execution_cache_key transform_key config merged
      in case dict_get (pss_cache st) key of
           Some cached \<Rightarrow> (Inr (route_local_protect_result cached), st)
         | None \<Rightarrow>
             (case protect_batch env stream_id input_events (map prot_rule.truncate (pcf_rules config)) merged (pss_vault st) of
                (Inl e, v) \<Rightarrow> (Inl e, st\<lparr>pss_vault := v\<rparr>)
              | (Inr res, v) \<Rightarrow>
                  (Inr res, st\<lparr>pss_cache := dict_set key (canonical_protect_result res) (pss_cache st),
                              pss_executions := pss_executions st + 1, pss_vault := v\<rparr>)))"

section \<open>The effective rules are a dictionary by path\<close>

definition keyed_by_path :: "(string, rule_entry) dict \<Rightarrow> bool" where
  "keyed_by_path d \<longleftrightarrow> dict_ok d \<and> (\<forall>(p, r) \<in> set d. pru_path r = p)"

lemma keyed_set: "keyed_by_path d \<Longrightarrow> pru_path r = p \<Longrightarrow> keyed_by_path (dict_set p r d)"
  using set_dict_set[of p r d] by (auto simp: keyed_by_path_def dict_set_ok)

lemma keyed_del: "keyed_by_path d \<Longrightarrow> keyed_by_path (dict_del p d)"
proof -
  have "set (dict_del p d) \<subseteq> set d" by (auto simp: AList.delete_eq)
  then show "keyed_by_path d \<Longrightarrow> keyed_by_path (dict_del p d)"
    using dict_del_ok[of d p] unfolding keyed_by_path_def by blast
qed

lemma keyed_foldl:
  "(\<And>d x. keyed_by_path d \<Longrightarrow> keyed_by_path (f d x)) \<Longrightarrow> keyed_by_path d \<Longrightarrow> keyed_by_path (foldl f d xs)"
  by (induction xs arbitrary: d) auto

lemma keyed_index: "keyed_by_path (index_rules_by_path rules)"
  unfolding index_rules_by_path_def
  by (rule keyed_foldl) (auto intro: keyed_set simp: keyed_by_path_def[of "[]"])

lemma keyed_override:
  "keyed_by_path (fst st) \<Longrightarrow> keyed_by_path (fst (apply_override sid st ov))"
  by (cases st) (auto simp: apply_override_def Let_def intro!: keyed_set keyed_del split: option.split)

lemma keyed_overrides:
  "keyed_by_path (fst st) \<Longrightarrow> keyed_by_path (fst (foldl (apply_override sid) st ovs))"
  by (induction ovs arbitrary: st) (simp_all add: keyed_override)

lemma keyed_paths: "keyed_by_path d \<Longrightarrow> map pru_path (map snd d) = map fst d"
  by (auto simp: keyed_by_path_def)

lemma keyed_lookup: "keyed_by_path d \<Longrightarrow> r \<in> snd ` set d \<longleftrightarrow> dict_get d (pru_path r) = Some r"
  by (force simp: keyed_by_path_def dest: map_of_SomeD)

text \<open>The override applied last to a path decides it.\<close>

definition decides :: "route_override \<Rightarrow> string \<Rightarrow> string \<Rightarrow> bool" where
  "decides ov p mode \<longleftrightarrow> override_on ov \<and> map_option py_strip (ov_field_path ov) = Some p \<and> p \<noteq> [] \<and>
     map_protection_action_to_mode (ov_protection_action ov) = Some mode"

lemma apply_override_decides:
  assumes "decides ov p mode"
  shows "map_option pru_mode (dict_get (fst (apply_override sid st ov)) p)
           = (if mode = ''audit_only'' then None else Some mode)"
proof -
  obtain fp where fp: "ov_field_path ov = Some fp" "py_strip fp = p" "p \<noteq> []" "override_on ov"
    "map_protection_action_to_mode (ov_protection_action ov) = Some mode"
    using assms unfolding decides_def by blast
  show ?thesis by (cases st) (simp add: apply_override_def Let_def dict_simps fp)
qed

lemma apply_override_other:
  assumes "\<not> (\<exists>mode. decides ov p mode)"
  shows "dict_get (fst (apply_override sid st ov)) p = dict_get (fst st) p"
  using assms
  by (cases st) (auto simp: decides_def apply_override_def Let_def dict_simps split: option.split)

lemma overrides_other:
  "(\<And>ov. ov \<in> set ovs \<Longrightarrow> \<not> (\<exists>mode. decides ov p mode)) \<Longrightarrow>
     dict_get (fst (foldl (apply_override sid) st ovs)) p = dict_get (fst st) p"
proof (induction ovs arbitrary: st)
  case (Cons ov ovs)
  then have "dict_get (fst (foldl (apply_override sid) (apply_override sid st ov) ovs)) p
      = dict_get (fst (apply_override sid st ov)) p"
    by (meson list.set_intros(2))
  also have "\<dots> = dict_get (fst st) p"
    using Cons.prems[of ov] by (intro apply_override_other) simp
  finally show ?case by simp
qed simp

section \<open>Reuse\<close>

lemma stage_miss:
  assumes "route_protection_stage env sid config eph tk evs st = (Inr res, st')"
    and "dict_get (pss_cache st) (protection_execution_cache_key tk config (merge_ephemeral_for_route eph config)) = None"
  shows "protect_batch env sid evs (map prot_rule.truncate (pcf_rules config))
           (merge_ephemeral_for_route eph config) (pss_vault st) = (Inr res, pss_vault st')"
    and "dict_get (pss_cache st') (protection_execution_cache_key tk config (merge_ephemeral_for_route eph config))
           = Some (canonical_protect_result res)"
  using assms
  by (auto simp: route_protection_stage_def Let_def dict_simps split: prod.splits sum.splits)

section \<open>Properties\<close>

text \<open>Governance overrides decide: whatever rules the route or stream has and whatever was
  overridden before, the last enabled override of a path fixes its mode on that route, an
  audit override removes the rule, and no path has two rules.\<close>

theorem last_override_decides:
  assumes "overrides = before @ ov # after" "override_for rid ov" "decides ov p mode"
    and "\<forall>w \<in> set after. override_for rid w \<longrightarrow> \<not> (\<exists>m. decides w p m)"
  shows "let rules = pcf_rules (resolve_route_protection_config rid sid route_rows stream_rows overrides eph)
    in distinct (map pru_path rules) \<and>
       (if mode = ''audit_only'' then p \<notin> set (map pru_path rules)
        else \<exists>r \<in> set rules. pru_path r = p \<and> pru_mode r = mode)"
proof -
  obtain base where base: "pcf_rules (resolve_route_protection_config rid sid route_rows stream_rows overrides eph)
      = map snd (fst (foldl (apply_override sid) (index_rules_by_path base, [], []) (filter (override_for rid) overrides)))"
    by (auto simp: resolve_route_protection_config_def apply_route_overrides_def Let_def case_prod_beta split: if_splits)
  let ?d = "fst (foldl (apply_override sid) (index_rules_by_path base, [], []) (filter (override_for rid) overrides))"
  have k: "keyed_by_path ?d" by (rule keyed_overrides) (simp add: keyed_index)
  have "dict_get ?d p = dict_get (fst (apply_override sid
      (foldl (apply_override sid) (index_rules_by_path base, [], []) (filter (override_for rid) before)) ov)) p"
  proof -
    have "\<not> (\<exists>mode. decides w p mode)" if "w \<in> set (filter (override_for rid) after)" for w
      using assms(4) that by auto
    then have "dict_get (fst (foldl (apply_override sid) st (filter (override_for rid) after))) p = dict_get (fst st) p"
      for st by (rule overrides_other)
    then show ?thesis using assms(1,2) by simp
  qed
  then have mode: "map_option pru_mode (dict_get ?d p) = (if mode = ''audit_only'' then None else Some mode)"
    using apply_override_decides[OF assms(3)] by simp
  have paths: "map pru_path (map snd ?d) = map fst ?d" by (rule keyed_paths[OF k])
  have gone: "p \<notin> set (map fst ?d)" if "mode = ''audit_only''"
    using mode that by (simp only: if_True simp_thms option.map_disc_iff map_of_eq_None_iff set_map)
  have there: "\<exists>r \<in> set (map snd ?d). pru_path r = p \<and> pru_mode r = mode" if not: "mode \<noteq> ''audit_only''"
  proof -
    obtain r where r: "dict_get ?d p = Some r" "pru_mode r = mode"
      using mode not by (cases "dict_get ?d p") auto
    then have "(p, r) \<in> set ?d" by (simp add: map_of_SomeD)
    moreover from this k have "pru_path r = p" unfolding keyed_by_path_def by blast
    ultimately show ?thesis using r(2) by (metis image_eqI list.set_map snd_conv)
  qed
  have dist: "distinct (map fst ?d)" using k unfolding keyed_by_path_def by blast
  show ?thesis
    unfolding base Let_def paths
  proof (rule conjI[OF dist], cases "mode = ''audit_only''")
    case True
    show "if mode = ''audit_only'' then p \<notin> set (map fst ?d)
        else \<exists>r \<in> set (map snd ?d). pru_path r = p \<and> pru_mode r = mode"
      unfolding if_P[OF True] by (rule gone[OF True])
  next
    case False
    show "if mode = ''audit_only'' then p \<notin> set (map fst ?d)
        else \<exists>r \<in> set (map snd ?d). pru_path r = p \<and> pru_mode r = mode"
      unfolding if_not_P[OF False] by (rule there[OF False])
  qed
qed

definition field_override :: "string \<Rightarrow> string \<Rightarrow> route_override" where
  "field_override p action = \<lparr>ov_route_id = Some 3, ov_enabled = None, ov_field_path = Some p,
     ov_protection_action = Some action, ov_sensitivity_class = None, ov_classification_level = None,
     ov_delivery_behavior = None\<rparr>"

theorem last_override_decides_witness:
  "\<exists>r \<in> set (pcf_rules (resolve_route_protection_config 3 1 [] [sample_rule ''$.x'' ''hash'']
      [field_override ''$.x'' ''audit'', field_override '' $.x'' ''Mask_Full''] [])).
      pru_path r = ''$.x'' \<and> pru_mode r = ''full_mask''"
proof -
  have "decides (field_override '' $.x'' ''Mask_Full'') ''$.x'' ''full_mask''" by code_simp
  moreover have "override_for 3 (field_override '' $.x'' ''Mask_Full'')" by code_simp
  ultimately show ?thesis
    using last_override_decides[of "[field_override ''$.x'' ''audit'', field_override '' $.x'' ''Mask_Full'']"
        "[field_override ''$.x'' ''audit'']" "field_override '' $.x'' ''Mask_Full''" "[]" 3 "''$.x''" "''full_mask''"
        1 "[]" "[sample_rule ''$.x'' ''hash'']" "[]"]
    by (simp add: Let_def)
qed


definition fresh_stage_state :: protection_stage_state where
  "fresh_stage_state = \<lparr>pss_cache = [], pss_executions = 0, pss_vault = empty_vault\<rparr>"

definition stream_rules_config :: "int \<Rightarrow> prot_rule list \<Rightarrow> protection_config" where
  "stream_rules_config rid rows = resolve_route_protection_config rid 1 rows [] [] []"


text \<open>The cache key forgets the order of the rules, which the engine does not: two routes
  with the same two rules on one field in opposite orders share a key, and the second route,
  which would mask and then hash on its own, is delivered the first one's output, hashed and
  then masked.\<close>

theorem protection_key_ignores_order:
  "let c1 = stream_rules_config 3 [sample_rule ''a'' ''hash'', sample_rule ''$.a'' ''partial_mask''];
       c2 = stream_rules_config 4 [sample_rule ''$.a'' ''partial_mask'', sample_rule ''a'' ''hash''];
       evs = [JObj [(''a'', JStr ''topsecret'')]];
       st1 = snd (route_protection_stage sample_env 1 c1 [] ''t'' evs fresh_stage_state);
       delivered = (\<lambda>c st. pr_events (projr (fst (route_protection_stage sample_env 1 c [] ''t'' evs st))))
   in delivered c2 st1 = [JObj [(''a'', JStr ''*******spot'')]] \<and>
      delivered c2 fresh_stage_state = [JObj [(''a'', JStr ''sha256:terc*******'')]]"
  by code_simp

end
