(* ===== verification/Runtime_Lock.thy ===== *)
theory Runtime_Lock
  imports Relay_Prelude
begin

text \<open>
  \<open>app/runners/stream_runtime_lock.py\<close>: the ownership of a stream by advisory locks on files,
  shared by the threads of all processes of a host, and the lock registry of
  \<open>app/runners/stream_runner.py\<close>. A file is an inode; a directory entry can be removed while
  the inode is open, and a file opened later is then another inode. The operations are split
  at the points where another process can run: the steps are a relation on the world.
\<close>

section \<open>The world\<close>

text \<open>The two kinds of lock the runtime uses, \<open>"run"\<close> and \<open>"worker"\<close>, with the stream id.\<close>

datatype lock_key = Run_Lock int | Worker_Lock int

type_synonym pid = nat
type_synonym tid = nat
type_synonym inode = nat

text \<open>Who holds the \<open>flock\<close> of an inode: an owner (the handle kept in \<open>_HANDLES\<close>), a handle taken
  out of \<open>_HANDLES\<close> and not unlocked yet, or a probe of \<open>is_held\<close>.\<close>

datatype holder = Owner pid lock_key | Leaving pid lock_key | Prober tid

record world =
  w_next :: inode
  w_dir :: "lock_key \<Rightarrow> inode option"
  w_flock :: "inode \<Rightarrow> holder option"
  w_opened :: "pid \<Rightarrow> (lock_key \<times> inode) option"
  w_handles :: "pid \<Rightarrow> lock_key \<Rightarrow> inode option"
  w_probe :: "tid \<Rightarrow> (lock_key \<times> inode \<times> bool) option"
  w_verdict :: "tid \<Rightarrow> lock_key option"

definition init_world :: world where
  "init_world =
     \<lparr>w_next = 0, w_dir = (\<lambda>_. None), w_flock = (\<lambda>_. None), w_opened = (\<lambda>_. None),
      w_handles = (\<lambda>_ _. None), w_probe = (\<lambda>_. None), w_verdict = (\<lambda>_. None)\<rparr>"

section \<open>Operations\<close>

text \<open>\<open>path.open("a+")\<close>: the inode of the path, created where there is none.\<close>

definition open_file :: "lock_key \<Rightarrow> world \<Rightarrow> inode \<times> world" where
  "open_file k w =
     (case w_dir w k of
        Some i \<Rightarrow> (i, w)
      | None \<Rightarrow> (w_next w, w\<lparr>w_next := w_next w + 1, w_dir := (w_dir w)(k := Some (w_next w))\<rparr>))"

text \<open>\<open>try_acquire\<close>, first part: under the guard of its process, the thread finds no handle and
  opens the file. \<open>None\<close> is the early return.\<close>

definition acquire_open :: "pid \<Rightarrow> lock_key \<Rightarrow> world \<Rightarrow> world option" where
  "acquire_open p k w =
     (if w_handles w p k \<noteq> None then None
      else (let (i, w1) = open_file k w in Some (w1\<lparr>w_opened := (w_opened w1)(p := Some (k, i))\<rparr>)))"

text \<open>Second part: the non-blocking \<open>flock\<close>, and the handle is kept, or closed again. The
  result of the call is the first component.\<close>

definition acquire_flock :: "pid \<Rightarrow> lock_key \<Rightarrow> inode \<Rightarrow> world \<Rightarrow> bool \<times> world" where
  "acquire_flock p k i w =
     (let w0 = w\<lparr>w_opened := (w_opened w)(p := None)\<rparr>
      in if w_flock w i = None
         then (True, w0\<lparr>w_flock := (w_flock w)(i := Some (Owner p k)),
                        w_handles := (w_handles w)(p := (w_handles w p)(k := Some i))\<rparr>)
         else (False, w0))"

text \<open>\<open>release\<close>: the handle leaves the table under the guard; the unlock comes after it.\<close>

definition release_pop :: "pid \<Rightarrow> lock_key \<Rightarrow> inode \<Rightarrow> world \<Rightarrow> world" where
  "release_pop p k i w =
     w\<lparr>w_handles := (w_handles w)(p := (w_handles w p)(k := None)),
       w_flock := (w_flock w)(i := Some (Leaving p k))\<rparr>"

definition release_unlock :: "inode \<Rightarrow> world \<Rightarrow> world" where
  "release_unlock i w = w\<lparr>w_flock := (w_flock w)(i := None)\<rparr>"

text \<open>\<open>is_held\<close>: no handle of its own process, then a handle of its own that is locked and
  unlocked again; it takes the file for held where the lock is refused.\<close>

definition probe_lock :: "tid \<Rightarrow> lock_key \<Rightarrow> world \<Rightarrow> world" where
  "probe_lock t k w =
     (let (i, w1) = open_file k w
      in if w_flock w1 i = None
         then w1\<lparr>w_flock := (w_flock w1)(i := Some (Prober t)), w_probe := (w_probe w1)(t := Some (k, i, True))\<rparr>
         else w1\<lparr>w_probe := (w_probe w1)(t := Some (k, i, False))\<rparr>)"

definition probe_done :: "tid \<Rightarrow> lock_key \<Rightarrow> inode \<Rightarrow> bool \<Rightarrow> world \<Rightarrow> world" where
  "probe_done t k i free w =
     (let w1 = w\<lparr>w_probe := (w_probe w)(t := None)\<rparr>
      in if free then w1\<lparr>w_flock := (w_flock w)(i := None), w_verdict := (w_verdict w)(t := Some k)\<rparr>
         else w1)"

text \<open>\<open>cleanup_unowned_lock_files\<close> removes the directory entry after \<open>is_held\<close> returned False.\<close>

definition cleanup_unlink :: "tid \<Rightarrow> lock_key \<Rightarrow> world \<Rightarrow> world" where
  "cleanup_unlink t k w =
     w\<lparr>w_dir := (w_dir w)(k := None), w_verdict := (w_verdict w)(t := None)\<rparr>"

section \<open>Steps\<close>

text \<open>\<open>runtime_step\<close> holds the steps of \<open>try_acquire\<close>, \<open>release\<close> and \<open>is_held\<close>; the guard of a process
  keeps a second thread out of \<open>try_acquire\<close> while a file is open (\<open>w_opened\<close>).\<close>

inductive runtime_step :: "world \<Rightarrow> world \<Rightarrow> bool" where
  acquire_open: "w_opened w p = None \<Longrightarrow> acquire_open p k w = Some w' \<Longrightarrow> runtime_step w w'"
| acquire_flock: "w_opened w p = Some (k, i) \<Longrightarrow> runtime_step w (snd (acquire_flock p k i w))"
| release_pop: "w_handles w p k = Some i \<Longrightarrow> runtime_step w (release_pop p k i w)"
| release_unlock: "w_flock w i = Some (Leaving p k) \<Longrightarrow> runtime_step w (release_unlock i w)"
| probe_lock: "w_probe w t = None \<Longrightarrow> runtime_step w (probe_lock t k w)"
| probe_done: "w_probe w t = Some (k, i, free) \<Longrightarrow> runtime_step w (probe_done t k i free w)"

inductive cleanup_step :: "world \<Rightarrow> world \<Rightarrow> bool" where
  cleanup_runtime: "runtime_step w w' \<Longrightarrow> cleanup_step w w'"
| cleanup_unlink: "w_verdict w t = Some k \<Longrightarrow> cleanup_step w (cleanup_unlink t k w)"

inductive_cases runtime_stepE: "runtime_step w w'"

text \<open>The worlds a relation reaches from the start.\<close>

inductive reach :: "(world \<Rightarrow> world \<Rightarrow> bool) \<Rightarrow> world \<Rightarrow> bool" for stp where
  reach_init: "reach stp init_world"
| reach_step: "reach stp w \<Longrightarrow> stp w w' \<Longrightarrow> reach stp w'"

section \<open>Mutual exclusion\<close>

text \<open>Every open file is the one the directory names, and an owner has the \<open>flock\<close> of its inode.\<close>

definition lock_inv :: "world \<Rightarrow> bool" where
  "lock_inv w \<longleftrightarrow>
     (\<forall>k i. w_dir w k = Some i \<longrightarrow> i < w_next w) \<and>
     (\<forall>p k i. w_opened w p = Some (k, i) \<longrightarrow> w_dir w k = Some i) \<and>
     (\<forall>p k i. w_handles w p k = Some i \<longrightarrow> w_dir w k = Some i \<and> w_flock w i = Some (Owner p k)) \<and>
     (\<forall>i h. w_flock w i = Some h \<longrightarrow> i < w_next w) \<and>
     (\<forall>t k i. w_probe w t = Some (k, i, True) \<longrightarrow> w_flock w i = Some (Prober t))"

lemma lock_inv_init: "lock_inv init_world"
  by (simp add: lock_inv_def init_world_def)

lemma lock_invI:
  assumes "\<And>k i. w_dir w k = Some i \<Longrightarrow> i < w_next w"
    and "\<And>p k i. w_opened w p = Some (k, i) \<Longrightarrow> w_dir w k = Some i"
    and "\<And>p k i. w_handles w p k = Some i \<Longrightarrow> w_dir w k = Some i"
    and "\<And>p k i. w_handles w p k = Some i \<Longrightarrow> w_flock w i = Some (Owner p k)"
    and "\<And>i h. w_flock w i = Some h \<Longrightarrow> i < w_next w"
    and "\<And>t k i. w_probe w t = Some (k, i, True) \<Longrightarrow> w_flock w i = Some (Prober t)"
  shows "lock_inv w"
  using assms by (simp add: lock_inv_def)

lemma lock_inv_dir: "lock_inv w \<Longrightarrow> w_dir w k = Some i \<Longrightarrow> i < w_next w"
  by (simp add: lock_inv_def)

lemma lock_inv_opened: "lock_inv w \<Longrightarrow> w_opened w p = Some (k, i) \<Longrightarrow> w_dir w k = Some i"
  by (simp add: lock_inv_def)

lemma lock_inv_handle:
  "lock_inv w \<Longrightarrow> w_handles w p k = Some i \<Longrightarrow> w_dir w k = Some i"
  "lock_inv w \<Longrightarrow> w_handles w p k = Some i \<Longrightarrow> w_flock w i = Some (Owner p k)"
  by (simp_all add: lock_inv_def)

lemma lock_inv_flock: "lock_inv w \<Longrightarrow> w_flock w i = Some h \<Longrightarrow> i < w_next w"
  by (auto simp: lock_inv_def)

lemma lock_inv_probe: "lock_inv w \<Longrightarrow> w_probe w t = Some (k, i, True) \<Longrightarrow> w_flock w i = Some (Prober t)"
  by (simp add: lock_inv_def)

lemmas lock_inv_dests = lock_inv_dir lock_inv_opened lock_inv_handle lock_inv_flock lock_inv_probe

text \<open>Opening a file creates at most an entry, and touches neither locks nor handles.\<close>

lemma open_file_frame:
  assumes "open_file k w = (i, w1)"
  shows "w_dir w1 k = Some i" "w_flock w1 = w_flock w" "w_handles w1 = w_handles w"
    "w_opened w1 = w_opened w" "w_probe w1 = w_probe w" "w_verdict w1 = w_verdict w"
    "w_next w \<le> w_next w1" "\<And>k' j. w_dir w k' = Some j \<Longrightarrow> w_dir w1 k' = Some j"
    "\<And>k' j. w_dir w1 k' = Some j \<Longrightarrow> w_dir w k' = Some j \<or> j < w_next w1"
  using assms by (auto simp: open_file_def split: option.splits if_splits)

lemma open_file_inv:
  assumes inv: "lock_inv w" and op: "open_file k w = (i, w1)"
  shows "lock_inv w1"
proof (rule lock_invI)
  note frame = open_file_frame[OF op]
  fix k' j assume "w_dir w1 k' = Some j"
  then show "j < w_next w1"
    using frame(9)[of k' j] lock_inv_dir[OF inv] frame(7) by (auto intro: less_le_trans)
next
  fix i' h assume "w_flock w1 i' = Some h"
  then show "i' < w_next w1"
    using lock_inv_flock[OF inv] open_file_frame(2,7)[OF op] by (auto intro: less_le_trans)
qed (auto simp: open_file_frame[OF op] dest: lock_inv_dests[OF inv] intro: open_file_frame(8)[OF op])

text \<open>Each operation keeps the invariant.\<close>

lemma acquire_open_inv:
  assumes inv: "lock_inv w" and st: "acquire_open p k w = Some w'"
  shows "lock_inv w'"
proof -
  obtain i w1 where op: "open_file k w = (i, w1)" by (metis surj_pair)
  have w': "w' = w1\<lparr>w_opened := (w_opened w1)(p := Some (k, i))\<rparr>"
    using st op by (auto simp: acquire_open_def split: if_splits)
  have "lock_inv w1" by (rule open_file_inv[OF inv op])
  then show ?thesis
    unfolding w' by (intro lock_invI) (auto simp: open_file_frame(1)[OF op] dest: lock_inv_dests split: if_splits)
qed

lemma acquire_flock_inv:
  assumes inv: "lock_inv w" and op: "w_opened w p = Some (k, i)"
  shows "lock_inv (snd (acquire_flock p k i w))"
proof (cases "w_flock w i")
  case (Some h)
  then have eq: "snd (acquire_flock p k i w) = w\<lparr>w_opened := (w_opened w)(p := None)\<rparr>"
    by (simp add: acquire_flock_def)
  show ?thesis
    unfolding eq using inv by (simp add: lock_inv_def)
next
  case None
  let ?w = "w\<lparr>w_opened := (w_opened w)(p := None), w_flock := (w_flock w)(i := Some (Owner p k)),
              w_handles := (w_handles w)(p := (w_handles w p)(k := Some i))\<rparr>"
  have eq: "snd (acquire_flock p k i w) = ?w"
    using None by (simp add: acquire_flock_def)
  have dir: "w_dir w k = Some i" by (rule lock_inv_opened[OF inv op])
  show ?thesis
    unfolding eq
  proof (rule lock_invI)
    fix q k' j assume h: "w_handles ?w q k' = Some j"
    show "w_flock ?w j = Some (Owner q k')"
    proof (cases "q = p \<and> k' = k")
      case True
      then show ?thesis using h by auto
    next
      case False
      then have "w_flock w j = Some (Owner q k')"
        using h lock_inv_handle(2)[OF inv, of q k' j] by (auto split: if_splits)
      then show ?thesis using None by auto
    qed
  next
    fix t k' j assume "w_probe ?w t = Some (k', j, True)"
    then have "w_flock w j = Some (Prober t)" using lock_inv_probe[OF inv] by simp
    then show "w_flock ?w j = Some (Prober t)" using None by auto
  qed (use dir in \<open>auto dest: lock_inv_dests[OF inv] split: if_splits\<close>)
qed

lemma release_pop_inv:
  assumes inv: "lock_inv w" and h: "w_handles w p k = Some i"
  shows "lock_inv (release_pop p k i w)"
proof (rule lock_invI)
  fix q k' j assume "w_handles (release_pop p k i w) q k' = Some j"
  then have hq: "w_handles w q k' = Some j" and ne: "(q, k') \<noteq> (p, k)"
    by (auto simp: release_pop_def split: if_splits)
  then have "j \<noteq> i"
    using lock_inv_handle(2)[OF inv hq] lock_inv_handle(2)[OF inv h] by auto
  then show "w_flock (release_pop p k i w) j = Some (Owner q k')"
    using lock_inv_handle(2)[OF inv hq] by (simp add: release_pop_def)
next
  fix t k' j assume "w_probe (release_pop p k i w) t = Some (k', j, True)"
  then have "w_probe w t = Some (k', j, True)" by (simp add: release_pop_def)
  then show "w_flock (release_pop p k i w) j = Some (Prober t)"
    using lock_inv_probe[OF inv] lock_inv_handle(2)[OF inv h] by (auto simp: release_pop_def)
qed (use inv h in \<open>auto simp: release_pop_def dest: lock_inv_dests split: if_splits\<close>)

lemma lock_inv_verdict [simp]: "lock_inv (w\<lparr>w_verdict := v\<rparr>) = lock_inv w"
  by (simp add: lock_inv_def)

lemma lock_inv_drop_probe: "lock_inv w \<Longrightarrow> lock_inv (w\<lparr>w_probe := (w_probe w)(t := None)\<rparr>)"
  by (simp add: lock_inv_def)

text \<open>An inode without owner and without a probe that holds it may be unlocked.\<close>

lemma lock_inv_unlock:
  assumes inv: "lock_inv w" and h: "w_flock w i = Some h"
    and owner: "\<And>p k. h \<noteq> Owner p k" and probe: "\<And>t k. w_probe w t \<noteq> Some (k, i, True)"
  shows "lock_inv (w\<lparr>w_flock := (w_flock w)(i := None)\<rparr>)" (is "lock_inv ?w")
proof (rule lock_invI)
  fix p k j assume "w_handles ?w p k = Some j"
  then have "w_handles w p k = Some j" by simp
  then have "w_flock w j = Some (Owner p k)" by (rule lock_inv_handle(2)[OF inv])
  moreover from this have "j \<noteq> i" using h owner by auto
  ultimately show "w_flock ?w j = Some (Owner p k)" by simp
next
  fix t k j assume "w_probe ?w t = Some (k, j, True)"
  then have pr: "w_probe w t = Some (k, j, True)" by simp
  then have "j \<noteq> i" using probe by auto
  then show "w_flock ?w j = Some (Prober t)" using lock_inv_probe[OF inv pr] by simp
next
  fix j x assume "w_flock ?w j = Some x"
  then show "j < w_next ?w" using lock_inv_flock[OF inv, of j x] by (simp split: if_splits)
qed (use lock_inv_dir[OF inv] lock_inv_opened[OF inv] lock_inv_handle(1)[OF inv] in simp_all)

lemma release_unlock_inv:
  assumes inv: "lock_inv w" and h: "w_flock w i = Some (Leaving p k)"
  shows "lock_inv (release_unlock i w)"
  unfolding release_unlock_def
proof (rule lock_inv_unlock[OF inv h])
  fix t k' show "w_probe w t \<noteq> Some (k', i, True)"
    using lock_inv_probe[OF inv, of t k' i] h by auto
qed simp

lemma lock_inv_take_probe:
  assumes inv: "lock_inv w" and free: "w_flock w i = None" and i: "i < w_next w"
  shows "lock_inv (w\<lparr>w_flock := (w_flock w)(i := Some (Prober t)), w_probe := (w_probe w)(t := Some (k, i, True))\<rparr>)"
    (is "lock_inv ?w")
proof (rule lock_invI)
  fix p k' j assume "w_handles ?w p k' = Some j"
  then have "w_handles w p k' = Some j" by simp
  then have "w_flock w j = Some (Owner p k')" by (rule lock_inv_handle(2)[OF inv])
  moreover from this have "j \<noteq> i" using free by auto
  ultimately show "w_flock ?w j = Some (Owner p k')" by simp
next
  fix s k' j assume pr: "w_probe ?w s = Some (k', j, True)"
  show "w_flock ?w j = Some (Prober s)"
  proof (cases "s = t")
    case True
    then show ?thesis using pr by simp
  next
    case False
    then have "w_flock w j = Some (Prober s)" using pr lock_inv_probe[OF inv, of s k' j] by simp
    moreover from this have "j \<noteq> i" using free by auto
    ultimately show ?thesis by simp
  qed
next
  fix j x assume "w_flock ?w j = Some x"
  then show "j < w_next ?w" using lock_inv_flock[OF inv, of j x] i by (simp split: if_splits)
qed (use lock_inv_dir[OF inv] lock_inv_opened[OF inv] lock_inv_handle(1)[OF inv] in simp_all)

lemma lock_inv_failed_probe:
  assumes "lock_inv w"
  shows "lock_inv (w\<lparr>w_probe := (w_probe w)(t := Some (k, i, False))\<rparr>)"
  using assms by (simp add: lock_inv_def)

lemma probe_lock_inv:
  assumes inv: "lock_inv w"
  shows "lock_inv (probe_lock t k w)"
proof -
  obtain i w1 where op: "open_file k w = (i, w1)" by (metis surj_pair)
  have inv1: "lock_inv w1" by (rule open_file_inv[OF inv op])
  then have "i < w_next w1" using open_file_frame(1)[OF op] by (rule lock_inv_dir)
  with inv1 op show ?thesis
    by (simp add: probe_lock_def lock_inv_take_probe lock_inv_failed_probe)
qed

lemma probe_done_inv:
  assumes inv: "lock_inv w" and pr: "w_probe w t = Some (k, i, free)"
  shows "lock_inv (probe_done t k i free w)"
proof -
  let ?w = "w\<lparr>w_probe := (w_probe w)(t := None)\<rparr>"
  have inv1: "lock_inv ?w" by (rule lock_inv_drop_probe[OF inv])
  show ?thesis
  proof (cases free)
    case True
    have h: "w_flock w i = Some (Prober t)"
      by (rule lock_inv_probe[OF inv]) (use pr True in simp)
    have other: "w_probe ?w s \<noteq> Some (k', i, True)" for s k'
      using lock_inv_probe[OF inv, of s k' i] h by auto
    have "lock_inv (?w\<lparr>w_flock := (w_flock ?w)(i := None)\<rparr>)"
      by (rule lock_inv_unlock[of ?w i "Prober t", OF inv1 _ _ other]) (simp_all add: h)
    then have "lock_inv (?w\<lparr>w_flock := (w_flock ?w)(i := None)\<rparr>\<lparr>w_verdict := (w_verdict w)(t := Some k)\<rparr>)"
      by (simp only: lock_inv_verdict)
    then show ?thesis using True by (simp add: probe_done_def)
  next
    case False
    then show ?thesis using inv1 by (simp add: probe_done_def)
  qed
qed

lemma runtime_step_inv: "runtime_step w w' \<Longrightarrow> lock_inv w \<Longrightarrow> lock_inv w'"
  by (erule runtime_stepE)
     (auto intro: acquire_open_inv acquire_flock_inv release_pop_inv release_unlock_inv probe_lock_inv probe_done_inv)

lemma reach_runtime_inv: "reach runtime_step w \<Longrightarrow> lock_inv w"
  by (induction rule: reach.induct) (auto intro: lock_inv_init runtime_step_inv)

section \<open>The lock registry of a process\<close>

text \<open>\<open>StreamRunner._locks\<close>: the streams with a thread lock, and whether it is locked. The guard
  makes each operation atomic.\<close>

type_synonym lock_registry = "(int, bool) dict"

fun prune_loop :: "nat \<Rightarrow> (int \<times> bool) list \<Rightarrow> lock_registry \<Rightarrow> lock_registry" where
  "prune_loop cap [] reg = reg"
| "prune_loop cap ((sid, locked) # rest) reg =
     (if length reg \<le> cap then reg
      else if locked then prune_loop cap rest reg
      else prune_loop cap rest (dict_del sid reg))"

definition prune_unlocked_locks :: "nat \<Rightarrow> lock_registry \<Rightarrow> lock_registry" where
  "prune_unlocked_locks cap reg = (if length reg \<le> cap then reg else prune_loop cap reg reg)"

text \<open>\<open>_get_lock\<close>; \<open>None\<close> is the \<open>KeyError\<close> where the new entry itself was pruned.\<close>

definition get_lock :: "nat \<Rightarrow> int \<Rightarrow> lock_registry \<Rightarrow> bool option \<times> lock_registry" where
  "get_lock cap sid reg =
     (let reg' = (if dict_has reg sid then reg else prune_unlocked_locks cap (dict_set sid False reg))
      in (dict_get reg' sid, reg'))"

definition discard_lock :: "int \<Rightarrow> lock_registry \<Rightarrow> lock_registry" where
  "discard_lock sid reg = (if dict_get reg sid = Some False then dict_del sid reg else reg)"

text \<open>No operation drops a lock that is held.\<close>

lemma prune_loop_keeps_locked:
  "(\<And>s. (s, False) \<in> set snap \<Longrightarrow> dict_get reg s \<noteq> Some True) \<Longrightarrow>
     dict_get reg k = Some True \<Longrightarrow> dict_get (prune_loop cap snap reg) k = Some True"
proof (induction cap snap reg rule: prune_loop.induct)
  case (2 cap sid locked rest reg)
  have keep: "\<not> locked \<Longrightarrow> k \<noteq> sid"
    using 2(3)[of sid] 2(4) by auto
  show ?case
  proof (cases "length reg \<le> cap \<or> locked")
    case True
    then show ?thesis using 2 by (cases "length reg \<le> cap") auto
  next
    case False
    have "dict_get (prune_loop cap rest (dict_del sid reg)) k = Some True"
    proof (rule 2(2))
      fix s assume "(s, False) \<in> set rest"
      then show "dict_get (dict_del sid reg) s \<noteq> Some True"
        using 2(3)[of s] by (simp add: dict_simps)
    qed (use False keep 2(4) in \<open>auto simp: dict_simps\<close>)
    then show ?thesis using False by simp
  qed
qed simp

lemma prune_keeps_locked:
  "dict_ok reg \<Longrightarrow> dict_get reg k = Some True \<Longrightarrow> dict_get (prune_unlocked_locks cap reg) k = Some True"
  unfolding prune_unlocked_locks_def by (auto intro!: prune_loop_keeps_locked)

lemma get_lock_keeps_locked:
  "dict_ok reg \<Longrightarrow> dict_get reg k = Some True \<Longrightarrow> dict_get (snd (get_lock cap sid reg)) k = Some True"
  by (cases "k = sid") (auto simp: get_lock_def Let_def dict_simps dict_set_ok intro!: prune_keeps_locked)

lemma discard_keeps_locked:
  "dict_get reg k = Some True \<Longrightarrow> dict_get (discard_lock sid reg) k = Some True"
  by (auto simp: discard_lock_def dict_simps)

section \<open>Properties\<close>

text \<open>C12: A stream has one owner at a time: in every world that the acquisitions, releases and
  probes of any number of processes and threads can reach, in any interleaving, two processes
  with a handle for the same lock are the same process, and the handle's file is the one the
  lock's path names.\<close>

theorem stream_has_one_owner:
  assumes "reach runtime_step w" "w_handles w p k = Some i" "w_handles w q k = Some j"
  shows "p = q \<and> i = j \<and> w_dir w k = Some i"
proof -
  have inv: "lock_inv w" by (rule reach_runtime_inv[OF assms(1)])
  have "i = j" "w_dir w k = Some i"
    using lock_inv_handle(1)[OF inv assms(2)] lock_inv_handle(1)[OF inv assms(3)] by simp_all
  then show ?thesis
    using lock_inv_handle(2)[OF inv assms(2)] lock_inv_handle(2)[OF inv assms(3)] by simp
qed

text \<open>One acquisition by process 1 in a fresh world.\<close>

definition owned_world :: "lock_key \<Rightarrow> world" where
  "owned_world k = snd (acquire_flock 1 k 0 (the (acquire_open 1 k init_world)))"

lemma owned_world_reach: "reach runtime_step (owned_world k)"
proof -
  have "runtime_step init_world (the (acquire_open 1 k init_world))"
    by (rule acquire_open) (simp_all add: init_world_def acquire_open_def open_file_def)
  then have r: "reach runtime_step (the (acquire_open 1 k init_world))"
    by (rule reach_step[OF reach_init])
  show ?thesis
    unfolding owned_world_def
    by (rule reach_step[OF r], rule acquire_flock) (simp add: init_world_def acquire_open_def open_file_def)
qed

lemma owned_world_handle: "w_handles (owned_world k) 1 k = Some 0"
  by (simp add: owned_world_def acquire_flock_def acquire_open_def open_file_def init_world_def)

theorem stream_has_one_owner_witness:
  "w_handles (owned_world (Run_Lock 7)) 1 (Run_Lock 7) = Some 0 \<and> w_dir (owned_world (Run_Lock 7)) (Run_Lock 7) = Some 0"
  using stream_has_one_owner[OF owned_world_reach owned_world_handle owned_world_handle, of "Run_Lock 7"]
    owned_world_handle by simp

text \<open>C14: A free lock can be taken: in every reachable world in which nobody holds the file of a
  lock (neither an owner, nor a handle being closed, nor a probe), two steps of a process
  outside \<open>try_acquire\<close> make it the owner.\<close>

theorem free_lock_is_acquired:
  assumes "reach runtime_step w" "w_opened w p = None" "\<And>i. w_dir w k = Some i \<Longrightarrow> w_flock w i = None"
  shows "\<exists>w1 w2 i. runtime_step w w1 \<and> runtime_step w1 w2 \<and> w_handles w2 p k = Some i"
proof -
  have inv: "lock_inv w" by (rule reach_runtime_inv[OF assms(1)])
  have "w_handles w p k \<noteq> Some i" for i
  proof
    assume h: "w_handles w p k = Some i"
    have "w_flock w i = None" by (rule assms(3)[OF lock_inv_handle(1)[OF inv h]])
    then show False using lock_inv_handle(2)[OF inv h] by simp
  qed
  then have none: "w_handles w p k = None" by (cases "w_handles w p k") auto
  obtain i w1 where op: "open_file k w = (i, w1)" by (metis surj_pair)
  have free: "w_flock w1 i = None"
  proof (cases "w_dir w k")
    case None
    then have "i = w_next w" using op by (simp add: open_file_def)
    then show ?thesis using lock_inv_flock[OF inv] open_file_frame(2)[OF op] by (cases "w_flock w i") auto
  next
    case (Some j)
    then show ?thesis using op assms(3) by (auto simp: open_file_def)
  qed
  let ?w1 = "w1\<lparr>w_opened := (w_opened w1)(p := Some (k, i))\<rparr>"
  have "runtime_step w ?w1"
    by (rule acquire_open[OF assms(2), of k]) (use none op in \<open>simp add: acquire_open_def\<close>)
  moreover have "runtime_step ?w1 (snd (acquire_flock p k i ?w1))"
    by (rule acquire_flock) simp
  moreover have "w_handles (snd (acquire_flock p k i ?w1)) p k = Some i"
    using free by (simp add: acquire_flock_def)
  ultimately show ?thesis by blast
qed

theorem free_lock_is_acquired_witness:
  "\<exists>w1 w2 i. runtime_step init_world w1 \<and> runtime_step w1 w2 \<and> w_handles w2 3 (Run_Lock 7) = Some i"
  by (rule free_lock_is_acquired[OF reach_init]) (simp_all add: init_world_def)

text \<open>The clean-up of unowned lock files can delete a file that is held, and then a stream has
  two owners: between the probe and the removal another process can take the lock, and the next
  process to open the path gets a new file.\<close>

theorem cleanup_breaks_ownership:
  "\<exists>w p q i j. reach cleanup_step w \<and> p \<noteq> q \<and>
     w_handles w p (Run_Lock 7) = Some i \<and> w_handles w q (Run_Lock 7) = Some j"
proof -
  let ?k = "Run_Lock 7"
  define w1 where "w1 = probe_lock 0 ?k init_world"
  define w2 where "w2 = probe_done 0 ?k 0 True w1"
  define w3 where "w3 = the (acquire_open 1 ?k w2)"
  define w4 where "w4 = snd (acquire_flock 1 ?k 0 w3)"
  define w5 where "w5 = cleanup_unlink 0 ?k w4"
  define w6 where "w6 = the (acquire_open 2 ?k w5)"
  define w7 where "w7 = snd (acquire_flock 2 ?k 1 w6)"
  note defs = w7_def w6_def w5_def w4_def w3_def w2_def w1_def
  note ops = probe_lock_def probe_done_def acquire_open_def acquire_flock_def cleanup_unlink_def open_file_def init_world_def
  have r1: "reach cleanup_step w1"
    unfolding w1_def
    by (rule reach_step[OF reach_init], rule cleanup_runtime, rule probe_lock) (simp add: init_world_def)
  have r2: "reach cleanup_step w2"
    unfolding w2_def
    by (rule reach_step[OF r1], rule cleanup_runtime, rule probe_done) (simp add: w1_def ops)
  have r3: "reach cleanup_step w3"
    by (rule reach_step[OF r2], rule cleanup_runtime, rule acquire_open[of _ 1 ?k]) (simp_all add: w3_def w2_def w1_def ops)
  have r4: "reach cleanup_step w4"
    unfolding w4_def
    by (rule reach_step[OF r3], rule cleanup_runtime, rule acquire_flock) (simp add: w3_def w2_def w1_def ops)
  have r5: "reach cleanup_step w5"
    unfolding w5_def
    by (rule reach_step[OF r4], rule cleanup_unlink) (simp add: w4_def w3_def w2_def w1_def ops)
  have r6: "reach cleanup_step w6"
    by (rule reach_step[OF r5], rule cleanup_runtime, rule acquire_open[of _ 2 ?k]) (simp_all add: defs ops)
  have r7: "reach cleanup_step w7"
    unfolding w7_def
    by (rule reach_step[OF r6], rule cleanup_runtime, rule acquire_flock) (simp add: w6_def w5_def w4_def w3_def w2_def w1_def ops)
  have "w_handles w7 1 ?k = Some 0" "w_handles w7 2 ?k = Some 1"
    by (simp_all add: defs ops)
  with r7 show ?thesis by (intro exI[of _ w7] exI[of _ 1] exI[of _ 2] exI[of _ 0]) auto
qed

end
