(* ===== verification/Checkpointing.thy ===== *)
theory Checkpointing
  imports Stream_Dedup Delivery_Log
begin

text \<open>
  Checkpoints: \<open>app/checkpoints/service.py\<close> and \<open>repository.py\<close>, the checkpoint context and the
  \<open>{{checkpoint.x}}\<close> templates of \<open>app/http/shared_request_builder.py\<close>, and of the runner
  \<open>_resolve_checkpoint\<close> and the checkpoint value that \<open>_update_checkpoint_after_success\<close> stages.
  JSONPath evaluation is the parameter \<open>jp\<close> (the \<open>jsonpath_ng\<close> package).
\<close>

section \<open>The table and the service\<close>

record checkpoint_row =
  cp_type :: string
  cp_value :: json

text \<open>One row per stream.\<close>

type_synonym checkpoint_table = "(int, checkpoint_row) dict"

definition get_checkpoint_by_stream_id :: "checkpoint_table \<Rightarrow> int \<Rightarrow> checkpoint_row option" where
  "get_checkpoint_by_stream_id db sid = dict_get db sid"

definition upsert_checkpoint :: "int \<Rightarrow> string \<Rightarrow> event \<Rightarrow> checkpoint_table \<Rightarrow> checkpoint_table" where
  "upsert_checkpoint sid ctype v db =
     (case get_checkpoint_by_stream_id db sid of
        None \<Rightarrow> dict_set sid \<lparr>cp_type = ctype, cp_value = JObj v\<rparr> db
      | Some row \<Rightarrow> dict_set sid (row\<lparr>cp_type := ctype, cp_value := JObj v\<rparr>) db)"

definition get_checkpoint :: "checkpoint_table \<Rightarrow> int \<Rightarrow> event option" where
  "get_checkpoint db sid =
     (case get_checkpoint_by_stream_id db sid of
        None \<Rightarrow> None
      | Some row \<Rightarrow> (case cp_value row of JObj d \<Rightarrow> Some (copy_event_dict d) | _ \<Rightarrow> None))"

definition update_checkpoint_after_success :: "checkpoint_table \<Rightarrow> int \<Rightarrow> string \<Rightarrow> event \<Rightarrow> event \<times> checkpoint_table" where
  "update_checkpoint_after_success db sid ctype v =
     (copy_event_dict v, upsert_checkpoint sid ctype (copy_event_dict v) db)"

text \<open>The in-memory store; \<open>now\<close> is the ISO text of the clock.\<close>

definition get_checkpoint_for_stream :: "(int, event) dict \<Rightarrow> int \<Rightarrow> event option" where
  "get_checkpoint_for_stream store sid = map_option copy_event_dict (dict_get store sid)"

definition update_memory_checkpoint ::
    "string \<Rightarrow> int \<Rightarrow> event option \<Rightarrow> (int, event) dict \<Rightarrow> event option \<times> (int, event) dict" where
  "update_memory_checkpoint now sid last_event store =
     (case last_event of
        None \<Rightarrow> (None, store)
      | Some e \<Rightarrow>
          (let payload = [(''last_success_event'', JObj (copy_event_dict e)), (''updated_at'', JStr now)]
           in (Some payload, dict_set sid payload store)))"

section \<open>Cursor values\<close>

fun is_scalar_json :: "json \<Rightarrow> bool" where
  "is_scalar_json (JList _) = False"
| "is_scalar_json (JObj _) = False"
| "is_scalar_json _ = True"

text \<open>\<open>_first_scalar\<close>: \<open>JNull\<close> is Python's \<open>None\<close>.\<close>

fun first_scalar :: "json \<Rightarrow> json" and first_scalar_list :: "json list \<Rightarrow> json" where
  "first_scalar (JList xs) = first_scalar_list xs"
| "first_scalar (JObj _) = JNull"
| "first_scalar v = v"
| "first_scalar_list [] = JNull"
| "first_scalar_list (x # xs) = (if first_scalar x \<noteq> JNull then first_scalar x else first_scalar_list xs)"

definition normalize_path :: "string \<Rightarrow> string" where
  "normalize_path path =
     (let p = py_strip path
      in if p = [] then []
         else if py_startswith p ''$'' then p
         else if py_startswith p ''.'' then ''$'' @ p
         else ''$.'' @ p)"

definition push_candidate :: "string \<Rightarrow> string list \<Rightarrow> string list" where
  "push_candidate c out =
     (let p = normalize_path c in if p = [] \<or> p \<in> set out then out else out @ [p])"

text \<open>The text after the first dot, if there is one.\<close>

definition after_dot :: "string \<Rightarrow> string option" where
  "after_dot tail = (case dropWhile (\<lambda>c. c \<noteq> CHR ''.'') tail of [] \<Rightarrow> None | _ # rest \<Rightarrow> Some rest)"

definition push_variant :: "string \<Rightarrow> string \<Rightarrow> string list \<Rightarrow> string list" where
  "push_variant arr variant out =
     (let out1 = fold (\<lambda>prefix o1. if py_startswith variant (prefix @ ''.'')
                                   then push_candidate (''$.'' @ drop (length prefix + 1) variant) o1 else o1)
                   [arr, arr @ ''[*]'', arr @ ''[0]''] out
      in if drop (length arr - 2) arr = ''.*'' \<and> 2 \<le> length arr then
           (let map_prefix = take (length arr - 2) arr
            in if py_startswith variant (map_prefix @ ''.'') then
                 (case after_dot (drop (length map_prefix + 1) variant) of
                    None \<Rightarrow> out1 | Some rest \<Rightarrow> push_candidate (''$.'' @ rest) out1)
               else out1)
         else out1)"

definition checkpoint_path_candidates :: "string \<Rightarrow> string \<Rightarrow> string list" where
  "checkpoint_path_candidates path event_array_path =
     (let raw = normalize_path path
      in if raw = [] then []
         else
           (let starred = str_replace ''.*[*].'' ''.*.'' raw;
                out = push_candidate starred (push_candidate raw []);
                arr = normalize_path event_array_path
            in if arr = [] then out
               else push_variant arr starred (push_variant arr raw out)))"

fun first_match :: "json list \<Rightarrow> json option" where
  "first_match [] = None"
| "first_match (m # ms) = (if first_scalar m \<noteq> JNull then Some (first_scalar m) else first_match ms)"

fun first_candidate :: "jsonpath_engine \<Rightarrow> event \<Rightarrow> string list \<Rightarrow> json option" where
  "first_candidate jp ev [] = None"
| "first_candidate jp ev (c # cs) =
     (case jp (JObj ev) (normalize_jsonpath (Some c)) of
        None \<Rightarrow> first_candidate jp ev cs
      | Some ms \<Rightarrow> (case first_match ms of Some v \<Rightarrow> Some v | None \<Rightarrow> first_candidate jp ev cs))"

text \<open>\<open>str(p or "")\<close> of a configured path, without blank ones.\<close>

definition path_text :: "json \<Rightarrow> string option" where
  "path_text v = (if truthy v \<and> py_strip (py_str v) \<noteq> [] then Some (py_str v) else None)"

definition cursor_paths :: "event \<Rightarrow> string list" where
  "cursor_paths cfg =
     (case dict_get cfg ''cursor_paths'' of Some (JList ps) \<Rightarrow> List.map_filter path_text ps | _ \<Rightarrow> [])
     @ List.map_filter (\<lambda>k. case dict_get cfg k of None \<Rightarrow> None | Some v \<Rightarrow> path_text v)
         [''cursor_path'', ''path'', ''field_path'']"

definition resolve_checkpoint_value_from_event :: "jsonpath_engine \<Rightarrow> event \<Rightarrow> event \<Rightarrow> json option" where
  "resolve_checkpoint_value_from_event jp last_event cfg =
     (case dict_get cfg ''checkpoint'' of
        Some (JObj ck) \<Rightarrow>
          (let arr = (case dict_get cfg ''event_array_path'' of
                        Some v \<Rightarrow> if truthy v then py_str v else ''$'' | None \<Rightarrow> ''$'')
           in first_candidate jp last_event
                (concat (map (\<lambda>p. checkpoint_path_candidates p arr) (cursor_paths ck))))
      | _ \<Rightarrow> None)"

definition set_default :: "string \<Rightarrow> json \<Rightarrow> event \<Rightarrow> event" where
  "set_default k v d = (if dict_has d k then d else dict_set k v d)"

definition cursor_aliases :: "string list" where
  "cursor_aliases = [''cursor'', ''value'', ''last_seen'', ''next_cursor'', ''last_timestamp'', ''last_timestamp_ms'']"

definition build_runtime_checkpoint_template_context :: "jsonpath_engine \<Rightarrow> event \<Rightarrow> event \<Rightarrow> event" where
  "build_runtime_checkpoint_template_context jp checkpoint cfg =
     (let cursor = (case dict_get checkpoint ''last_success_event'' of
                      Some (JObj ev) \<Rightarrow> resolve_checkpoint_value_from_event jp ev cfg
                    | _ \<Rightarrow> None)
      in case cursor of
           None \<Rightarrow> checkpoint
         | Some v \<Rightarrow> fold (\<lambda>k. set_default k v) cursor_aliases checkpoint)"

section \<open>Templates\<close>

definition ident_char :: "char \<Rightarrow> bool" where
  "ident_char c \<longleftrightarrow>
     (let n = of_char c :: nat in 48 \<le> n \<and> n \<le> 57 \<or> 65 \<le> n \<and> n \<le> 90 \<or> 97 \<le> n \<and> n \<le> 122 \<or> n = 95)"

text \<open>The pattern \<open>{{ checkpoint.name }}\<close> at the start of a text: the name and the rest.\<close>

definition checkpoint_var :: "string \<Rightarrow> (string \<times> string) option" where
  "checkpoint_var s =
     (if \<not> py_startswith s ''{{'' then None
      else
        (let s1 = dropWhile py_isspace (drop 2 s); lit = ''checkpoint.''
         in if \<not> py_startswith s1 lit then None
            else
              (let s2 = drop (length lit) s1; name = takeWhile ident_char s2;
                   s3 = dropWhile py_isspace (dropWhile ident_char s2)
               in if name = [] \<or> \<not> py_startswith s3 ''}}'' then None else Some (name, drop 2 s3))))"

definition template_value :: "event \<Rightarrow> string \<Rightarrow> string" where
  "template_value ck name =
     (case dict_get ck name of
        None \<Rightarrow> if name \<in> set cursor_aliases then ''0'' else []
      | Some JNull \<Rightarrow> if name \<in> set cursor_aliases then ''0'' else []
      | Some v \<Rightarrow> py_str v)"

lemma checkpoint_var_shorter: "checkpoint_var s = Some (name, rest) \<Longrightarrow> length rest < length s"
proof -
  assume v: "checkpoint_var s = Some (name, rest)"
  let ?s1 = "dropWhile py_isspace (drop 2 s)"
  let ?s2 = "drop (length ''checkpoint.'') ?s1"
  let ?s3 = "dropWhile py_isspace (dropWhile ident_char ?s2)"
  have rest: "rest = drop 2 ?s3" and start: "py_startswith s ''{{''"
    using v by (auto simp: checkpoint_var_def Let_def split: if_splits)
  have "length ?s1 \<le> length s - 2"
    by (rule order_trans[OF length_dropWhile_le]) simp
  moreover have "length ?s3 \<le> length ?s2"
    by (rule order_trans[OF length_dropWhile_le length_dropWhile_le])
  moreover have "2 \<le> length s"
    using start by (cases s; cases "tl s") (auto simp: py_startswith_def)
  ultimately show "length rest < length s" unfolding rest by simp
qed

function render_text :: "event \<Rightarrow> string \<Rightarrow> string" where
  "render_text ck s =
     (case s of
        [] \<Rightarrow> []
      | c # cs \<Rightarrow> (case checkpoint_var (c # cs) of
                    Some (name, rest) \<Rightarrow> template_value ck name @ render_text ck rest
                  | None \<Rightarrow> c # render_text ck cs))"
  by pat_completeness auto
termination
  by (relation "measure (\<lambda>(ck, s). length s)") (auto dest: checkpoint_var_shorter)

declare render_text.simps [simp del]

fun render_runtime_checkpoint_templates :: "event \<Rightarrow> json \<Rightarrow> json" where
  "render_runtime_checkpoint_templates ck (JStr s) = JStr (render_text ck s)"
| "render_runtime_checkpoint_templates ck (JObj kvs) =
     JObj (map (map_prod id (render_runtime_checkpoint_templates ck)) kvs)"
| "render_runtime_checkpoint_templates ck (JList xs) = JList (map (render_runtime_checkpoint_templates ck) xs)"
| "render_runtime_checkpoint_templates ck v = v"

section \<open>The runner's side\<close>

text \<open>\<open>v = ev.get(k)\<close>, where \<open>None\<close> and an absent key are the same.\<close>

definition present :: "event \<Rightarrow> string \<Rightarrow> json option" where
  "present ev k = (case dict_get ev k of None \<Rightarrow> None | Some JNull \<Rightarrow> None | Some v \<Rightarrow> Some v)"

text \<open>\<open>ev.get(k1) or ev.get(k2)\<close>: the second where the first is falsy; and the fallback on
  \<open>None\<close> only.\<close>

definition get_or :: "event \<Rightarrow> string \<Rightarrow> string \<Rightarrow> json option" where
  "get_or ev k1 k2 = (case present ev k1 of Some v \<Rightarrow> if truthy v then Some v else present ev k2 | None \<Rightarrow> present ev k2)"

definition get_else :: "event \<Rightarrow> string \<Rightarrow> string \<Rightarrow> json option" where
  "get_else ev k1 k2 = (case present ev k1 of Some v \<Rightarrow> Some v | None \<Rightarrow> present ev k2)"

definition put_fields :: "string list \<Rightarrow> json option \<Rightarrow> event \<Rightarrow> event" where
  "put_fields ks v d = (case v of None \<Rightarrow> d | Some x \<Rightarrow> fold (\<lambda>k. dict_set k x) ks d)"

definition base_checkpoint_value :: "event \<Rightarrow> event" where
  "base_checkpoint_value ev =
     (let c0 = [(''last_success_event'', JObj (copy_event_dict ev))];
          c1 = put_fields [''last_processed_key''] (present ev ''s3_key'') c0;
          c2 = put_fields [''last_processed_last_modified''] (present ev ''s3_last_modified'') c1;
          c3 = put_fields [''last_processed_etag''] (present ev ''s3_etag'') c2;
          c4 = put_fields [''last_processed_db_watermark''] (present ev ''gdc_db_watermark'') c3;
          c5 = put_fields [''last_processed_db_order''] (present ev ''gdc_db_order_value'') c4;
          c6 = put_fields [''last_processed_key'', ''last_processed_file''] (get_or ev ''remote_path'' ''gdc_remote_path'') c5;
          c7 = put_fields [''last_processed_last_modified'', ''last_processed_mtime'']
                 (get_or ev ''remote_mtime'' ''gdc_remote_mtime'') c6;
          c8 = put_fields [''last_processed_size''] (get_else ev ''remote_size'' ''gdc_remote_size'') c7;
          c9 = put_fields [''last_processed_offset''] (present ev ''gdc_remote_offset'') c8
      in put_fields [''last_processed_hash''] (present ev ''gdc_remote_hash'') c9)"

definition checkpoint_value_of :: "jsonpath_engine \<Rightarrow> event \<Rightarrow> event \<Rightarrow> event" where
  "checkpoint_value_of jp stream_cfg ev =
     build_runtime_checkpoint_template_context jp (base_checkpoint_value ev) stream_cfg"

text \<open>\<open>_resolve_checkpoint\<close>: the type and the payload, from the checkpoint of the stream context
  (a dict with \<open>type\<close> and \<open>value\<close>, another value, or \<open>None\<close>), else from the table; where the
  query raises (\<open>db\<close> is \<open>None\<close>), from the in-memory store.\<close>

definition unwrap_checkpoint :: "event \<Rightarrow> string \<times> json option" where
  "unwrap_checkpoint d =
     ((case dict_get d ''type'' of None \<Rightarrow> ''CUSTOM_FIELD'' | Some t \<Rightarrow> py_str t), present d ''value'')"

definition resolve_checkpoint ::
    "json option \<Rightarrow> checkpoint_table option \<Rightarrow> (int, event) dict \<Rightarrow> int \<Rightarrow> string \<times> json option" where
  "resolve_checkpoint runtime_ck db store sid =
     (let (ctype, ck) = (case runtime_ck of
             None \<Rightarrow> (''CUSTOM_FIELD'', None)
           | Some JNull \<Rightarrow> (''CUSTOM_FIELD'', None)
           | Some (JObj d) \<Rightarrow> if dict_has d ''value'' then unwrap_checkpoint d else (''CUSTOM_FIELD'', Some (JObj d))
           | Some v \<Rightarrow> (''CUSTOM_FIELD'', Some v))
      in case ck of
           Some v \<Rightarrow> (ctype, Some v)
         | None \<Rightarrow>
             (case db of
                None \<Rightarrow> (ctype, map_option JObj (get_checkpoint_for_stream store sid))
              | Some t \<Rightarrow>
                  (case get_checkpoint t sid of
                     Some d \<Rightarrow> if dict_has d ''value'' then unwrap_checkpoint d else (ctype, Some (JObj d))
                   | None \<Rightarrow> (ctype, None))))"

text \<open>The checkpoint of the context that \<open>load_stream_context\<close> builds from the row.\<close>

definition context_checkpoint :: "checkpoint_table \<Rightarrow> int \<Rightarrow> json option" where
  "context_checkpoint db sid =
     (case get_checkpoint_by_stream_id db sid of
        None \<Rightarrow> None
      | Some row \<Rightarrow> Some (JObj [(''type'', JStr (cp_type row)), (''value'', cp_value row)]))"

section \<open>Facts\<close>

interpretation checkpoint_store: keyed_store get_checkpoint "\<lambda>sid v db. upsert_checkpoint sid t v db"
  by unfold_locales
     (auto simp: get_checkpoint_def upsert_checkpoint_def get_checkpoint_by_stream_id_def dict_simps split: option.splits)

lemma put_fields_get:
  "dict_get (put_fields ks v d) k = (case v of Some x \<Rightarrow> if k \<in> set ks then Some x else dict_get d k | None \<Rightarrow> dict_get d k)"
proof (cases v)
  case (Some x)
  have "dict_get (fold (\<lambda>k. dict_set k x) ks d) k = (if k \<in> set ks then Some x else dict_get d k)"
    by (induction ks arbitrary: d) (auto simp: dict_simps)
  then show ?thesis using Some by (simp add: put_fields_def)
qed (simp add: put_fields_def)

lemma put_fields_other: "k \<notin> set ks \<Longrightarrow> dict_get (put_fields ks v d) k = dict_get d k"
  by (simp add: put_fields_get split: option.split)

lemma base_checkpoint_event:
  "dict_get (base_checkpoint_value ev) ''last_success_event'' = Some (JObj ev)"
  by (simp add: base_checkpoint_value_def put_fields_other Let_def)

lemma set_default_get:
  "dict_get (set_default k v d) k' = (if k' = k \<and> dict_get d k = None then Some v else dict_get d k')"
  by (auto simp: set_default_def dict_simps)

lemma set_defaults_get:
  "dict_get (fold (\<lambda>k. set_default k v) ks d) k' =
     (if k' \<in> set ks \<and> dict_get d k' = None then Some v else dict_get d k')"
  by (induction ks arbitrary: d) (auto simp: set_default_get)

lemma checkpoint_value_get:
  "dict_get (checkpoint_value_of jp cfg ev) k =
     (case resolve_checkpoint_value_from_event jp ev cfg of
        Some v \<Rightarrow> if k \<in> set cursor_aliases \<and> dict_get (base_checkpoint_value ev) k = None then Some v
                  else dict_get (base_checkpoint_value ev) k
      | None \<Rightarrow> dict_get (base_checkpoint_value ev) k)"
  by (simp add: checkpoint_value_of_def build_runtime_checkpoint_template_context_def base_checkpoint_event
      set_defaults_get split: option.splits)

text \<open>A cursor value is never \<open>None\<close>.\<close>

lemma first_match_not_null: "first_match ms = Some v \<Longrightarrow> v \<noteq> JNull"
  by (induction ms) (auto split: if_splits)

lemma first_candidate_not_null: "first_candidate jp ev cs = Some v \<Longrightarrow> v \<noteq> JNull"
  by (induction cs) (auto split: option.splits dest: first_match_not_null)

lemma cursor_not_null: "resolve_checkpoint_value_from_event jp ev cfg = Some v \<Longrightarrow> v \<noteq> JNull"
  by (auto simp: resolve_checkpoint_value_from_event_def Let_def split: option.splits json.splits
      dest: first_candidate_not_null)

lemma base_checkpoint_no_alias:
  "dict_get (base_checkpoint_value ev) ''type'' = None"
  "dict_get (base_checkpoint_value ev) ''value'' = None"
  by (simp_all add: base_checkpoint_value_def put_fields_other Let_def)

lemma updated_row:
  "dict_get (snd (update_checkpoint_after_success db sid ctype v)) sid' =
     (if sid' = sid then Some \<lparr>cp_type = ctype, cp_value = JObj v\<rparr> else dict_get db sid')"
  by (auto simp: update_checkpoint_after_success_def upsert_checkpoint_def get_checkpoint_by_stream_id_def
      dict_simps split: option.splits)

section \<open>Properties\<close>

text \<open>C13: Checkpoints round-trip: what a run stores after a successful delivery is, with its type,
  what the next run of the stream resolves from its context; it holds the last delivered event,
  and the checkpoints of other streams are as they were.\<close>

theorem checkpoint_roundtrip:
  assumes "db' = snd (update_checkpoint_after_success db sid ctype (checkpoint_value_of jp cfg ev))"
  shows "resolve_checkpoint (context_checkpoint db' sid) (Some db') store sid =
           (ctype, Some (JObj (checkpoint_value_of jp cfg ev))) \<and>
         dict_get (checkpoint_value_of jp cfg ev) ''last_success_event'' = Some (JObj ev) \<and>
         (\<forall>other. other \<noteq> sid \<longrightarrow> get_checkpoint db' other = get_checkpoint db other)"
proof -
  let ?v = "checkpoint_value_of jp cfg ev"
  have row: "dict_get db' sid = Some \<lparr>cp_type = ctype, cp_value = JObj ?v\<rparr>"
    unfolding assms updated_row by simp
  have "resolve_checkpoint (context_checkpoint db' sid) (Some db') store sid = (ctype, Some (JObj ?v))"
    by (simp add: context_checkpoint_def get_checkpoint_by_stream_id_def row resolve_checkpoint_def
        unwrap_checkpoint_def present_def)
  moreover have "dict_get ?v ''last_success_event'' = Some (JObj ev)"
    by (simp add: checkpoint_value_get base_checkpoint_event split: option.splits)
  moreover have "get_checkpoint db' other = get_checkpoint db other" if "other \<noteq> sid" for other
    using that unfolding get_checkpoint_def get_checkpoint_by_stream_id_def assms updated_row by simp
  ultimately show ?thesis by blast
qed

theorem checkpoint_roundtrip_witness:
  "resolve_checkpoint (context_checkpoint (snd (update_checkpoint_after_success [] 7 ''CUSTOM_FIELD''
       (checkpoint_value_of (\<lambda>_ _. None) [] [(''id'', JInt 1)]))) 7)
     (Some (snd (update_checkpoint_after_success [] 7 ''CUSTOM_FIELD'' (checkpoint_value_of (\<lambda>_ _. None) [] [(''id'', JInt 1)])))) [] 7
   = (''CUSTOM_FIELD'', Some (JObj (checkpoint_value_of (\<lambda>_ _. None) [] [(''id'', JInt 1)])))"
  by (rule conjunct1[OF checkpoint_roundtrip]) (rule refl)

text \<open>Read from the table instead, the same checkpoint is lost where the stream has a cursor
  path: the stored dict carries the cursor under \<open>value\<close>, and the run resolves to the bare
  cursor, without the last event and the transport fields.\<close>

theorem table_checkpoint_loses_fields:
  assumes "db' = snd (update_checkpoint_after_success db sid ctype (checkpoint_value_of jp cfg ev))"
    and "resolve_checkpoint_value_from_event jp ev cfg = Some v"
  shows "resolve_checkpoint None (Some db') store sid = (''CUSTOM_FIELD'', Some v)"
proof -
  let ?v = "checkpoint_value_of jp cfg ev"
  have row: "dict_get db' sid = Some \<lparr>cp_type = ctype, cp_value = JObj ?v\<rparr>"
    unfolding assms updated_row by simp
  have "dict_get ?v ''value'' = Some v" "dict_get ?v ''type'' = None"
    using assms(2) by (simp_all add: checkpoint_value_get base_checkpoint_no_alias cursor_aliases_def)
  moreover have "v \<noteq> JNull" by (rule cursor_not_null[OF assms(2)])
  ultimately show ?thesis
    by (simp add: resolve_checkpoint_def get_checkpoint_def get_checkpoint_by_stream_id_def row
        unwrap_checkpoint_def present_def split: json.splits)
qed

theorem table_checkpoint_loses_fields_witness:
  "resolve_checkpoint None (Some (snd (update_checkpoint_after_success [] 7 ''S3'' (checkpoint_value_of (\<lambda>_ _. Some [JInt 5])
     [(''checkpoint'', JObj [(''path'', JStr ''$.ts'')])] [(''s3_key'', JStr ''k'')])))) [] 7 = (''CUSTOM_FIELD'', Some (JInt 5))"
proof (rule table_checkpoint_loses_fields[OF refl])
  show "resolve_checkpoint_value_from_event (\<lambda>_ _. Some [JInt 5]) [(''s3_key'', JStr ''k'')]
      [(''checkpoint'', JObj [(''path'', JStr ''$.ts'')])] = Some (JInt 5)"
    by code_simp
qed

end
