(* ===== verification/Event_Mapping.thy ===== *)
theory Event_Mapping
  imports Stream_Dedup
begin

text \<open>
  From a raw response to mapped events: \<open>app/parsers/event_extractor.py\<close>,
  \<open>app/mappers/mapper.py\<close>, \<open>pass_through.py\<close>, \<open>full_event_mapping.py\<close> and
  \<open>unmapped_policy.py\<close>.

  Three engines are parameters. \<open>jc\<close> is jsonpath-ng: it compiles a path (\<open>None\<close> is its parse
  error) to the function that lists the matches in a document. \<open>rx\<close> is the regular expression
  engine: it compiles a pattern (\<open>None\<close> is \<open>re.error\<close>) to the function that gives the groups of
  the first match. \<open>ja\<close> is JSONata: \<open>None\<close> where the package is not installed, otherwise the
  evaluation, which may fail. The messages of errors are left out; which error is raised is kept.
\<close>

section \<open>Errors\<close>

text \<open>\<open>Root_Path_Missed\<close> is the \<open>MappingError\<close> of an event without the root path, which the run tells
  apart by its text.\<close>

datatype relay_error = Mapping_Error | Root_Path_Missed | Parser_Error | Enrichment_Error | Value_Error

type_synonym 'a result = "relay_error + 'a"

fun bind_result :: "'a result \<Rightarrow> ('a \<Rightarrow> 'b result) \<Rightarrow> 'b result" where
  "bind_result (Inl e) f = Inl e"
| "bind_result (Inr a) f = f a"

fun map_results :: "('a \<Rightarrow> 'b result) \<Rightarrow> 'a list \<Rightarrow> 'b list result" where
  "map_results f [] = Inr []"
| "map_results f (x # xs) =
     bind_result (f x) (\<lambda>y. bind_result (map_results f xs) (\<lambda>ys. Inr (y # ys)))"

type_synonym jsonpath_compiler = "string \<Rightarrow> (json \<Rightarrow> json list) option"
type_synonym regex_engine = "string \<Rightarrow> (string \<Rightarrow> string option list option) option"
type_synonym jsonata_engine = "(string \<Rightarrow> json \<Rightarrow> json option) option"

text \<open>\<open>compile_jsonpath\<close>, \<open>find_values\<close> and \<open>extract_one\<close> of \<open>jsonpath_parser.py\<close>, in terms of the
  compiler.\<close>

definition engine_of :: "jsonpath_compiler \<Rightarrow> jsonpath_engine" where
  "engine_of jc doc p = map_option (\<lambda>expr. expr doc) (jc p)"

definition compile_jsonpath :: "jsonpath_compiler \<Rightarrow> string option \<Rightarrow> (json \<Rightarrow> json list) result" where
  "compile_jsonpath jc p = (case jc (normalize_jsonpath p) of None \<Rightarrow> Inl Parser_Error | Some f \<Rightarrow> Inr f)"

definition find_values :: "jsonpath_compiler \<Rightarrow> json \<Rightarrow> string option \<Rightarrow> json list result" where
  "find_values jc root p = bind_result (compile_jsonpath jc p) (\<lambda>expr. Inr (expr root))"

definition extract_one_compiled :: "(json \<Rightarrow> json list) \<Rightarrow> event \<Rightarrow> json" where
  "extract_one_compiled expr ev = (case expr (JObj ev) of [] \<Rightarrow> JNull | m # _ \<Rightarrow> m)"

section \<open>Extraction\<close>

fun is_primitive_json :: "json \<Rightarrow> bool" where
  "is_primitive_json (JList _) = False"
| "is_primitive_json (JObj _) = False"
| "is_primitive_json _ = True"

fun dict_event :: "json \<Rightarrow> event result" where
  "dict_event (JObj d) = Inr (copy_event_dict d)"
| "dict_event _ = Inl Mapping_Error"

definition dict_events_from_sequence :: "json list \<Rightarrow> event list result" where
  "dict_events_from_sequence items = map_results dict_event items"

definition path_is_set :: "string option \<Rightarrow> bool" where
  "path_is_set p = (case p of None \<Rightarrow> False | Some s \<Rightarrow> py_strip s \<noteq> [])"

definition root_event :: "jsonpath_compiler \<Rightarrow> string option \<Rightarrow> event \<Rightarrow> event result" where
  "root_event jc root_path ev =
     bind_result (find_values jc (JObj ev) root_path)
       (\<lambda>matches. case matches of [] \<Rightarrow> Inl Root_Path_Missed | [m] \<Rightarrow> dict_event m | _ \<Rightarrow> Inl Mapping_Error)"

definition normalize_events_with_root ::
    "jsonpath_compiler \<Rightarrow> event list \<Rightarrow> string option \<Rightarrow> event list result" where
  "normalize_events_with_root jc events root_path =
     (if path_is_set root_path then map_results (root_event jc root_path) events
      else Inr (map copy_event_dict events))"

definition extract_events ::
    "jsonpath_compiler \<Rightarrow> json \<Rightarrow> string option \<Rightarrow> string option \<Rightarrow> event list result" where
  "extract_events jc raw array_path root_path =
     (if \<not> path_is_set array_path then
        (case raw of
           JObj d \<Rightarrow> normalize_events_with_root jc [copy_event_dict d] root_path
         | JList items \<Rightarrow>
             bind_result (dict_events_from_sequence items) (\<lambda>evs. normalize_events_with_root jc evs root_path)
         | _ \<Rightarrow> Inl Mapping_Error)
      else if is_primitive_json raw then Inl Mapping_Error
      else bind_result (find_values jc raw array_path)
        (\<lambda>matches. case matches of
           [] \<Rightarrow> Inr []
         | [JList items] \<Rightarrow>
             bind_result (dict_events_from_sequence items) (\<lambda>evs. normalize_events_with_root jc evs root_path)
         | ms \<Rightarrow> bind_result (dict_events_from_sequence ms) (\<lambda>evs. normalize_events_with_root jc evs root_path)))"

section \<open>Pass-through of unmapped fields\<close>

datatype segment = Key string | Index nat

definition maps_whole_event :: "string list \<Rightarrow> bool" where
  "maps_whole_event paths = list_ex (\<lambda>p. py_strip p = ''$'' \<or> py_strip p = []) paths"

text \<open>The loop of \<open>parse_jsonpath_segments\<close>; \<open>None\<close> is the \<open>ValueError\<close> of an unclosed bracket.
  Digits are the ASCII digits.\<close>

function path_segments :: "string \<Rightarrow> segment list option" where
  "path_segments s =
     (case s of
        [] \<Rightarrow> Some []
      | c # cs \<Rightarrow>
          (if c = CHR ''.'' then path_segments cs
           else if c = CHR ''['' then
             (let raw = takeWhile (\<lambda>x. x \<noteq> CHR '']'') cs; rest = dropWhile (\<lambda>x. x \<noteq> CHR '']'') cs
              in if rest = [] then None
                 else (let idx = py_strip raw
                       in case path_segments (tl rest) of
                            None \<Rightarrow> None
                          | Some segs \<Rightarrow>
                              Some (if idx \<noteq> [] \<and> list_all py_isdigit idx
                                    then Index (nat (digits_val idx)) # segs else segs)))
           else (let name = takeWhile (\<lambda>x. x \<noteq> CHR ''.'' \<and> x \<noteq> CHR ''['') s
                 in map_option (\<lambda>segs. Key name # segs)
                      (path_segments (dropWhile (\<lambda>x. x \<noteq> CHR ''.'' \<and> x \<noteq> CHR ''['') cs)))))"
  by pat_completeness auto
termination
  by (relation "measure length")
    (auto simp: less_Suc_eq_le intro: order_trans[OF length_dropWhile_le] order_trans[OF diff_le_self])

declare path_segments.simps [simp del]

definition path_remainder :: "string \<Rightarrow> string" where
  "path_remainder path =
     (let p = py_strip path
      in if p = ''$'' \<or> p = [] then []
         else if py_startswith p ''$.'' then drop 2 p
         else if py_startswith p ''$'' then dropWhile (\<lambda>c. c = CHR ''.'') (tl p)
         else p)"

definition parse_jsonpath_segments :: "string \<Rightarrow> segment list option" where
  "parse_jsonpath_segments path = path_segments (path_remainder path)"

fun is_empty_container :: "json \<Rightarrow> bool" where
  "is_empty_container (JObj d) = (d = [])"
| "is_empty_container (JList xs) = (xs = [])"
| "is_empty_container _ = False"

primrec prune :: "json \<Rightarrow> json" where
  "prune JNull = JNull"
| "prune (JBool b) = JBool b"
| "prune (JInt i) = JInt i"
| "prune (JFloat r) = JFloat r"
| "prune (JStr s) = JStr s"
| "prune (JList xs) = JList (filter (\<lambda>v. \<not> is_empty_container v) (map prune xs))"
| "prune (JObj kvs) = JObj (filter (\<lambda>(k, v). \<not> is_empty_container v) (map (map_prod id prune) kvs))"

definition pop_item :: "nat \<Rightarrow> 'a list \<Rightarrow> 'a list" where
  "pop_item i xs = take i xs @ drop (Suc i) xs"

fun remove_at :: "segment list \<Rightarrow> json \<Rightarrow> json" where
  "remove_at [] v = v"
| "remove_at (Index i # rest) (JList xs) =
     (if i \<ge> length xs then JList xs
      else if rest = [] then JList (pop_item i xs)
      else (let child = remove_at rest (xs ! i)
            in if is_empty_container child then JList (pop_item i xs) else JList (xs[i := child])))"
| "remove_at (Key k # rest) (JObj d) =
     (case dict_get d k of
        None \<Rightarrow> JObj d
      | Some v \<Rightarrow>
          (if rest = [] then JObj (dict_del k d)
           else (let child = remove_at rest v
                 in if is_empty_container child then JObj (dict_del k d) else JObj (dict_set k child d))))"
| "remove_at _ v = v"

definition remove_at_jsonpath :: "event \<Rightarrow> string \<Rightarrow> event result" where
  "remove_at_jsonpath root path =
     (case parse_jsonpath_segments path of
        None \<Rightarrow> Inl Value_Error
      | Some [] \<Rightarrow> Inr []
      | Some segs \<Rightarrow> Inr (obj_of (prune (remove_at segs (JObj root)))))"

fun remove_paths :: "event \<Rightarrow> string list \<Rightarrow> event result" where
  "remove_paths residual [] = Inr residual"
| "remove_paths residual (p # ps) = bind_result (remove_at_jsonpath residual p) (\<lambda>r. remove_paths r ps)"

definition build_residual_after_mapping :: "event \<Rightarrow> string list \<Rightarrow> event result" where
  "build_residual_after_mapping ev paths =
     bind_result (remove_paths (copy_event_dict ev) paths) (\<lambda>r. Inr (obj_of (prune (JObj r))))"

fun merge_value :: "json \<Rightarrow> json \<Rightarrow> json"
and merge_into :: "event \<Rightarrow> event \<Rightarrow> event"
and merge_arrays :: "json list \<Rightarrow> json list \<Rightarrow> json list" where
  "merge_value (JObj t) (JObj s) = JObj (merge_into t s)"
| "merge_value (JList t) (JList s) = JList (merge_arrays t s)"
| "merge_value t _ = t"
| "merge_into t [] = t"
| "merge_into t ((k, v) # s) =
     (case dict_get t k of
        None \<Rightarrow> merge_into (dict_set k (copy_json_value v) t) s
      | Some tv \<Rightarrow> merge_into (dict_set k (merge_value tv v) t) s)"
| "merge_arrays t [] = t"
| "merge_arrays [] (v # s) = copy_json_value v # merge_arrays [] s"
| "merge_arrays (tv # t) (v # s) = merge_value tv v # merge_arrays t s"

definition deep_merge_pass_through :: "event \<Rightarrow> event \<Rightarrow> event" where
  "deep_merge_pass_through output residual = merge_into (copy_event_dict output) residual"

definition merge_unknown_field_pass_through :: "event \<Rightarrow> event \<Rightarrow> string list \<Rightarrow> event result" where
  "merge_unknown_field_pass_through ev output paths =
     (if maps_whole_event paths then Inr output
      else bind_result (build_residual_after_mapping ev paths)
        (\<lambda>residual. Inr (if residual = [] then output else deep_merge_pass_through output residual)))"

section \<open>Policies and modes\<close>

definition field_mappings_meta_keys :: "string list" where
  "field_mappings_meta_keys =
     [''transform_rules'', ''advanced_fields'', ''mapping_mode'', ''jsonata_expression'', ''regex_rules'',
      ''preserve_source_fields'', ''unmapped_fields_policy'']"

definition get_mapping_mode :: "event \<Rightarrow> string option" where
  "get_mapping_mode fm =
     (case dict_get fm ''mapping_mode'' of
        None \<Rightarrow> None
      | Some JNull \<Rightarrow> None
      | Some raw \<Rightarrow> (let mode = py_lower (py_strip (py_str raw)) in if mode = [] then None else Some mode))"

definition is_full_event_mapping :: "event \<Rightarrow> bool" where
  "is_full_event_mapping fm \<longleftrightarrow>
     get_mapping_mode fm \<in> {Some ''full_event_jsonata'', Some ''full_event_regex''}"

definition basic_entry :: "string \<times> json \<Rightarrow> (string, string) dict \<Rightarrow> (string, string) dict" where
  "basic_entry = (\<lambda>(key, v) out.
     if key \<in> set field_mappings_meta_keys \<or> py_startswith key ''_'' then out
     else (case v of
             JStr s \<Rightarrow> if py_strip s = [] then out else dict_set key (py_strip s) out
           | _ \<Rightarrow> out))"

definition extract_basic_jsonpath_mappings :: "event \<Rightarrow> (string, string) dict" where
  "extract_basic_jsonpath_mappings fm = fold basic_entry fm []"

definition get_unmapped_fields_policy :: "event \<Rightarrow> string" where
  "get_unmapped_fields_policy fm =
     (let s = (case dict_get fm ''unmapped_fields_policy'' of
                 None \<Rightarrow> ''pass_through'' | Some JNull \<Rightarrow> [] | Some raw \<Rightarrow> py_strip (py_str raw))
      in if s \<in> {''pass_through'', ''drop_unmapped''} then s else ''pass_through'')"

definition should_pass_through_unmapped :: "event \<Rightarrow> bool" where
  "should_pass_through_unmapped fm \<longleftrightarrow> get_unmapped_fields_policy fm = ''pass_through''"

section \<open>Full-event mapping\<close>

datatype map_issue =
    No_Rules | Rule_Incomplete nat | Group_Not_Int nat | Group_Negative nat
  | Source_Missing string | Pattern_Missed string | Bad_Pattern string
  | Source_Default string | Match_Default string
  | No_Expression | Jsonata_Failed | Not_An_Object

record full_state =
  fs_base :: event
  fs_errors :: "map_issue list"
  fs_warnings :: "map_issue list"

text \<open>\<open>str(rule.get(a) or rule.get(b) or "").strip()\<close>.\<close>

fun first_truthy :: "event \<Rightarrow> string list \<Rightarrow> json option" where
  "first_truthy d [] = None"
| "first_truthy d (k # ks) =
     (case dict_get d k of
        Some v \<Rightarrow> if truthy v then Some v else first_truthy d ks
      | None \<Rightarrow> first_truthy d ks)"

definition text_or :: "event \<Rightarrow> string list \<Rightarrow> string" where
  "text_or d ks = (case first_truthy d ks of None \<Rightarrow> [] | Some v \<Rightarrow> py_str v)"

definition coerce_regex_source :: "json \<Rightarrow> string option" where
  "coerce_regex_source v =
     (case v of
        JNull \<Rightarrow> None | JStr s \<Rightarrow> Some s
      | JList _ \<Rightarrow> Some (json_text v) | JObj _ \<Rightarrow> Some (json_text v)
      | _ \<Rightarrow> Some (py_str v))"

definition parse_regex_rules :: "event \<Rightarrow> event list" where
  "parse_regex_rules fm =
     (case dict_get fm ''regex_rules'' of
        Some (JList xs) \<Rightarrow> map obj_of (filter is_obj xs)
      | _ \<Rightarrow> [])"

definition get_default :: "event \<Rightarrow> string \<Rightarrow> json \<Rightarrow> json" where
  "get_default d k v = (case dict_get d k of None \<Rightarrow> v | Some x \<Rightarrow> x)"

text \<open>Where the rule finds nothing: its default and a warning, or an error.\<close>

definition use_default :: "string \<Rightarrow> json \<Rightarrow> map_issue \<Rightarrow> map_issue \<Rightarrow> full_state \<Rightarrow> full_state" where
  "use_default out dflt warning err st =
     (if dflt \<noteq> JNull
      then st\<lparr>fs_base := dict_set out (copy_json_value dflt) (fs_base st), fs_warnings := fs_warnings st @ [warning]\<rparr>
      else st\<lparr>fs_errors := fs_errors st @ [err]\<rparr>)"

definition captured_group :: "(string \<Rightarrow> string option list option) \<Rightarrow> nat \<Rightarrow> string \<Rightarrow> string option" where
  "captured_group search idx source =
     (case search source of
        None \<Rightarrow> None
      | Some groups \<Rightarrow> if idx \<le> length groups then groups ! (idx - 1) else None)"

definition regex_rule ::
    "jsonpath_compiler \<Rightarrow> regex_engine \<Rightarrow> event \<Rightarrow> nat \<Rightarrow> event \<Rightarrow> full_state \<Rightarrow> full_state result" where
  "regex_rule jc rx ev index rule st =
     (let out = py_strip (text_or rule [''output_field'', ''field'']);
          path = py_strip (text_or rule [''source_path'', ''path'']);
          pattern = py_strip (text_or rule [''pattern'']);
          fail = (\<lambda>e. Inr (st\<lparr>fs_errors := fs_errors st @ [e]\<rparr>))
      in if out = [] \<or> path = [] \<or> pattern = [] then fail (Rule_Incomplete index)
         else (case py_int (get_default rule ''capture_group'' (get_default rule ''group'' (JInt 1))) of
                 None \<Rightarrow> fail (Group_Not_Int index)
               | Some g \<Rightarrow>
                   (if g < 0 then fail (Group_Negative index)
                    else (let dflt = get_default rule ''default_value'' (get_default rule ''default'' JNull)
                          in case extract_one (engine_of jc) ev (Some path) of
                               None \<Rightarrow> Inl Parser_Error
                             | Some raw \<Rightarrow>
                                 (case coerce_regex_source raw of
                                    None \<Rightarrow> Inr (use_default out dflt (Source_Default out) (Source_Missing out) st)
                                  | Some source \<Rightarrow>
                                      (case rx pattern of
                                         None \<Rightarrow> fail (Bad_Pattern out)
                                       | Some search \<Rightarrow>
                                           (case captured_group search (if g > 0 then nat g else 1) source of
                                              Some c \<Rightarrow> Inr (st\<lparr>fs_base := dict_set out (JStr c) (fs_base st)\<rparr>)
                                            | None \<Rightarrow> Inr (use_default out dflt (Match_Default out) (Pattern_Missed out) st))))))))"

fun regex_rules ::
    "jsonpath_compiler \<Rightarrow> regex_engine \<Rightarrow> event \<Rightarrow> nat \<Rightarrow> event list \<Rightarrow> full_state \<Rightarrow> full_state result" where
  "regex_rules jc rx ev index [] st = Inr st"
| "regex_rules jc rx ev index (r # rs) st =
     bind_result (regex_rule jc rx ev index r st) (\<lambda>st'. regex_rules jc rx ev (Suc index) rs st')"

definition apply_full_event_regex_mapping ::
    "jsonpath_compiler \<Rightarrow> regex_engine \<Rightarrow> event \<Rightarrow> event \<Rightarrow> full_state result" where
  "apply_full_event_regex_mapping jc rx ev fm =
     (let base = (if dict_get fm ''preserve_source_fields'' = Some (JBool True) then copy_event_dict ev else []);
          rules = parse_regex_rules fm;
          st = \<lparr>fs_base = base, fs_errors = [], fs_warnings = []\<rparr>
      in if rules = [] then Inr (st\<lparr>fs_errors := [No_Rules]\<rparr>) else regex_rules jc rx ev 0 rules st)"

definition apply_full_event_jsonata_mapping :: "jsonata_engine \<Rightarrow> event \<Rightarrow> event \<Rightarrow> full_state result" where
  "apply_full_event_jsonata_mapping ja ev fm =
     (let expression = py_strip (text_or fm [''jsonata_expression'']);
          failed = (\<lambda>e. Inr \<lparr>fs_base = [], fs_errors = [e], fs_warnings = []\<rparr>)
      in if expression = [] then failed No_Expression
         else (case ja of
                 None \<Rightarrow> Inl Mapping_Error
               | Some evaluate \<Rightarrow>
                   (case evaluate expression (JObj ev) of
                      None \<Rightarrow> failed Jsonata_Failed
                    | Some (JObj d) \<Rightarrow> Inr \<lparr>fs_base = copy_event_dict d, fs_errors = [], fs_warnings = []\<rparr>
                    | Some _ \<Rightarrow> failed Not_An_Object)))"

definition apply_full_event_mapping ::
    "jsonpath_compiler \<Rightarrow> regex_engine \<Rightarrow> jsonata_engine \<Rightarrow> event \<Rightarrow> event \<Rightarrow> full_state result" where
  "apply_full_event_mapping jc rx ja ev fm =
     (if get_mapping_mode fm = Some ''full_event_jsonata'' then apply_full_event_jsonata_mapping ja ev fm
      else if get_mapping_mode fm = Some ''full_event_regex'' then apply_full_event_regex_mapping jc rx ev fm
      else Inl Mapping_Error)"

section \<open>The mapper\<close>

text \<open>\<open>compile_mappings\<close> turns the parse error of a path into a mapping error.\<close>

definition compile_mappings ::
    "jsonpath_compiler \<Rightarrow> (string, string) dict \<Rightarrow> (string \<times> (json \<Rightarrow> json list)) list result" where
  "compile_mappings jc fm =
     map_results (\<lambda>(out, path). case compile_jsonpath jc (Some path) of
        Inl _ \<Rightarrow> Inl Mapping_Error | Inr f \<Rightarrow> Inr (out, f)) fm"

fun project :: "event \<Rightarrow> (string \<times> (json \<Rightarrow> json list)) list \<Rightarrow> event \<Rightarrow> event" where
  "project ev [] output = output"
| "project ev ((out, expr) # cs) output =
     project ev cs (dict_set out (copy_json_value (extract_one_compiled expr ev)) output)"

definition apply_compiled_mapping ::
    "event \<Rightarrow> (string \<times> (json \<Rightarrow> json list)) list \<Rightarrow> string list option \<Rightarrow> event result" where
  "apply_compiled_mapping ev compiled source_paths =
     (if compiled = [] then Inr (copy_event_dict ev)
      else (let output = project ev compiled []
            in case source_paths of
                 None \<Rightarrow> Inr output
               | Some paths \<Rightarrow> merge_unknown_field_pass_through ev output paths))"

definition source_paths_of :: "event \<Rightarrow> (string, string) dict \<Rightarrow> string list option" where
  "source_paths_of fm basic = (if should_pass_through_unmapped fm then Some (map snd basic) else None)"

definition apply_mapping ::
    "jsonpath_compiler \<Rightarrow> regex_engine \<Rightarrow> jsonata_engine \<Rightarrow> event \<Rightarrow> event \<Rightarrow> event result" where
  "apply_mapping jc rx ja fm ev =
     (if fm = [] then Inr (copy_event_dict ev)
      else if is_full_event_mapping fm then
        bind_result (apply_full_event_mapping jc rx ja ev fm)
          (\<lambda>st. if fs_errors st \<noteq> [] then Inl Mapping_Error else Inr (fs_base st))
      else (let basic = extract_basic_jsonpath_mappings fm
            in bind_result (compile_mappings jc basic)
                 (\<lambda>compiled. apply_compiled_mapping ev compiled (source_paths_of fm basic))))"

definition apply_mappings ::
    "jsonpath_compiler \<Rightarrow> regex_engine \<Rightarrow> jsonata_engine \<Rightarrow> event \<Rightarrow> event list \<Rightarrow> event list result" where
  "apply_mappings jc rx ja fm events =
     (if is_full_event_mapping fm then map_results (apply_mapping jc rx ja fm) events
      else (let basic = extract_basic_jsonpath_mappings fm
            in bind_result (compile_mappings jc basic)
                 (\<lambda>compiled. map_results (\<lambda>ev. apply_compiled_mapping ev compiled (source_paths_of fm basic)) events)))"

text \<open>\<open>MappingApplyResult\<close>: the code of an event error, and the field warnings.\<close>

record apply_result =
  ar_event :: event
  ar_field_errors :: "map_issue list"
  ar_event_error :: "string option"

definition failed_event :: "string \<Rightarrow> apply_result" where
  "failed_event code = \<lparr>ar_event = [], ar_field_errors = [], ar_event_error = Some code\<rparr>"

definition mapped_ok :: "event \<Rightarrow> map_issue list \<Rightarrow> apply_result" where
  "mapped_ok ev warnings = \<lparr>ar_event = ev, ar_field_errors = warnings, ar_event_error = None\<rparr>"

definition full_event_result ::
    "jsonpath_compiler \<Rightarrow> regex_engine \<Rightarrow> jsonata_engine \<Rightarrow> event \<Rightarrow> json \<Rightarrow> apply_result result" where
  "full_event_result jc rx ja fm v =
     (case v of
        JObj ev \<Rightarrow>
          (case apply_full_event_mapping jc rx ja ev fm of
             Inl Mapping_Error \<Rightarrow> Inr (failed_event ''MAPPING_FAILED'')
           | Inl e \<Rightarrow> Inl e
           | Inr st \<Rightarrow> Inr (if fs_errors st \<noteq> [] then failed_event ''MAPPING_FAILED''
                            else mapped_ok (fs_base st) (fs_warnings st)))
      | _ \<Rightarrow> Inr (failed_event ''MAPPING_EVENT_INVALID''))"

definition basic_result ::
    "(string \<times> (json \<Rightarrow> json list)) list \<Rightarrow> string list option \<Rightarrow> json \<Rightarrow> apply_result result" where
  "basic_result compiled source_paths v =
     (case v of
        JObj ev \<Rightarrow> bind_result (apply_compiled_mapping ev compiled source_paths) (\<lambda>m. Inr (mapped_ok m []))
      | _ \<Rightarrow> Inr (failed_event ''MAPPING_EVENT_INVALID''))"

definition apply_mappings_with_results ::
    "jsonpath_compiler \<Rightarrow> regex_engine \<Rightarrow> jsonata_engine \<Rightarrow> event \<Rightarrow> json list \<Rightarrow> apply_result list result" where
  "apply_mappings_with_results jc rx ja fm events =
     (if is_full_event_mapping fm then map_results (full_event_result jc rx ja fm) events
      else (let basic = extract_basic_jsonpath_mappings fm
            in bind_result (compile_mappings jc basic)
                 (\<lambda>compiled. map_results (basic_result compiled (source_paths_of fm basic)) events)))"

section \<open>Results\<close>

text \<open>Unfolding a call that may raise, from the value it returned.\<close>

lemma bind_result_Inr: "bind_result r f = Inr b \<longleftrightarrow> (\<exists>a. r = Inr a \<and> f a = Inr b)"
  by (cases r) auto

lemma bind_result_Inl: "bind_result r f = Inl e \<longleftrightarrow> r = Inl e \<or> (\<exists>a. r = Inr a \<and> f a = Inl e)"
  by (cases r) auto

lemma map_results_Inr: "map_results f xs = Inr ys \<longleftrightarrow> list_all2 (\<lambda>x y. f x = Inr y) xs ys"
proof (induction xs arbitrary: ys)
  case Nil
  then show ?case by auto
next
  case (Cons x xs)
  then show ?case by (cases ys) (auto simp: bind_result_Inr)
qed

lemma map_results_length: "map_results f xs = Inr ys \<Longrightarrow> length ys = length xs"
  by (auto simp: map_results_Inr dest: list_all2_lengthD)

section \<open>Documents\<close>

text \<open>The value at a path of keys and indices; a document is well formed where no object has a
  key twice.\<close>

fun value_at :: "segment list \<Rightarrow> json \<Rightarrow> json option" where
  "value_at [] v = Some v"
| "value_at (Key k # ps) (JObj d) = (case dict_get d k of None \<Rightarrow> None | Some v \<Rightarrow> value_at ps v)"
| "value_at (Index i # ps) (JList xs) = (if i < length xs then value_at ps (xs ! i) else None)"
| "value_at _ _ = None"

fun json_ok :: "json \<Rightarrow> bool" where
  "json_ok (JList xs) = (\<forall>x \<in> set xs. json_ok x)"
| "json_ok (JObj d) = (dict_ok d \<and> (\<forall>kv \<in> set d. json_ok (snd kv)))"
| "json_ok _ = True"

fun is_key :: "segment \<Rightarrow> bool" where
  "is_key (Key _) = True"
| "is_key (Index _) = False"

lemma json_ok_get: "json_ok (JObj d) \<Longrightarrow> dict_get d k = Some v \<Longrightarrow> json_ok v"
  by (force dest: map_of_SomeD)

lemma json_ok_del: "json_ok (JObj d) \<Longrightarrow> json_ok (JObj (dict_del k d))"
  by (auto simp: dict_del_ok AList.delete_eq distinct_map_filter)

lemma json_ok_set:
  assumes "json_ok (JObj d)" "json_ok v"
  shows "json_ok (JObj (dict_set k v d))"
proof -
  have "json_ok (snd kv)" if "kv \<in> set (dict_set k v d)" for kv
    using that assms set_dict_set[of k v d] by auto
  with assms show ?thesis by (simp add: dict_set_ok)
qed

lemma json_ok_remove_at: "json_ok v \<Longrightarrow> json_ok (remove_at segs v)"
proof (induction segs v rule: remove_at.induct)
  case (2 i rest xs)
  then show ?case
    by (auto simp: pop_item_def Let_def dest!: in_set_takeD in_set_dropD dest: set_update_subset_insert[THEN subsetD])
next
  case (3 k rest d)
  then show ?case
    by (auto simp: Let_def json_ok_get simp del: json_ok.simps split: option.splits
        intro!: json_ok_del json_ok_set)
qed simp_all

lemma value_at_remove_same:
  "segs \<noteq> [] \<Longrightarrow> list_all is_key segs \<Longrightarrow> value_at segs (remove_at segs v) = None"
proof (induction segs v rule: remove_at.induct)
  case (3 k rest d)
  then show ?case by (cases rest) (auto simp: dict_simps Let_def split: option.splits)
qed auto

lemma value_at_remove_other:
  "value_at qs v = None \<Longrightarrow> list_all is_key qs \<Longrightarrow> value_at qs (remove_at segs v) = None"
proof (induction segs v arbitrary: qs rule: remove_at.induct)
  case (2 i rest xs)
  then show ?case by (cases qs; cases "hd qs") (auto simp: Let_def)
next
  case (3 k rest d)
  show ?case
  proof (cases qs)
    case Nil
    with 3 show ?thesis by simp
  next
    case (Cons q ps)
    with 3 show ?thesis
      by (cases q) (auto simp: dict_simps Let_def split: option.splits)
  qed
qed auto

fun prune_entries :: "event \<Rightarrow> event" where
  "prune_entries [] = []"
| "prune_entries ((k, v) # d) =
     (if is_empty_container (prune v) then prune_entries d else (k, prune v) # prune_entries d)"

lemma prune_obj: "prune (JObj d) = JObj (prune_entries d)"
  by (induction d rule: prune_entries.induct) auto

lemma prune_entries_keys: "fst ` set (prune_entries d) \<subseteq> fst ` set d"
  by (induction d rule: prune_entries.induct) auto

lemma prune_entries_ok: "dict_ok d \<Longrightarrow> dict_ok (prune_entries d)"
proof (induction d rule: prune_entries.induct)
  case (2 k v d)
  then have "k \<notin> fst ` set (prune_entries d)" using prune_entries_keys[of d] by auto
  with 2 show ?case by auto
qed simp

lemma prune_entries_mem: "(k, v) \<in> set (prune_entries d) \<Longrightarrow> \<exists>u. (k, u) \<in> set d \<and> v = prune u"
  by (induction d rule: prune_entries.induct) (auto split: if_splits)

lemma prune_entries_get:
  "dict_ok d \<Longrightarrow>
   dict_get (prune_entries d) k =
     (case dict_get d k of
        None \<Rightarrow> None | Some v \<Rightarrow> if is_empty_container (prune v) then None else Some (prune v))"
proof (induction d rule: prune_entries.induct)
  case (2 k' v d)
  then have new: "dict_get (prune_entries d) k' = None"
    using prune_entries_keys[of d] by (auto simp: map_of_eq_None_iff)
  show ?case
    using 2 new by (cases "k = k'") simp_all
qed simp

declare prune.simps(7) [simp del]
declare prune_obj [simp]

lemma json_ok_prune: "json_ok v \<Longrightarrow> json_ok (prune v)"
proof (induction v)
  case (JObj d)
  have "json_ok v" if mem: "(k, v) \<in> set (prune_entries d)" for k v
  proof -
    obtain u where u: "(k, u) \<in> set d" and v: "v = prune u" using prune_entries_mem[OF mem] by auto
    with JObj.prems have "json_ok u" by force
    with JObj.IH[OF u] v show ?thesis by simp
  qed
  with JObj.prems show ?case by (auto simp: prune_entries_ok)
qed auto

lemma value_at_prune:
  "json_ok v \<Longrightarrow> value_at qs v = None \<Longrightarrow> list_all is_key qs \<Longrightarrow> value_at qs (prune v) = None"
proof (induction qs v rule: value_at.induct)
  case (2 k ps d)
  show ?case
  proof (cases "dict_get d k")
    case None
    with 2 show ?thesis by (simp add: prune_entries_get)
  next
    case (Some u)
    with 2 have "value_at ps (prune u) = None" by (auto dest: json_ok_get)
    with 2 Some show ?thesis by (simp add: prune_entries_get)
  qed
qed auto

lemma merge_into_get:
  "dict_ok s \<Longrightarrow>
   dict_get (merge_into t s) k =
     (case dict_get t k of
        None \<Rightarrow> dict_get s k
      | Some tv \<Rightarrow> (case dict_get s k of None \<Rightarrow> Some tv | Some v \<Rightarrow> Some (merge_value tv v)))"
proof (induction s arbitrary: t)
  case (Cons kv s)
  obtain k' v' where kv: "kv = (k', v')" by (cases kv)
  with Cons.prems have "k' \<notin> fst ` set s" "dict_ok s" by auto
  then have "dict_get s k' = None" by (simp add: map_of_eq_None_iff)
  with Cons.IH[OF \<open>dict_ok s\<close>] kv show ?case
    by (auto simp: dict_simps split: option.splits)
qed (simp split: option.splits)

lemma value_at_merge:
  "json_ok s \<Longrightarrow> list_all is_key qs \<Longrightarrow> value_at qs t = None \<Longrightarrow> value_at qs s = None \<Longrightarrow>
   value_at qs (merge_value t s) = None"
proof (induction qs arbitrary: t s)
  case (Cons q ps)
  obtain k where q: "q = Key k" using Cons.prems(2) by (cases q) auto
  show ?case
  proof (cases "\<exists>td sd. t = JObj td \<and> s = JObj sd")
    case True
    then obtain td sd where ts: "t = JObj td" "s = JObj sd" by blast
    have "value_at ps v = None" if "dict_get td k = None" "dict_get sd k = Some v" for v
      using Cons.prems ts q that by simp
    moreover have "value_at ps (merge_value u v) = None" if "dict_get td k = Some u" "dict_get sd k = Some v" for u v
      using Cons.prems ts q that json_ok_get[of sd k v] by (intro Cons.IH) auto
    ultimately show ?thesis
      using Cons.prems ts q by (auto simp: merge_into_get split: option.splits)
  next
    case False
    then have "merge_value t s = t \<or> (\<exists>a b. t = JList a \<and> s = JList b)"
      by (cases t; cases s) auto
    with Cons.prems q show ?thesis by auto
  qed
qed simp

lemma merge_scalar: "is_primitive_json t \<Longrightarrow> merge_value t s = t"
  by (cases t) auto

section \<open>What the mapper does with a mapped source\<close>

lemma remove_at_obj: "is_obj (remove_at segs (JObj d))"
  by (cases "(segs, JObj d)" rule: remove_at.cases) (auto simp: Let_def split: option.splits)

lemma obj_of_eq: "is_obj v \<Longrightarrow> JObj (obj_of v) = v"
  by (cases v) auto

lemma prune_is_obj: "is_obj v \<Longrightarrow> is_obj (prune v)"
  by (cases v) auto

lemma remove_at_jsonpath_obj:
  assumes "remove_at_jsonpath r p = Inr r'" "parse_jsonpath_segments p = Some segs" "segs \<noteq> []"
  shows "JObj r' = prune (remove_at segs (JObj r))"
  using assms by (auto simp: remove_at_jsonpath_def obj_of_eq prune_is_obj remove_at_obj split: list.splits)

lemma remove_at_jsonpath_ok:
  assumes "json_ok (JObj r)" "remove_at_jsonpath r p = Inr r'"
  shows "json_ok (JObj r')"
proof (cases "\<exists>segs. parse_jsonpath_segments p = Some segs \<and> segs \<noteq> []")
  case True
  with assms show ?thesis
    by (metis remove_at_jsonpath_obj json_ok_prune json_ok_remove_at)
next
  case False
  with assms show ?thesis by (auto simp: remove_at_jsonpath_def split: option.splits list.splits)
qed

lemma remove_at_jsonpath_other:
  assumes "json_ok (JObj r)" "remove_at_jsonpath r p = Inr r'" "list_all is_key qs" "value_at qs (JObj r) = None"
  shows "value_at qs (JObj r') = None"
proof (cases "\<exists>segs. parse_jsonpath_segments p = Some segs \<and> segs \<noteq> []")
  case True
  then obtain segs where "JObj r' = prune (remove_at segs (JObj r))"
    using assms(2) remove_at_jsonpath_obj by blast
  with assms show ?thesis
    by (simp only: value_at_prune value_at_remove_other json_ok_remove_at)
next
  case False
  with assms have "r' = []" by (auto simp: remove_at_jsonpath_def split: option.splits list.splits)
  with assms(3,4) show ?thesis by (cases qs; cases "hd qs") auto
qed

lemma remove_at_jsonpath_same:
  assumes "json_ok (JObj r)" "remove_at_jsonpath r p = Inr r'"
    "parse_jsonpath_segments p = Some qs" "qs \<noteq> []" "list_all is_key qs"
  shows "value_at qs (JObj r') = None"
  by (simp only: remove_at_jsonpath_obj[OF assms(2,3,4)] value_at_prune json_ok_remove_at assms(1)
      value_at_remove_same[OF assms(4,5)] assms(5))

lemma remove_paths_ok:
  "json_ok (JObj r) \<Longrightarrow> remove_paths r ps = Inr r' \<Longrightarrow> json_ok (JObj r')"
  by (induction r ps rule: remove_paths.induct) (auto simp: bind_result_Inr simp del: json_ok.simps dest: remove_at_jsonpath_ok)

lemma remove_paths_other:
  "json_ok (JObj r) \<Longrightarrow> remove_paths r ps = Inr r' \<Longrightarrow> list_all is_key qs \<Longrightarrow> value_at qs (JObj r) = None \<Longrightarrow>
   value_at qs (JObj r') = None"
proof (induction r ps rule: remove_paths.induct)
  case (2 r p ps)
  then obtain r1 where "remove_at_jsonpath r p = Inr r1" "remove_paths r1 ps = Inr r'"
    by (auto simp: bind_result_Inr)
  with 2 show ?case by (meson remove_at_jsonpath_ok remove_at_jsonpath_other)
qed simp

lemma remove_paths_same:
  "json_ok (JObj r) \<Longrightarrow> remove_paths r ps = Inr r' \<Longrightarrow> p \<in> set ps \<Longrightarrow>
   parse_jsonpath_segments p = Some qs \<Longrightarrow> qs \<noteq> [] \<Longrightarrow> list_all is_key qs \<Longrightarrow>
   value_at qs (JObj r') = None"
proof (induction r ps rule: remove_paths.induct)
  case (2 r p0 ps)
  then obtain r1 where r1: "remove_at_jsonpath r p0 = Inr r1" "remove_paths r1 ps = Inr r'"
    by (auto simp: bind_result_Inr)
  have ok: "json_ok (JObj r1)" by (rule remove_at_jsonpath_ok[OF 2(2) r1(1)])
  show ?case
  proof (cases "p = p0")
    case True
    with 2 r1 have "value_at qs (JObj r1) = None" by (meson remove_at_jsonpath_same)
    with ok r1 2 show ?thesis by (meson remove_paths_other)
  next
    case False
    with 2 r1 ok show ?thesis by auto
  qed
qed simp

lemma residual_from:
  assumes "build_residual_after_mapping ev paths = Inr r"
  obtains r1 where "remove_paths ev paths = Inr r1" and "JObj r = prune (JObj r1)"
  using assms by (auto simp: build_residual_after_mapping_def bind_result_Inr)

lemma residual_ok:
  assumes "json_ok (JObj ev)" "build_residual_after_mapping ev paths = Inr r"
  shows "json_ok (JObj r)"
proof -
  obtain r1 where r1: "remove_paths ev paths = Inr r1" and eq: "JObj r = prune (JObj r1)"
    by (rule residual_from[OF assms(2)])
  show ?thesis unfolding eq by (rule json_ok_prune[OF remove_paths_ok[OF assms(1) r1]])
qed

lemma residual_same:
  assumes "json_ok (JObj ev)" "build_residual_after_mapping ev paths = Inr r" "p \<in> set paths"
    "parse_jsonpath_segments p = Some qs" "qs \<noteq> []" "list_all is_key qs"
  shows "value_at qs (JObj r) = None"
proof -
  obtain r1 where r1: "remove_paths ev paths = Inr r1" and eq: "JObj r = prune (JObj r1)"
    by (rule residual_from[OF assms(2)])
  show ?thesis
    unfolding eq
    by (rule value_at_prune[OF remove_paths_ok[OF assms(1) r1] remove_paths_same[OF assms(1) r1 assms(3-6)] assms(6)])
qed

section \<open>The basic mode\<close>

definition paths_ok :: "(string, string) dict \<Rightarrow> bool" where
  "paths_ok out \<longleftrightarrow> dict_ok out \<and> (\<forall>kp \<in> set out. py_strip (snd kp) = snd kp \<and> snd kp \<noteq> [])"

lemma basic_entry_cases:
  "basic_entry (k, v) out = out \<or>
   (\<exists>s. basic_entry (k, v) out = dict_set k (py_strip s) out \<and> py_strip s \<noteq> [])"
  by (cases v) (auto simp: basic_entry_def)

lemma paths_ok_set: "paths_ok out \<Longrightarrow> py_strip s \<noteq> [] \<Longrightarrow> paths_ok (dict_set k (py_strip s) out)"
  unfolding paths_ok_def
  by (metis dict_set_ok insertE py_strip_idem set_dict_set snd_conv subsetD)

lemma paths_ok_entry: "paths_ok out \<Longrightarrow> paths_ok (basic_entry kv out)"
  using basic_entry_cases[of "fst kv" "snd kv" out] by (auto simp: paths_ok_set)

lemma basic_entries_ok: "paths_ok out \<Longrightarrow> paths_ok (fold basic_entry fm out)"
  by (induction fm arbitrary: out) (simp_all add: paths_ok_entry)

lemma basic_paths_ok: "paths_ok (extract_basic_jsonpath_mappings fm)"
  unfolding extract_basic_jsonpath_mappings_def by (rule basic_entries_ok) (simp add: paths_ok_def)

lemma basic_mappings_ok:
  "dict_ok (extract_basic_jsonpath_mappings fm)"
  "dict_get (extract_basic_jsonpath_mappings fm) f = Some p \<Longrightarrow> py_strip p = p \<and> p \<noteq> []"
proof -
  show "dict_ok (extract_basic_jsonpath_mappings fm)"
    using basic_paths_ok[of fm] by (simp add: paths_ok_def)
  show "py_strip p = p \<and> p \<noteq> []" if "dict_get (extract_basic_jsonpath_mappings fm) f = Some p"
    using basic_paths_ok[of fm] map_of_SomeD[OF that] by (fastforce simp: paths_ok_def)
qed

lemma project_get:
  "dict_ok cs \<Longrightarrow>
   dict_get (project ev cs out) f =
     (case dict_get cs f of None \<Rightarrow> dict_get out f | Some e \<Rightarrow> Some (extract_one_compiled e ev))"
proof (induction ev cs out rule: project.induct)
  case (2 ev o' e cs out)
  then have "dict_get cs o' = None" by (simp add: map_of_eq_None_iff)
  with 2 show ?case by (auto simp: dict_simps split: option.splits)
qed simp

lemma compiled_mappings:
  assumes "compile_mappings jc basic = Inr compiled"
  shows "map fst compiled = map fst basic"
    "dict_get basic f = Some p \<Longrightarrow> \<exists>e. jc (normalize_jsonpath (Some p)) = Some e \<and> dict_get compiled f = Some e"
proof -
  have all: "list_all2 (\<lambda>(out, p) oe. \<exists>e. jc (normalize_jsonpath (Some p)) = Some e \<and> oe = (out, e)) basic compiled"
    using assms unfolding compile_mappings_def map_results_Inr
    by (rule list_all2_mono) (auto simp: compile_jsonpath_def split: option.splits)
  then show "map fst compiled = map fst basic"
    by (induction rule: list_all2_induct) auto
  show "\<exists>e. jc (normalize_jsonpath (Some p)) = Some e \<and> dict_get compiled f = Some e" if "dict_get basic f = Some p"
    using all that by (induction rule: list_all2_induct) (auto split: if_splits)
qed

lemma basic_mapping_cases:
  assumes "apply_mapping jc rx ja fm ev = Inr m" "\<not> is_full_event_mapping fm"
    and "dict_get (extract_basic_jsonpath_mappings fm) f = Some p"
  obtains compiled where "compile_mappings jc (extract_basic_jsonpath_mappings fm) = Inr compiled"
    and "m = project ev compiled [] \<or>
         (should_pass_through_unmapped fm \<and>
          (\<exists>r. build_residual_after_mapping ev (map snd (extract_basic_jsonpath_mappings fm)) = Inr r \<and>
               m = merge_into (project ev compiled []) r))"
proof -
  let ?basic = "extract_basic_jsonpath_mappings fm"
  have "fm \<noteq> []" using assms(3) by (auto simp: extract_basic_jsonpath_mappings_def)
  with assms(1,2) obtain compiled where c: "compile_mappings jc ?basic = Inr compiled"
    "apply_compiled_mapping ev compiled (source_paths_of fm ?basic) = Inr m"
    by (auto simp: apply_mapping_def Let_def bind_result_Inr)
  then have "compiled \<noteq> []" using compiled_mappings(2)[OF c(1) assms(3)] by auto
  with c(2) have "m = project ev compiled [] \<or>
         (should_pass_through_unmapped fm \<and>
          (\<exists>r. build_residual_after_mapping ev (map snd ?basic) = Inr r \<and> m = merge_into (project ev compiled []) r))"
    by (auto simp: apply_compiled_mapping_def source_paths_of_def merge_unknown_field_pass_through_def
        deep_merge_pass_through_def bind_result_Inr Let_def split: if_splits)
  with c(1) show ?thesis by (rule that)
qed

section \<open>Properties\<close>

text \<open>A path evaluator for the paths the pass-through understands, for concrete inputs.\<close>

definition simple_paths :: jsonpath_compiler where
  "simple_paths p =
     map_option (\<lambda>segs doc. case value_at segs doc of None \<Rightarrow> [] | Some v \<Rightarrow> [v]) (parse_jsonpath_segments p)"

definition mapping_sample :: event where
  "mapping_sample = [(''user_name'', JStr ''$.user.name''), (''host'', JStr '' $.host '')]"

definition mapping_sample_event :: event where
  "mapping_sample_event =
     [(''user'', JObj [(''name'', JStr ''ada''), (''mail'', JStr ''a@b.c'')]), (''host'', JStr ''h1''),
      (''bytes'', JInt 7), (''tags'', JList [])]"

lemma mapped_field:
  assumes "compile_mappings jc (extract_basic_jsonpath_mappings fm) = Inr compiled"
    and "dict_get (extract_basic_jsonpath_mappings fm) f = Some p"
  shows "\<exists>expr. jc p = Some expr \<and> dict_get (project ev compiled []) f = Some (extract_one_compiled expr ev)"
proof -
  have "normalize_jsonpath (Some p) = p" using basic_mappings_ok(2)[OF assms(2)] by (simp add: normalize_jsonpath_def)
  with compiled_mappings(2)[OF assms(1,2)] obtain e where e: "jc p = Some e" "dict_get compiled f = Some e" by auto
  have "dict_ok compiled" using compiled_mappings(1)[OF assms(1)] basic_mappings_ok(1)[of fm] by simp
  with e show ?thesis by (simp add: project_get)
qed

lemma project_keys: "fst ` set (project ev cs out) = fst ` set out \<union> fst ` set cs"
  by (induction ev cs out rule: project.induct) (auto simp: dom_update)

text \<open>In the basic mode a mapped field holds the value of its JSONPath: always where unmapped
  fields are dropped (and then the event has exactly the mapped fields), and where unmapped fields
  pass through, for every value that is not an object or a list.\<close>

theorem mapped_field_wins:
  assumes "json_ok (JObj ev)" "\<not> is_full_event_mapping fm"
    and "apply_mapping jc rx ja fm ev = Inr m"
    and "dict_get (extract_basic_jsonpath_mappings fm) f = Some p"
  shows "\<exists>expr. jc p = Some expr \<and>
    (should_pass_through_unmapped fm \<longrightarrow> is_primitive_json (extract_one_compiled expr ev) \<longrightarrow>
       dict_get m f = Some (extract_one_compiled expr ev)) \<and>
    (\<not> should_pass_through_unmapped fm \<longrightarrow>
       dict_get m f = Some (extract_one_compiled expr ev) \<and>
       fst ` set m = fst ` set (extract_basic_jsonpath_mappings fm))"
proof -
  obtain compiled where c: "compile_mappings jc (extract_basic_jsonpath_mappings fm) = Inr compiled"
    and m: "m = project ev compiled [] \<or> (should_pass_through_unmapped fm \<and>
          (\<exists>r. build_residual_after_mapping ev (map snd (extract_basic_jsonpath_mappings fm)) = Inr r \<and>
               m = merge_into (project ev compiled []) r))"
    by (rule basic_mapping_cases[OF assms(3,2,4)])
  obtain expr where e: "jc p = Some expr" "dict_get (project ev compiled []) f = Some (extract_one_compiled expr ev)"
    using mapped_field[OF c assms(4)] by blast
  have keys: "fst ` set (project ev compiled []) = fst ` set (extract_basic_jsonpath_mappings fm)"
    using compiled_mappings(1)[OF c] by (simp add: project_keys) (metis list.set_map)
  have "dict_get (merge_into (project ev compiled []) r) f = Some (extract_one_compiled expr ev)"
    if "build_residual_after_mapping ev (map snd (extract_basic_jsonpath_mappings fm)) = Inr r"
      "is_primitive_json (extract_one_compiled expr ev)" for r
    using residual_ok[OF assms(1) that(1)] that(2) e(2)
    by (simp add: merge_into_get merge_scalar split: option.split)
  with m e keys show ?thesis by auto
qed

theorem mapped_field_wins_witness:
  "dict_get (obj_of (case apply_mapping simple_paths (\<lambda>_. None) None mapping_sample mapping_sample_event of
     Inr m \<Rightarrow> JObj m | Inl _ \<Rightarrow> JNull)) ''user_name'' = Some (JStr ''ada'')"
proof -
  have ok: "json_ok (JObj mapping_sample_event)" by (simp add: mapping_sample_event_def)
  have basic: "\<not> is_full_event_mapping mapping_sample" "should_pass_through_unmapped mapping_sample"
    "dict_get (extract_basic_jsonpath_mappings mapping_sample) ''user_name'' = Some ''$.user.name''"
    by code_simp+
  obtain m where m: "apply_mapping simple_paths (\<lambda>_. None) None mapping_sample mapping_sample_event = Inr m"
    by (rule that[of "[(''user_name'', JStr ''ada''), (''host'', JStr ''h1''), (''user'', JObj [(''mail'', JStr ''a@b.c'')]),
      (''bytes'', JInt 7)]"]) code_simp
  have v: "map_option (\<lambda>e. extract_one_compiled e mapping_sample_event) (simple_paths ''$.user.name'') = Some (JStr ''ada'')"
    by code_simp
  show ?thesis
    using mapped_field_wins[OF ok basic(1) m basic(3)] basic(2) v m by auto
qed

text \<open>A mapped source does not pass through: where a field is mapped from a path of keys whose
  first key is no output field, the mapped event holds nothing at that path.\<close>

theorem mapped_source_is_consumed:
  assumes "json_ok (JObj ev)" "\<not> is_full_event_mapping fm"
    and "apply_mapping jc rx ja fm ev = Inr m"
    and "dict_get (extract_basic_jsonpath_mappings fm) f = Some p"
    and "parse_jsonpath_segments p = Some (Key k # ks)" "list_all is_key ks"
    and "k \<notin> fst ` set (extract_basic_jsonpath_mappings fm)"
  shows "value_at (Key k # ks) (JObj m) = None"
proof -
  let ?qs = "Key k # ks" and ?basic = "extract_basic_jsonpath_mappings fm"
  obtain compiled where c: "compile_mappings jc ?basic = Inr compiled"
    and m: "m = project ev compiled [] \<or> (should_pass_through_unmapped fm \<and>
          (\<exists>r. build_residual_after_mapping ev (map snd ?basic) = Inr r \<and> m = merge_into (project ev compiled []) r))"
    by (rule basic_mapping_cases[OF assms(3,2,4)])
  have "fst ` set compiled = fst ` set ?basic"
    using compiled_mappings(1)[OF c] by (metis list.set_map)
  with assms(7) have "dict_get (project ev compiled []) k = None"
    by (simp add: map_of_eq_None_iff project_keys)
  then have out: "value_at ?qs (JObj (project ev compiled [])) = None" by simp
  have "p \<in> set (map snd ?basic)" using map_of_SomeD[OF assms(4)] by force
  then have "value_at ?qs (merge_value (JObj (project ev compiled [])) (JObj r)) = None"
    if "build_residual_after_mapping ev (map snd ?basic) = Inr r" for r
    using residual_ok[OF assms(1) that] residual_same[OF assms(1) that _ assms(5)] assms(6) out
    by (intro value_at_merge) auto
  with m out show ?thesis by auto
qed

theorem mapped_source_is_consumed_witness:
  "value_at [Key ''user'', Key ''name'']
     (JObj [(''user_name'', JStr ''ada''), (''host'', JStr ''h1''), (''user'', JObj [(''mail'', JStr ''a@b.c'')]),
            (''bytes'', JInt 7)]) = None"
  by (rule mapped_source_is_consumed[of mapping_sample_event mapping_sample simple_paths "\<lambda>_. None" None _ "''user_name''" "''$.user.name''"])
    (simp add: mapping_sample_event_def, code_simp+)

text \<open>With indices this fails: removing the only field of a list item drops the item, and the
  later items move up. Of two items whose \<open>tag\<close> is mapped field by field, the second passes through
  whole beside its mapped copy.\<close>

theorem indexed_source_passes_through:
  "apply_mapping simple_paths rx ja
     [(''first'', JStr ''$.items[0].tag''), (''second'', JStr ''$.items[1].tag'')]
     [(''items'', JList [JObj [(''tag'', JStr x)], JObj [(''tag'', JStr y)]])] =
   Inr [(''first'', JStr x), (''second'', JStr y), (''items'', JList [JObj [(''tag'', JStr y)]])]"
proof -
  let ?fm = "[(''first'', JStr ''$.items[0].tag''), (''second'', JStr ''$.items[1].tag'')]"
  have p: "parse_jsonpath_segments ''$.items[0].tag'' = Some [Key ''items'', Index 0, Key ''tag'']"
    "parse_jsonpath_segments ''$.items[1].tag'' = Some [Key ''items'', Index 1, Key ''tag'']"
    by code_simp+
  have b: "\<not> is_full_event_mapping ?fm" "should_pass_through_unmapped ?fm"
    "extract_basic_jsonpath_mappings ?fm = [(''first'', ''$.items[0].tag''), (''second'', ''$.items[1].tag'')]"
    "\<not> maps_whole_event [''$.items[0].tag'', ''$.items[1].tag'']"
    by code_simp+
  have n: "normalize_jsonpath (Some ''$.items[0].tag'') = ''$.items[0].tag''"
    "normalize_jsonpath (Some ''$.items[1].tag'') = ''$.items[1].tag''"
    by code_simp+
  show ?thesis
    using b by (simp add: apply_mapping_def compile_mappings_def compile_jsonpath_def n simple_paths_def p
        apply_compiled_mapping_def source_paths_of_def extract_one_compiled_def merge_unknown_field_pass_through_def
        build_residual_after_mapping_def remove_at_jsonpath_def pop_item_def deep_merge_pass_through_def)
qed

lemma map_results_via:
  assumes "\<And>x y. f x = Inr y \<longleftrightarrow> (\<exists>r. g (h x) = Inr r \<and> P r \<and> q r = y)"
  shows "map_results f xs = Inr ys \<longleftrightarrow> (\<exists>rs. map_results g (map h xs) = Inr rs \<and> list_all P rs \<and> map q rs = ys)"
proof (induction xs arbitrary: ys)
  case Nil
  then show ?case by auto
next
  case (Cons x xs)
  have "map_results f (x # xs) = Inr ys \<longleftrightarrow>
      (\<exists>y zs. (\<exists>r. g (h x) = Inr r \<and> P r \<and> q r = y) \<and>
        (\<exists>rs. map_results g (map h xs) = Inr rs \<and> list_all P rs \<and> map q rs = zs) \<and> ys = y # zs)"
    by (auto simp: bind_result_Inr assms Cons.IH)
  also have "\<dots> \<longleftrightarrow> (\<exists>rs. map_results g (map h (x # xs)) = Inr rs \<and> list_all P rs \<and> map q rs = ys)"
    by (fastforce simp: bind_result_Inr)
  finally show ?case .
qed

lemma full_result_agrees:
  assumes "is_full_event_mapping fm"
  shows "apply_mapping jc rx ja fm ev = Inr m \<longleftrightarrow>
    (\<exists>r. full_event_result jc rx ja fm (JObj ev) = Inr r \<and> ar_event_error r = None \<and> ar_event r = m)"
proof -
  have fm: "fm \<noteq> []" using assms by (auto simp: is_full_event_mapping_def get_mapping_mode_def)
  show ?thesis
  proof (cases "apply_full_event_mapping jc rx ja ev fm")
    case (Inl e)
    with assms fm show ?thesis
      by (cases e) (auto simp: apply_mapping_def full_event_result_def failed_event_def)
  next
    case (Inr st)
    with assms fm show ?thesis
      by (auto simp: apply_mapping_def full_event_result_def failed_event_def mapped_ok_def)
  qed
qed

text \<open>The preview and the runtime map alike: \<open>apply_mappings\<close> returns a batch exactly where
  \<open>apply_mappings_with_results\<close> returns no event error, and then they return the same events.\<close>

theorem preview_agrees_with_runtime:
  "apply_mappings jc rx ja fm evs = Inr ms \<longleftrightarrow>
   (\<exists>rs. apply_mappings_with_results jc rx ja fm (map JObj evs) = Inr rs \<and>
         list_all (\<lambda>r. ar_event_error r = None) rs \<and> map ar_event rs = ms)"
proof (cases "is_full_event_mapping fm")
  case True
  then show ?thesis
    unfolding apply_mappings_def apply_mappings_with_results_def
    by (simp only: if_True, intro map_results_via full_result_agrees[OF True])
next
  case False
  have basic: "apply_compiled_mapping ev c sp = Inr m \<longleftrightarrow>
      (\<exists>r. basic_result c sp (JObj ev) = Inr r \<and> ar_event_error r = None \<and> ar_event r = m)" for ev c sp m
    by (auto simp: basic_result_def bind_result_Inr mapped_ok_def)
  have batch: "map_results (\<lambda>ev. apply_compiled_mapping ev c sp) evs = Inr ms \<longleftrightarrow>
      (\<exists>rs. map_results (basic_result c sp) (map JObj evs) = Inr rs \<and>
            list_all (\<lambda>r. ar_event_error r = None) rs \<and> map ar_event rs = ms)" for c sp
    by (intro map_results_via basic)
  show ?thesis
    using False by (simp add: apply_mappings_def apply_mappings_with_results_def Let_def bind_result_Inr batch) blast
qed

text \<open>Extraction is all or nothing: a batch of the raw root list is returned exactly where every
  item is an object.\<close>

lemma extract_root_list:
  "extract_events jc (JList items) None None =
     (if list_all is_obj items then Inr (map obj_of items) else Inl Mapping_Error)"
proof -
  have "dict_events_from_sequence items =
      (if list_all is_obj items then Inr (map obj_of items) else Inl Mapping_Error)"
    unfolding dict_events_from_sequence_def
  proof (induction items)
    case (Cons v items)
    then show ?case by (cases v) auto
  qed simp
  then show ?thesis
    by (simp add: extract_events_def path_is_set_def normalize_events_with_root_def)
qed

end
