(* ===== verification/Enrichment.thy ===== *)
theory Enrichment
  imports Event_Mapping "HOL-Library.Sublist"
begin

text \<open>
  The enrichment of mapped events: \<open>app/enrichers/rule_executor.py\<close>, \<open>field_paths.py\<close>,
  \<open>lookup_tables.py\<close>, \<open>payload_safety.py\<close> and the batch entry of \<open>enrichment_engine.py\<close>.

  The environment holds what the rules read from outside: the clock as its ISO text, the
  evaluator of calculated expressions (\<open>expression_evaluator.py\<close>, not modelled; the left side is
  the text of its error), the conversion to ISO 8601 of \<open>datetime\<close>, and Python's Unicode case
  conversions. Durations are left out.
\<close>

record enrich_env =
  en_now :: string
  en_calc :: "string \<Rightarrow> event \<Rightarrow> string + json"
  en_iso :: "json \<Rightarrow> string + string"
  en_lower :: "string \<Rightarrow> string"
  en_upper :: "string \<Rightarrow> string"

section \<open>Field paths\<close>

abbreviation dotted :: "string \<Rightarrow> bool" where
  "dotted key \<equiv> CHR ''.'' \<in> set key"

fun get_parts :: "string list \<Rightarrow> json \<Rightarrow> json" where
  "get_parts [] v = v"
| "get_parts (p # ps) (JObj d) = (case dict_get d p of None \<Rightarrow> JNull | Some v \<Rightarrow> get_parts ps v)"
| "get_parts _ _ = JNull"

text \<open>\<open>JNull\<close> is Python's \<open>None\<close>.\<close>

definition get_field_value :: "event \<Rightarrow> string \<Rightarrow> json" where
  "get_field_value ev path =
     (let key = py_strip path
      in if key = [] then JNull
         else if \<not> dotted key then get_default ev key JNull
         else get_parts (split_on (CHR ''.'') key) (JObj ev))"

fun has_parts :: "string list \<Rightarrow> json \<Rightarrow> bool" where
  "has_parts [p] (JObj d) = dict_has d p"
| "has_parts (p # q # ps) (JObj d) = (case dict_get d p of None \<Rightarrow> False | Some v \<Rightarrow> has_parts (q # ps) v)"
| "has_parts _ _ = False"

definition has_field_value :: "event \<Rightarrow> string \<Rightarrow> bool" where
  "has_field_value ev path =
     (let key = py_strip path
      in if key = [] then False
         else if \<not> dotted key then dict_has ev key
         else has_parts (split_on (CHR ''.'') key) (JObj ev))"

definition name_start :: "char \<Rightarrow> bool" where
  "name_start c \<longleftrightarrow>
     (let n = of_char c :: nat in (65 \<le> n \<and> n \<le> 90) \<or> (97 \<le> n \<and> n \<le> 122) \<or> n = 95)"

definition name_part :: "string \<Rightarrow> bool" where
  "name_part p \<longleftrightarrow> p \<noteq> [] \<and> name_start (hd p) \<and> list_all (\<lambda>c. name_start c \<or> py_isdigit c) p"

text \<open>The match of \<open>_FIELD_PATH_RE\<close>; the two tests on dots before it are implied by it.\<close>

definition is_valid_field_path :: "string \<Rightarrow> bool" where
  "is_valid_field_path path =
     (let key = py_strip path
      in key \<noteq> [] \<and> \<not> py_startswith key ''__'' \<and> list_all name_part (split_on (CHR ''.'') key))"

fun set_parts :: "string list \<Rightarrow> json \<Rightarrow> event \<Rightarrow> event" where
  "set_parts [] v ev = ev"
| "set_parts [p] v ev = dict_set p (copy_json_value v) ev"
| "set_parts (p # q # ps) v ev =
     (let inner = (case dict_get ev p of Some (JObj d) \<Rightarrow> d | _ \<Rightarrow> [])
      in dict_set p (JObj (set_parts (q # ps) v inner)) ev)"

definition set_field_value :: "event \<Rightarrow> string \<Rightarrow> json \<Rightarrow> bool \<times> event" where
  "set_field_value ev path v =
     (let key = py_strip path
      in if key = [] \<or> \<not> is_valid_field_path key then (False, ev)
         else (True, set_parts (split_on (CHR ''.'') key) v ev))"

section \<open>Payload safety\<close>

primrec strip_internal_nested :: "json \<Rightarrow> json" where
  "strip_internal_nested JNull = JNull"
| "strip_internal_nested (JBool b) = JBool b"
| "strip_internal_nested (JInt i) = JInt i"
| "strip_internal_nested (JFloat r) = JFloat r"
| "strip_internal_nested (JStr s) = JStr s"
| "strip_internal_nested (JList xs) = JList (map strip_internal_nested xs)"
| "strip_internal_nested (JObj kvs) =
     JObj (filter (\<lambda>(k, v). \<not> py_startswith k ''__'') (map (map_prod id strip_internal_nested) kvs))"

definition reserved_event_keys :: "string list" where
  "reserved_event_keys =
     [''__rules'', ''__computed'', ''__preview'', ''__enrichment_meta'', ''__enrichment_warnings'', ''__validation'']"

definition sanitize_delivery_event :: "event \<Rightarrow> event" where
  "sanitize_delivery_event ev =
     obj_of (strip_internal_nested (JObj
       (filter (\<lambda>(k, v). \<not> (k \<in> set reserved_event_keys \<or> py_startswith k ''__'')) (copy_event_dict ev))))"

section \<open>Lookup tables\<close>

definition aws_regions :: "(string, string) dict" where
  "aws_regions =
     [(''us-east-1'', ''US East (N. Virginia)''), (''us-east-2'', ''US East (Ohio)''),
      (''us-west-1'', ''US West (N. California)''), (''us-west-2'', ''US West (Oregon)''),
      (''eu-west-1'', ''EU (Ireland)''), (''eu-central-1'', ''EU (Frankfurt)''),
      (''ap-southeast-1'', ''Asia Pacific (Singapore)''), (''ap-northeast-1'', ''Asia Pacific (Tokyo)'')]"

definition severity_labels :: "(string, string) dict" where
  "severity_labels =
     [(''1'', ''low''), (''2'', ''medium''), (''3'', ''high''), (''4'', ''critical''),
      (''low'', ''low''), (''medium'', ''medium''), (''high'', ''high''), (''critical'', ''critical'')]"

definition lookup_tables :: "(string, (string, string) dict) dict" where
  "lookup_tables =
     [(''aws_regions'', aws_regions), (''aws-regions'', aws_regions), (''severity_labels'', severity_labels),
      (''severity-labels'', severity_labels), (''severity_mapping'', severity_labels)]"

definition normalize_table_name :: "string \<Rightarrow> string" where
  "normalize_table_name name = map (\<lambda>c. if c = CHR ''-'' then CHR ''_'' else c) (py_lower (py_strip name))"

definition lookup_value :: "string \<Rightarrow> string \<Rightarrow> string option" where
  "lookup_value table_name key =
     (let raw = py_strip table_name; k = py_strip key
      in case (case dict_get lookup_tables raw of
                 Some t \<Rightarrow> Some t | None \<Rightarrow> dict_get lookup_tables (normalize_table_name raw)) of
           None \<Rightarrow> None
         | Some t \<Rightarrow> (case dict_get t k of Some v \<Rightarrow> Some v | None \<Rightarrow> dict_get t (py_lower k)))"

section \<open>Conditions\<close>

text \<open>\<open>str.partition(sep)\<close>: the parts around the first occurrence, or the text and nothing.\<close>

fun py_partition :: "string \<Rightarrow> string \<Rightarrow> string \<times> string" where
  "py_partition sep [] = ([], [])"
| "py_partition sep (c # cs) =
     (if py_startswith (c # cs) sep then ([], drop (length sep) (c # cs))
      else (let (a, b) = py_partition sep cs in (c # a, b)))"

definition is_quote :: "char \<Rightarrow> bool" where
  "is_quote c \<longleftrightarrow> of_char c \<in> {34::nat, 39}"

definition strip_quotes :: "string \<Rightarrow> string" where
  "strip_quotes s = rev (dropWhile is_quote (rev (dropWhile is_quote s)))"

text \<open>The tails of the patterns after their first group: blanks, the operator, blanks, and an
  operand that is quoted (\<open>quoted_tail\<close>) or whose quotes are optional (\<open>loose_tail\<close>, which gives
  blanks back to the operand where nothing else is left for it).\<close>

definition skip_blanks :: "string \<Rightarrow> string" where
  "skip_blanks s = dropWhile py_isspace s"

definition quoted :: "string \<Rightarrow> (string \<times> string) option" where
  "quoted s =
     (case s of
        [] \<Rightarrow> None
      | q # cs \<Rightarrow>
          (if \<not> is_quote q then None
           else (case dropWhile (\<lambda>c. \<not> is_quote c) cs of
                   [] \<Rightarrow> None
                 | _ # rest \<Rightarrow> Some (takeWhile (\<lambda>c. \<not> is_quote c) cs, rest))))"

definition quoted_tail :: "string \<Rightarrow> string \<Rightarrow> string option" where
  "quoted_tail oper s =
     (let t = skip_blanks s
      in if \<not> py_startswith t oper then None
         else (case quoted (skip_blanks (drop (length oper) t)) of
                 Some (body, rest) \<Rightarrow> if skip_blanks rest = [] then Some body else None
               | None \<Rightarrow> None))"

definition loose_operand :: "string \<Rightarrow> string option" where
  "loose_operand s =
     (let t = (case s of [] \<Rightarrow> [] | c # cs \<Rightarrow> if is_quote c then cs else s);
          body = takeWhile (\<lambda>c. \<not> is_quote c) t
      in if body \<noteq> [] \<and> skip_blanks (drop (length body + 1) t) = [] then Some body else None)"

fun loose_from :: "nat \<Rightarrow> string \<Rightarrow> string option" where
  "loose_from 0 s = loose_operand s"
| "loose_from (Suc n) s =
     (case loose_operand (drop (Suc n) s) of Some b \<Rightarrow> Some b | None \<Rightarrow> loose_from n s)"

definition loose_tail :: "string \<Rightarrow> string \<Rightarrow> string option" where
  "loose_tail oper s =
     (let t = skip_blanks s
      in if \<not> py_startswith t oper then None
         else (let u = drop (length oper) t in loose_from (length (takeWhile py_isspace u)) u))"

text \<open>\<open>(.+?)\<close>: the shortest non-empty prefix without a line break whose tail matches.\<close>

fun lazy_prefix :: "(string \<Rightarrow> string option) \<Rightarrow> string \<Rightarrow> string \<Rightarrow> (string \<times> string) option" where
  "lazy_prefix tail_match pre [] = None"
| "lazy_prefix tail_match pre (c # cs) =
     (if of_char c = (10::nat) then None
      else (case tail_match cs of
              Some b \<Rightarrow> Some (pre @ [c], b)
            | None \<Rightarrow> lazy_prefix tail_match (pre @ [c]) cs))"

definition includes_tail :: "string \<Rightarrow> string option" where
  "includes_tail s =
     (let t = skip_blanks s
      in if \<not> py_startswith t ''.includes'' then None
         else (let u = skip_blanks (drop 9 t)
               in if \<not> py_startswith u ''('' then None
                  else (case quoted (skip_blanks (tl u)) of
                          None \<Rightarrow> None
                        | Some (body, rest) \<Rightarrow>
                            (let v = skip_blanks rest
                             in if py_startswith v '')'' \<and> skip_blanks (tl v) = [] then Some body else None))))"

text \<open>The greedy identifier of the last pattern, from its longest length down.\<close>

fun includes_from :: "nat \<Rightarrow> string \<Rightarrow> (string \<times> string) option" where
  "includes_from 0 s = None"
| "includes_from (Suc n) s =
     (case includes_tail (drop (Suc n) s) of Some b \<Rightarrow> Some (take (Suc n) s, b) | None \<Rightarrow> includes_from n s)"

definition includes_match :: "string \<Rightarrow> (string \<times> string) option" where
  "includes_match s =
     (if s = [] \<or> \<not> name_start (hd s) then None
      else includes_from (length (takeWhile (\<lambda>c. name_start c \<or> py_isdigit c \<or> c = CHR ''.'') s)) s)"

datatype cond_op = Exists_Op | Equals_Op | Not_Equals_Op | Contains_Op

definition parse_condition :: "string \<Rightarrow> (cond_op \<times> string \<times> string) option" where
  "parse_condition when =
     (let text = py_strip when; lower = py_lower text; field = (\<lambda>oper (a, b). (oper, py_strip a, b))
      in if text = [] then None
         else if py_startswith lower ''exists '' then Some (Exists_Op, py_strip (drop 7 text), [])
         else if contains_str '' contains '' lower then
           (let (a, b) = py_partition '' contains '' text
            in Some (Contains_Op, py_strip a, strip_quotes (py_strip b)))
         else (case lazy_prefix (quoted_tail ''==='') [] text of
             Some m \<Rightarrow> Some (field Equals_Op m)
           | None \<Rightarrow> (case lazy_prefix (quoted_tail ''!=='') [] text of
             Some m \<Rightarrow> Some (field Not_Equals_Op m)
           | None \<Rightarrow> (case lazy_prefix (loose_tail ''=='') [] text of
             Some m \<Rightarrow> Some (field Equals_Op m)
           | None \<Rightarrow> (case lazy_prefix (loose_tail ''!='') [] text of
             Some m \<Rightarrow> Some (field Not_Equals_Op m)
           | None \<Rightarrow> map_option (\<lambda>(a, b). (Contains_Op, a, b)) (includes_match text))))))"

definition field_or_key :: "event \<Rightarrow> string \<Rightarrow> json" where
  "field_or_key ev field =
     (if get_field_value ev field = JNull then get_default ev field JNull else get_field_value ev field)"

definition evaluate_condition :: "string \<Rightarrow> event \<Rightarrow> bool" where
  "evaluate_condition when ev =
     (case parse_condition when of
        None \<Rightarrow> False
      | Some (oper, field, operand) \<Rightarrow>
          (let v = field_or_key ev field
           in case oper of
                Exists_Op \<Rightarrow> v \<noteq> JNull \<and> py_str v \<noteq> []
              | Equals_Op \<Rightarrow> py_str v = operand
              | Not_Equals_Op \<Rightarrow> py_str v \<noteq> operand
              | Contains_Op \<Rightarrow> contains_str operand (if truthy v then py_str v else [])))"

section \<open>Rules\<close>

datatype override_policy = Keep_Existing | Force_Override | Error_On_Conflict

definition validate_policy :: "string \<Rightarrow> override_policy result" where
  "validate_policy p =
     (if p = ''KEEP_EXISTING'' then Inr Keep_Existing
      else if p = ''OVERRIDE'' then Inr Force_Override
      else if p = ''ERROR_ON_CONFLICT'' then Inr Error_On_Conflict
      else Inl Enrichment_Error)"

record enrich_warning =
  ew_code :: string
  ew_message :: string
  ew_rule_type :: string
  ew_target :: string

definition rule_types :: "string list" where
  "rule_types = [''static'', ''calculated'', ''lookup'', ''conditional'', ''normalize'']"

definition resolve_static_template :: "enrich_env \<Rightarrow> json \<Rightarrow> json" where
  "resolve_static_template env v =
     (case v of
        JStr s \<Rightarrow> if py_lower (filter (\<lambda>c. c \<noteq> CHR '' '') (py_strip s)) = ''{{now_utc}}'' then JStr (en_now env) else v
      | _ \<Rightarrow> v)"

definition normalize_rule_dict :: "event \<Rightarrow> string \<Rightarrow> event option" where
  "normalize_rule_dict rule default_target =
     (let rule_type = py_lower (py_strip (text_or rule [''type'']));
          named = text_or rule [''target_field'', ''fieldName'', ''field_name''];
          target = py_strip (if named = [] then default_target else named)
      in if rule_type \<notin> set rule_types \<or> target = [] \<or> dict_get rule ''enabled'' = Some (JBool False) then None
         else Some (dict_set ''target_field'' (JStr target) (dict_set ''type'' (JStr rule_type) rule)))"

definition rules_of_entry :: "string \<times> json \<Rightarrow> event list" where
  "rules_of_entry = (\<lambda>(key, v).
     (let key_type = py_lower (py_strip key);
          typed = (\<lambda>d. if key_type \<in> set rule_types \<and> \<not> dict_has d ''type''
                       then dict_set ''type'' (JStr key_type) d else d)
      in case v of
           JObj d \<Rightarrow> if dict_has d ''type'' then (case normalize_rule_dict d key of None \<Rightarrow> [] | Some r \<Rightarrow> [r]) else []
         | JList items \<Rightarrow> List.map_filter (\<lambda>d. normalize_rule_dict (typed d) []) (map obj_of (filter is_obj items))
         | _ \<Rightarrow> []))"

definition computed_rules :: "string \<times> json \<Rightarrow> event list" where
  "computed_rules = (\<lambda>(key, v).
     (case v of
        JObj d \<Rightarrow>
          (case dict_get d ''expression'' of
             Some (JStr e) \<Rightarrow>
               [[(''type'', JStr ''calculated''), (''target_field'', JStr key), (''expression'', JStr e),
                 (''enabled'', JBool True)]]
           | _ \<Rightarrow> [])
      | _ \<Rightarrow> []))"

definition entries_of :: "event \<Rightarrow> string \<Rightarrow> event" where
  "entries_of d k = (case dict_get d k of Some (JObj e) \<Rightarrow> e | _ \<Rightarrow> [])"

definition iter_advanced_rules :: "event \<Rightarrow> event list" where
  "iter_advanced_rules enrichment =
     concat (map rules_of_entry (entries_of enrichment ''__rules'')) @
     concat (map computed_rules (entries_of enrichment ''__computed''))"

definition split_static_fields :: "enrich_env \<Rightarrow> event \<Rightarrow> event" where
  "split_static_fields env enrichment =
     map (\<lambda>(k, v). (k, resolve_static_template env v))
       (filter (\<lambda>(k, v). k \<notin> {''__rules'', ''__computed''} \<and> \<not> (is_obj v \<and> dict_has (obj_of v) ''type'')) enrichment)"

definition should_apply :: "string \<Rightarrow> event \<Rightarrow> override_policy \<Rightarrow> bool result" where
  "should_apply target ev policy =
     (if policy = Force_Override then Inr True
      else if has_field_value ev target then
        (if policy = Error_On_Conflict then Inl Enrichment_Error else Inr False)
      else Inr True)"

text \<open>Every value of an enrichment is JSON, so the test of \<open>_is_json_like\<close> passes.\<close>

definition apply_static_field :: "override_policy \<Rightarrow> string \<times> json \<Rightarrow> event \<Rightarrow> event result" where
  "apply_static_field policy = (\<lambda>(key, v) base.
     (let target = py_strip key
      in if target = [] then Inr base
         else bind_result (should_apply target base policy)
           (\<lambda>ok. Inr (if \<not> ok \<or> \<not> is_valid_field_path target then base
                      else if dotted target then snd (set_field_value base target v)
                      else dict_set target (copy_json_value v) base))))"

fun apply_static_fields :: "override_policy \<Rightarrow> event \<Rightarrow> event \<Rightarrow> event result" where
  "apply_static_fields policy [] base = Inr base"
| "apply_static_fields policy (kv # kvs) base =
     bind_result (apply_static_field policy kv base) (\<lambda>b. apply_static_fields policy kvs b)"

text \<open>An advanced rule changes the event and adds warnings.\<close>

type_synonym enriched = "event \<times> enrich_warning list"

definition warn :: "string \<Rightarrow> string \<Rightarrow> string \<Rightarrow> string \<Rightarrow> enrich_warning" where
  "warn code msg rule_type target =
     \<lparr>ew_code = code, ew_message = msg, ew_rule_type = rule_type, ew_target = target\<rparr>"

definition rule_target :: "event \<Rightarrow> string" where
  "rule_target rule = py_str (get_default rule ''target_field'' JNull)"

definition apply_calculated :: "enrich_env \<Rightarrow> event \<Rightarrow> event \<Rightarrow> override_policy \<Rightarrow> enriched result" where
  "apply_calculated env ev rule policy =
     (let target = rule_target rule
      in bind_result (should_apply target ev policy)
        (\<lambda>ok. Inr (if \<not> ok then (ev, [])
                   else (case en_calc env (text_or rule [''expression'']) ev of
                           Inl msg \<Rightarrow> (ev, [warn ''calculated_expression_failed'' msg ''calculated'' target])
                         | Inr v \<Rightarrow>
                             (let (done, ev') = set_field_value ev target v
                              in (ev', if done then []
                                       else [warn ''invalid_field_path'' (''Could not write calculated field '' @ py_repr_str target)
                                               ''calculated'' target])))))) "

definition apply_lookup :: "event \<Rightarrow> event \<Rightarrow> override_policy \<Rightarrow> enriched result" where
  "apply_lookup ev rule policy =
     (let target = rule_target rule;
          table = text_or rule [''lookup_table'', ''lookupTable''];
          key_field = py_strip (text_or rule [''key_field'', ''lookup_key_field'', ''lookupKeyField'']);
          w = (\<lambda>code msg. Inr (ev, [warn code msg ''lookup'' target]))
      in if table = [] \<or> key_field = [] then
           w ''invalid_rule_definition'' ''Lookup rule requires lookup_table and key_field''
         else bind_result (should_apply target ev policy)
           (\<lambda>ok. if \<not> ok then Inr (ev, [])
                 else (let raw_key = field_or_key ev key_field
                       in if raw_key = JNull \<or> py_strip (py_str raw_key) = [] then
                            w ''lookup_key_missing'' (''Lookup key field '' @ py_repr_str key_field @ '' is missing on event'')
                          else (case lookup_value table (py_str raw_key) of
                                  None \<Rightarrow> w ''lookup_miss''
                                    (''No lookup value for key '' @ py_repr raw_key @ '' in table '' @ py_repr_str table)
                                | Some v \<Rightarrow> Inr (snd (set_field_value ev target (JStr v)), [])))))"

text \<open>The loop over the conditions: the value of the first that holds, and the warnings of those
  before it that do not parse.\<close>

fun run_conditions :: "event \<Rightarrow> string \<Rightarrow> json list \<Rightarrow> json option \<times> enrich_warning list" where
  "run_conditions ev target [] = (None, [])"
| "run_conditions ev target (JObj item # items) =
     (let when = text_or item [''when'']
      in if when \<noteq> [] \<and> evaluate_condition when ev then (Some (get_default item ''then'' (JStr [])), [])
         else (let (r, ws) = run_conditions ev target items
               in (r, (if py_strip when \<noteq> [] \<and> parse_condition when = None
                       then [warn ''conditional_invalid'' (''Unrecognized condition syntax: '' @ py_repr_str when)
                               ''conditional'' target] else []) @ ws)))"
| "run_conditions ev target (_ # items) = run_conditions ev target items"

definition apply_conditional :: "event \<Rightarrow> event \<Rightarrow> override_policy \<Rightarrow> enriched result" where
  "apply_conditional ev rule policy =
     (let target = rule_target rule
      in bind_result (should_apply target ev policy)
        (\<lambda>ok. Inr (if \<not> ok then (ev, [])
           else (case dict_get rule ''conditions'' of
                   Some (JList conditions) \<Rightarrow>
                     (let dflt = (case first_truthy rule [''default'', ''conditionalDefault''] of None \<Rightarrow> JStr [] | Some v \<Rightarrow> v);
                          (r, ws) = run_conditions ev target conditions;
                          v = (case r of None \<Rightarrow> dflt | Some t \<Rightarrow> t)
                      in (snd (set_field_value ev target v),
                          ws @ (if r = None \<and> py_strip (py_str v) = []
                                then [warn ''conditional_invalid'' ''No condition matched and default is empty'' ''conditional'' target]
                                else [])))
                 | _ \<Rightarrow> (ev, [warn ''conditional_invalid'' ''Conditional rule requires conditions list'' ''conditional'' target])))))"

definition normalize_value :: "enrich_env \<Rightarrow> json \<Rightarrow> string \<Rightarrow> string + string" where
  "normalize_value env raw fmt =
     (let text = (if raw = JNull then [] else py_str raw); key = py_lower (py_strip fmt)
      in if key = ''lowercase'' then Inr (en_lower env text)
         else if key = ''uppercase'' then Inr (en_upper env text)
         else if key = ''trim'' then Inr (py_strip text)
         else if key \<in> {''iso8601'', ''iso_8601''} then en_iso env raw
         else Inl (''Unsupported normalize format '' @ py_repr_str fmt))"

definition apply_normalize :: "enrich_env \<Rightarrow> event \<Rightarrow> event \<Rightarrow> override_policy \<Rightarrow> enriched result" where
  "apply_normalize env ev rule policy =
     (let target = rule_target rule;
          source = py_strip (text_or rule [''source_field'', ''normalizeSourceField'', ''sourceField'']);
          fmt = (case first_truthy rule [''format'', ''normalizeFormat''] of None \<Rightarrow> ''iso8601'' | Some v \<Rightarrow> py_str v)
      in if source = [] then
           Inr (ev, [warn ''invalid_rule_definition'' ''Normalize rule requires source_field'' ''normalize'' target])
         else bind_result (should_apply target ev policy)
           (\<lambda>ok. Inr (if \<not> ok then (ev, [])
                      else (case normalize_value env (field_or_key ev source) fmt of
                              Inl msg \<Rightarrow> (ev, [warn ''normalize_failed'' msg ''normalize'' target])
                            | Inr t \<Rightarrow> (snd (set_field_value ev target (JStr t)), [])))))"

definition apply_advanced_rule :: "enrich_env \<Rightarrow> event \<Rightarrow> event \<Rightarrow> override_policy \<Rightarrow> enriched result" where
  "apply_advanced_rule env ev rule policy =
     (let rule_type = text_or rule [''type'']
      in if rule_type = ''calculated'' then apply_calculated env ev rule policy
         else if rule_type = ''lookup'' then apply_lookup ev rule policy
         else if rule_type = ''conditional'' then apply_conditional ev rule policy
         else if rule_type = ''normalize'' then apply_normalize env ev rule policy
         else Inr (ev, [warn ''invalid_rule_definition'' (''Unsupported rule type '' @ py_repr_str rule_type)
                          rule_type (text_or rule [''target_field''])]))"

fun apply_advanced_rules ::
    "enrich_env \<Rightarrow> override_policy \<Rightarrow> event list \<Rightarrow> event \<Rightarrow> enrich_warning list \<Rightarrow> enriched result" where
  "apply_advanced_rules env policy [] ev ws = Inr (ev, ws)"
| "apply_advanced_rules env policy (r # rs) ev ws =
     bind_result (apply_advanced_rule env ev r policy)
       (\<lambda>(ev', ws'). apply_advanced_rules env policy rs ev' (ws @ ws'))"

section \<open>Execution\<close>

definition execute_enrichment :: "enrich_env \<Rightarrow> string \<Rightarrow> event \<Rightarrow> event \<Rightarrow> enriched result" where
  "execute_enrichment env policy_text enrichment ev =
     bind_result (validate_policy policy_text)
       (\<lambda>policy.
          if enrichment = [] then Inr (sanitize_delivery_event (copy_event_dict ev), [])
          else bind_result (apply_static_fields policy (split_static_fields env enrichment) (copy_event_dict ev))
            (\<lambda>base. bind_result (apply_advanced_rules env policy (iter_advanced_rules enrichment) base [])
               (\<lambda>(ev', ws). Inr (sanitize_delivery_event ev', ws))))"

fun dedupe_warnings :: "(string \<times> string \<times> string) list \<Rightarrow> enrich_warning list \<Rightarrow> enrich_warning list" where
  "dedupe_warnings seen [] = []"
| "dedupe_warnings seen (w # ws) =
     (let key = (ew_code w, ew_target w, ew_message w)
      in if key \<in> set seen then dedupe_warnings seen ws else w # dedupe_warnings (key # seen) ws)"

definition execute_enrichments_batch :: "enrich_env \<Rightarrow> string \<Rightarrow> event \<Rightarrow> event list \<Rightarrow> (event list \<times> enrich_warning list) result" where
  "execute_enrichments_batch env policy_text enrichment events =
     (if events = [] then Inr ([], [])
      else bind_result (map_results (execute_enrichment env policy_text enrichment) events)
        (\<lambda>rs. Inr (map fst rs, dedupe_warnings [] (concat (map snd rs)))))"

section \<open>Fields and their paths\<close>

abbreviation parts :: "string \<Rightarrow> string list" where
  "parts t \<equiv> split_on (CHR ''.'') (py_strip t)"

lemma split_on_nonempty [simp]: "split_on c s \<noteq> []"
  by (induction s) (auto split: list.splits)

lemma split_on_absent: "c \<notin> set s \<Longrightarrow> split_on c s = [s]"
  by (induction s) auto

lemma value_at_scalar: "ps \<noteq> [] \<Longrightarrow> \<not> is_obj v \<Longrightarrow> value_at (map Key ps) v = None"
  by (cases ps; cases v) auto

lemma has_parts_value: "ps \<noteq> [] \<Longrightarrow> has_parts ps v \<longleftrightarrow> value_at (map Key ps) v \<noteq> None"
  by (induction ps v rule: has_parts.induct) (auto simp: value_at_scalar split: option.splits)

lemma has_field_value_at:
  "py_strip t \<noteq> [] \<Longrightarrow> has_field_value ev t \<longleftrightarrow> value_at (map Key (parts t)) (JObj ev) \<noteq> None"
  by (auto simp: has_field_value_def has_parts_value split_on_absent Let_def split: option.splits)

text \<open>A write at a path that holds nothing keeps every value the path does not run through.\<close>

lemma set_parts_keeps:
  "value_at (map Key qs) (JObj ev) = Some v \<Longrightarrow> qs \<noteq> [] \<Longrightarrow> ts \<noteq> [] \<Longrightarrow>
   value_at (map Key ts) (JObj ev) = None \<Longrightarrow> \<not> strict_prefix qs ts \<Longrightarrow>
   value_at (map Key qs) (JObj (set_parts ts w ev)) = Some v"
proof (induction ts w ev arbitrary: qs rule: set_parts.induct)
  case (2 p w ev)
  then show ?case by (cases qs) (auto simp: dict_simps split: option.splits)
next
  case (3 p t ts w ev)
  obtain q qr where qs: "qs = q # qr" using 3 by (cases qs) auto
  show ?case
  proof (cases "q = p")
    case False
    with 3 qs show ?thesis by (auto simp: dict_simps Let_def)
  next
    case True
    have "qr \<noteq> []" using 3 qs True by auto
    then obtain d where d: "dict_get ev p = Some (JObj d)" "value_at (map Key qr) (JObj d) = Some v"
      using 3 qs True by (cases qr; cases "dict_get ev p"; cases "the (dict_get ev p)") auto
    with 3 qs True \<open>qr \<noteq> []\<close> show ?thesis by (simp add: dict_simps)
  qed
qed simp

lemma set_field_keeps:
  assumes "value_at (map Key qs) (JObj ev) = Some v" "qs \<noteq> []"
    and "\<not> has_field_value ev t" "\<not> strict_prefix qs (parts t)"
  shows "value_at (map Key qs) (JObj (snd (set_field_value ev t w))) = Some v"
  using assms by (auto simp: set_field_value_def Let_def has_field_value_at intro!: set_parts_keeps)

section \<open>What enrichment keeps\<close>

text \<open>A value an event has, and no target of the configuration below it.\<close>

definition kept_at :: "string list \<Rightarrow> json \<Rightarrow> event \<Rightarrow> bool" where
  "kept_at qs v ev \<longleftrightarrow> qs \<noteq> [] \<and> value_at (map Key qs) (JObj ev) = Some v"

lemma kept_set_field:
  "kept_at qs v ev \<Longrightarrow> should_apply t ev Keep_Existing = Inr True \<Longrightarrow> \<not> strict_prefix qs (parts t) \<Longrightarrow>
   kept_at qs v (snd (set_field_value ev t w))"
  by (auto simp: kept_at_def should_apply_def set_field_keeps split: if_splits)

lemma static_write_is_set_field:
  "is_valid_field_path t \<Longrightarrow> py_strip t = t \<Longrightarrow> \<not> dotted t \<Longrightarrow> dict_set t v ev = snd (set_field_value ev t v)"
  by (simp add: set_field_value_def split_on_absent is_valid_field_path_def Let_def)

lemma kept_static_field:
  assumes "apply_static_field Keep_Existing (t, w) ev = Inr ev'" "kept_at qs v ev" "\<not> strict_prefix qs (parts t)"
  shows "kept_at qs v ev'"
proof -
  let ?t = "py_strip t"
  consider "ev' = ev" | "should_apply ?t ev Keep_Existing = Inr True" "ev' = snd (set_field_value ev ?t w)"
  proof (cases "?t = [] \<or> should_apply ?t ev Keep_Existing \<noteq> Inr True \<or> \<not> is_valid_field_path ?t")
    case True
    then have "ev' = ev"
      using assms(1) by (cases "should_apply ?t ev Keep_Existing") (auto simp: apply_static_field_def Let_def split: if_splits)
    then show thesis by (rule that(1))
  next
    case False
    then have "ev' = snd (set_field_value ev ?t w)"
      using assms(1) static_write_is_set_field[of ?t w ev]
      by (cases "dotted ?t") (simp_all add: apply_static_field_def Let_def)
    with False show thesis by (intro that(2)) simp_all
  qed
  then show ?thesis
    using assms(2) kept_set_field[OF assms(2), of ?t w] assms(3) by cases simp_all
qed

lemma kept_static_fields:
  "apply_static_fields Keep_Existing kvs ev = Inr ev' \<Longrightarrow> kept_at qs v ev \<Longrightarrow>
   list_all (\<lambda>t. \<not> strict_prefix qs (parts t)) (map fst kvs) \<Longrightarrow> kept_at qs v ev'"
proof (induction kvs arbitrary: ev)
  case (Cons kv kvs)
  obtain t w where kv: "kv = (t, w)" by (cases kv)
  obtain ev1 where step: "apply_static_field Keep_Existing (t, w) ev = Inr ev1"
    "apply_static_fields Keep_Existing kvs ev1 = Inr ev'"
    using Cons.prems(1) kv by (auto simp: bind_result_Inr)
  have "kept_at qs v ev1"
    using Cons.prems(2,3) kv by (intro kept_static_field[OF step(1)]) auto
  with step(2) Cons.prems(3) show ?case by (intro Cons.IH) auto
qed simp

text \<open>An advanced rule leaves the event, or writes its target where the policy lets it.\<close>

lemma advanced_rule_cases:
  assumes "apply_advanced_rule env ev r policy = Inr (ev', ws)"
  shows "ev' = ev \<or>
    (should_apply (rule_target r) ev policy = Inr True \<and> (\<exists>w. ev' = snd (set_field_value ev (rule_target r) w)))"
proof -
  have "apply_calculated env ev r policy = Inr (ev', ws) \<Longrightarrow> ?thesis"
    by (cases "en_calc env (text_or r [''expression'']) ev")
      (auto simp: apply_calculated_def Let_def bind_result_Inr case_prod_beta split: if_splits)
  moreover have "apply_lookup ev r policy = Inr (ev', ws) \<Longrightarrow> ?thesis"
    by (auto simp: apply_lookup_def Let_def bind_result_Inr split: if_splits option.splits)
  moreover have "apply_conditional ev r policy = Inr (ev', ws) \<Longrightarrow> ?thesis"
    by (auto simp: apply_conditional_def Let_def bind_result_Inr split: if_splits option.splits json.splits prod.splits)
  moreover have "apply_normalize env ev r policy = Inr (ev', ws) \<Longrightarrow> ?thesis"
    by (auto simp: apply_normalize_def Let_def bind_result_Inr split: if_splits sum.splits)
  ultimately show ?thesis
    using assms by (auto simp: apply_advanced_rule_def Let_def split: if_splits)
qed

lemma kept_advanced_rules:
  "apply_advanced_rules env Keep_Existing rs ev ws = Inr (ev', ws') \<Longrightarrow> kept_at qs v ev \<Longrightarrow>
   list_all (\<lambda>t. \<not> strict_prefix qs (parts t)) (map rule_target rs) \<Longrightarrow> kept_at qs v ev'"
proof (induction rs arbitrary: ev ws)
  case (Cons r rs)
  then obtain ev1 ws1 where r: "apply_advanced_rule env ev r Keep_Existing = Inr (ev1, ws1)"
    "apply_advanced_rules env Keep_Existing rs ev1 (ws @ ws1) = Inr (ev', ws')"
    by (auto simp: bind_result_Inr)
  have "kept_at qs v ev1"
    using advanced_rule_cases[OF r(1)] Cons.prems by (auto intro: kept_set_field)
  with r(2) Cons.prems(3) show ?case by (intro Cons.IH[of ev1 "ws @ ws1"]) auto
qed simp

section \<open>What leaves the enrichment\<close>

fun clean_doc :: "json \<Rightarrow> bool" where
  "clean_doc (JList xs) = (\<forall>x \<in> set xs. clean_doc x)"
| "clean_doc (JObj d) = (\<forall>kv \<in> set d. \<not> py_startswith (fst kv) ''__'' \<and> clean_doc (snd kv))"
| "clean_doc _ = True"

lemma clean_strip: "clean_doc (strip_internal_nested v)"
  by (induction v) auto

lemma sanitize_clean: "clean_doc (JObj (sanitize_delivery_event ev))"
  using clean_strip[of "JObj (filter (\<lambda>(k, v). \<not> (k \<in> set reserved_event_keys \<or> py_startswith k ''__'')) ev)"]
  by (simp add: sanitize_delivery_event_def)

lemma filter_key_get:
  "dict_get (filter (\<lambda>(k, v). P k) d) k = (if P k then dict_get d k else None)"
  by (induction d) auto

lemma strip_get:
  "dict_get (filter (\<lambda>(k, v). \<not> py_startswith k ''__'') (map (map_prod id strip_internal_nested) d)) k =
     (if py_startswith k ''__'' then None else map_option strip_internal_nested (dict_get d k))"
  by (induction d) auto

lemma value_at_strip:
  "list_all (\<lambda>k. \<not> py_startswith k ''__'') qs \<Longrightarrow> value_at (map Key qs) v = Some u \<Longrightarrow>
   value_at (map Key qs) (strip_internal_nested v) = Some (strip_internal_nested u)"
proof (induction qs arbitrary: v)
  case (Cons q qs)
  then obtain d where v: "v = JObj d" by (cases v) auto
  with Cons show ?case by (auto simp: strip_get id_def[symmetric] split: option.splits)
qed simp

lemma value_at_sanitize:
  assumes "list_all (\<lambda>k. \<not> py_startswith k ''__'') qs" "kept_at qs v ev"
  shows "value_at (map Key qs) (JObj (sanitize_delivery_event ev)) = Some (strip_internal_nested v)"
proof -
  let ?d = "filter (\<lambda>(k, v). \<not> (k \<in> set reserved_event_keys \<or> py_startswith k ''__'')) ev"
  have pre: "py_startswith k ''__''" if "k \<in> set reserved_event_keys" for k
    using that by (auto simp: reserved_event_keys_def py_startswith_def)
  obtain q qr where qs: "qs = q # qr" using assms(2) by (cases qs) (auto simp: kept_at_def)
  have "value_at (map Key qs) (JObj ?d) = Some v"
    using assms qs pre by (auto simp: kept_at_def filter_key_get)
  then have "value_at (map Key qs) (strip_internal_nested (JObj ?d)) = Some (strip_internal_nested v)"
    by (rule value_at_strip[OF assms(1)])
  then show ?thesis by (simp add: sanitize_delivery_event_def)
qed

definition enrich_targets :: "enrich_env \<Rightarrow> event \<Rightarrow> string list" where
  "enrich_targets env enrichment =
     map fst (split_static_fields env enrichment) @ map rule_target (iter_advanced_rules enrichment)"

section \<open>Totality\<close>

lemma should_apply_total: "policy \<noteq> Error_On_Conflict \<Longrightarrow> \<exists>b. should_apply t ev policy = Inr b"
  by (cases policy) (auto simp: should_apply_def)

lemma bind_total: "\<exists>a. r = Inr a \<Longrightarrow> (\<And>a. r = Inr a \<Longrightarrow> \<exists>b. f a = Inr b) \<Longrightarrow> \<exists>b. bind_result r f = Inr b"
  by auto

lemma static_fields_total:
  "policy \<noteq> Error_On_Conflict \<Longrightarrow> \<exists>b. apply_static_fields policy kvs ev = Inr b"
proof (induction kvs arbitrary: ev)
  case (Cons kv kvs)
  have "\<exists>b. apply_static_field policy kv ev = Inr b"
    using should_apply_total[OF Cons.prems, of "py_strip (fst kv)" ev]
    by (cases kv) (auto simp: apply_static_field_def Let_def)
  then show ?case using Cons by auto
qed simp

lemma advanced_rule_total:
  assumes "policy \<noteq> Error_On_Conflict"
  shows "\<exists>r. apply_advanced_rule env ev rule policy = Inr r"
proof -
  obtain b where b: "should_apply (rule_target rule) ev policy = Inr b"
    using should_apply_total[OF assms] by blast
  have "\<exists>r. apply_lookup ev rule policy = Inr r"
    using b by (auto simp: apply_lookup_def Let_def split: option.split)
  moreover have "\<exists>r. apply_normalize env ev rule policy = Inr r"
    using b by (auto simp: apply_normalize_def Let_def)
  moreover have "\<exists>r. apply_calculated env ev rule policy = Inr r" "\<exists>r. apply_conditional ev rule policy = Inr r"
    using b by (simp_all add: apply_calculated_def apply_conditional_def Let_def)
  ultimately show ?thesis by (simp add: apply_advanced_rule_def Let_def)
qed

lemma advanced_rules_total:
  "policy \<noteq> Error_On_Conflict \<Longrightarrow> \<exists>r. apply_advanced_rules env policy rs ev ws = Inr r"
proof (induction rs arbitrary: ev ws)
  case (Cons r rs)
  obtain ev1 ws1 where "apply_advanced_rule env ev r policy = Inr (ev1, ws1)"
    using advanced_rule_total[OF Cons.prems, of env ev r] by auto
  then show ?case using Cons.IH[OF Cons.prems, of ev1 "ws @ ws1"] by simp
qed simp

lemma execute_enrichment_total:
  assumes "policy \<in> {''KEEP_EXISTING'', ''OVERRIDE''}"
  shows "\<exists>out ws. execute_enrichment env policy enrichment ev = Inr (out, ws) \<and> clean_doc (JObj out)"
proof -
  obtain p where p: "validate_policy policy = Inr p" "p \<noteq> Error_On_Conflict"
    using assms by (auto simp: validate_policy_def)
  show ?thesis
  proof (cases "enrichment = []")
    case True
    with p show ?thesis by (simp add: execute_enrichment_def sanitize_clean del: clean_doc.simps)
  next
    case False
    obtain base where base: "apply_static_fields p (split_static_fields env enrichment) ev = Inr base"
      using static_fields_total[OF p(2)] by blast
    obtain ev' ws where "apply_advanced_rules env p (iter_advanced_rules enrichment) base [] = Inr (ev', ws)"
      using advanced_rules_total[OF p(2), of env "iter_advanced_rules enrichment" base "[]"] by auto
    with False p base show ?thesis by (simp add: execute_enrichment_def sanitize_clean del: clean_doc.simps)
  qed
qed

section \<open>Properties\<close>

definition enrich_sample_env :: enrich_env where
  "enrich_sample_env =
     \<lparr>en_now = ''2024-01-01T00:00:00Z'', en_calc = (\<lambda>_ _. Inl ''no evaluator''), en_iso = (\<lambda>_. Inl ''no clock''),
      en_lower = py_lower, en_upper = py_upper\<rparr>"

definition enrich_sample_config :: event where
  "enrich_sample_config =
     [(''meta.site'', JStr ''seoul''), (''seen'', JStr ''{{ now_utc }}''),
      (''__rules'', JObj [(''lookup'', JList [JObj [(''target_field'', JStr ''level''), (''lookup_table'', JStr ''severity-labels''),
         (''key_field'', JStr ''sev'')]])])]"

definition enrich_sample_event :: event where
  "enrich_sample_event = [(''seen'', JStr ''t0''), (''sev'', JInt 3), (''meta'', JObj [(''site'', JStr ''busan''), (''__raw'', JInt 1)])]"

text \<open>With \<open>KEEP_EXISTING\<close> no field of an event is lost or changed: a value at any path of keys
  is in the enriched event, unless the configuration writes below it (or a key of the path is an
  internal one, with two leading underscores).\<close>

theorem keep_existing_preserves:
  assumes "execute_enrichment env ''KEEP_EXISTING'' enrichment ev = Inr (out, ws)"
    and "qs \<noteq> []" "value_at (map Key qs) (JObj ev) = Some v"
    and "list_all (\<lambda>k. \<not> py_startswith k ''__'') qs"
    and "list_all (\<lambda>t. \<not> strict_prefix qs (parts t)) (enrich_targets env enrichment)"
  shows "value_at (map Key qs) (JObj out) = Some (strip_internal_nested v)"
proof -
  have policy: "validate_policy ''KEEP_EXISTING'' = Inr Keep_Existing" by (simp add: validate_policy_def)
  have kept: "kept_at qs v ev" using assms(2,3) by (simp add: kept_at_def)
  obtain ev' where out: "out = sanitize_delivery_event ev'" "kept_at qs v ev'"
  proof (cases "enrichment = []")
    case True
    with assms(1) policy have "out = sanitize_delivery_event ev" by (simp add: execute_enrichment_def)
    then show thesis using kept by (rule that)
  next
    case False
    with assms(1) policy obtain base ev' where steps:
      "apply_static_fields Keep_Existing (split_static_fields env enrichment) ev = Inr base"
      "apply_advanced_rules env Keep_Existing (iter_advanced_rules enrichment) base [] = Inr (ev', ws)"
      "out = sanitize_delivery_event ev'"
      by (auto simp: execute_enrichment_def bind_result_Inr)
    have "kept_at qs v base"
      using assms(5) by (intro kept_static_fields[OF steps(1) kept]) (simp add: enrich_targets_def)
    then have "kept_at qs v ev'"
      using assms(5) by (intro kept_advanced_rules[OF steps(2)]) (simp_all add: enrich_targets_def)
    with steps(3) show thesis by (rule that)
  qed
  then show ?thesis using value_at_sanitize[OF assms(4)] by simp
qed

theorem keep_existing_preserves_witness:
  "value_at [Key ''meta'', Key ''site'']
     (JObj [(''seen'', JStr ''t0''), (''sev'', JInt 3), (''meta'', JObj [(''site'', JStr ''busan'')]), (''level'', JStr ''high'')]) =
   Some (JStr ''busan'')"
proof -
  let ?out = "[(''seen'', JStr ''t0''), (''sev'', JInt 3), (''meta'', JObj [(''site'', JStr ''busan'')]), (''level'', JStr ''high'')]"
  have run: "execute_enrichment enrich_sample_env ''KEEP_EXISTING'' enrich_sample_config enrich_sample_event = Inr (?out, [])"
    by code_simp
  have free: "list_all (\<lambda>t. \<not> strict_prefix [''meta'', ''site''] (parts t)) (enrich_targets enrich_sample_env enrich_sample_config)"
    by code_simp
  have "value_at (map Key [''meta'', ''site'']) (JObj ?out) = Some (strip_internal_nested (JStr ''busan''))"
    by (rule keep_existing_preserves[OF run _ _ _ free]) (simp_all add: enrich_sample_event_def py_startswith_def)
  then show ?thesis by simp
qed

text \<open>The exception is real: a target below a value that is not an object replaces it, under
  \<open>KEEP_EXISTING\<close> too. The text of \<open>metadata\<close> is lost.\<close>

theorem keep_existing_replaces_parent:
  "execute_enrichment env ''KEEP_EXISTING'' [(''metadata.severity'', JStr ''high'')] [(''metadata'', JStr x)] =
   Inr ([(''metadata'', JObj [(''severity'', JStr ''high'')])], [])"
proof -
  have p: "py_strip ''metadata.severity'' = ''metadata.severity''" "is_valid_field_path ''metadata.severity''"
    "split_on (CHR ''.'') ''metadata.severity'' = [''metadata'', ''severity'']"
    "resolve_static_template env (JStr ''high'') = JStr ''high''"
    by (code_simp, code_simp, code_simp, simp add: resolve_static_template_def, code_simp)
  show ?thesis
    by (simp add: execute_enrichment_def validate_policy_def split_static_fields_def apply_static_field_def p
        should_apply_def has_field_value_def set_field_value_def iter_advanced_rules_def entries_of_def
        sanitize_delivery_event_def reserved_event_keys_def py_startswith_def)
qed



text \<open>A condition with \<open>CONTAINS\<close> in capitals holds for every event: the test looks for the
  operator in the lower-cased text, the split in the text as it is, and then both operands are lost.\<close>

theorem uppercase_contains_always_holds:
  "evaluate_condition ''name CONTAINS bad'' [(''name'', JStr x)]"
proof -
  have "parse_condition ''name CONTAINS bad'' = Some (Contains_Op, ''name CONTAINS bad'', [])" by code_simp
  moreover have "py_strip ''name CONTAINS bad'' = ''name CONTAINS bad''" by code_simp
  ultimately show ?thesis
    by (simp add: evaluate_condition_def field_or_key_def get_field_value_def get_default_def)
qed

end
