(* ===== verification/Route_Pipeline.thy ===== *)
theory Route_Pipeline
  imports Enrichment Route_Protection Fan_Out
begin

text \<open>
  The processing of a batch by the routes of a stream: \<open>app/runners/route_transform_config.py\<close>,
  \<open>route_context.py\<close>, \<open>route_context_builder.py\<close> and \<open>route_stage.py\<close>. Every route runs its
  transform (mapping and enrichment, shared through the cache of the batch), then protection,
  classification, policy and delivery, which are the stages of the other theories.

  The state holds what the routes share: the two caches of the batch, the vault, the quarantine
  table and the state of the run. A transform or a protection that raises ends the pipeline. Left
  out: timelines and durations, the log entries of the stages before delivery, and the fields of
  the route context that no stage reads (name, type, formatter, rate limit).
\<close>

section \<open>Transform configuration\<close>

datatype transform_source = Route_Row | Stream_Row

record transform_config =
  tc_mappings :: event
  tc_enrichment :: event
  tc_policy :: string
  tc_mapping_source :: transform_source
  tc_enrichment_source :: transform_source

definition fallback_used :: "transform_config \<Rightarrow> bool" where
  "fallback_used c \<longleftrightarrow> tc_mapping_source c = Stream_Row \<or> tc_enrichment_source c = Stream_Row"

primrec sort_json :: "json \<Rightarrow> json" where
  "sort_json JNull = JNull"
| "sort_json (JBool b) = JBool b"
| "sort_json (JInt i) = JInt i"
| "sort_json (JFloat r) = JFloat r"
| "sort_json (JStr s) = JStr s"
| "sort_json (JList xs) = JList (map sort_json xs)"
| "sort_json (JObj kvs) = JObj (sort_key fst (map (map_prod id sort_json) kvs))"

definition transform_config_cache_key :: "transform_config \<Rightarrow> string" where
  "transform_config_cache_key c =
     json_text_with json_ascii_quote (sort_json (JObj
       [(''field_mappings'', JObj (tc_mappings c)), (''enrichment'', JObj (tc_enrichment c)),
        (''override_policy'', JStr (tc_policy c))]))"

text \<open>The rows: a mapping row is its \<open>field_mappings_json\<close>, an enrichment row its
  \<open>enrichment_json\<close> and its policy (empty or absent where the column is not set).\<close>

type_synonym mapping_row = event
type_synonym enrichment_row = "event \<times> string option"

definition resolve_route_transform_config ::
    "mapping_row option \<Rightarrow> enrichment_row option \<Rightarrow> mapping_row option \<Rightarrow> enrichment_row option \<Rightarrow>
     event \<Rightarrow> event \<Rightarrow> string \<Rightarrow> transform_config" where
  "resolve_route_transform_config route_map route_enr stream_map stream_enr stream_fm stream_ej stream_policy =
     (let msrc = (if route_map \<noteq> None then Route_Row else Stream_Row);
          esrc = (if route_enr \<noteq> None then Route_Row else Stream_Row);
          map_row = (if route_map \<noteq> None then route_map else stream_map);
          enr_row = (if route_enr \<noteq> None then route_enr else stream_enr);
          fm0 = (case map_row of None \<Rightarrow> [] | Some m \<Rightarrow> m);
          fm = (if msrc = Stream_Row \<and> fm0 = [] then stream_fm else fm0);
          ej0 = (case enr_row of None \<Rightarrow> [] | Some (e, _) \<Rightarrow> e);
          ej = (if esrc = Stream_Row \<and> ej0 = [] then stream_ej else ej0);
          policy = (case enr_row of
                      None \<Rightarrow> stream_policy
                    | Some (_, p) \<Rightarrow> (case p of None \<Rightarrow> stream_policy | Some t \<Rightarrow> if t = [] then stream_policy else t))
      in \<lparr>tc_mappings = fm, tc_enrichment = ej, tc_policy = policy,
          tc_mapping_source = msrc, tc_enrichment_source = esrc\<rparr>)"

section \<open>Contexts\<close>

record route_row =
  rt_route :: route
  rt_mapping :: "mapping_row option"
  rt_enrichment :: "enrichment_row option"
  rt_protection :: "prot_rule list"
  rt_classification :: "class_rule list"
  rt_policy :: "policy_rule list"

record stream_runtime =
  sm_id :: int
  sm_connector :: "int option"
  sm_source_type :: string
  sm_source_config :: event
  sm_config :: event
  sm_array_path :: "string option"
  sm_root_path :: "string option"
  sm_rate_limit :: "rate_cfg option"
  sm_field_mappings :: event
  sm_enrichment :: event
  sm_override_policy :: string
  sm_mapping_row :: "mapping_row option"
  sm_enrichment_row :: "enrichment_row option"
  sm_protection :: "prot_rule list"
  sm_classification :: "class_rule list"
  sm_policy :: "policy_rule list"
  sm_overrides :: "route_override list"
  sm_governance :: "governance_rule list"
  sm_routes :: "route_row list"

record route_ctx =
  rx_route :: int
  rx_stream :: int
  rx_destination :: int
  rx_enabled :: bool
  rx_transform :: "transform_config option"
  rx_protection_rules :: "prot_rule list"
  rx_policy_rules :: "policy_rule list"
  rx_classification :: class_config

definition route_context_of :: "stream_runtime \<Rightarrow> route_row \<Rightarrow> route_ctx" where
  "route_context_of sm rt =
     (let r = rt_route rt
      in \<lparr>rx_route = r_id r, rx_stream = sm_id sm,
          rx_destination = (case d_id (r_destination r) of None \<Rightarrow> 0 | Some d \<Rightarrow> d),
          rx_enabled = r_enabled r,
          rx_transform = Some (resolve_route_transform_config (rt_mapping rt) (rt_enrichment rt)
              (sm_mapping_row sm) (sm_enrichment_row sm) (sm_field_mappings sm) (sm_enrichment sm)
              (if sm_override_policy sm = [] then ''KEEP_EXISTING'' else sm_override_policy sm)),
          rx_protection_rules = rt_protection rt, rx_policy_rules = rt_policy rt,
          rx_classification = resolve_route_classification_config (r_id r) (rt_classification rt)
              (sm_classification sm) (sm_overrides sm)\<rparr>)"

definition build_route_runtime_contexts :: "stream_runtime \<Rightarrow> route_ctx list \<times> nat" where
  "build_route_runtime_contexts sm =
     (let ctxs = map (route_context_of sm) (sm_routes sm)
      in (ctxs, length (filter (\<lambda>c. case rx_transform c of None \<Rightarrow> False | Some t \<Rightarrow> fallback_used t) ctxs)))"

text \<open>The shared batch: the extracted events, the findings of the sensitive detection (none
  without a context) and the result of the drift policy; and the stream rules that the stages
  read from its shared data.\<close>

record shared_batch =
  sb_events :: "json list"
  sb_findings :: "json list option"
  sb_drift :: "drift_result option"
  sb_protection :: "prot_rule list"
  sb_policy :: "policy_rule list"
  sb_overrides :: "route_override list"
  sb_governance :: "governance_rule list"

definition ephemeral_auto_protect_rules :: "shared_batch \<Rightarrow> prot_rule list" where
  "ephemeral_auto_protect_rules sb = (case sb_drift sb of None \<Rightarrow> [] | Some d \<Rightarrow> dr_ephemeral d)"

definition build_shared_batch_context ::
    "stream_runtime \<Rightarrow> json list \<Rightarrow> json list option \<Rightarrow> drift_result option \<Rightarrow> shared_batch" where
  "build_shared_batch_context sm events findings drift =
     \<lparr>sb_events = events, sb_findings = findings, sb_drift = drift, sb_protection = sm_protection sm,
      sb_policy = sm_policy sm, sb_overrides = sm_overrides sm, sb_governance = sm_governance sm\<rparr>"

section \<open>The environment and the state of the pipeline\<close>

text \<open>\<open>pn_has_db\<close>: a session was handed to \<open>run\<close>; without one the protection, the policy stage and
  the quarantine get \<open>None\<close>. \<open>pn_detect\<close> is the sensitive detection of the policy engine, used where
  no findings are shared; \<open>pn_insert_ok\<close> tells whether a quarantine row can be inserted.\<close>

record pipe_env =
  pn_jc :: jsonpath_compiler
  pn_rx :: regex_engine
  pn_ja :: jsonata_engine
  pn_enrich :: enrich_env
  pn_protect :: protect_env
  pn_classify :: bool
  pn_detect :: "json list \<Rightarrow> json list"
  pn_has_db :: bool
  pn_insert_ok :: bool
  pn_send :: send_env

record pipe_state =
  ps_transforms :: "(string, json list) dict"
  ps_transform_count :: nat
  ps_protection :: protection_stage_state
  ps_quarantine :: "quarantine_row list"
  ps_run :: run_state

datatype pipe_error = Transform_Raised relay_error | Protection_Raised string

section \<open>Transform\<close>

definition transport_keys :: "string list" where
  "transport_keys =
     [''s3_bucket'', ''s3_key'', ''s3_last_modified'', ''s3_etag'', ''s3_size'',
      ''gdc_db_watermark'', ''gdc_db_order_value'',
      ''remote_path'', ''remote_mtime'', ''remote_size'', ''gdc_remote_path'', ''gdc_remote_mtime'',
      ''gdc_remote_size'', ''gdc_remote_offset'', ''gdc_remote_hash'', ''gdc_remote_protocol'', ''gdc_remote_host'']"

definition copy_transport_fields :: "event \<Rightarrow> event \<Rightarrow> event" where
  "copy_transport_fields raw ev =
     propagate_dedup_metadata raw
       (foldl (\<lambda>e k. case dict_get raw k of
                      Some v \<Rightarrow> if dict_has e k then e else dict_set k v e
                    | None \<Rightarrow> e) ev transport_keys)"

definition copy_transport_metadata :: "json list \<Rightarrow> event list \<Rightarrow> event list" where
  "copy_transport_metadata raws evs =
     (if length raws \<noteq> length evs then evs
      else map (\<lambda>(raw, ev). case raw of JObj d \<Rightarrow> copy_transport_fields d ev | _ \<Rightarrow> ev) (zip raws evs))"

definition apply_route_transform :: "pipe_env \<Rightarrow> transform_config \<Rightarrow> json list \<Rightarrow> json list result" where
  "apply_route_transform env c raws =
     bind_result (apply_mappings_with_results (pn_jc env) (pn_rx env) (pn_ja env) (tc_mappings c) raws)
       (\<lambda>rs. if list_ex (\<lambda>r. ar_event_error r \<noteq> None) rs then Inl Mapping_Error
             else bind_result (execute_enrichments_batch (pn_enrich env) (tc_policy c) (tc_enrichment c) (map ar_event rs))
                    (\<lambda>(evs, ws). Inr (map JObj (copy_transport_metadata raws evs))))"

definition transform_stage ::
    "pipe_env \<Rightarrow> transform_config option \<Rightarrow> json list \<Rightarrow> pipe_state \<Rightarrow> json list result \<times> pipe_state" where
  "transform_stage env cfg raws st =
     (case cfg of
        None \<Rightarrow> (Inr raws, st)
      | Some c \<Rightarrow>
          (let key = transform_config_cache_key c
           in case dict_get (ps_transforms st) key of
                Some cached \<Rightarrow> (Inr cached, st)
              | None \<Rightarrow>
                  (case apply_route_transform env c raws of
                     Inl e \<Rightarrow> (Inl e, st)
                   | Inr evs \<Rightarrow>
                       (Inr evs, st\<lparr>ps_transforms := dict_set key evs (ps_transforms st),
                                    ps_transform_count := ps_transform_count st + 1\<rparr>))))"

section \<open>One route\<close>

record stage_result =
  sg_route :: int
  sg_events :: "json list"
  sg_checkpoint_events :: "json list"
  sg_modified :: bool
  sg_auto_protect :: nat
  sg_classification :: "route_class_result option"
  sg_policy :: policy_result
  sg_delivery :: delivery_result

definition sg_allowed :: "stage_result \<Rightarrow> bool" where
  "sg_allowed r = pres_allowed (sg_policy r)"

definition protect_stage ::
    "pipe_env \<Rightarrow> route_ctx \<Rightarrow> shared_batch \<Rightarrow> json list \<Rightarrow> pipe_state \<Rightarrow> (string + protect_result) \<times> pipe_state" where
  "protect_stage env ctx sb events st =
     (let config = resolve_route_protection_config (rx_route ctx) (rx_stream ctx) (rx_protection_rules ctx)
                     (sb_protection sb) (sb_overrides sb) (ephemeral_auto_protect_rules sb);
          key = (case rx_transform ctx of None \<Rightarrow> ''__raw__'' | Some c \<Rightarrow> transform_config_cache_key c);
          (res, p) = route_protection_stage ((pn_protect env)\<lparr>pe_db := pn_has_db env\<rparr>) (rx_stream ctx) config
                       (ephemeral_auto_protect_rules sb) key events (ps_protection st)
      in (res, st\<lparr>ps_protection := p\<rparr>))"

definition policy_stage ::
    "pipe_env \<Rightarrow> route_ctx \<Rightarrow> shared_batch \<Rightarrow> level option \<Rightarrow> json list \<Rightarrow> pipe_state \<Rightarrow>
     (json list \<times> policy_result) \<times> pipe_state" where
  "policy_stage env ctx sb lvl events st =
     (let config = resolve_route_policy_config (rx_route ctx) (rx_policy_rules ctx) (sb_policy sb) (sb_overrides sb)
                     (sb_governance sb) (sb_drift sb);
          (res, q) = route_policy_stage (pn_detect env) (pn_has_db env) (pn_insert_ok env) (rx_stream ctx)
                       (rx_route ctx) (rx_destination ctx) config (sb_drift sb) (sb_findings sb) lvl events (ps_quarantine st)
      in (res, st\<lparr>ps_quarantine := q\<rparr>))"

text \<open>\<open>send\<close> is the send function of the runner for a route (none where there is none).\<close>

definition delivery_stage ::
    "(int \<Rightarrow> json list \<Rightarrow> run_state \<Rightarrow> send_outcome \<times> run_state) option \<Rightarrow> route_ctx \<Rightarrow> policy_result \<Rightarrow>
     json list \<Rightarrow> pipe_state \<Rightarrow> delivery_result \<times> pipe_state" where
  "delivery_stage send ctx pres events st =
     (let send_fn = (if pres_allowed pres then map_option (\<lambda>f. f (rx_route ctx)) send else None);
          (d, s) = route_delivery_stage (rx_route ctx) (rx_destination ctx) (rx_enabled ctx) pres events send_fn
                     (pres_quarantine_id pres) (ps_run st)
      in (d, st\<lparr>ps_run := s\<rparr>))"

text \<open>\<open>process_route_pipeline\<close>: transform, protection, classification, policy, delivery.\<close>

definition process_route_pipeline ::
    "pipe_env \<Rightarrow> (int \<Rightarrow> json list \<Rightarrow> run_state \<Rightarrow> send_outcome \<times> run_state) option \<Rightarrow> shared_batch \<Rightarrow> route_ctx \<Rightarrow>
     pipe_state \<Rightarrow> (pipe_error + stage_result) \<times> pipe_state" where
  "process_route_pipeline env send sb ctx st0 =
     (case transform_stage env (rx_transform ctx) (sb_events sb) st0 of
        (Inl e, st1) \<Rightarrow> (Inl (Transform_Raised e), st1)
      | (Inr transformed, st1) \<Rightarrow>
          (case protect_stage env ctx sb transformed st1 of
             (Inl e, st2) \<Rightarrow> (Inl (Protection_Raised e), st2)
           | (Inr prot, st2) \<Rightarrow>
               (let (classified, cls) = route_classification_stage (pn_classify env) (rx_classification ctx)
                                          (sb_findings sb) (pr_events prot);
                    ((current, pres), st3) = policy_stage env ctx sb (map_option rcr_level cls) classified st2;
                    (d, st4) = delivery_stage send ctx pres current st3
                in (Inr \<lparr>sg_route = rx_route ctx,
                         sg_events = (if dl_success d = Some True then current else []),
                         sg_checkpoint_events = transformed,
                         sg_modified = (rx_transform ctx \<noteq> None \<or> pr_rules_applied prot > 0 \<or> pr_masked prot > 0),
                         sg_auto_protect = length (ephemeral_auto_protect_rules sb),
                         sg_classification = cls, sg_policy = pres, sg_delivery = d\<rparr>, st4))))"

section \<open>All routes\<close>

record route_metrics =
  mx_routes :: nat
  mx_fallbacks :: nat
  mx_transforms :: nat
  mx_protections :: nat
  mx_auto_protect :: nat
  mx_classified :: nat
  mx_class_overrides :: nat
  mx_policies :: nat
  mx_allow :: nat
  mx_audit :: nat
  mx_block :: nat
  mx_review :: nat
  mx_quarantine :: nat
  mx_delivery :: delivery_counters

definition base_metrics :: "nat \<Rightarrow> nat \<Rightarrow> route_metrics" where
  "base_metrics n fallbacks =
     \<lparr>mx_routes = n, mx_fallbacks = fallbacks, mx_transforms = 0, mx_protections = 0, mx_auto_protect = 0,
      mx_classified = 0, mx_class_overrides = 0, mx_policies = 0, mx_allow = 0, mx_audit = 0, mx_block = 0,
      mx_review = 0, mx_quarantine = 0, mx_delivery = zero_counters\<rparr>"

definition count_decision :: "decision \<Rightarrow> route_metrics \<Rightarrow> route_metrics" where
  "count_decision d m =
     (case d of
        Allow \<Rightarrow> m\<lparr>mx_allow := mx_allow m + 1\<rparr>
      | Audit \<Rightarrow> m\<lparr>mx_audit := mx_audit m + 1\<rparr>
      | Block \<Rightarrow> m\<lparr>mx_block := mx_block m + 1\<rparr>
      | Require_Review_Decision \<Rightarrow> m\<lparr>mx_review := mx_review m + 1\<rparr>
      | Quarantine \<Rightarrow> m\<lparr>mx_quarantine := mx_quarantine m + 1\<rparr>)"

definition count_stage :: "stage_result \<Rightarrow> route_metrics \<Rightarrow> route_metrics" where
  "count_stage r m0 =
     (let m1 = m0\<lparr>mx_transforms := mx_transforms m0 + 1, mx_protections := mx_protections m0 + 1,
                  mx_auto_protect := mx_auto_protect m0 + sg_auto_protect r, mx_policies := mx_policies m0 + 1,
                  mx_delivery := apply_delivery_metrics (mx_delivery m0) (sg_delivery r)\<rparr>;
          m2 = (case sg_classification r of
                  None \<Rightarrow> m1
                | Some c \<Rightarrow> m1\<lparr>mx_classified := mx_classified m1 + 1,
                               mx_class_overrides := mx_class_overrides m1 + (if rcr_override_applied c then 1 else 0)\<rparr>)
      in count_decision (pres_decision (sg_policy r)) m2)"

record pipeline_result =
  pl_stages :: "stage_result list"
  pl_metrics :: route_metrics
  pl_checkpoint :: "json list"
  pl_delivery :: "json list"

text \<open>The reference events are those of the last route that delivered.\<close>

definition delivered_stage :: "stage_result \<Rightarrow> bool" where
  "delivered_stage r \<longleftrightarrow>
     dl_disposition (sg_delivery r) = Delivered \<and> dl_success (sg_delivery r) = Some True \<and> sg_events r \<noteq> []"

definition add_stage :: "stage_result \<Rightarrow> pipeline_result \<Rightarrow> pipeline_result" where
  "add_stage r p =
     (let p1 = p\<lparr>pl_stages := pl_stages p @ [r], pl_metrics := count_stage r (pl_metrics p)\<rparr>
      in if delivered_stage r
         then p1\<lparr>pl_checkpoint := (if sg_checkpoint_events r \<noteq> [] then sg_checkpoint_events r else sg_events r),
                pl_delivery := sg_events r\<rparr>
         else p1)"

definition skip_log :: "pipe_env \<Rightarrow> route_ctx \<Rightarrow> event" where
  "skip_log env ctx =
     [(''stage'', JStr ''route_skip''), (''stream_id'', JInt (rx_stream ctx)), (''route_id'', JInt (rx_route ctx)),
      (''skip_reason'', JStr ''route_disabled''), (''message'', JStr ''route_disabled'')]"

fun process_routes_from ::
    "pipe_env \<Rightarrow> (int \<Rightarrow> json list \<Rightarrow> run_state \<Rightarrow> send_outcome \<times> run_state) option \<Rightarrow> shared_batch \<Rightarrow> route_ctx list \<Rightarrow>
     pipeline_result \<Rightarrow> pipe_state \<Rightarrow> (pipe_error + pipeline_result) \<times> pipe_state" where
  "process_routes_from env send sb [] p st = (Inr p, st)"
| "process_routes_from env send sb (ctx # ctxs) p st =
     (if \<not> rx_enabled ctx then
        process_routes_from env send sb ctxs p (st\<lparr>ps_run := emit_log (pn_send env) (skip_log env ctx) (ps_run st)\<rparr>)
      else (case process_route_pipeline env send sb ctx st of
              (Inl e, st') \<Rightarrow> (Inl e, st')
            | (Inr r, st') \<Rightarrow> process_routes_from env send sb ctxs (add_stage r p) st'))"

definition process_routes ::
    "pipe_env \<Rightarrow> (int \<Rightarrow> json list \<Rightarrow> run_state \<Rightarrow> send_outcome \<times> run_state) option \<Rightarrow> shared_batch \<Rightarrow> route_ctx list \<Rightarrow>
     route_metrics \<Rightarrow> pipe_state \<Rightarrow> (pipe_error + pipeline_result) \<times> pipe_state" where
  "process_routes env send sb ctxs base st =
     process_routes_from env send sb ctxs \<lparr>pl_stages = [], pl_metrics = base, pl_checkpoint = [], pl_delivery = []\<rparr> st"

section \<open>The stages and the run state\<close>

lemma transform_stage_run [frame_simps]: "ps_run (snd (transform_stage env cfg raws st)) = ps_run st"
  by (auto simp: transform_stage_def Let_def split: option.splits sum.splits)

lemma transform_stage_protection [frame_simps]:
  "ps_protection (snd (transform_stage env cfg raws st)) = ps_protection st"
  by (auto simp: transform_stage_def Let_def split: option.splits sum.splits)

lemma protect_stage_run [frame_simps]: "ps_run (snd (protect_stage env ctx sb evs st)) = ps_run st"
  by (simp add: protect_stage_def Let_def split: prod.split)

lemma policy_stage_run [frame_simps]: "ps_run (snd (policy_stage env ctx sb lvl evs st)) = ps_run st"
  by (simp add: policy_stage_def Let_def split: prod.split)

lemma policy_stage_events:
  "fst (fst (policy_stage env ctx sb lvl evs st)) =
     (if pres_allowed (snd (fst (policy_stage env ctx sb lvl evs st))) then evs else [])"
  by (simp add: policy_stage_def route_policy_stage_def Let_def split: prod.split)

text \<open>What a route would send: the events of its protection, classified.\<close>

definition route_payload :: "pipe_env \<Rightarrow> route_ctx \<Rightarrow> shared_batch \<Rightarrow> protect_result \<Rightarrow> json list" where
  "route_payload env ctx sb prot =
     fst (route_classification_stage (pn_classify env) (rx_classification ctx) (sb_findings sb) (pr_events prot))"

lemma pipeline_stages:
  assumes "process_route_pipeline env send sb ctx st = (Inr r, st')"
  obtains t st1 prot st2 st3 where
    "transform_stage env (rx_transform ctx) (sb_events sb) st = (Inr t, st1)"
    "protect_stage env ctx sb t st1 = (Inr prot, st2)"
    "ps_run st3 = ps_run st"
    "delivery_stage send ctx (sg_policy r) (if sg_allowed r then route_payload env ctx sb prot else []) st3 =
       (sg_delivery r, st')"
    "sg_events r = (if dl_success (sg_delivery r) = Some True \<and> sg_allowed r then route_payload env ctx sb prot else [])"
    "sg_checkpoint_events r = t" "sg_route r = rx_route ctx"
proof -
  obtain t st1 where t: "transform_stage env (rx_transform ctx) (sb_events sb) st = (Inr t, st1)"
    using assms by (auto simp: process_route_pipeline_def split: prod.splits sum.splits)
  obtain prot st2 where prot: "protect_stage env ctx sb t st1 = (Inr prot, st2)"
    using assms t by (auto simp: process_route_pipeline_def split: prod.splits sum.splits)
  obtain cl cls where cl: "route_classification_stage (pn_classify env) (rx_classification ctx)
      (sb_findings sb) (pr_events prot) = (cl, cls)" by (metis prod.collapse)
  obtain cur pres st3 where pol: "policy_stage env ctx sb (map_option rcr_level cls) cl st2 = ((cur, pres), st3)"
    by (metis prod.collapse)
  obtain d st4 where del: "delivery_stage send ctx pres cur st3 = (d, st4)" by (metis prod.collapse)
  have run: "ps_run st3 = ps_run st"
    using transform_stage_run[of env "rx_transform ctx" "sb_events sb" st] t
      protect_stage_run[of env ctx sb t st1] prot policy_stage_run[of env ctx sb "map_option rcr_level cls" cl st2] pol
    by simp
  have cur: "cur = (if pres_allowed pres then cl else [])"
    using policy_stage_events[of env ctx sb "map_option rcr_level cls" cl st2] pol by simp
  have r: "st' = st4" "sg_delivery r = d" "sg_policy r = pres" "sg_route r = rx_route ctx"
    "sg_checkpoint_events r = t" "sg_events r = (if dl_success d = Some True then cur else [])"
    using assms by (auto simp: process_route_pipeline_def t prot cl pol del)
  show thesis
    by (rule that[OF t prot run]) (use del r cur cl in \<open>auto simp: route_payload_def sg_allowed_def\<close>)
qed

section \<open>The interface of the send function\<close>

text \<open>The pipeline relies on one promise of the runner: what it calls the adapters with for a route
  are the events it was handed.\<close>

locale route_sender =
  fixes send :: "int \<Rightarrow> json list \<Rightarrow> run_state \<Rightarrow> send_outcome \<times> run_state"
  assumes send_trace: "\<exists>new. rs_sends (snd (send rid evs s)) = rs_sends s @ new \<and> (\<forall>x \<in> set new. sc_events (fst x) = evs)"
begin

lemma delivery_stage_trace:
  assumes "delivery_stage (Some send) ctx pres evs st = (d, st')"
  shows "\<exists>new. rs_sends (ps_run st') = rs_sends (ps_run st) @ new \<and>
           (\<forall>x \<in> set new. sc_events (fst x) = evs \<and> pres_allowed pres \<and> rx_enabled ctx \<and> evs \<noteq> [])"
proof (cases "rx_enabled ctx \<and> pres_allowed pres \<and> evs \<noteq> []")
  case True
  obtain out s where send: "send (rx_route ctx) evs (ps_run st) = (out, s)" by (metis prod.collapse)
  then have "ps_run st' = s"
    using assms True by (auto simp: delivery_stage_def route_delivery_stage_def Let_def)
  moreover obtain new where "rs_sends s = rs_sends (ps_run st) @ new" "\<forall>x \<in> set new. sc_events (fst x) = evs"
    using send_trace[of "rx_route ctx" evs "ps_run st"] send by auto
  ultimately show ?thesis using True by auto
next
  case False
  then have "\<not> rx_enabled ctx \<or> \<not> pres_allowed pres \<or> evs = []" by blast
  note stopped = delivery_stage_stopped[OF this]
  have "ps_run st' = ps_run st"
    using assms by (simp add: delivery_stage_def Let_def case_prod_beta stopped)
  then show ?thesis by (intro exI[of _ "[]"]) simp
qed

lemma pipeline_trace:
  assumes "process_route_pipeline env (Some send) sb ctx st = (Inr r, st')"
    and "transform_stage env (rx_transform ctx) (sb_events sb) st = (Inr t, st1)"
    and "protect_stage env ctx sb t st1 = (Inr prot, st2)"
  shows "\<exists>new. rs_sends (ps_run st') = rs_sends (ps_run st) @ new \<and>
           (\<forall>x \<in> set new. sc_events (fst x) = route_payload env ctx sb prot \<and> sg_allowed r)"
proof (rule pipeline_stages[OF assms(1)])
  fix t' st1' prot' st2' st3
  assume s: "transform_stage env (rx_transform ctx) (sb_events sb) st = (Inr t', st1')"
    "protect_stage env ctx sb t' st1' = (Inr prot', st2')" "ps_run st3 = ps_run st"
    "delivery_stage (Some send) ctx (sg_policy r) (if sg_allowed r then route_payload env ctx sb prot' else []) st3 =
       (sg_delivery r, st')"
  have "prot' = prot" using s(1,2) assms(2,3) by simp
  with delivery_stage_trace[OF s(4)] s(3) show ?thesis by (auto simp: sg_allowed_def)
qed

lemma failed_pipeline_trace:
  assumes "process_route_pipeline env (Some send) sb ctx st = (Inl e, st')"
  shows "ps_run st' = ps_run st"
proof (cases "transform_stage env (rx_transform ctx) (sb_events sb) st")
  case (Pair res st1)
  then have st1: "ps_run st1 = ps_run st"
    using transform_stage_run[of env "rx_transform ctx" "sb_events sb" st] by simp
  show ?thesis
  proof (cases res)
    case (Inl a)
    with Pair assms st1 show ?thesis by (simp add: process_route_pipeline_def)
  next
    case (Inr t)
    obtain res2 st2 where p: "protect_stage env ctx sb t st1 = (res2, st2)" by (metis prod.collapse)
    then have "ps_run st2 = ps_run st1" using protect_stage_run[of env ctx sb t st1] by simp
    with Pair Inr p assms st1 show ?thesis
      by (cases res2) (simp_all add: process_route_pipeline_def Let_def split: prod.splits)
  qed
qed

end

lemma deliver_single_route_trace:
  "\<exists>new. rs_sends (snd (deliver_single_route env routes rid evs s)) = rs_sends s @ new \<and>
         (\<forall>x \<in> set new. sc_events (fst x) = evs)"
proof (cases "find (\<lambda>r. r_id r = rid) routes")
  case None
  then show ?thesis by (simp add: deliver_single_route_def)
next
  case (Some r)
  obtain out s' where run: "send_route_events env r evs None True s = (out, s')" by (metis prod.collapse)
  have "sc_events c = evs" if "allowed_call env r evs bs c" for bs c
    using that by (auto simp: allowed_call_def primary_call_def secondary_call_def)
  with send_route_trace[OF run] Some run show ?thesis by (fastforce simp: deliver_single_route_def)
qed

lemma deliver_to_working_route:
  assumes "find (\<lambda>r. r_id r = rid) routes = Some r" "d_enabled (r_destination r)"
    and "effective_destination_rate_limit r = None"
    and "se_net env (length (rs_sends s)) (own_call env r evs) = None"
  shows "rs_sends (snd (deliver_single_route env routes rid evs s)) = rs_sends s @ [(own_call env r evs, None)]"
    and "fst (deliver_single_route env routes rid evs s) = plain_outcome True ''route_send_success'' None"
  using assms
  by (simp_all add: deliver_single_route_def send_route_events_def send_to_destination_eq)

interpretation base_sender: route_sender "deliver_single_route env routes" for env routes
  by unfold_locales (rule deliver_single_route_trace)

section \<open>What the protection of a route does to what it sends\<close>

text \<open>The rules in force on a route in a batch.\<close>

definition route_config :: "route_ctx \<Rightarrow> shared_batch \<Rightarrow> protection_config" where
  "route_config ctx sb =
     resolve_route_protection_config (rx_route ctx) (rx_stream ctx) (rx_protection_rules ctx)
       (sb_protection sb) (sb_overrides sb) (ephemeral_auto_protect_rules sb)"

definition rules_in_force :: "route_ctx \<Rightarrow> shared_batch \<Rightarrow> prot_rule list" where
  "rules_in_force ctx sb =
     active_rules (map prot_rule.truncate (pcf_rules (route_config ctx sb)))
       (merge_ephemeral_for_route (ephemeral_auto_protect_rules sb) (route_config ctx sb))"

lemma protect_stage_first:
  assumes "pss_cache (ps_protection st) = []"
  shows "protect_stage env ctx sb evs st =
    (let (res, v) = protect_batch ((pn_protect env)\<lparr>pe_db := pn_has_db env\<rparr>) (rx_stream ctx) evs
           (map prot_rule.truncate (pcf_rules (route_config ctx sb)))
           (merge_ephemeral_for_route (ephemeral_auto_protect_rules sb) (route_config ctx sb))
           (pss_vault (ps_protection st))
     in (res, snd (protect_stage env ctx sb evs st)))"
  using assms
  by (auto simp: protect_stage_def route_protection_stage_def Let_def route_config_def split: prod.splits sum.splits)

lemma classified_events:
  assumes "\<And>l e. P e \<Longrightarrow> P (case e of JObj kvs \<Rightarrow> JObj (stamp_classification_level l kvs) | _ \<Rightarrow> e)"
    and "\<forall>e \<in> set evs. P e"
  shows "\<forall>e \<in> set (fst (route_classification_stage en cfg fs evs)). P e"
proof -
  have stamped: "\<forall>e \<in> set (stamp_events l es). P e" if "\<forall>e \<in> set es. P e" for l es
    using that assms(1) by (auto simp: stamp_events_def)
  have batch: "\<forall>e \<in> set (fst (classify_batch evs rs fnd)). P e" for rs fnd
    using assms(2) by (auto simp: classify_batch_def stamped split: prod.split)
  have restamped: "\<forall>e \<in> set (stamp_events l (fst (classify_batch evs rs fnd))). P e" for l rs fnd
    by (rule stamped[OF batch])
  show ?thesis
    using assms(2) batch restamped by (simp add: route_classification_stage_def Let_def case_prod_beta)
qed

lemma effective_stamped:
  assumes "effective q e" "take 1 (parse_field_path_segments (pru_path q)) \<notin>
      {[], [''classification_level''], [''classification_level_gdc'']}"
  shows "effective q (case e of JObj kvs \<Rightarrow> JObj (stamp_classification_level l kvs) | _ \<Rightarrow> e)"
proof (cases e)
  case (JObj kvs)
  obtain seg rest where segs: "parse_field_path_segments (pru_path q) = seg # rest"
    using assms(2) by (cases "parse_field_path_segments (pru_path q)") auto
  have "collect_at_segments (seg # rest) (JObj (stamp_classification_level l kvs)) = collect_at_segments (seg # rest) (JObj kvs)"
  proof (cases "seg = ''[]''")
    case True
    then show ?thesis by (simp add: segment_defs)
  next
    case False
    then show ?thesis
      using assms(2) segs by (intro collect_field_cong) (auto simp: stamp_classification_level_def dict_simps)
  qed
  with assms(1) JObj segs show ?thesis by (simp add: effective_def)
qed (use assms(1) in auto)

lemma transformed_objs:
  "apply_route_transform env c raws = Inr evs \<Longrightarrow> list_all is_obj evs"
  by (auto simp: apply_route_transform_def bind_result_Inr list_all_iff split: if_splits prod.splits)


text \<open>C17: Without a session tokenization protects nothing: where \<open>run\<close> was called without one (as the
  scheduler does) and the rules in force tokenize texts, every adapter call of the route carries
  the transformed events as they are, classified but unprotected.\<close>

theorem sessionless_tokenization_sends_raw:
  assumes "process_route_pipeline env (Some (deliver_single_route senv routes)) sb ctx st = (Inr r, st')"
    and "transform_stage env (rx_transform ctx) (sb_events sb) st = (Inr t, st1)"
    and "\<not> pn_has_db env" "pss_cache (ps_protection st) = []"
    and "\<forall>q \<in> set (rules_in_force ctx sb). pru_mode q = ''tokenization''"
    and "\<forall>e \<in> set t. \<forall>q \<in> set (rules_in_force ctx sb).
           \<forall>v \<in> set (collect_at_segments (parse_field_path_segments (pru_path q)) e). raw_text v"
  shows "\<exists>new. rs_sends (ps_run st') = rs_sends (ps_run st) @ new \<and>
    (\<forall>x \<in> set new. sc_events (fst x) =
       fst (route_classification_stage (pn_classify env) (rx_classification ctx) (sb_findings sb) t))"
proof -
  obtain t' st1' prot st2 where t': "transform_stage env (rx_transform ctx) (sb_events sb) st = (Inr t', st1')"
    and prot': "protect_stage env ctx sb t' st1' = (Inr prot, st2)"
    by (rule pipeline_stages[OF assms(1)])
  with assms(2) have prot: "protect_stage env ctx sb t st1 = (Inr prot, st2)" by simp
  have "pss_cache (ps_protection st1) = []"
    using transform_stage_protection[of env "rx_transform ctx" "sb_events sb" st] assms(2,4) by simp
  moreover obtain res where "protect_batch ((pn_protect env)\<lparr>pe_db := pn_has_db env\<rparr>) (rx_stream ctx) t
      (map prot_rule.truncate (pcf_rules (route_config ctx sb)))
      (merge_ephemeral_for_route (ephemeral_auto_protect_rules sb) (route_config ctx sb)) (pss_vault (ps_protection st1)) =
      (Inr res, pss_vault (ps_protection st1))" "pr_events res = t"
    using protect_batch_sessionless[of "(pn_protect env)\<lparr>pe_db := pn_has_db env\<rparr>"] assms(3,5,6)
    unfolding rules_in_force_def by (auto; blast)
  ultimately have "pr_events prot = t"
    using prot protect_stage_first[of st1 env ctx sb t] by simp
  then show ?thesis
    using base_sender.pipeline_trace[OF assms(1,2) prot] by (auto simp: route_payload_def)
qed

section \<open>A concrete batch\<close>

definition plain_transform :: transform_config where
  "plain_transform =
     \<lparr>tc_mappings = [], tc_enrichment = [], tc_policy = ''KEEP_EXISTING'', tc_mapping_source = Stream_Row,
      tc_enrichment_source = Stream_Row\<rparr>"

definition plain_ctx :: "int \<Rightarrow> transform_config \<Rightarrow> route_ctx" where
  "plain_ctx rid c =
     \<lparr>rx_route = rid, rx_stream = 7, rx_destination = rid, rx_enabled = True, rx_transform = Some c,
      rx_protection_rules = [], rx_policy_rules = [],
      rx_classification = resolve_route_classification_config rid [] [] []\<rparr>"

definition ssn_batch :: "string \<Rightarrow> shared_batch" where
  "ssn_batch mode =
     \<lparr>sb_events = [JObj [(''ssn'', JStr ''900101-1''), (''host'', JStr ''h'')]], sb_findings = None, sb_drift = None,
      sb_protection = [sample_rule ''$.ssn'' mode], sb_policy = [], sb_overrides = [], sb_governance = []\<rparr>"

definition pipe_sample_env :: "bool \<Rightarrow> pipe_env" where
  "pipe_sample_env has_db =
     \<lparr>pn_jc = simple_paths, pn_rx = (\<lambda>_. None), pn_ja = None, pn_enrich = enrich_sample_env, pn_protect = sample_env,
      pn_classify = False, pn_detect = (\<lambda>_. []), pn_has_db = has_db, pn_insert_ok = True, pn_send = failing_env []\<rparr>"

definition pipe_start :: pipe_state where
  "pipe_start =
     \<lparr>ps_transforms = [], ps_transform_count = 0, ps_protection = fresh_stage_state, ps_quarantine = [],
      ps_run = idle_state\<rparr>"

abbreviation sample_run :: "bool \<Rightarrow> string \<Rightarrow> (pipe_error + stage_result) \<times> pipe_state" where
  "sample_run has_db mode \<equiv>
     process_route_pipeline (pipe_sample_env has_db) (Some (deliver_single_route (failing_env []) [hook_route ''LOG_AND_CONTINUE'']))
       (ssn_batch mode) (plain_ctx 1 plain_transform) pipe_start"

text \<open>The first route of a batch, from what its stages compute.\<close>

definition policy_lets_pass :: "pipe_env \<Rightarrow> route_ctx \<Rightarrow> shared_batch \<Rightarrow> json list \<Rightarrow> bool" where
  "policy_lets_pass env ctx sb evs =
     (let config = resolve_route_policy_config (rx_route ctx) (rx_policy_rules ctx) (sb_policy sb) (sb_overrides sb)
                     (sb_governance sb) (sb_drift sb)
      in delivery_allowed_for_decision
           (fst (merge_route_policy_decision (stage_policy_batch (pn_detect env) config (sb_findings sb) evs) config)))"

lemma policy_stage_allowed:
  "pres_allowed (snd (fst (policy_stage env ctx sb lvl evs st))) = policy_lets_pass env ctx sb evs"
  by (simp add: policy_stage_def route_policy_stage_def policy_lets_pass_def Let_def split: prod.split)

lemma first_route_result:
  assumes "rx_transform ctx = Some c" "ps_transforms st = []" "pss_cache (ps_protection st) = []"
    and "apply_route_transform env c (sb_events sb) = Inr t"
    and "protect_batch ((pn_protect env)\<lparr>pe_db := pn_has_db env\<rparr>) (rx_stream ctx) t
           (map prot_rule.truncate (pcf_rules (route_config ctx sb)))
           (merge_ephemeral_for_route (ephemeral_auto_protect_rules sb) (route_config ctx sb))
           (pss_vault (ps_protection st)) = (Inr res, v)"
    and "rx_enabled ctx" "policy_lets_pass env ctx sb (route_payload env ctx sb res)"
    and "route_payload env ctx sb res \<noteq> []"
    and "send (rx_route ctx) (route_payload env ctx sb res) (ps_run st) = (out, s)"
  shows "\<exists>r st' q. process_route_pipeline env (Some send) sb ctx st = (Inr r, st') \<and> ps_run st' = s \<and>
    pres_allowed (sg_policy r) \<and> sg_checkpoint_events r = t \<and>
    sg_delivery r = fst (route_delivery_stage (rx_route ctx) (rx_destination ctx) True (sg_policy r)
      (route_payload env ctx sb res) (Some (send (rx_route ctx))) q (ps_run st)) \<and>
    sg_events r = (if dl_success (sg_delivery r) = Some True then route_payload env ctx sb res else [])"
proof -
  obtain st1 where t: "transform_stage env (rx_transform ctx) (sb_events sb) st = (Inr t, st1)"
    using assms(1,2,4) by (simp add: transform_stage_def Let_def)
  have st1: "ps_run st1 = ps_run st" "ps_protection st1 = ps_protection st"
    using transform_stage_run[of env "rx_transform ctx" "sb_events sb" st]
      transform_stage_protection[of env "rx_transform ctx" "sb_events sb" st] t by simp_all
  obtain st2 where p: "protect_stage env ctx sb t st1 = (Inr res, st2)"
    using protect_stage_first[of st1 env ctx sb t] st1(2) assms(3,5) by simp
  have st2: "ps_run st2 = ps_run st"
    using protect_stage_run[of env ctx sb t st1] p st1(1) by simp
  obtain cl cls where cl: "route_classification_stage (pn_classify env) (rx_classification ctx)
      (sb_findings sb) (pr_events res) = (cl, cls)" by (rule that[OF prod.collapse[symmetric]])
  then have payload: "route_payload env ctx sb res = cl" by (simp add: route_payload_def)
  obtain cur pres st3 where pol: "policy_stage env ctx sb (map_option rcr_level cls) cl st2 = ((cur, pres), st3)"
    by (metis prod.collapse)
  have allowed: "pres_allowed pres" "cur = cl"
    using policy_stage_allowed[of env ctx sb "map_option rcr_level cls" cl st2]
      policy_stage_events[of env ctx sb "map_option rcr_level cls" cl st2] pol assms(7) payload by simp_all
  have st3: "ps_run st3 = ps_run st"
    using policy_stage_run[of env ctx sb "map_option rcr_level cls" cl st2] pol st2 by simp
  let ?d = "route_delivery_stage (rx_route ctx) (rx_destination ctx) True pres cl (Some (send (rx_route ctx)))
      (pres_quarantine_id pres) (ps_run st)"
  have del: "delivery_stage (Some send) ctx pres cl st3 = (fst ?d, st3\<lparr>ps_run := snd ?d\<rparr>)"
    using allowed assms(6) st3 by (simp add: delivery_stage_def case_prod_beta Let_def)
  have "snd ?d = s"
    using delivery_stage_sends(1)[of True pres cl "send (rx_route ctx)" "ps_run st" out s] allowed assms(8,9) payload by simp
  moreover have "process_route_pipeline env (Some send) sb ctx st =
      (Inr \<lparr>sg_route = rx_route ctx, sg_events = (if dl_success (fst ?d) = Some True then cl else []),
            sg_checkpoint_events = t, sg_modified = (rx_transform ctx \<noteq> None \<or> pr_rules_applied res > 0 \<or> pr_masked res > 0),
            sg_auto_protect = length (ephemeral_auto_protect_rules sb), sg_classification = cls, sg_policy = pres,
            sg_delivery = fst ?d\<rparr>, st3\<lparr>ps_run := snd ?d\<rparr>)" (is "_ = (Inr ?r, ?st')")
    using allowed(2) by (simp add: process_route_pipeline_def t p cl pol del)
  ultimately show ?thesis
    unfolding payload using allowed(1)
    by (intro exI[of _ ?r] exI[of _ ?st'] exI[of _ "pres_quarantine_id pres"]) simp
qed

lemma first_route_sends:
  assumes "rx_transform ctx = Some c" "ps_transforms st = []" "pss_cache (ps_protection st) = []"
    and "apply_route_transform env c (sb_events sb) = Inr t"
    and "protect_batch ((pn_protect env)\<lparr>pe_db := pn_has_db env\<rparr>) (rx_stream ctx) t
           (map prot_rule.truncate (pcf_rules (route_config ctx sb)))
           (merge_ephemeral_for_route (ephemeral_auto_protect_rules sb) (route_config ctx sb))
           (pss_vault (ps_protection st)) = (Inr res, v)"
    and "rx_enabled ctx" "policy_lets_pass env ctx sb (route_payload env ctx sb res)"
    and "route_payload env ctx sb res \<noteq> []"
  shows "\<exists>r st'. process_route_pipeline env (Some send) sb ctx st = (Inr r, st') \<and>
    ps_run st' = snd (send (rx_route ctx) (route_payload env ctx sb res) (ps_run st))"
  using first_route_result[OF assms prod.collapse[symmetric], of send] by blast

lemma plain_transform_stage:
  "apply_route_transform (pipe_sample_env has_db) plain_transform (sb_events (ssn_batch mode)) = Inr (sb_events (ssn_batch mode))"
  by (cases has_db) code_simp+

lemma sample_run_sends:
  assumes "protect_batch (sample_env\<lparr>pe_db := has_db\<rparr>) 7 (sb_events (ssn_batch mode))
      (map prot_rule.truncate (pcf_rules (route_config (plain_ctx 1 plain_transform) (ssn_batch mode)))) []
      empty_vault = (Inr res, v)" "pr_events res \<noteq> []"
    and "policy_lets_pass (pipe_sample_env has_db) (plain_ctx 1 plain_transform) (ssn_batch mode) (pr_events res)"
  shows "\<exists>r st'. sample_run has_db mode = (Inr r, st') \<and>
    map (sc_events \<circ> fst) (rs_sends (ps_run st')) = [pr_events res]"
proof -
  let ?env = "pipe_sample_env has_db" and ?ctx = "plain_ctx 1 plain_transform" and ?sb = "ssn_batch mode"
  have payload: "route_payload ?env ?ctx ?sb res = pr_events res"
    by (simp add: route_payload_def pipe_sample_env_def route_classification_stage_def)
  have eph: "merge_ephemeral_for_route (ephemeral_auto_protect_rules ?sb) (route_config ?ctx ?sb) = []"
    by (simp add: ephemeral_auto_protect_rules_def ssn_batch_def merge_ephemeral_for_route_def List.map_filter_def)
  have "\<exists>r st'. sample_run has_db mode = (Inr r, st') \<and>
      ps_run st' = snd (deliver_single_route (failing_env []) [hook_route ''LOG_AND_CONTINUE''] (rx_route ?ctx)
        (route_payload ?env ?ctx ?sb res) (ps_run pipe_start))"
  proof (rule first_route_sends[where c = plain_transform and t = "sb_events ?sb" and v = v])
    show "protect_batch ((pn_protect ?env)\<lparr>pe_db := pn_has_db ?env\<rparr>) (rx_stream ?ctx) (sb_events ?sb)
        (map prot_rule.truncate (pcf_rules (route_config ?ctx ?sb)))
        (merge_ephemeral_for_route (ephemeral_auto_protect_rules ?sb) (route_config ?ctx ?sb))
        (pss_vault (ps_protection pipe_start)) = (Inr res, v)"
      unfolding eph using assms(1)
      by (simp add: pipe_sample_env_def pipe_start_def fresh_stage_state_def plain_ctx_def)
  qed (use assms payload plain_transform_stage in \<open>simp_all add: plain_ctx_def pipe_start_def fresh_stage_state_def\<close>)
  moreover have "map (sc_events \<circ> fst) (rs_sends (snd (deliver_single_route (failing_env [])
      [hook_route ''LOG_AND_CONTINUE''] 1 (pr_events res) idle_state))) = [pr_events res]"
    using deliver_to_working_route(1)[of 1 "[hook_route ''LOG_AND_CONTINUE'']" "hook_route ''LOG_AND_CONTINUE''" "failing_env []" idle_state]
    by (simp add: effective_destination_rate_limit_def send_samples primary_call_def)
  moreover have "rx_route ?ctx = 1" "ps_run pipe_start = idle_state" by (simp_all add: plain_ctx_def pipe_start_def)
  ultimately show ?thesis unfolding payload by metis
qed

lemma ssn_masked:
  "\<exists>res v. protect_batch (sample_env\<lparr>pe_db := True\<rparr>) 7 (sb_events (ssn_batch ''full_mask''))
      (map prot_rule.truncate (pcf_rules (route_config (plain_ctx 1 plain_transform) (ssn_batch ''full_mask'')))) []
      empty_vault = (Inr res, v) \<and> pr_events res = [JObj [(''ssn'', JStr mask_literal), (''host'', JStr ''h'')]]"
proof -
  let ?p = "protect_batch (sample_env\<lparr>pe_db := True\<rparr>) 7 (sb_events (ssn_batch ''full_mask''))
      (map prot_rule.truncate (pcf_rules (route_config (plain_ctx 1 plain_transform) (ssn_batch ''full_mask'')))) [] empty_vault"
  have "case fst ?p of Inl e \<Rightarrow> False | Inr res \<Rightarrow> pr_events res = [JObj [(''ssn'', JStr mask_literal), (''host'', JStr ''h'')]]"
    by code_simp
  then show ?thesis by (cases ?p) (auto split: sum.splits)
qed


theorem sessionless_tokenization_sends_raw_witness:
  "\<exists>r st'. sample_run False ''tokenization'' = (Inr r, st') \<and>
     (\<forall>x \<in> set (rs_sends (ps_run st')). sc_events (fst x) = [JObj [(''ssn'', JStr ''900101-1''), (''host'', JStr ''h'')]]) \<and>
     length (rs_sends (ps_run st')) = 1"
proof -
  let ?ctx = "plain_ctx 1 plain_transform" and ?sb = "ssn_batch ''tokenization''" and ?env = "pipe_sample_env False"
  let ?evs = "[JObj [(''ssn'', JStr ''900101-1''), (''host'', JStr ''h'')]]"
  have evs: "sb_events ?sb = ?evs" by (simp add: ssn_batch_def)
  have token: "\<forall>q \<in> set (rules_in_force ?ctx ?sb). pru_mode q = ''tokenization''" by code_simp
  have raw: "\<forall>e \<in> set ?evs. \<forall>q \<in> set (rules_in_force ?ctx ?sb).
      \<forall>v \<in> set (collect_at_segments (parse_field_path_segments (pru_path q)) e). raw_text v"
    by code_simp
  have eph: "merge_ephemeral_for_route (ephemeral_auto_protect_rules ?sb) (route_config ?ctx ?sb) = []"
    by (simp add: ephemeral_auto_protect_rules_def ssn_batch_def merge_ephemeral_for_route_def List.map_filter_def)
  obtain res where p: "protect_batch (sample_env\<lparr>pe_db := False\<rparr>) 7 (sb_events ?sb)
      (map prot_rule.truncate (pcf_rules (route_config ?ctx ?sb))) [] empty_vault = (Inr res, empty_vault)"
    "pr_events res = ?evs"
    using protect_batch_sessionless[of "sample_env\<lparr>pe_db := False\<rparr>" "map prot_rule.truncate (pcf_rules (route_config ?ctx ?sb))"
        "[]" ?evs 7 empty_vault] token raw unfolding rules_in_force_def eph evs by auto
  have "policy_lets_pass ?env ?ctx ?sb ?evs" by code_simp
  with sample_run_sends[OF p(1)] p(2) obtain r st' where run: "sample_run False ''tokenization'' = (Inr r, st')"
    and sends: "map (sc_events \<circ> fst) (rs_sends (ps_run st')) = [?evs]"
    by auto
  obtain st1 where t: "transform_stage ?env (rx_transform ?ctx) (sb_events ?sb) pipe_start = (Inr ?evs, st1)"
    using plain_transform_stage[of False "''tokenization''"] unfolding evs
    by (simp add: transform_stage_def Let_def plain_ctx_def pipe_start_def)
  have start: "\<not> pn_has_db ?env" "pss_cache (ps_protection pipe_start) = []" "rs_sends (ps_run pipe_start) = []"
    "\<not> pn_classify ?env"
    by (simp_all add: pipe_start_def fresh_stage_state_def pipe_sample_env_def idle_state_def)
  have "length (rs_sends (ps_run st')) = 1" using arg_cong[OF sends, of length] by simp
  with sessionless_tokenization_sends_raw[OF run t start(1,2) token raw] start(3,4) run show ?thesis
    by (auto simp: route_classification_stage_def)
qed

end
