(* ===== verification/Stream_Run.thy ===== *)
theory Stream_Run
  imports Route_Pipeline Checkpointing Drift_Policy Rate_Limiter
begin

text \<open>
  One run of a stream, \<open>app/runners/stream_runner.py\<close>: \<open>run\<close> with its early returns and its exception
  path, \<open>_collect_source_events\<close>, \<open>_project_stream_transform_for_shared_phase\<close>,
  \<open>_apply_schema_drift_policy\<close>, \<open>_execute_route_pipeline\<close>, \<open>_evaluate_dynamic_routes\<close>,
  \<open>_update_checkpoint_after_success\<close>, \<open>_commit_lifecycle_entry\<close>, \<open>_persist_failure_telemetry\<close> and
  \<open>_flush_pending_writes\<close>.

  The world is what the run reads and writes: the committed tables (delivery log, checkpoints,
  stream status, disabled routes), the windows of the source limiter, the in-memory checkpoints
  and the state of the runner, which holds the writes kept until the end of the run. The source
  adapter, the sensitive detection, the clock and the outcome of each commit are parameters. Left
  out: the observed schema, the timings, the aggregates fed from committed rows, and the
  structured logger output.
\<close>

section \<open>Options, environment, world\<close>

record run_opts =
  ro_persist :: bool
  ro_dry_run :: bool
  ro_replay_start :: "string option"
  ro_replay_end :: "string option"
  ro_dedup :: bool

definition default_opts :: run_opts where
  "default_opts = \<lparr>ro_persist = True, ro_dry_run = False, ro_replay_start = None, ro_replay_end = None, ro_dedup = True\<rparr>"

text \<open>What ends a run with an exception.\<close>

datatype run_error =
    Source_Raised string string
  | Extract_Raised relay_error
  | Pipeline_Raised pipe_error
  | Commit_Raised

text \<open>\<open>rn_fetch\<close> is the source adapter of a type on the source and stream configuration and the
  checkpoint: the type and text of its exception, or the response. \<open>rn_detect\<close> gives the findings,
  \<open>None\<close> where the detection raises; \<open>rn_dynamic\<close> the dynamic rules, \<open>None\<close> where the query raises;
  \<open>rn_exc\<close> the Python type and text of an error. The \<open>_ok\<close> flags tell whether a session commits.\<close>

record run_env =
  rn_pipe :: pipe_env
  rn_uuid :: string
  rn_clock :: rat
  rn_now :: int
  rn_parse_iso :: "string \<Rightarrow> int option"
  rn_fetch :: "string \<Rightarrow> event \<Rightarrow> event \<Rightarrow> event option \<Rightarrow> (string \<times> string) + json"
  rn_detect :: "json list \<Rightarrow> json list option"
  rn_drift_enabled :: bool
  rn_drift_limits :: "nat \<times> nat"
  rn_open_drifts :: "open_drift list"
  rn_protected_paths :: "string list"
  rn_dynamic :: "dynamic_rule list option"
  rn_resolve :: "string \<Rightarrow> event \<Rightarrow> event"
  rn_checkpoint_updated :: "int option"
  rn_exc :: "run_error \<Rightarrow> string \<times> string"
  rn_lock_free :: bool
  rn_read_ok :: bool
  rn_drift_ok :: bool
  rn_entry_ok :: bool
  rn_failure_ok :: bool
  rn_flush_ok :: bool

record stored_log =
  sl_at :: int
  sl_row :: log_row

record run_world =
  wo_logs :: "stored_log list"
  wo_checkpoints :: checkpoint_table
  wo_statuses :: "(int, string) dict"
  wo_disabled :: "int list"
  wo_source :: windows
  wo_memory :: "(int, event) dict"
  wo_pipe :: pipe_state
  wo_pending :: "(string \<times> event) option"

abbreviation wo_run :: "run_world \<Rightarrow> run_state" where
  "wo_run w \<equiv> ps_run (wo_pipe w)"

definition map_run :: "(run_state \<Rightarrow> run_state) \<Rightarrow> run_world \<Rightarrow> run_world" where
  "map_run f w = w\<lparr>wo_pipe := (wo_pipe w)\<lparr>ps_run := f (ps_run (wo_pipe w))\<rparr>\<rparr>"

definition run_log :: "run_env \<Rightarrow> event \<Rightarrow> run_world \<Rightarrow> run_world" where
  "run_log env p w = map_run (emit_log (pn_send (rn_pipe env)) p) w"

text \<open>The fields that \<open>run\<close> resets on the runner before anything else.\<close>

definition reset_pending :: "run_world \<Rightarrow> run_world" where
  "reset_pending w =
     (map_run (\<lambda>s. s\<lparr>rs_logs := [], rs_status := [], rs_disabled := [], rs_dedup := None\<rparr>) w)\<lparr>wo_pending := None\<rparr>"

text \<open>The ids of the run, which the log and the send path read.\<close>

definition entered :: "run_env \<Rightarrow> run_opts \<Rightarrow> stream_runtime \<Rightarrow> run_env" where
  "entered env opts sm =
     env\<lparr>rn_pipe := (rn_pipe env)\<lparr>pn_send := (pn_send (rn_pipe env))
       \<lparr>se_stream := sm_id sm, se_run_id := Some (rn_uuid env), se_connector := sm_connector sm,
        se_dry_run := ro_dry_run opts,
        se_replay_window := (ro_replay_start opts \<noteq> None \<or> ro_replay_end opts \<noteq> None)\<rparr>\<rparr>\<rparr>"

section \<open>Commits\<close>

text \<open>Rows of the given payloads at the end of the log.\<close>

definition add_rows :: "run_env \<Rightarrow> event list \<Rightarrow> run_world \<Rightarrow> run_world" where
  "add_rows env ps w =
     w\<lparr>wo_logs := wo_logs w @ map (\<lambda>r. \<lparr>sl_at = rn_now env, sl_row = r\<rparr>) (List.map_filter build_delivery_log_row ps)\<rparr>"

definition stage_is :: "string \<Rightarrow> event \<Rightarrow> bool" where
  "stage_is s p \<longleftrightarrow> (case dict_get p ''stage'' of None \<Rightarrow> s = ''None'' | Some v \<Rightarrow> py_str v = s)"

definition commit_lifecycle_entry :: "run_env \<Rightarrow> run_world \<Rightarrow> (run_error + run_world)" where
  "commit_lifecycle_entry env w =
     (let payloads = filter (stage_is ''run_started'') (rs_logs (wo_run w))
      in if payloads = [] then Inr w
         else if \<not> rn_entry_ok env then Inl Commit_Raised
         else Inr (map_run (\<lambda>s. s\<lparr>rs_logs := filter (\<lambda>p. \<not> stage_is ''run_started'' p) (rs_logs s)\<rparr>)
                    (add_rows env payloads w)))"

definition failure_payload :: "run_env \<Rightarrow> stream_runtime \<Rightarrow> run_error \<Rightarrow> event" where
  "failure_payload env sm e =
     [(''stage'', JStr ''run_failed''), (''stream_id'', JInt (sm_id sm)), (''error_type'', JStr (fst (rn_exc env e))),
      (''error_code'', JStr ''RUNTIME_INTERNAL_ERROR''), (''message'', JStr (snd (rn_exc env e))),
      (''run_id'', JStr (rn_uuid env))]"

text \<open>The ids are added where the payload has none.\<close>

definition persist_failure_telemetry :: "run_env \<Rightarrow> stream_runtime \<Rightarrow> event \<Rightarrow> run_world \<Rightarrow> run_world" where
  "persist_failure_telemetry env sm p w =
     (if \<not> rn_failure_ok env then w
      else (let p1 = (case dict_get p ''run_id'' of
                        Some v \<Rightarrow> if truthy v then p else dict_set ''run_id'' (JStr (rn_uuid env)) p
                      | None \<Rightarrow> dict_set ''run_id'' (JStr (rn_uuid env)) p);
                p2 = (case (sm_connector sm, present p1 ''connector_id'') of
                        (Some c, None) \<Rightarrow> dict_set ''connector_id'' (JInt c) p1 | _ \<Rightarrow> p1)
            in add_rows env [p2] w))"

definition flush_pending_writes :: "run_env \<Rightarrow> stream_runtime \<Rightarrow> run_world \<Rightarrow> bool \<times> run_world" where
  "flush_pending_writes env sm w =
     (let s = wo_run w
      in if rs_logs s = [] \<and> rs_status s = [] \<and> rs_disabled s = [] \<and> wo_pending w = None then (True, w)
         else if \<not> rn_flush_ok env then (False, w)
         else
           (let w1 = w\<lparr>wo_statuses := fold (\<lambda>(k, v). dict_set k v) (rs_status s) (wo_statuses w),
                       wo_disabled := wo_disabled w @ filter (\<lambda>r. r \<notin> set (wo_disabled w)) (rs_disabled s)\<rparr>;
                w2 = (case wo_pending w of
                        None \<Rightarrow> w1
                      | Some (t, v) \<Rightarrow> w1\<lparr>wo_checkpoints := snd (update_checkpoint_after_success (wo_checkpoints w1) (sm_id sm) t v)\<rparr>);
                w3 = add_rows env (rs_logs s) w2
            in (True, (map_run (\<lambda>s. s\<lparr>rs_logs := [], rs_status := [], rs_disabled := []\<rparr>) w3)\<lparr>wo_pending := None\<rparr>)))"

section \<open>Source\<close>

text \<open>The rows of the delivery log as the registry query of the deduplication sees them.\<close>

definition registry_rows :: "stored_log list \<Rightarrow> registry_row list" where
  "registry_rows logs =
     List.map_filter (\<lambda>(i, l). map_option (\<lambda>s. \<lparr>rr_id = int i, rr_stream_id = s, rr_stage = lr_stage (sl_row l),
         rr_created_at = sl_at l, rr_payload = JObj (lr_payload (sl_row l))\<rparr>) (lr_stream (sl_row l)))
       (enumerate 1 logs)"

definition summary_json :: "dedup_summary \<Rightarrow> event" where
  "summary_json s =
     [(''total_events'', JInt (int (ds_total_events s))), (''inserted'', JInt (int (ds_inserted s))),
      (''duplicate_events'', JInt (int (ds_duplicate_events s))),
      (''duplicate_by_event_id'', JInt (int (ds_dup_event_id s))),
      (''duplicate_by_stellar_uuid'', JInt (int (ds_dup_stellar_uuid s))),
      (''duplicate_by_custom_key'', JInt (int (ds_dup_custom_key s))),
      (''duplicate_by_id'', JInt (int (ds_dup_id s))),
      (''duplicate_handling'', JStr (case ds_handling s of Skip_Duplicate \<Rightarrow> ''skip_duplicate''
         | Keep_Latest \<Rightarrow> ''keep_latest'' | Keep_First \<Rightarrow> ''keep_first'')),
      (''dedup_scope'', JStr (case ds_scope s of Current_Run \<Rightarrow> ''current_run''
         | Checkpoint_Window \<Rightarrow> ''checkpoint_window'' | Last_N_Hours \<Rightarrow> ''last_n_hours'')),
      (''registry_seed_duplicates'', JInt (int (ds_seed_duplicates s))),
      (''current_run_duplicates'', JInt (int (ds_run_duplicates s))),
      (''registry_recorded'', JInt (int (ds_registry_recorded s))),
      (''registry_skipped'', JInt (int (ds_registry_skipped s))),
      (''registry_record_stage'', case ds_record_stage s of None \<Rightarrow> JNull | Some t \<Rightarrow> JStr t)]"

text \<open>The stream configuration and the checkpoint handed to the source, with the replay window
  where both ends are given.\<close>

definition fetch_arguments :: "run_opts \<Rightarrow> stream_runtime \<Rightarrow> json option \<Rightarrow> event \<times> event option" where
  "fetch_arguments opts sm ck =
     (let ck0 = (case ck of Some (JObj d) \<Rightarrow> Some d | _ \<Rightarrow> None)
      in case (ro_replay_start opts, ro_replay_end opts) of
           (Some s, Some e) \<Rightarrow>
             (dict_set ''gdc_replay_end_iso'' (JStr e) (dict_set ''gdc_replay_start_iso'' (JStr s) (sm_config sm)),
              Some (dict_set ''gdc_backfill_end_iso'' (JStr e) (dict_set ''gdc_backfill_start_iso'' (JStr s)
                      (case ck0 of None \<Rightarrow> [] | Some d \<Rightarrow> d))))
         | _ \<Rightarrow> (sm_config sm, ck0))"

text \<open>Extraction, without the root path where an event does not have it; the flag tells that the
  fallback was taken.\<close>

definition extract_with_fallback :: "run_env \<Rightarrow> stream_runtime \<Rightarrow> json \<Rightarrow> event list result \<times> bool" where
  "extract_with_fallback env sm raw =
     (let jc = pn_jc (rn_pipe env); r = extract_events jc raw (sm_array_path sm) (sm_root_path sm)
      in if r = Inl Root_Path_Missed \<and> path_is_set (sm_root_path sm)
         then (extract_events jc raw (sm_array_path sm) None, True) else (r, False))"

definition fallback_log :: "stream_runtime \<Rightarrow> event" where
  "fallback_log sm =
     [(''stage'', JStr ''parse''), (''stream_id'', JInt (sm_id sm)), (''status'', JStr ''EVENT_ROOT_PATH_FALLBACK''),
      (''message'', JStr ''event_root_path did not match the latest payload; continuing run without event_root_path projection''),
      (''event_root_path'', JStr (case sm_root_path sm of None \<Rightarrow> [] | Some p \<Rightarrow> p))]"

text \<open>Deduplication of the extracted events; its summary stays on the runner.\<close>

definition dedup_events ::
    "run_env \<Rightarrow> run_opts \<Rightarrow> stream_runtime \<Rightarrow> event \<Rightarrow> json option \<Rightarrow> json list \<Rightarrow> run_world \<Rightarrow> json list \<times> run_world" where
  "dedup_events env opts sm cfg ck raw w =
     (let (events, summary) = apply_stream_dedup (engine_of (pn_jc (rn_pipe env))) (rn_parse_iso env) (rn_now env)
            (if pn_has_db (rn_pipe env) then Some (registry_rows (wo_logs w)) else None) (rn_checkpoint_updated env)
            raw (Some cfg) (sm_id sm) (case ck of Some (JObj d) \<Rightarrow> Some d | _ \<Rightarrow> None) (ro_dedup opts);
          w1 = map_run (\<lambda>s. s\<lparr>rs_dedup := summary\<rparr>) w
      in (events,
          case summary of
            None \<Rightarrow> w1
          | Some s \<Rightarrow> run_log env ([(''stage'', JStr ''dedup_queue_insert''), (''stream_id'', JInt (sm_id sm)),
                        (''message'', JStr ''stream dedup applied'')] @ summary_json s) w1))"

definition collect_source_events ::
    "run_env \<Rightarrow> run_opts \<Rightarrow> stream_runtime \<Rightarrow> json option \<Rightarrow> run_world \<Rightarrow> (run_error + json list) \<times> run_world" where
  "collect_source_events env opts sm ck w =
     (let (cfg, fetch_ck) = fetch_arguments opts sm ck; stype = py_upper (py_strip (sm_source_type sm))
      in case rn_fetch env stype (sm_source_config sm) cfg fetch_ck of
           Inl (t, m) \<Rightarrow> (Inl (Source_Raised t m), w)
         | Inr raw \<Rightarrow>
             (let w1 = run_log env [(''stage'', JStr ''source_fetch''), (''stream_id'', JInt (sm_id sm)),
                         (''message'', JStr ''source fetch completed''), (''source_type'', JStr stype)] w;
                  (res, fell_back) = extract_with_fallback env sm raw;
                  w2 = (if fell_back then run_log env (fallback_log sm) w1 else w1)
              in case res of
                   Inl e \<Rightarrow> (Inl (Extract_Raised e), w2)
                 | Inr evs \<Rightarrow>
                     (let w3 = run_log env [(''stage'', JStr ''parse''), (''stream_id'', JInt (sm_id sm)),
                                 (''message'', JStr ''events extracted''),
                                 (''extracted_event_count'', JInt (int (length evs)))] w2;
                          (events, w4) = dedup_events env opts sm cfg ck (map JObj evs) w3
                      in (Inr events, w4))))"

section \<open>The batch before the routes\<close>

text \<open>The stream's own transform, which only aligns the paths of the drift policy; where it raises,
  the extracted events are used.\<close>

definition project_stream_transform :: "run_env \<Rightarrow> stream_runtime \<Rightarrow> json list \<Rightarrow> json list" where
  "project_stream_transform env sm events =
     (if events = [] then []
      else if sm_field_mappings sm = [] \<and> sm_enrichment sm = [] then events
      else (let p = rn_pipe env
            in case apply_mappings_with_results (pn_jc p) (pn_rx p) (pn_ja p) (sm_field_mappings sm) events of
                 Inl e \<Rightarrow> events
               | Inr rs \<Rightarrow>
                   (if sm_enrichment sm = [] then map (JObj \<circ> ar_event) rs
                    else (case execute_enrichments_batch (pn_enrich p)
                                 (if sm_override_policy sm = [] then ''KEEP_EXISTING'' else sm_override_policy sm)
                                 (sm_enrichment sm) (map ar_event rs) of
                            Inl e \<Rightarrow> events | Inr (evs, ws) \<Rightarrow> map JObj evs))))"

definition apply_schema_drift_policy ::
    "run_env \<Rightarrow> stream_runtime \<Rightarrow> json list \<Rightarrow> json list option \<Rightarrow> drift_result option" where
  "apply_schema_drift_policy env sm events findings =
     (if events = [] \<or> \<not> rn_drift_ok env then None
      else Some (apply_schema_drift_policy_to_batch (engine_of (pn_jc (rn_pipe env)))
             (fst (rn_drift_limits env)) (snd (rn_drift_limits env)) field_mappings_meta_keys (rn_drift_enabled env) True
             (sm_id sm) (Some (sm_config sm)) (sm_field_mappings sm) (sm_enrichment sm) (rn_open_drifts env)
             (rn_protected_paths env) events findings))"

section \<open>The routes\<close>

record tx_stats =
  tx_extracted :: nat
  tx_mapped :: nat
  tx_enriched :: nat

definition metrics_fields :: "route_metrics \<Rightarrow> event" where
  "metrics_fields m =
     [(''route_count'', JInt (int (mx_routes m))), (''route_transform_count'', JInt (int (mx_transforms m))),
      (''route_transform_fallback_count'', JInt (int (mx_fallbacks m))),
      (''route_protection_count'', JInt (int (mx_protections m))),
      (''route_auto_protect_count'', JInt (int (mx_auto_protect m))),
      (''route_classification_count'', JInt (int (mx_classified m))),
      (''route_classification_override_count'', JInt (int (mx_class_overrides m))),
      (''route_delivery_attempt_count'', JInt (int (dc_attempt (mx_delivery m)))),
      (''route_delivery_success_count'', JInt (int (dc_success (mx_delivery m)))),
      (''route_delivery_failure_count'', JInt (int (dc_failure (mx_delivery m))))]"

definition routes_log :: "stream_runtime \<Rightarrow> pipeline_result \<Rightarrow> event" where
  "routes_log sm p =
     [(''stage'', JStr ''route_processing_loop''), (''stream_id'', JInt (sm_id sm)),
      (''message'', JStr ''route processing pipeline complete'')] @ metrics_fields (pl_metrics p) @
     [(''routes_processed'', JInt (int (length (pl_stages p)))),
      (''events_modified'', JBool (list_ex sg_modified (pl_stages p)))]"

text \<open>The caches belong to the batch.\<close>

definition fresh_caches :: "pipe_state \<Rightarrow> pipe_state" where
  "fresh_caches p = p\<lparr>ps_transforms := [], ps_transform_count := 0, ps_protection := (ps_protection p)\<lparr>pss_cache := [], pss_executions := 0\<rparr>\<rparr>"

definition execute_route_pipeline ::
    "run_env \<Rightarrow> stream_runtime \<Rightarrow> json list \<Rightarrow> json list option \<Rightarrow> tx_stats \<Rightarrow> run_world \<Rightarrow>
     (run_error + pipeline_result \<times> tx_stats) \<times> run_world" where
  "execute_route_pipeline env sm events findings stats w =
     (let drift = apply_schema_drift_policy env sm (project_stream_transform env sm events) findings;
          sb = build_shared_batch_context sm events findings drift;
          (ctxs, fallbacks) = build_route_runtime_contexts sm;
          send = deliver_single_route (pn_send (rn_pipe env)) (map rt_route (sm_routes sm));
          (res, st) = process_routes (rn_pipe env) (Some send) sb ctxs (base_metrics (length ctxs) fallbacks)
                        (fresh_caches (wo_pipe w));
          w1 = w\<lparr>wo_pipe := st\<rparr>
      in case res of
           Inl e \<Rightarrow> (Inl (Pipeline_Raised e), w1)
         | Inr p \<Rightarrow>
             (let n = (case pl_stages p of [] \<Rightarrow> None | r # _ \<Rightarrow> Some (length (sg_events r)));
                  stats1 = (case n of None \<Rightarrow> stats | Some k \<Rightarrow> stats\<lparr>tx_mapped := k, tx_enriched := k\<rparr>)
              in (Inr (p, stats1), run_log env (routes_log sm p) w1)))"

definition evaluate_dynamic_routes ::
    "run_env \<Rightarrow> stream_runtime \<Rightarrow> json list \<Rightarrow> json list option \<Rightarrow> dynamic_result option" where
  "evaluate_dynamic_routes env sm events findings =
     (if events = [] then None
      else map_option (\<lambda>rules. evaluate_dynamic_batch (pn_detect (rn_pipe env)) (rn_resolve env) (sm_id sm) (Some rules)
             (se_destinations (pn_send (rn_pipe env))) events findings) (rn_dynamic env))"

section \<open>The end of a run\<close>

record run_summary =
  su_outcome :: string
  su_stats :: "tx_stats option"
  su_delivered :: "nat option"
  su_skipped :: "nat option"
  su_checkpoint_updated :: bool
  su_message :: "string option"
  su_error_code :: "string option"
  su_run_id :: "string option"
  su_dry_run :: bool
  su_metrics :: "route_metrics option"
  su_dedup :: "dedup_summary option"
  su_committed :: bool

definition new_run_summary :: "run_opts \<Rightarrow> run_summary" where
  "new_run_summary opts =
     \<lparr>su_outcome = ''completed'', su_stats = None, su_delivered = None, su_skipped = None, su_checkpoint_updated = False,
      su_message = None, su_error_code = None, su_run_id = None, su_dry_run = ro_dry_run opts, su_metrics = None,
      su_dedup = None, su_committed = False\<rparr>"

text \<open>The counts and marks of a \<open>run_complete\<close> entry.\<close>

record run_counts =
  rc_input :: nat
  rc_stats :: "tx_stats option"
  rc_processed :: nat
  rc_delivered :: nat
  rc_failed :: nat
  rc_partial :: bool
  rc_reason :: string
  rc_retry :: bool
  rc_before :: "event option"
  rc_after :: "event option"
  rc_updated :: bool

definition opt_event :: "event option \<Rightarrow> json" where
  "opt_event x = (case x of None \<Rightarrow> JNull | Some e \<Rightarrow> JObj e)"

definition run_complete_log :: "stream_runtime \<Rightarrow> string \<Rightarrow> run_counts \<Rightarrow> event" where
  "run_complete_log sm ctype c =
     (let stat = (\<lambda>f. case rc_stats c of None \<Rightarrow> JInt 0 | Some t \<Rightarrow> JInt (int (f t)))
      in [(''stage'', JStr ''run_complete''), (''stream_id'', JInt (sm_id sm)), (''input_events'', JInt (int (rc_input c))),
          (''mapped_events'', stat tx_mapped), (''success_events'', JInt (int (rc_delivered c))),
          (''extracted_event_count'', stat tx_extracted), (''mapped_event_count'', stat tx_mapped),
          (''delivered_event_count'', JInt (int (rc_delivered c))), (''checkpoint_before'', opt_event (rc_before c)),
          (''checkpoint_after'', opt_event (rc_after c)), (''checkpoint_type'', JStr ctype),
          (''checkpoint_updated'', JBool (rc_updated c)), (''processed_events'', JInt (int (rc_processed c))),
          (''delivered_events'', JInt (int (rc_delivered c))), (''failed_events'', JInt (int (rc_failed c))),
          (''partial_success'', JBool (rc_partial c)), (''update_reason'', JStr (rc_reason c)),
          (''retry_pending'', JBool (rc_retry c))])"

definition no_delivery :: "string \<Rightarrow> nat \<Rightarrow> tx_stats option \<Rightarrow> event option \<Rightarrow> event option \<Rightarrow> run_counts" where
  "no_delivery reason n stats before aft =
     \<lparr>rc_input = n, rc_stats = stats, rc_processed = n, rc_delivered = 0, rc_failed = 0, rc_partial = False,
      rc_reason = reason, rc_retry = False, rc_before = before, rc_after = aft, rc_updated = False\<rparr>"

definition finalize_dedup :: "json list \<Rightarrow> bool \<Rightarrow> run_world \<Rightarrow> run_world" where
  "finalize_dedup events dry w =
     map_run (\<lambda>s. s\<lparr>rs_dedup := finalize_dedup_registry_summary events (rs_dedup s) dry\<rparr>) w"

text \<open>\<open>_update_checkpoint_after_success\<close>: the checkpoint is staged, and logged; its value is the
  second component.\<close>

definition stage_checkpoint ::
    "run_env \<Rightarrow> stream_runtime \<Rightarrow> string \<Rightarrow> json list \<Rightarrow> run_counts \<Rightarrow> int list \<Rightarrow> run_world \<Rightarrow> event \<times> run_world" where
  "stage_checkpoint env sm ctype events c failed_routes w =
     (let v = checkpoint_value_of (engine_of (pn_jc (rn_pipe env))) (sm_config sm) (obj_of (last events))
      in (v, run_log env
           [(''stage'', JStr ''checkpoint_update''), (''stream_id'', JInt (sm_id sm)),
            (''message'', JStr ''checkpoint updated after successful destination delivery''),
            (''checkpoint_type'', JStr ctype), (''checkpoint_before'', opt_event (slim_checkpoint_for_log (rc_before c))),
            (''checkpoint_after'', opt_event (slim_checkpoint_for_log (Some v))),
            (''processed_events'', JInt (int (rc_processed c))), (''delivered_events'', JInt (int (rc_delivered c))),
            (''failed_events'', JInt (int (rc_failed c))), (''partial_success'', JBool (rc_partial c)),
            (''update_reason'', JStr (if failed_routes = [] then ''full_delivery_success'' else ''partial_delivery_success'')),
            (''correlated_route_failures'', JList (map (\<lambda>r. JObj [(''route_id'', JInt r),
                (''failure_kind'', JStr ''log_and_continue_absorbed'')]) failed_routes))]
           (w\<lparr>wo_pending := Some (ctype, v)\<rparr>)))"

definition delivery_message :: "nat \<Rightarrow> nat \<Rightarrow> json list \<Rightarrow> string option" where
  "delivery_message failures successes delivered =
     (let n = ''Destination delivery failed ('' @ int_str (int failures) @ '' route failure(s)); ''
      in if failures = 0 then None
         else if successes = 0 \<and> delivered = [] then Some (n @ ''no events delivered'')
         else if successes = 0 then Some (n @ ''failure absorbed by route failure policy'')
         else Some (''Partial destination delivery failure ('' @ int_str (int failures) @ '' route failure(s))''))"

definition batch_counts ::
    "run_opts \<Rightarrow> event option \<Rightarrow> json list \<Rightarrow> tx_stats \<Rightarrow> json list \<Rightarrow> int list \<Rightarrow> run_counts" where
  "batch_counts opts before events stats good failed =
     (let partial = (good \<noteq> [] \<and> (failed \<noteq> [] \<or> length good < length events))
      in \<lparr>rc_input = length events, rc_stats = Some stats, rc_processed = length events, rc_delivered = length good,
          rc_failed = length events - length good, rc_partial = partial,
          rc_reason = (if good = [] then ''skipped_due_to_failure''
                       else if partial then ''partial_delivery_success'' else ''full_delivery_success''),
          rc_retry = (events \<noteq> [] \<and> good = []), rc_before = before, rc_after = None,
          rc_updated = (good \<noteq> [] \<and> ro_persist opts)\<rparr>)"

definition batch_summary ::
    "run_env \<Rightarrow> run_opts \<Rightarrow> pipeline_result \<Rightarrow> tx_stats \<Rightarrow> json list \<Rightarrow> dedup_summary option \<Rightarrow> run_summary" where
  "batch_summary env opts p stats good dedup =
     (let m = mx_delivery (pl_metrics p)
      in (new_run_summary opts)\<lparr>su_stats := Some stats, su_delivered := Some (length good),
           su_checkpoint_updated := (good \<noteq> [] \<and> ro_persist opts),
           su_message := delivery_message (dc_failure m) (dc_success m) good,
           su_run_id := Some (rn_uuid env), su_metrics := Some (pl_metrics p), su_dedup := dedup\<rparr>)"

text \<open>After the pipeline: dynamic routes, outcome, checkpoint, registry, \<open>run_complete\<close>.\<close>

definition finish_batch ::
    "run_env \<Rightarrow> run_opts \<Rightarrow> stream_runtime \<Rightarrow> string \<Rightarrow> event option \<Rightarrow> json list \<Rightarrow> json list option \<Rightarrow>
     pipeline_result \<Rightarrow> tx_stats \<Rightarrow> run_world \<Rightarrow> run_summary \<times> run_world" where
  "finish_batch env opts sm ctype before events findings p stats w =
     (let ck_events = (if pl_checkpoint p \<noteq> [] then pl_checkpoint p else events);
          out_events = (if pl_delivery p \<noteq> [] then pl_delivery p else events);
          dyn = evaluate_dynamic_routes env sm out_events findings;
          outcome = route_delivery_fan_out_outcome (map (\<lambda>r. (sg_route r, Some (sg_delivery r))) (pl_stages p)) ck_events;
          (fan, s) = fan_out_after_pipeline (pn_send (rn_pipe env)) (map rt_route (sm_routes sm)) out_events dyn outcome (wo_run w);
          w1 = map_run (\<lambda>_. s) w;
          good = fan_events fan;
          c = batch_counts opts before events stats good (fan_log_continue fan);
          (aft, w2) = (if good \<noteq> [] \<and> ro_persist opts
                       then map_prod Some id (stage_checkpoint env sm ctype ck_events c (fan_log_continue fan) w1)
                       else (None, w1));
          w3 = finalize_dedup good False w2
      in (batch_summary env opts p stats good (rs_dedup (wo_run w3)),
          run_log env (run_complete_log sm ctype (c\<lparr>rc_after := aft\<rparr>)) w3))"

text \<open>The run from the source limiter on. A rate limited run, a run without events and a dry run
  end early.\<close>

definition run_body ::
    "run_env \<Rightarrow> run_opts \<Rightarrow> stream_runtime \<Rightarrow> string \<Rightarrow> json option \<Rightarrow> event option \<Rightarrow> run_world \<Rightarrow>
     (run_error + run_summary) \<times> run_world" where
  "run_body env opts sm ctype ck before w =
     (let (ok, ws) = source_allow (rn_clock env) (wo_source w) (sm_id sm) (sm_rate_limit sm);
          w1 = w\<lparr>wo_source := ws\<rparr>;
          base = (new_run_summary opts)\<lparr>su_run_id := Some (rn_uuid env)\<rparr>
      in if \<not> ok then
           (Inr base,
            run_log env (run_complete_log sm ctype (no_delivery ''source_rate_limited'' 0 None before before))
              (run_log env [(''stage'', JStr ''source_rate_limited''), (''stream_id'', JInt (sm_id sm)),
                   (''message'', JStr ''source rate limited'')]
                 (map_run (set_stream_status (pn_send (rn_pipe env)) ''RATE_LIMITED_SOURCE'') w1)))
         else
           (case collect_source_events env opts sm ck w1 of
              (Inl e, w2) \<Rightarrow> (Inl e, w2)
            | (Inr events, w2) \<Rightarrow>
                (if events = [] then
                   (let stats = \<lparr>tx_extracted = 0, tx_mapped = 0, tx_enriched = 0\<rparr>;
                        w3 = finalize_dedup [] (ro_dry_run opts) w2
                    in (Inr (base\<lparr>su_outcome := ''no_events'', su_stats := Some stats, su_delivered := Some 0,
                          su_message := Some ''No new events extracted'', su_dedup := rs_dedup (wo_run w3)\<rparr>),
                        run_log env (run_complete_log sm ctype (no_delivery ''no_events_extracted'' 0 (Some stats) before None)) w3))
                 else
                   (let findings = rn_detect env events;
                        stats = \<lparr>tx_extracted = length events, tx_mapped = 0, tx_enriched = 0\<rparr>
                    in if ro_dry_run opts then
                         (let w3 = finalize_dedup events True w2
                          in (Inr (base\<lparr>su_outcome := ''dry_run'', su_stats := Some stats, su_delivered := Some 0,
                                su_skipped := Some (length events),
                                su_message := Some ''Dry run: destination delivery skipped'', su_dedup := rs_dedup (wo_run w3)\<rparr>),
                              run_log env (run_complete_log sm ctype (no_delivery ''dry_run_no_delivery'' (length events) (Some stats) before None)) w3))
                       else
                         (case execute_route_pipeline env sm events findings stats w2 of
                            (Inl e, w3) \<Rightarrow> (Inl e, w3)
                          | (Inr (p, stats1), w3) \<Rightarrow>
                              (let (s, w4) = finish_batch env opts sm ctype before events findings p stats1 w3 in (Inr s, w4)))))))"

text \<open>The exception path drops what was not committed and writes the failure by itself.\<close>

definition fail_run :: "run_env \<Rightarrow> stream_runtime \<Rightarrow> run_error \<Rightarrow> run_world \<Rightarrow> run_world" where
  "fail_run env sm e w =
     persist_failure_telemetry env sm (failure_payload env sm e)
       ((map_run (\<lambda>s. s\<lparr>rs_logs := [], rs_status := [], rs_disabled := []\<rparr>) w)\<lparr>wo_pending := None\<rparr>)"

text \<open>The exception path and the final commit. Where this commit fails, its error is raised without a
  failure entry; the staged writes other than the log entries stay on the runner until the next
  run resets them.\<close>

definition finish_run ::
    "run_env \<Rightarrow> stream_runtime \<Rightarrow> (run_error + run_summary) \<Rightarrow> run_world \<Rightarrow> (run_error + run_summary) \<times> run_world" where
  "finish_run env sm res w =
     (case res of
        Inl e \<Rightarrow> (Inl e, fail_run env sm e w)
      | Inr s \<Rightarrow>
          (case flush_pending_writes env sm w of
             (True, w') \<Rightarrow> (Inr (s\<lparr>su_committed := True\<rparr>), w')
           | (False, w') \<Rightarrow> (Inl Commit_Raised, map_run (\<lambda>s. s\<lparr>rs_logs := []\<rparr>) w')))"

text \<open>What the log shows of a checkpoint, and the entry of a run.\<close>

definition checkpoint_snapshot :: "json option \<Rightarrow> event option" where
  "checkpoint_snapshot ck = (case ck of Some (JObj d) \<Rightarrow> slim_checkpoint_for_log (Some d) | _ \<Rightarrow> None)"

definition started_log :: "stream_runtime \<Rightarrow> string \<Rightarrow> event option \<Rightarrow> event" where
  "started_log sm ctype before =
     [(''stage'', JStr ''run_started''), (''stream_id'', JInt (sm_id sm)), (''message'', JStr ''stream run started''),
      (''checkpoint_type'', JStr ctype), (''checkpoint_before'', opt_event before)]"

text \<open>\<open>run\<close>; \<open>given_ck\<close> is the checkpoint of the stream context.\<close>

definition run ::
    "run_env \<Rightarrow> run_opts \<Rightarrow> stream_runtime \<Rightarrow> json option \<Rightarrow> run_world \<Rightarrow> (run_error + run_summary) \<times> run_world" where
  "run env0 opts sm given_ck w =
     (let w0 = reset_pending w
      in if \<not> rn_lock_free env0 then
           (Inr ((new_run_summary opts)\<lparr>su_outcome := ''skipped_lock'', su_message := Some ''stream already running'',
                   su_error_code := Some ''RUN_ALREADY_ACTIVE''\<rparr>), w0)
         else
           (let env = entered env0 opts sm;
                (ctype, ck) = resolve_checkpoint given_ck (if rn_read_ok env then Some (wo_checkpoints w0) else None)
                                (wo_memory w0) (sm_id sm);
                before = checkpoint_snapshot ck;
                w1 = run_log env (started_log sm ctype before) w0;
                (res, w3) = (case commit_lifecycle_entry env w1 of
                               Inl e \<Rightarrow> (Inl e, w1)
                             | Inr w2 \<Rightarrow> run_body env opts sm ctype ck before w2)
            in finish_run env sm res w3))"

end
