(* ===== verification/Run_Properties.thy ===== *)
theory Run_Properties
  imports Stream_Run
begin

text \<open>
  What a run of a stream guarantees: what a failed run and a dry run leave alone, when the checkpoint
  moves, what the delivery log keeps of a run, and what the dynamic routes get of a batch that no
  route delivered. The sample stream at the end is one route with one event.
\<close>

section \<open>Frames\<close>

text \<open>What is committed, and what the steps of a run leave alone.\<close>

abbreviation committed :: "run_world \<Rightarrow> stored_log list \<times> checkpoint_table \<times> (int, string) dict \<times> int list" where
  "committed w \<equiv> (wo_logs w, wo_checkpoints w, wo_statuses w, wo_disabled w)"

abbreviation run_sends :: "run_world \<Rightarrow> (send_call \<times> exn option) list" where
  "run_sends w \<equiv> rs_sends (wo_run w)"

lemma map_run_simps [simp]:
  "wo_logs (map_run f w) = wo_logs w" "wo_checkpoints (map_run f w) = wo_checkpoints w"
  "wo_statuses (map_run f w) = wo_statuses w" "wo_disabled (map_run f w) = wo_disabled w"
  "wo_pending (map_run f w) = wo_pending w" "wo_run (map_run f w) = f (wo_run w)"
  by (simp_all add: map_run_def)

lemma run_log_simps [simp]:
  "wo_logs (run_log env p w) = wo_logs w" "wo_checkpoints (run_log env p w) = wo_checkpoints w"
  "wo_statuses (run_log env p w) = wo_statuses w" "wo_disabled (run_log env p w) = wo_disabled w"
  "wo_pending (run_log env p w) = wo_pending w" "run_sends (run_log env p w) = run_sends w"
  by (simp_all add: run_log_def)

lemma reset_pending_simps [simp]:
  "wo_logs (reset_pending w) = wo_logs w" "wo_checkpoints (reset_pending w) = wo_checkpoints w"
  "wo_statuses (reset_pending w) = wo_statuses w" "wo_disabled (reset_pending w) = wo_disabled w"
  "wo_pending (reset_pending w) = None" "run_sends (reset_pending w) = run_sends w"
  "rs_logs (wo_run (reset_pending w)) = []"
  by (simp_all add: reset_pending_def)

lemma finalize_dedup_simps [simp]:
  "wo_logs (finalize_dedup evs dry w) = wo_logs w" "wo_checkpoints (finalize_dedup evs dry w) = wo_checkpoints w"
  "wo_statuses (finalize_dedup evs dry w) = wo_statuses w" "wo_disabled (finalize_dedup evs dry w) = wo_disabled w"
  "wo_pending (finalize_dedup evs dry w) = wo_pending w"
  "run_sends (finalize_dedup evs dry w) = run_sends w"
  by (simp_all add: finalize_dedup_def)

lemma dedup_events_frame:
  "dedup_events env opts sm cfg ck raw w = (evs, w') \<Longrightarrow>
     committed w' = committed w \<and> wo_pending w' = wo_pending w \<and> run_sends w' = run_sends w"
  by (auto simp: dedup_events_def Let_def split: prod.splits option.splits)

lemma collect_frame:
  "collect_source_events env opts sm ck w = (res, w') \<Longrightarrow>
     committed w' = committed w \<and> wo_pending w' = wo_pending w \<and> run_sends w' = run_sends w"
  by (auto simp: collect_source_events_def Let_def split: prod.splits sum.splits if_splits dest: dedup_events_frame)

lemma execute_frame:
  "execute_route_pipeline env sm evs fs stats w = (res, w') \<Longrightarrow>
     committed w' = committed w \<and> wo_pending w' = wo_pending w"
  by (auto simp: execute_route_pipeline_def Let_def split: prod.splits sum.splits)

lemma stage_checkpoint_simps [simp]:
  "wo_logs (snd (stage_checkpoint env sm t evs c failed w)) = wo_logs w"
  "wo_checkpoints (snd (stage_checkpoint env sm t evs c failed w)) = wo_checkpoints w"
  "wo_statuses (snd (stage_checkpoint env sm t evs c failed w)) = wo_statuses w"
  "wo_disabled (snd (stage_checkpoint env sm t evs c failed w)) = wo_disabled w"
  "run_sends (snd (stage_checkpoint env sm t evs c failed w)) = run_sends w"
  "wo_pending (snd (stage_checkpoint env sm t evs c failed w)) =
     Some (t, checkpoint_value_of (engine_of (pn_jc (rn_pipe env))) (sm_config sm) (obj_of (last evs)))"
  by (simp_all add: stage_checkpoint_def Let_def)

lemma new_run_summary_simps [simp]:
  "su_checkpoint_updated (new_run_summary opts) = False"
  by (simp add: new_run_summary_def)

text \<open>The end of a batch stages a checkpoint exactly when it has successful events and may persist.\<close>

lemma finish_batch_cases:
  assumes "finish_batch env opts sm t before evs fs p stats w = (s, w')"
  obtains fan st where
    "fan_out_after_pipeline (pn_send (rn_pipe env)) (map rt_route (sm_routes sm))
       (if pl_delivery p \<noteq> [] then pl_delivery p else evs)
       (evaluate_dynamic_routes env sm (if pl_delivery p \<noteq> [] then pl_delivery p else evs) fs)
       (route_delivery_fan_out_outcome (map (\<lambda>r. (sg_route r, Some (sg_delivery r))) (pl_stages p))
          (if pl_checkpoint p \<noteq> [] then pl_checkpoint p else evs)) (wo_run w) = (fan, st)"
    "committed w' = committed w" "run_sends w' = rs_sends st"
    "su_checkpoint_updated s = (fan_events fan \<noteq> [] \<and> ro_persist opts)"
    "wo_pending w' = (if fan_events fan \<noteq> [] \<and> ro_persist opts
       then Some (t, checkpoint_value_of (engine_of (pn_jc (rn_pipe env))) (sm_config sm)
                       (obj_of (last (if pl_checkpoint p \<noteq> [] then pl_checkpoint p else evs))))
       else wo_pending w)"
proof -
  let ?out = "if pl_delivery p \<noteq> [] then pl_delivery p else evs"
  let ?ck = "if pl_checkpoint p \<noteq> [] then pl_checkpoint p else evs"
  obtain fan st where fan: "fan_out_after_pipeline (pn_send (rn_pipe env)) (map rt_route (sm_routes sm)) ?out
       (evaluate_dynamic_routes env sm ?out fs)
       (route_delivery_fan_out_outcome (map (\<lambda>r. (sg_route r, Some (sg_delivery r))) (pl_stages p)) ?ck) (wo_run w) = (fan, st)"
    by (rule that[OF prod.collapse[symmetric]])
  let ?c = "batch_counts opts before evs stats (fan_events fan) (fan_log_continue fan)"
  let ?ok = "fan_events fan \<noteq> [] \<and> ro_persist opts"
  let ?step = "if ?ok then map_prod Some id (stage_checkpoint env sm t ?ck ?c (fan_log_continue fan) (map_run (\<lambda>_. st) w))
    else (None, map_run (\<lambda>_. st) w)"
  obtain aft w2 where step: "?step = (aft, w2)" by (rule that[OF prod.collapse[symmetric]])
  have s: "s = batch_summary env opts p stats (fan_events fan) (rs_dedup (wo_run (finalize_dedup (fan_events fan) False w2)))"
    and w': "w' = run_log env (run_complete_log sm t (?c\<lparr>rc_after := aft\<rparr>)) (finalize_dedup (fan_events fan) False w2)"
    using assms[unfolded finish_batch_def Let_def fan prod.case step] by blast+
  have "w2 = snd ?step" unfolding step by simp
  then have w2: "w2 = (if ?ok then snd (stage_checkpoint env sm t ?ck ?c (fan_log_continue fan) (map_run (\<lambda>_. st) w))
      else map_run (\<lambda>_. st) w)"
    by (simp only: if_distrib[of snd] snd_map_prod id_apply snd_conv)
  show thesis
  proof (rule that[OF fan])
    show "committed w' = committed w" unfolding w' w2 by (cases ?ok) simp_all
    show "run_sends w' = rs_sends st" unfolding w' w2 by (cases ?ok) simp_all
    show "su_checkpoint_updated s = ?ok" unfolding s by (simp add: batch_summary_def Let_def)
    show "wo_pending w' = (if ?ok then Some (t, checkpoint_value_of (engine_of (pn_jc (rn_pipe env))) (sm_config sm) (obj_of (last ?ck)))
        else wo_pending w)"
      unfolding w' w2 by (cases ?ok) auto
  qed
qed

text \<open>How the part of a run under the lock ends.\<close>

lemma run_body_cases:
  assumes "run_body env opts sm t ck before w = (res, w')"
  obtains (idle) s where "res = Inr s" "committed w' = committed w" "wo_pending w' = wo_pending w"
      "run_sends w' = run_sends w" "\<not> su_checkpoint_updated s"
  | (unfetched) e where "res = Inl e" "committed w' = committed w" "run_sends w' = run_sends w"
  | (broken) evs w2 e where "\<not> ro_dry_run opts" "res = Inl e" "committed w2 = committed w" "run_sends w2 = run_sends w"
      "execute_route_pipeline env sm evs (rn_detect env evs) \<lparr>tx_extracted = length evs, tx_mapped = 0, tx_enriched = 0\<rparr> w2
         = (Inl e, w')"
  | (finished) evs w2 p stats w3 s where "\<not> ro_dry_run opts" "evs \<noteq> []" "res = Inr s" "committed w2 = committed w"
      "wo_pending w2 = wo_pending w" "run_sends w2 = run_sends w"
      "execute_route_pipeline env sm evs (rn_detect env evs) \<lparr>tx_extracted = length evs, tx_mapped = 0, tx_enriched = 0\<rparr> w2
         = (Inr (p, stats), w3)"
      "finish_batch env opts sm t before evs (rn_detect env evs) p stats w3 = (s, w')"
proof (cases "fst (source_allow (rn_clock env) (wo_source w) (sm_id sm) (sm_rate_limit sm))")
  case False
  then have "\<exists>s. res = Inr s \<and> \<not> su_checkpoint_updated s \<and> committed w' = committed w \<and>
      wo_pending w' = wo_pending w \<and> run_sends w' = run_sends w"
    using assms by (auto simp: run_body_def set_stream_status_def split: prod.splits)
  then show thesis using idle by blast
next
  case True
  obtain ws where lim: "source_allow (rn_clock env) (wo_source w) (sm_id sm) (sm_rate_limit sm) = (True, ws)"
    using True by (cases "source_allow (rn_clock env) (wo_source w) (sm_id sm) (sm_rate_limit sm)") simp
  let ?w1 = "w\<lparr>wo_source := ws\<rparr>"
  obtain r w2 where col: "collect_source_events env opts sm ck ?w1 = (r, w2)" by (rule that[OF prod.collapse[symmetric]])
  have w2: "committed w2 = committed w" "wo_pending w2 = wo_pending w" "run_sends w2 = run_sends w"
    using collect_frame[OF col] by simp_all
  show thesis
  proof (cases r)
    case (Inl e)
    then show thesis using assms lim col w2 by (intro unfetched[of e]) (simp_all add: run_body_def)
  next
    case (Inr evs)
    show thesis
    proof (cases "evs = [] \<or> ro_dry_run opts")
      case True
      then have "\<exists>s. res = Inr s \<and> \<not> su_checkpoint_updated s \<and> committed w' = committed w \<and>
          wo_pending w' = wo_pending w \<and> run_sends w' = run_sends w"
        using assms lim col w2 Inr by (cases "evs = []") (auto simp: run_body_def Let_def)
      then show thesis using idle by blast
    next
      case False
      let ?stats = "\<lparr>tx_extracted = length evs, tx_mapped = 0, tx_enriched = 0\<rparr>"
      obtain r2 w3 where ex: "execute_route_pipeline env sm evs (rn_detect env evs) ?stats w2 = (r2, w3)"
        by (rule that[OF prod.collapse[symmetric]])
      show thesis
      proof (cases r2)
        case (Inl e)
        then show thesis
          using assms lim col w2 Inr False ex by (intro broken[of e w2 evs]) (simp_all add: run_body_def Let_def)
      next
        case r2: (Inr ps)
        obtain p stats where ps: "ps = (p, stats)" by (cases ps)
        obtain s w4 where fin: "finish_batch env opts sm t before evs (rn_detect env evs) p stats w3 = (s, w4)"
          by (rule that[OF prod.collapse[symmetric]])
        have "res = Inr s" "w' = w4"
          using assms lim col Inr False ex fin r2 ps by (simp_all add: run_body_def Let_def)
        then show thesis
          using finished[of evs s w2 p stats w3] False w2 ex r2 ps fin by simp
      qed
    qed
  qed
qed

lemma run_body_committed:
  assumes "run_body env opts sm t ck before w = (res, w')"
  shows "committed w' = committed w"
  using assms
proof (cases rule: run_body_cases)
  case (broken evs w2 e)
  then show ?thesis using execute_frame[OF broken(5)] by simp
next
  case (finished evs w2 p stats w3 s)
  then show ?thesis using execute_frame[OF finished(7)] by (auto elim: finish_batch_cases)
qed simp_all


section \<open>Commits\<close>

lemma add_rows_simps [simp]:
  "wo_checkpoints (add_rows env ps w) = wo_checkpoints w" "wo_statuses (add_rows env ps w) = wo_statuses w"
  "wo_disabled (add_rows env ps w) = wo_disabled w" "wo_pending (add_rows env ps w) = wo_pending w"
  "wo_pipe (add_rows env ps w) = wo_pipe w"
  by (simp_all add: add_rows_def)

lemma row_stage:
  "build_delivery_log_row p = Some r \<Longrightarrow> dict_get p ''stage'' = Some (JStr s) \<Longrightarrow> py_strip s = s \<Longrightarrow> lr_stage r = s"
  by (auto simp: build_delivery_log_row_def Let_def split: if_splits prod.splits)

lemma stage_is_simp: "dict_get p ''stage'' = Some (JStr s) \<Longrightarrow> stage_is t p \<longleftrightarrow> s = t"
  by (simp add: stage_is_def)

lemma add_row:
  assumes "dict_get p ''stage'' = Some (JStr s)" "py_strip s = s" "s \<in> set persisted_stages"
  shows "\<exists>l. wo_logs (add_rows env [p] w) = wo_logs w @ [l] \<and> lr_stage (sl_row l) = s"
proof -
  obtain r where r: "build_delivery_log_row p = Some r"
    using build_row_persisted[OF assms(1)] assms(2,3) by auto
  then show ?thesis using row_stage[OF r assms(1,2)] by (auto simp: add_rows_def List.map_filter_simps)
qed

lemma run_stages:
  "py_strip ''run_started'' = ''run_started''" "''run_started'' \<in> set persisted_stages"
  "py_strip ''run_failed'' = ''run_failed''" "''run_failed'' \<in> set persisted_stages"
  by code_simp+

text \<open>The entry of a run is the only payload then kept, and it is committed at once.\<close>

lemma entry_committed:
  assumes "dict_get p ''stage'' = Some (JStr ''run_started'')"
    and "commit_lifecycle_entry env (run_log env p (reset_pending w)) = res"
  shows "(\<not> rn_entry_ok env \<and> res = Inl Commit_Raised) \<or>
    (\<exists>w' l. res = Inr w' \<and> wo_logs w' = wo_logs w @ [l] \<and> lr_stage (sl_row l) = ''run_started'' \<and>
       wo_checkpoints w' = wo_checkpoints w \<and> wo_statuses w' = wo_statuses w \<and> wo_disabled w' = wo_disabled w \<and>
       wo_pending w' = None \<and> run_sends w' = run_sends w)"
proof -
  obtain q where q: "rs_logs (wo_run (run_log env p (reset_pending w))) = [q]" "dict_get q ''stage'' = Some (JStr ''run_started'')"
  proof -
    let ?p1 = "case se_run_id (pn_send (rn_pipe env)) of None \<Rightarrow> p | Some r \<Rightarrow> if r = [] then p else dict_set ''run_id'' (JStr r) p"
    let ?q = "case se_connector (pn_send (rn_pipe env)) of None \<Rightarrow> ?p1 | Some c \<Rightarrow> dict_set ''connector_id'' (JInt c) ?p1"
    have st: "dict_get ?q ''stage'' = Some (JStr ''run_started'')"
      using assms(1) by (auto simp: dict_simps split: option.splits)
    have "build_delivery_log_row ?q \<noteq> None"
      using build_row_persisted[OF st] run_stages by auto
    then have "rs_logs (wo_run (run_log env p (reset_pending w))) = [?q]"
      by (simp add: run_log_def emit_log_def log_payload_def persist_delivery_log_def Let_def)
    then show thesis using st that by blast
  qed
  have sel: "stage_is ''run_started'' q" using q(2) by (simp add: stage_is_simp)
  obtain l where "wo_logs (add_rows env [q] (run_log env p (reset_pending w))) = wo_logs w @ [l]"
    "lr_stage (sl_row l) = ''run_started''"
    using add_row[OF q(2) run_stages(1,2), of env "run_log env p (reset_pending w)"] by auto
  moreover have "res = (if \<not> rn_entry_ok env then Inl Commit_Raised
      else Inr (map_run (\<lambda>s. s\<lparr>rs_logs := filter (\<lambda>p. \<not> stage_is ''run_started'' p) (rs_logs s)\<rparr>)
                 (add_rows env [q] (run_log env p (reset_pending w)))))"
    using sel q(1) assms(2) by (auto simp: commit_lifecycle_entry_def Let_def)
  ultimately show ?thesis by (cases "rn_entry_ok env") auto
qed

lemma fail_run_frame:
  "wo_checkpoints (fail_run env sm e w) = wo_checkpoints w" "wo_statuses (fail_run env sm e w) = wo_statuses w"
  "wo_disabled (fail_run env sm e w) = wo_disabled w" "run_sends (fail_run env sm e w) = run_sends w"
  by (simp_all add: fail_run_def persist_failure_telemetry_def Let_def split: option.splits)

lemma persist_failure_row:
  assumes "rn_failure_ok env"
  shows "\<exists>p'. persist_failure_telemetry env sm p w = add_rows env [p'] w \<and> dict_get p' ''stage'' = dict_get p ''stage''"
proof -
  let ?p1 = "case dict_get p ''run_id'' of None \<Rightarrow> dict_set ''run_id'' (JStr (rn_uuid env)) p
      | Some v \<Rightarrow> if truthy v then p else dict_set ''run_id'' (JStr (rn_uuid env)) p"
  let ?p2 = "case (sm_connector sm, present ?p1 ''connector_id'') of
      (Some c, None) \<Rightarrow> dict_set ''connector_id'' (JInt c) ?p1 | _ \<Rightarrow> ?p1"
  have "dict_get ?p1 ''stage'' = dict_get p ''stage''" by (auto simp: dict_simps split: option.splits)
  then have "dict_get ?p2 ''stage'' = dict_get p ''stage''"
    by (cases "sm_connector sm"; cases "present ?p1 ''connector_id''") (simp_all add: dict_simps)
  moreover have "persist_failure_telemetry env sm p w = add_rows env [?p2] w"
    using assms unfolding persist_failure_telemetry_def Let_def by (simp only: not_True_eq_False if_False)
  ultimately show ?thesis by blast
qed

lemma fail_run_logs:
  "\<not> rn_failure_ok env \<Longrightarrow> wo_logs (fail_run env sm e w) = wo_logs w"
  "rn_failure_ok env \<Longrightarrow> \<exists>l. wo_logs (fail_run env sm e w) = wo_logs w @ [l] \<and> lr_stage (sl_row l) = ''run_failed''"
proof -
  show "wo_logs (fail_run env sm e w) = wo_logs w" if "\<not> rn_failure_ok env"
    using that by (simp add: fail_run_def persist_failure_telemetry_def)
  assume ok: "rn_failure_ok env"
  let ?w = "(map_run (\<lambda>s. s\<lparr>rs_logs := [], rs_status := [], rs_disabled := []\<rparr>) w)\<lparr>wo_pending := None\<rparr>"
  obtain p where fail: "fail_run env sm e w = add_rows env [p] ?w"
    and p: "dict_get p ''stage'' = dict_get (failure_payload env sm e) ''stage''"
    using persist_failure_row[OF ok] unfolding fail_run_def by blast
  have p: "dict_get p ''stage'' = Some (JStr ''run_failed'')" unfolding p by (simp add: failure_payload_def)
  show "\<exists>l. wo_logs (fail_run env sm e w) = wo_logs w @ [l] \<and> lr_stage (sl_row l) = ''run_failed''"
    using add_row[OF p run_stages(3,4), of env ?w] unfolding fail by simp
qed

text \<open>The last commit writes everything or nothing; only a staged checkpoint moves the table.\<close>

lemma flush_cases:
  assumes "flush_pending_writes env sm w = (ok, w')"
  obtains "\<not> ok" "w' = w"
  | "ok" "run_sends w' = run_sends w" "wo_pending w = None" "wo_checkpoints w' = wo_checkpoints w"
  | t v where "ok" "run_sends w' = run_sends w" "wo_pending w = Some (t, v)"
      "wo_checkpoints w' = snd (update_checkpoint_after_success (wo_checkpoints w) (sm_id sm) t v)"
  using assms by (cases "wo_pending w") (auto simp: flush_pending_writes_def Let_def split: if_splits)

lemma flush_logs:
  assumes "flush_pending_writes env sm w = (True, w')"
  shows "\<exists>rows. wo_logs w' = wo_logs w @ rows"
  using assms by (auto simp: flush_pending_writes_def add_rows_def Let_def split: if_splits option.splits)

section \<open>A run\<close>

text \<open>How a run ends: without the lock, without its entry, by an exception, or with the last
  commit.\<close>

lemma run_cases:
  assumes "run env0 opts sm ck0 w = (res, w')"
  obtains (skipped) s where "\<not> rn_lock_free env0" "res = Inr s" "w' = reset_pending w" "\<not> su_checkpoint_updated s"
  | (unentered) w1 where "rn_lock_free env0" "\<not> rn_entry_ok env0" "res = Inl Commit_Raised" "committed w1 = committed w"
      "run_sends w1 = run_sends w" "w' = fail_run (entered env0 opts sm) sm Commit_Raised w1"
  | (entered) w2 l t ck before r3 w3 where "rn_lock_free env0"
      "wo_logs w2 = wo_logs w @ [l]" "lr_stage (sl_row l) = ''run_started''"
      "wo_checkpoints w2 = wo_checkpoints w" "wo_statuses w2 = wo_statuses w" "wo_disabled w2 = wo_disabled w"
      "wo_pending w2 = None" "run_sends w2 = run_sends w"
      "run_body (entered env0 opts sm) opts sm t ck before w2 = (r3, w3)"
      "finish_run (entered env0 opts sm) sm r3 w3 = (res, w')"
proof (cases "rn_lock_free env0")
  case False
  then show thesis using assms by (intro skipped) (auto simp: run_def new_run_summary_def)
next
  case True
  let ?env = "entered env0 opts sm" and ?w0 = "reset_pending w"
  obtain t ck where res: "resolve_checkpoint ck0 (if rn_read_ok ?env then Some (wo_checkpoints ?w0) else None)
      (wo_memory ?w0) (sm_id sm) = (t, ck)" by (rule that[OF prod.collapse[symmetric]])
  let ?before = "checkpoint_snapshot ck"
  let ?w1 = "run_log ?env (started_log sm t ?before) ?w0"
  have st: "dict_get (started_log sm t ?before) ''stage'' = Some (JStr ''run_started'')"
    by (simp add: started_log_def)
  have run: "(let (r3, w3) = (case commit_lifecycle_entry ?env ?w1 of
                  Inl e \<Rightarrow> (Inl e, ?w1) | Inr w2 \<Rightarrow> run_body ?env opts sm t ck ?before w2)
              in finish_run ?env sm r3 w3) = (res, w')"
    using assms True res by (simp add: run_def Let_def)
  have flag: "rn_entry_ok ?env = rn_entry_ok env0" by (simp add: entered_def)
  from entry_committed[OF st refl, of ?env w] show thesis
  proof (elim disjE exE conjE)
    assume e: "\<not> rn_entry_ok ?env" "commit_lifecycle_entry ?env ?w1 = Inl Commit_Raised"
    then show thesis
      using run True flag by (intro unentered[of ?w1]) (simp_all add: finish_run_def)
  next
    fix w2 l
    assume e: "commit_lifecycle_entry ?env ?w1 = Inr w2" "wo_logs w2 = wo_logs w @ [l]"
      "lr_stage (sl_row l) = ''run_started''" "wo_checkpoints w2 = wo_checkpoints w" "wo_statuses w2 = wo_statuses w"
      "wo_disabled w2 = wo_disabled w" "wo_pending w2 = None" "run_sends w2 = run_sends w"
    obtain r3 w3 where body: "run_body ?env opts sm t ck ?before w2 = (r3, w3)" by (rule that[OF prod.collapse[symmetric]])
    show thesis
      by (rule entered[OF True e(2-8) body]) (use run e(1) body in simp)
  qed
qed

section \<open>What a delivered route has done\<close>

text \<open>The runner promises more of its send function: a success it reports is an adapter call that
  succeeded.\<close>

locale honest_sender = route_sender +
  assumes success_call: "so_success (fst (send rid evs s)) \<Longrightarrow>
    \<exists>new. rs_sends (snd (send rid evs s)) = rs_sends s @ new \<and> delivered_in new"
begin

lemma delivering_stage:
  assumes "process_route_pipeline env (Some send) sb ctx st = (Inr r, st')" "delivering (sg_delivery r)"
  shows "\<exists>new. rs_sends (ps_run st') = rs_sends (ps_run st) @ new \<and> delivered_in new"
proof (rule pipeline_stages[OF assms(1)])
  fix t st1 prot st2 st3
  assume run: "ps_run st3 = ps_run st"
    and del: "delivery_stage (Some send) ctx (sg_policy r)
      (if sg_allowed r then route_payload env ctx sb prot else []) st3 = (sg_delivery r, st')"
  let ?evs = "if sg_allowed r then route_payload env ctx sb prot else []"
  let ?send = "if pres_allowed (sg_policy r) then Some (send (rx_route ctx)) else None"
  let ?stage = "route_delivery_stage (rx_route ctx) (rx_destination ctx) (rx_enabled ctx) (sg_policy r) ?evs ?send
      (pres_quarantine_id (sg_policy r)) (ps_run st3)"
  have d: "sg_delivery r = fst ?stage" "ps_run st' = snd ?stage"
    using del by (auto simp: delivery_stage_def Let_def split: prod.splits if_splits)
  have ok: "dl_success (fst ?stage) = Some True" "dl_skip (fst ?stage) \<noteq> Some No_Events"
    using assms(2) unfolding delivering_def d by auto
  from ok(1) show ?thesis
  proof (cases rule: delivery_stage_success_cases)
    case 1
    then show ?thesis using ok(2) by (simp add: route_delivery_stage_def Let_def)
  next
    case 2
    then show ?thesis by simp
  next
    case (3 snd_fn out s')
    then have "snd_fn = send (rx_route ctx)" by (simp split: if_splits)
    with 3 success_call[of "rx_route ctx" ?evs "ps_run st3"] show ?thesis unfolding d(2) run by simp
  qed
qed

lemma pipeline_extends:
  assumes "process_route_pipeline env (Some send) sb ctx st = (res, st')"
  shows "\<exists>new. rs_sends (ps_run st') = rs_sends (ps_run st) @ new"
proof (cases res)
  case (Inl e)
  then show ?thesis using failed_pipeline_trace[of env sb ctx st e st'] assms by simp
next
  case (Inr r)
  then have "process_route_pipeline env (Some send) sb ctx st = (Inr r, st')" using assms by simp
  then show ?thesis
    using pipeline_trace by (blast elim: pipeline_stages)
qed

lemma routes_delivered:
  assumes "process_routes_from env (Some send) sb ctxs p st = (Inr p', st')"
  shows "\<exists>new. rs_sends (ps_run st') = rs_sends (ps_run st) @ new \<and>
    ((\<exists>r \<in> set (pl_stages p'). delivering (sg_delivery r)) \<longrightarrow>
       (\<exists>r \<in> set (pl_stages p). delivering (sg_delivery r)) \<or> delivered_in new)"
  using assms
proof (induction ctxs arbitrary: p st)
  case Nil
  then show ?case by auto
next
  case (Cons ctx ctxs)
  show ?case
  proof (cases "rx_enabled ctx")
    case False
    then have "process_routes_from env (Some send) sb ctxs p (st\<lparr>ps_run := emit_log (pn_send env) (skip_log env ctx) (ps_run st)\<rparr>)
        = (Inr p', st')"
      using Cons.prems by simp
    from Cons.IH[OF this] show ?thesis by simp
  next
    case True
    then obtain r st1 where one: "process_route_pipeline env (Some send) sb ctx st = (Inr r, st1)"
      and rest: "process_routes_from env (Some send) sb ctxs (add_stage r p) st1 = (Inr p', st')"
      using Cons.prems by (auto split: prod.splits sum.splits)
    obtain new1 where new1: "rs_sends (ps_run st1) = rs_sends (ps_run st) @ new1"
      "delivering (sg_delivery r) \<longrightarrow> delivered_in new1"
      using pipeline_extends[OF one] delivering_stage[OF one] by (metis same_append_eq)
    obtain new2 where new2: "rs_sends (ps_run st') = rs_sends (ps_run st1) @ new2"
      "(\<exists>r \<in> set (pl_stages p'). delivering (sg_delivery r)) \<longrightarrow>
       (\<exists>r \<in> set (pl_stages (add_stage r p)). delivering (sg_delivery r)) \<or> delivered_in new2"
      using Cons.IH[OF rest] by blast
    have "pl_stages (add_stage r p) = pl_stages p @ [r]" by (simp add: add_stage_def Let_def)
    then show ?thesis using new1 new2 by (intro exI[of _ "new1 @ new2"]) auto
  qed
qed

end

lemma deliver_single_route_success:
  assumes "so_success (fst (deliver_single_route env routes rid evs s))"
  shows "\<exists>new. rs_sends (snd (deliver_single_route env routes rid evs s)) = rs_sends s @ new \<and> delivered_in new"
proof (cases "find (\<lambda>r. r_id r = rid) routes")
  case None
  then show ?thesis using assms by (simp add: deliver_single_route_def plain_outcome_def)
next
  case (Some r)
  obtain out s' where run: "send_route_events env r evs None True s = (out, s')" by (rule that[OF prod.collapse[symmetric]])
  then show ?thesis using send_route_trace[OF run] assms Some by (auto simp: deliver_single_route_def)
qed

interpretation runner: honest_sender "deliver_single_route env routes" for env routes
  by unfold_locales (rule deliver_single_route_success)

text \<open>The pipeline and the dynamic routes only add adapter calls.\<close>

lemma pipeline_delivered:
  assumes "execute_route_pipeline env sm evs fs stats w = (Inr (p, stats'), w')"
  shows "\<exists>new. run_sends w' = run_sends w @ new \<and>
    ((\<exists>r \<in> set (pl_stages p). delivering (sg_delivery r)) \<longrightarrow> delivered_in new)"
proof -
  obtain sb ctxs b st where routes: "process_routes (rn_pipe env)
      (Some (deliver_single_route (pn_send (rn_pipe env)) (map rt_route (sm_routes sm)))) sb ctxs b (fresh_caches (wo_pipe w))
      = (Inr p, st)" and w': "run_sends w' = rs_sends (ps_run st)"
    using assms by (auto simp: execute_route_pipeline_def Let_def split: prod.splits sum.splits)
  show ?thesis
    using runner.routes_delivered[OF routes[unfolded process_routes_def]] unfolding w'
    by (auto simp: fresh_caches_def)
qed

lemma after_pipeline_trace:
  assumes "fan_out_after_pipeline env routes evs dyn outcome st = (fan, st')"
  shows "\<exists>new. rs_sends st' = rs_sends st @ new \<and> (\<forall>x \<in> set new. sc_events (fst x) = evs) \<and> fan_events fan = fan_events outcome"
proof -
  let ?skip = "secondary_ids (loaded_bindings env) (fold (\<lambda>r. add_id (d_id (r_destination r))) routes [])"
  have dyn: "\<exists>new. rs_sends s' = rs_sends st @ new \<and> (\<forall>x \<in> set new. sc_events (fst x) = evs)"
    if "deliver_dynamic_routes env evs d ?skip st = (n, s')" for d n s'
  proof (cases "evs = []")
    case True
    then show ?thesis using that by (simp add: deliver_dynamic_routes_def)
  next
    case False
    then have "deliver_matches env evs ?skip (dyr_matches d) 0 st = (n, s')"
      using that by (simp add: deliver_dynamic_routes_def)
    from deliver_matches_trace[OF this] obtain new sub where tr: "rs_sends s' = rs_sends st @ new"
      "map fst new = map (\<lambda>m. runtime_call env (dynamic_call env m evs)) sub" by blast
    have "sc_events c = evs" if "c \<in> set (map fst new)" for c
      using that unfolding tr(2) by (auto simp: dynamic_call_def)
    then show ?thesis using tr(1) by auto
  qed
  show ?thesis
  proof (cases dyn)
    case None
    then show ?thesis using assms by (auto simp: fan_out_after_pipeline_def Let_def)
  next
    case (Some d)
    obtain n s' where run: "deliver_dynamic_routes env evs d ?skip st = (n, s')" by (rule that[OF prod.collapse[symmetric]])
    then have "rs_sends st' = rs_sends s'" "fan_events fan = fan_events outcome"
      using assms Some by (auto simp: fan_out_after_pipeline_def Let_def)
    with dyn[OF run] show ?thesis by simp
  qed
qed

text \<open>A run that ends has its \<open>run_complete\<close> entry among the payloads it keeps.\<close>

lemma run_log_kept:
  assumes "dict_get p ''stage'' = Some (JStr s)" "py_strip s = s" "s \<in> set persisted_stages"
  shows "\<exists>q \<in> set (rs_logs (wo_run (run_log env p w))). dict_get q ''stage'' = Some (JStr s)"
proof -
  let ?p1 = "case se_run_id (pn_send (rn_pipe env)) of None \<Rightarrow> p | Some r \<Rightarrow> if r = [] then p else dict_set ''run_id'' (JStr r) p"
  let ?q = "case se_connector (pn_send (rn_pipe env)) of None \<Rightarrow> ?p1 | Some c \<Rightarrow> dict_set ''connector_id'' (JInt c) ?p1"
  have st: "dict_get ?q ''stage'' = Some (JStr s)"
    using assms(1) by (auto simp: dict_simps split: option.splits)
  moreover have "build_delivery_log_row ?q \<noteq> None"
    using build_row_persisted[OF st] assms(2,3) by auto
  ultimately show ?thesis
    by (auto simp: run_log_def emit_log_def log_payload_def persist_delivery_log_def Let_def)
qed

lemma run_body_completes:
  assumes "run_body env opts sm t ck before w = (Inr s, w')"
  shows "\<exists>q \<in> set (rs_logs (wo_run w')). dict_get q ''stage'' = Some (JStr ''run_complete'')"
proof -
  have fin: "\<exists>c x. w2 = run_log env (run_complete_log sm t c) x"
    if "finish_batch env opts sm t before evs fs p stats w1 = (s', w2)" for evs fs p stats w1 s' w2
    using that unfolding finish_batch_def Let_def by (auto simp only: case_prod_beta prod.inject)
  have "\<exists>c x. w' = run_log env (run_complete_log sm t c) x"
    using assms by (auto simp: run_body_def Let_def split: prod.splits sum.splits if_splits dest: fin)
  then obtain c x where w': "w' = run_log env (run_complete_log sm t c) x" by blast
  have "dict_get (run_complete_log sm t c) ''stage'' = Some (JStr ''run_complete'')"
    by (simp add: run_complete_log_def Let_def)
  moreover have "py_strip ''run_complete'' = ''run_complete''" "''run_complete'' \<in> set persisted_stages" by code_simp+
  ultimately show ?thesis unfolding w' by (intro run_log_kept)
qed

lemma flushed_row:
  assumes "flush_pending_writes env sm w = (True, w')" "q \<in> set (rs_logs (wo_run w))"
    and "dict_get q ''stage'' = Some (JStr s)" "py_strip s = s" "s \<in> set persisted_stages"
  shows "\<exists>rows. wo_logs w' = wo_logs w @ rows \<and> (\<exists>l \<in> set rows. lr_stage (sl_row l) = s)"
proof -
  obtain r where r: "build_delivery_log_row q = Some r"
    using build_row_persisted[OF assms(3)] assms(4,5) by auto
  have "rs_logs (wo_run w) \<noteq> []" using assms(2) by auto
  then have "wo_logs w' = wo_logs w @ map (\<lambda>r. \<lparr>sl_at = rn_now env, sl_row = r\<rparr>)
      (List.map_filter build_delivery_log_row (rs_logs (wo_run w)))"
    using assms(1) by (auto simp: flush_pending_writes_def add_rows_def Let_def split: if_splits option.splits)
  moreover have "r \<in> set (List.map_filter build_delivery_log_row (rs_logs (wo_run w)))"
    using r assms(2) by (auto simp: List.map_filter_def intro!: image_eqI[where x = q])
  ultimately show ?thesis using row_stage[OF r assms(3,4)] by force
qed


section \<open>How a run ends\<close>

lemma raised_run:
  assumes "run env opts sm ck w = (Inl e, w')"
  shows "wo_checkpoints w' = wo_checkpoints w \<and> wo_statuses w' = wo_statuses w \<and> wo_disabled w' = wo_disabled w \<and>
    (\<exists>rows. wo_logs w' = wo_logs w @ rows \<and> length rows \<le> 2 \<and>
       (\<forall>l \<in> set rows. lr_stage (sl_row l) \<in> {''run_started'', ''run_failed''}))"
  using assms
proof (cases rule: run_cases)
  case (unentered w1)
  have "\<exists>rows. wo_logs w' = wo_logs w @ rows \<and> length rows \<le> 1 \<and> (\<forall>l \<in> set rows. lr_stage (sl_row l) = ''run_failed'')"
    using fail_run_logs[of "entered env opts sm" sm Commit_Raised w1] unentered(4,6)
    by (cases "rn_failure_ok (entered env opts sm)") auto
  then show ?thesis using unentered(4,6) by (auto simp: fail_run_frame)
next
  case (entered w2 l t ck' before r3 w3)
  let ?env = "entered env opts sm"
  have com: "committed w3 = committed w2" by (rule run_body_committed[OF entered(9)])
  show ?thesis
  proof (cases r3)
    case (Inl e')
    then have w': "w' = fail_run ?env sm e' w3" using entered(10) by (auto simp: finish_run_def)
    have "\<exists>rows. wo_logs w' = wo_logs w3 @ rows \<and> length rows \<le> 1 \<and> (\<forall>l \<in> set rows. lr_stage (sl_row l) = ''run_failed'')"
      using fail_run_logs[of ?env sm e' w3] unfolding w' by (cases "rn_failure_ok ?env") auto
    then obtain rows where "wo_logs w' = wo_logs w @ l # rows" "length rows \<le> 1"
      "\<forall>l \<in> set rows. lr_stage (sl_row l) = ''run_failed''"
      using com entered(2) by auto
    then show ?thesis
      using com entered(3-6) unfolding w' by (auto simp: fail_run_frame intro!: exI[of _ "l # rows"])
  next
    case (Inr s)
    obtain ok w4 where fl: "flush_pending_writes ?env sm w3 = (ok, w4)" by (rule that[OF prod.collapse[symmetric]])
    then have "\<not> ok" "w' = map_run (\<lambda>s. s\<lparr>rs_logs := []\<rparr>) w4"
      using entered(10) Inr by (auto simp: finish_run_def split: if_splits bool.splits)
    moreover from fl \<open>\<not> ok\<close> have "w4 = w3" by (cases rule: flush_cases) auto
    ultimately show ?thesis using com entered(2-6) by (auto intro!: exI[of _ "[l]"])
  qed
qed (auto dest: arg_cong[of _ _ isl])

lemma run_that_moves_checkpoint:
  assumes "run env opts sm ck w = (Inr s, w')" "wo_checkpoints w' \<noteq> wo_checkpoints w"
  shows "ro_persist opts \<and> \<not> ro_dry_run opts \<and> su_checkpoint_updated s \<and>
    (\<exists>new. run_sends w' = run_sends w @ new \<and> delivered_in new) \<and>
    (\<exists>t ev. wo_checkpoints w' = snd (update_checkpoint_after_success (wo_checkpoints w) (sm_id sm) t
              (checkpoint_value_of (engine_of (pn_jc (rn_pipe env))) (sm_config sm) ev)))"
  using assms(1)
proof (cases rule: run_cases)
  case (entered w2 l t ck' before r3 w3)
  let ?env = "entered env opts sm"
  obtain s3 where r3: "r3 = Inr s3" "s = s3\<lparr>su_committed := True\<rparr>" "flush_pending_writes ?env sm w3 = (True, w')"
    using entered(10) by (auto simp: finish_run_def split: sum.splits prod.splits bool.splits)
  have com: "wo_checkpoints w3 = wo_checkpoints w"
    using run_body_committed[OF entered(9)] entered(4) by simp
  from r3(3) obtain t' v where fl: "run_sends w' = run_sends w3" "wo_pending w3 = Some (t', v)"
      "wo_checkpoints w' = snd (update_checkpoint_after_success (wo_checkpoints w) (sm_id sm) t' v)"
    using assms(2) com by (cases rule: flush_cases) auto
  from entered(9) show ?thesis
  proof (cases rule: run_body_cases)
    case (finished evs w4 p stats w5 s4)
    have s4: "s4 = s3" using finished(3) r3(1) by simp
    obtain new1 where new1: "run_sends w5 = run_sends w4 @ new1"
      "(\<exists>r \<in> set (pl_stages p). delivering (sg_delivery r)) \<longrightarrow> delivered_in new1"
      using pipeline_delivered[OF finished(7)] by blast
    have none: "wo_pending w5 = None"
      using execute_frame[OF finished(7)] finished(5) entered(7) by simp
    from finished(8) show ?thesis
    proof (cases rule: finish_batch_cases)
      case (1 fan st)
      let ?results = "map (\<lambda>r. (sg_route r, Some (sg_delivery r))) (pl_stages p)"
      have ok: "fan_events fan \<noteq> []" "ro_persist opts"
        and v: "v = checkpoint_value_of (engine_of (pn_jc (rn_pipe ?env))) (sm_config sm)
          (obj_of (last (if pl_checkpoint p \<noteq> [] then pl_checkpoint p else evs)))"
        using 1(5) fl(2) none by (auto split: if_splits)
      obtain new2 where new2: "rs_sends st = rs_sends (wo_run w5) @ new2"
          "fan_events fan = fan_events (route_delivery_fan_out_outcome ?results (if pl_checkpoint p \<noteq> [] then pl_checkpoint p else evs))"
        using after_pipeline_trace[OF 1(1)] by blast
      then have "\<exists>r \<in> set (pl_stages p). delivering (sg_delivery r)"
        using ok(1) by (auto simp: fan_out_events split: if_splits)
      then have "delivered_in (new1 @ new2)" using new1(2) by simp
      moreover have "run_sends w' = run_sends w @ new1 @ new2"
        using fl(1) 1(3) new2(1) new1(1) finished(6) entered(8) by simp
      moreover have "pn_jc (rn_pipe ?env) = pn_jc (rn_pipe env)" by (simp add: entered_def)
      ultimately show ?thesis
        using ok finished(1) 1(4) s4 r3(2) fl(3) v by auto
    qed
  qed (use fl(2) entered(7) r3(1) in auto)
qed (use assms(2) in auto)

lemma unpersisted_run_keeps_checkpoints:
  assumes "run env opts sm ck w = (res, w')" "\<not> ro_persist opts"
  shows "wo_checkpoints w' = wo_checkpoints w"
proof (cases res)
  case (Inl e)
  then show ?thesis using raised_run assms(1) by blast
next
  case (Inr s)
  then show ?thesis using run_that_moves_checkpoint assms by blast
qed

section \<open>Properties\<close>


text \<open>A dry run sends nothing and moves no checkpoint.\<close>

theorem dry_run_is_inert:
  assumes "run env opts sm ck w = (res, w')" "ro_dry_run opts"
  shows "run_sends w' = run_sends w \<and> wo_checkpoints w' = wo_checkpoints w"
  using assms(1)
proof (cases rule: run_cases)
  case (unentered w1)
  then show ?thesis by (simp add: fail_run_frame)
next
  case (entered w2 l t ck' before r3 w3)
  let ?env = "entered env opts sm"
  from entered(9) have w3: "run_sends w3 = run_sends w2 \<and> wo_checkpoints w3 = wo_checkpoints w2 \<and> (\<forall>s. r3 = Inr s \<longrightarrow> wo_pending w3 = None)"
    using assms(2) entered(7) by (cases rule: run_body_cases) auto
  show ?thesis
  proof (cases r3)
    case (Inl e)
    then have "w' = fail_run ?env sm e w3" using entered(10) by (simp add: finish_run_def)
    then show ?thesis using w3 entered(4,8) by (simp add: fail_run_frame)
  next
    case (Inr s)
    obtain ok w4 where fl: "flush_pending_writes ?env sm w3 = (ok, w4)" by (rule that[OF prod.collapse[symmetric]])
    from fl have "run_sends w4 = run_sends w3 \<and> wo_checkpoints w4 = wo_checkpoints w3"
      using w3 Inr by (cases rule: flush_cases) auto
    moreover have "run_sends w' = run_sends w4" "wo_checkpoints w' = wo_checkpoints w4"
      using entered(10) Inr fl by (auto simp: finish_run_def split: if_splits bool.splits)
    ultimately show ?thesis using w3 entered(4,8) by simp
  qed
qed simp


text \<open>C18: The checkpoint follows the deliveries: a run that moves a checkpoint may persist, is no dry
  run, reports the move, and has an adapter call that succeeded; it moves only the checkpoint of its
  stream, to the value of an event of the batch, and every other stream keeps its own.\<close>

theorem checkpoint_moves_after_delivery:
  assumes "run env opts sm ck w = (Inr s, w')" "wo_checkpoints w' \<noteq> wo_checkpoints w"
  shows "ro_persist opts \<and> \<not> ro_dry_run opts \<and> su_checkpoint_updated s \<and>
    (\<exists>new. run_sends w' = run_sends w @ new \<and> delivered_in new) \<and>
    (\<exists>t ev. wo_checkpoints w' = snd (update_checkpoint_after_success (wo_checkpoints w) (sm_id sm) t
              (checkpoint_value_of (engine_of (pn_jc (rn_pipe env))) (sm_config sm) ev)))"
  using assms by (rule run_that_moves_checkpoint)

text \<open>A run leaves its record: once a run holds the lock and its entry is committed, the log has
  a \<open>run_started\<close> row, and after it a \<open>run_complete\<close> row where \<open>run\<close> returns and a \<open>run_failed\<close> row where
  it raises, unless the session of that last write fails.\<close>

theorem run_leaves_record:
  assumes "run env opts sm ck w = (res, w')" "rn_lock_free env" "rn_entry_ok env" "rn_failure_ok env" "rn_flush_ok env"
  shows "\<exists>l rows. wo_logs w' = wo_logs w @ l # rows \<and> lr_stage (sl_row l) = ''run_started'' \<and>
    (\<exists>m \<in> set rows. lr_stage (sl_row m) = (case res of Inl e \<Rightarrow> ''run_failed'' | Inr s \<Rightarrow> ''run_complete''))"
  using assms(1)
proof (cases rule: run_cases)
  case (entered w2 l t ck' before r3 w3)
  let ?env = "entered env opts sm"
  have flags: "rn_failure_ok ?env" "rn_flush_ok ?env" using assms(4,5) by (simp_all add: entered_def)
  have logs: "wo_logs w3 = wo_logs w @ [l]" using run_body_committed[OF entered(9)] entered(2) by simp
  show ?thesis
  proof (cases r3)
    case (Inl e)
    then have "res = Inl e" "w' = fail_run ?env sm e w3" using entered(10) by (auto simp: finish_run_def)
    then show ?thesis using fail_run_logs(2)[OF flags(1), of sm e w3] logs entered(3) by auto
  next
    case (Inr s)
    obtain ok w4 where fl: "flush_pending_writes ?env sm w3 = (ok, w4)" by (rule that[OF prod.collapse[symmetric]])
    have ok: "ok" using fl flags(2) by (auto simp: flush_pending_writes_def Let_def split: if_splits)
    then have res: "w' = w4" "res = Inr (s\<lparr>su_committed := True\<rparr>)" using entered(10) Inr fl by (auto simp: finish_run_def)
    obtain q where q: "q \<in> set (rs_logs (wo_run w3))" "dict_get q ''stage'' = Some (JStr ''run_complete'')"
      using run_body_completes entered(9) Inr by blast
    have strip: "py_strip ''run_complete'' = ''run_complete''" "''run_complete'' \<in> set persisted_stages" by code_simp+
    show ?thesis using flushed_row[OF _ q strip] fl ok logs res entered(3) by fastforce
  qed
qed (use assms in auto)

section \<open>A concrete stream\<close>

text \<open>One route to a destination that is up or disabled, with or without a masking rule; the source
  fails or gives one event.\<close>

definition sample_stream :: "bool \<Rightarrow> prot_rule list \<Rightarrow> stream_runtime" where
  "sample_stream up rules =
     (let r = hook_route ''LOG_AND_CONTINUE''
      in \<lparr>sm_id = 7, sm_connector = None, sm_source_type = ''http_api_polling'', sm_source_config = [], sm_config = [],
          sm_array_path = None, sm_root_path = None, sm_rate_limit = None, sm_field_mappings = [], sm_enrichment = [],
          sm_override_policy = ''KEEP_EXISTING'', sm_mapping_row = None, sm_enrichment_row = None, sm_protection = rules,
          sm_classification = [], sm_policy = [], sm_overrides = [], sm_governance = [],
          sm_routes = [\<lparr>rt_route = r\<lparr>r_destination := (r_destination r)\<lparr>d_enabled := up\<rparr>\<rparr>, rt_mapping = None,
             rt_enrichment = None, rt_protection = [], rt_classification = [], rt_policy = []\<rparr>]\<rparr>)"

definition run_sample_env :: "(string \<times> string) + json \<Rightarrow> run_env" where
  "run_sample_env response =
     \<lparr>rn_pipe = (pipe_sample_env True)\<lparr>pn_detect := (\<lambda>_. [JObj [(''sensitivity_class'', JStr ''pii'')]]),
        pn_send := (failing_env [])\<lparr>se_destinations := [(5, hook_destination 5)]\<rparr>\<rparr>,
      rn_uuid = ''run-1'', rn_clock = 0, rn_now = 0, rn_parse_iso = (\<lambda>_. None), rn_fetch = (\<lambda>_ _ _ _. response),
      rn_detect = (\<lambda>_. None), rn_drift_enabled = False, rn_drift_limits = (220, 8), rn_open_drifts = [],
      rn_protected_paths = [], rn_dynamic = Some [pii_rule 1 5], rn_resolve = (\<lambda>t c. c), rn_checkpoint_updated = None,
      rn_exc = (\<lambda>_. (''SourceFetchError'', ''down'')), rn_lock_free = True, rn_read_ok = True, rn_drift_ok = False,
      rn_entry_ok = True, rn_failure_ok = True, rn_flush_ok = True\<rparr>"

definition empty_world :: run_world where
  "empty_world = \<lparr>wo_logs = [], wo_checkpoints = [], wo_statuses = [], wo_disabled = [], wo_source = [], wo_memory = [],
     wo_pipe = pipe_start, wo_pending = None\<rparr>"

definition ssn_event :: event where
  "ssn_event = [(''ssn'', JStr ''900101-1''), (''host'', JStr ''h'')]"

text \<open>The source of the failing run is down.\<close>

lemma failing_sample:
  "fst (run (run_sample_env (Inl (''SourceFetchError'', ''down''))) default_opts (sample_stream True []) None empty_world)
     = Inl (Source_Raised ''SourceFetchError'' ''down'')"
  by code_simp


abbreviation sample_entered :: "(string \<times> string) + json \<Rightarrow> stream_runtime \<Rightarrow> run_env" where
  "sample_entered resp sm \<equiv> entered (run_sample_env resp) default_opts sm"

definition sample_ctx :: "bool \<Rightarrow> prot_rule list \<Rightarrow> route_ctx" where
  "sample_ctx up rules = route_context_of (sample_stream up rules) (hd (sm_routes (sample_stream up rules)))"

definition ssn_shared :: "bool \<Rightarrow> prot_rule list \<Rightarrow> shared_batch" where
  "ssn_shared up rules = build_shared_batch_context (sample_stream up rules) [JObj ssn_event] None None"

lemma sample_ctx_fields:
  "rx_route (sample_ctx up rules) = 1" "rx_destination (sample_ctx up rules) = 1" "rx_enabled (sample_ctx up rules)"
  "rx_stream (sample_ctx up rules) = 7"
  "rx_transform (sample_ctx up rules) = Some plain_transform"
  by (simp_all add: sample_ctx_def route_context_of_def sample_stream_def hook_route_def hook_destination_def Let_def
      resolve_route_transform_config_def plain_transform_def)

abbreviation sample_pipe :: pipe_env where
  "sample_pipe \<equiv> rn_pipe (sample_entered (Inl ([], [])) (sample_stream True []))"

lemma sample_entered_pipe:
  "rn_pipe (sample_entered resp (sample_stream up rules)) = sample_pipe"
  by (simp add: entered_def run_sample_env_def sample_stream_def Let_def)

lemma sample_transform: "apply_route_transform sample_pipe plain_transform [JObj ssn_event] = Inr [JObj ssn_event]"
  by code_simp

lemma sample_flags:
  "pn_classify sample_pipe = False" "pn_has_db sample_pipe = True" "pn_protect sample_pipe = sample_env"
  "se_net (pn_send sample_pipe) n c = None"
  by (simp_all add: entered_def run_sample_env_def pipe_sample_env_def failing_env_def)

abbreviation sample_route :: "bool \<Rightarrow> route" where
  "sample_route up \<equiv> (hook_route ''LOG_AND_CONTINUE'')\<lparr>r_destination := (hook_destination 1)\<lparr>d_enabled := up\<rparr>\<rparr>"

lemma sample_routes: "map rt_route (sm_routes (sample_stream up rules)) = [sample_route up]"
  by (simp add: sample_stream_def hook_route_def Let_def)

abbreviation sample_rules :: "bool \<Rightarrow> prot_rule list \<Rightarrow> prot_rule list" where
  "sample_rules up rules \<equiv> map prot_rule.truncate (pcf_rules (route_config (sample_ctx up rules) (ssn_shared up rules)))"

text \<open>The pipeline of the sample stream, from what its protection gives.\<close>

lemma sample_pipeline:
  assumes "protect_batch (sample_env\<lparr>pe_db := True\<rparr>) 7 [JObj ssn_event] (sample_rules up rules) []
      (pss_vault (ps_protection (wo_pipe w))) = (Inr res, v)" "pr_events res \<noteq> []"
    and "policy_lets_pass sample_pipe (sample_ctx up rules) (ssn_shared up rules) (pr_events res)"
    and "deliver_single_route (pn_send sample_pipe) [sample_route up] 1 (pr_events res) (wo_run w) = (out, s)"
  shows "\<exists>p stats' w' r q b. execute_route_pipeline (sample_entered resp (sample_stream up rules)) (sample_stream up rules)
      [JObj ssn_event] None stats w = (Inr (p, stats'), w') \<and>
    p = add_stage r \<lparr>pl_stages = [], pl_metrics = b, pl_checkpoint = [], pl_delivery = []\<rparr> \<and>
    pres_allowed (sg_policy r) \<and> sg_checkpoint_events r = [JObj ssn_event] \<and>
    sg_delivery r = fst (route_delivery_stage 1 1 True (sg_policy r) (pr_events res)
      (Some (deliver_single_route (pn_send sample_pipe) [sample_route up] 1)) q (wo_run w)) \<and>
    sg_events r = (if dl_success (sg_delivery r) = Some True then pr_events res else []) \<and> run_sends w' = rs_sends s"
proof -
  let ?sm = "sample_stream up rules" and ?ctx = "sample_ctx up rules" and ?sb = "ssn_shared up rules"
  let ?env = "sample_entered resp ?sm" and ?send = "deliver_single_route (pn_send sample_pipe) [sample_route up]"
  have payload: "route_payload sample_pipe ?ctx ?sb res = pr_events res"
    by (simp add: route_payload_def route_classification_stage_def sample_flags)
  have eph: "merge_ephemeral_for_route (ephemeral_auto_protect_rules ?sb) (route_config ?ctx ?sb) = []"
    by (simp add: ephemeral_auto_protect_rules_def ssn_shared_def build_shared_batch_context_def
        merge_ephemeral_for_route_def List.map_filter_def)
  have sb: "sb_events ?sb = [JObj ssn_event]" by (simp add: ssn_shared_def build_shared_batch_context_def)
  obtain r st' q where one: "process_route_pipeline sample_pipe (Some ?send) ?sb ?ctx (fresh_caches (wo_pipe w)) = (Inr r, st')"
    "ps_run st' = s" "pres_allowed (sg_policy r)" "sg_checkpoint_events r = [JObj ssn_event]"
    "sg_delivery r = fst (route_delivery_stage 1 1 True (sg_policy r) (pr_events res) (Some (?send 1)) q (wo_run w))"
    "sg_events r = (if dl_success (sg_delivery r) = Some True then pr_events res else [])"
    using first_route_result[of ?ctx plain_transform "fresh_caches (wo_pipe w)" sample_pipe ?sb "[JObj ssn_event]" res v ?send out s]
      sample_transform assms sample_ctx_fields(3)[of up rules]
    unfolding payload eph sb sample_ctx_fields sample_flags by (auto simp: fresh_caches_def)
  obtain n where ctxs: "build_route_runtime_contexts ?sm = ([?ctx], n)"
    by (simp add: build_route_runtime_contexts_def sample_ctx_def sample_stream_def Let_def)
  have drift: "apply_schema_drift_policy ?env ?sm (project_stream_transform ?env ?sm [JObj ssn_event]) None = None"
    by (simp add: apply_schema_drift_policy_def entered_def run_sample_env_def)
  let ?b = "base_metrics (length [?ctx]) n"
  let ?p0 = "\<lparr>pl_stages = [], pl_metrics = ?b, pl_checkpoint = [], pl_delivery = []\<rparr>"
  have routes: "process_routes sample_pipe (Some ?send) ?sb [?ctx] ?b (fresh_caches (wo_pipe w)) = (Inr (add_stage r ?p0), st')"
    using one(1) sample_ctx_fields(3) by (simp add: process_routes_def)
  let ?k = "length (sg_events r)"
  have "pl_stages (add_stage r ?p0) = [r]" by (simp add: add_stage_def Let_def)
  then have ex: "execute_route_pipeline ?env ?sm [JObj ssn_event] None stats w =
      (Inr (add_stage r ?p0, stats\<lparr>tx_mapped := ?k, tx_enriched := ?k\<rparr>),
       run_log ?env (routes_log ?sm (add_stage r ?p0)) (w\<lparr>wo_pipe := st'\<rparr>))"
    unfolding execute_route_pipeline_def drift sample_routes sample_entered_pipe[of resp up rules] ssn_shared_def[symmetric]
      ctxs Let_def prod.case routes sum.case by (simp only: list.case option.case)
  have "run_sends (run_log ?env (routes_log ?sm (add_stage r ?p0)) (w\<lparr>wo_pipe := st'\<rparr>)) = rs_sends s" using one(2) by simp
  with ex one(3-6) show ?thesis by blast
qed


lemma sample_collect:
  "\<exists>w2. collect_source_events (sample_entered (Inr (JObj ssn_event)) (sample_stream up rules)) default_opts
     (sample_stream up rules) ck w = (Inr [JObj ssn_event], w2)"
proof -
  let ?sm = "sample_stream up rules" and ?e = "sample_entered (Inr (JObj ssn_event)) (sample_stream up rules)"
  have paths: "sm_array_path ?sm = None" "sm_root_path ?sm = None" "sm_config ?sm = []" by (simp_all add: sample_stream_def Let_def)
  have fetch: "rn_fetch ?e t c g k = Inr (JObj ssn_event)" for t c g k by (simp add: entered_def run_sample_env_def)
  have args: "\<exists>fc. fetch_arguments default_opts ?sm ck = ([], fc)"
    by (simp add: fetch_arguments_def default_opts_def paths Let_def)
  have ext: "extract_with_fallback ?e ?sm (JObj ssn_event) = (Inr [ssn_event], False)"
    by (simp add: extract_with_fallback_def extract_events_def paths path_is_set_def normalize_events_with_root_def Let_def)
  have cfg: "\<not> dc_enabled (parse_dedup_config (Some []))" by code_simp
  have dedup: "fst (dedup_events ?e default_opts ?sm [] ck raw w1) = raw" for raw w1
    by (simp add: dedup_events_def apply_stream_dedup_def cfg Let_def)
  obtain fc where fc: "fetch_arguments default_opts ?sm ck = ([], fc)" using args by blast
  show ?thesis
    unfolding collect_source_events_def fc Let_def prod.case fetch ext sum.case
    by (simp add: case_prod_beta dedup)
qed

lemma plain_protection:
  "\<exists>res. protect_batch (sample_env\<lparr>pe_db := True\<rparr>) 7 [JObj ssn_event] (sample_rules True []) [] v = (Inr res, v) \<and>
     pr_events res = [JObj ssn_event]"
proof -
  have "sample_rules True [] = []" by code_simp
  then show ?thesis by (auto simp: protect_batch_def active_rules_def bare_result_def)
qed

lemma delivering_sample:
  assumes "deliver_single_route env [sample_route True] 1 evs s = (plain_outcome True ''route_send_success'' None, s')"
    and "pres_allowed pr" "evs \<noteq> []"
  shows "delivering (fst (route_delivery_stage 1 1 True pr evs (Some (deliver_single_route env [sample_route True] 1)) q s))"
  using delivery_stage_sends[of True pr evs "deliver_single_route env [sample_route True] 1" s _ s' 1 1 q] assms
  by (simp add: delivering_def plain_outcome_def)

text \<open>A complete run that delivers its event.\<close>

lemma delivering_run:
  "\<exists>s w'. run (run_sample_env (Inr (JObj ssn_event))) default_opts (sample_stream True []) None empty_world = (Inr s, w') \<and>
     wo_checkpoints w' \<noteq> []"
proof -
  let ?sm = "sample_stream True []" and ?e = "sample_entered (Inr (JObj ssn_event)) (sample_stream True [])"
  obtain res w' where run: "run (run_sample_env (Inr (JObj ssn_event))) default_opts ?sm None empty_world = (res, w')"
    by (rule that[OF prod.collapse[symmetric]])
  from run show ?thesis
  proof (cases rule: run_cases)
    case (entered w2 l t ck before r3 w3)
    obtain ws where lim: "source_allow (rn_clock ?e) (wo_source w2) (sm_id ?sm) (sm_rate_limit ?sm) = (True, ws)"
      by (simp add: source_allow_def sample_stream_def Let_def)
    obtain w4 where col: "collect_source_events ?e default_opts ?sm ck (w2\<lparr>wo_source := ws\<rparr>) = (Inr [JObj ssn_event], w4)"
      using sample_collect by blast
    have opts: "ro_dry_run default_opts = False" by (simp add: default_opts_def)
    have det: "rn_detect ?e evs = None" for evs by (simp add: entered_def run_sample_env_def)
    let ?stats = "\<lparr>tx_extracted = length [JObj ssn_event], tx_mapped = 0, tx_enriched = 0\<rparr>"
    obtain pres where pr: "protect_batch (sample_env\<lparr>pe_db := True\<rparr>) 7 [JObj ssn_event] (sample_rules True []) []
        (pss_vault (ps_protection (wo_pipe w4))) = (Inr pres, pss_vault (ps_protection (wo_pipe w4)))" "pr_events pres = [JObj ssn_event]"
      using plain_protection by blast
    have pass: "policy_lets_pass sample_pipe (sample_ctx True []) (ssn_shared True []) [JObj ssn_event]" by code_simp
    obtain s5 where snd: "deliver_single_route (pn_send sample_pipe) [sample_route True] 1 [JObj ssn_event] (wo_run w4) =
        (plain_outcome True ''route_send_success'' None, s5)"
      using deliver_to_working_route(2)[of 1 "[sample_route True]" "sample_route True" "pn_send sample_pipe" "wo_run w4" "[JObj ssn_event]"]
      by (cases "deliver_single_route (pn_send sample_pipe) [sample_route True] 1 [JObj ssn_event] (wo_run w4)")
         (simp add: hook_route_def hook_destination_def effective_destination_rate_limit_def sample_flags)
    obtain p stats' w5 r q b where ex: "execute_route_pipeline ?e ?sm [JObj ssn_event] None ?stats w4 = (Inr (p, stats'), w5)"
      "p = add_stage r \<lparr>pl_stages = [], pl_metrics = b, pl_checkpoint = [], pl_delivery = []\<rparr>" "pres_allowed (sg_policy r)"
      "sg_delivery r = fst (route_delivery_stage 1 1 True (sg_policy r) [JObj ssn_event]
        (Some (deliver_single_route (pn_send sample_pipe) [sample_route True] 1)) q (wo_run w4))"
      "sg_checkpoint_events r = [JObj ssn_event]"
      using sample_pipeline[OF pr(1)] pr(2) pass snd by (metis list.distinct(1))
    have d: "delivering (sg_delivery r)" unfolding ex(4) using snd ex(3) by (intro delivering_sample) auto
    then have ok: "delivering (sg_delivery r)" "harmless (sg_delivery r)" by (auto simp: delivering_def harmless_def)
    obtain s w6 where fin: "finish_batch ?e default_opts ?sm t before [JObj ssn_event] None p stats' w5 = (s, w6)"
      by (rule that[OF prod.collapse[symmetric]])
    have body: "r3 = Inr s" "w3 = w6"
      using entered(9) lim col ex(1) fin
      unfolding run_body_def lim Let_def prod.case col sum.case det by (auto simp: ex(1) fin opts)
    have stages: "pl_stages p = [r]" unfolding ex(2) by (simp add: add_stage_def Let_def)
    have ck: "(if pl_checkpoint p \<noteq> [] then pl_checkpoint p else [JObj ssn_event]) = [JObj ssn_event]"
      unfolding ex(2) using ex(5) by (simp add: add_stage_def Let_def)
    from fin obtain v where pend: "wo_pending w6 = Some (t, v)"
    proof (cases rule: finish_batch_cases)
      case (1 fan st)
      have "fan_events fan \<noteq> []"
        using after_pipeline_trace[OF 1(1)] ok stages unfolding ck
        by (auto simp: fan_out_events copy_events_def ssn_event_def)
      then show thesis using that 1(5) by (simp add: default_opts_def)
    qed
    obtain ok' w7 where fl: "flush_pending_writes ?e ?sm w3 = (ok', w7)" by (rule that[OF prod.collapse[symmetric]])
    have "ok'" using fl by (auto simp: flush_pending_writes_def entered_def run_sample_env_def Let_def split: if_splits)
    from fl this pend have "wo_checkpoints w7 = snd (update_checkpoint_after_success (wo_checkpoints w3) (sm_id ?sm) t v)"
      unfolding body(2) by (cases rule: flush_cases) auto
    then have "dict_get (wo_checkpoints w7) (sm_id ?sm) \<noteq> None" by (simp add: updated_row)
    then have "wo_checkpoints w7 \<noteq> []" by auto
    moreover have "res = Inr (s\<lparr>su_committed := True\<rparr>)" "w' = w7"
      using entered(10) body fl \<open>ok'\<close> by (auto simp: finish_run_def)
    ultimately show ?thesis using run by blast
  qed (simp_all add: run_sample_env_def)
qed


section \<open>Witnesses\<close>


theorem dry_run_is_inert_witness:
  "run_sends (snd (run (run_sample_env (Inr (JObj ssn_event))) (default_opts\<lparr>ro_dry_run := True\<rparr>) (sample_stream True []) None empty_world)) = []"
proof -
  obtain res w' where run: "run (run_sample_env (Inr (JObj ssn_event))) (default_opts\<lparr>ro_dry_run := True\<rparr>) (sample_stream True []) None
      empty_world = (res, w')" by (rule that[OF prod.collapse[symmetric]])
  from dry_run_is_inert[OF run] show ?thesis
    unfolding run by (simp add: empty_world_def pipe_start_def idle_state_def)
qed

theorem checkpoint_moves_after_delivery_witness:
  "\<exists>s w'. run (run_sample_env (Inr (JObj ssn_event))) default_opts (sample_stream True []) None empty_world = (Inr s, w') \<and>
     su_checkpoint_updated s \<and> delivered_in (run_sends w')"
proof -
  obtain s w' where run: "run (run_sample_env (Inr (JObj ssn_event))) default_opts (sample_stream True []) None empty_world = (Inr s, w')"
    and moved: "wo_checkpoints w' \<noteq> wo_checkpoints empty_world"
    using delivering_run by (auto simp: empty_world_def)
  from checkpoint_moves_after_delivery[OF run moved] run show ?thesis
    by (auto simp: empty_world_def pipe_start_def idle_state_def)
qed

theorem run_leaves_record_witness:
  "\<exists>e w' l m. run (run_sample_env (Inl (''SourceFetchError'', ''down''))) default_opts (sample_stream True []) None empty_world = (Inl e, w') \<and>
     {l, m} \<subseteq> set (wo_logs w') \<and> lr_stage (sl_row l) = ''run_started'' \<and> lr_stage (sl_row m) = ''run_failed''"
proof -
  obtain w' where run: "run (run_sample_env (Inl (''SourceFetchError'', ''down''))) default_opts (sample_stream True []) None empty_world
      = (Inl (Source_Raised ''SourceFetchError'' ''down''), w')"
    using failing_sample by (metis prod.collapse)
  have "\<exists>l rows. wo_logs w' = wo_logs empty_world @ l # rows \<and> lr_stage (sl_row l) = ''run_started'' \<and>
      (\<exists>m \<in> set rows. lr_stage (sl_row m) = (case Inl (Source_Raised ''SourceFetchError'' ''down'') :: run_error + run_summary of
          Inl e \<Rightarrow> ''run_failed'' | Inr s \<Rightarrow> ''run_complete''))"
    by (rule run_leaves_record[OF run]) (simp_all add: run_sample_env_def)
  then show ?thesis using run by (fastforce simp: empty_world_def)
qed

section \<open>Batches that no route delivered\<close>

lemma process_routes_stages:
  "process_routes_from env send sb ctxs p st = (Inr p', st') \<Longrightarrow> set (pl_stages p) \<subseteq> set (pl_stages p')"
proof (induction ctxs arbitrary: p st)
  case (Cons ctx ctxs)
  then show ?case
    by (fastforce simp: add_stage_def Let_def split: if_splits prod.splits sum.splits)
qed simp

lemma undelivered_reference:
  "process_routes_from env send sb ctxs p st = (Inr p', st') \<Longrightarrow> list_all (\<lambda>r. \<not> delivered_stage r) (pl_stages p') \<Longrightarrow>
     pl_delivery p' = pl_delivery p"
proof (induction ctxs arbitrary: p st)
  case (Cons ctx ctxs)
  show ?case
  proof (cases "rx_enabled ctx")
    case False
    then show ?thesis using Cons.IH Cons.prems by auto
  next
    case True
    then obtain r st1 where rest: "process_routes_from env send sb ctxs (add_stage r p) st1 = (Inr p', st')"
      using Cons.prems by (auto split: prod.splits sum.splits)
    have "r \<in> set (pl_stages p')"
      using process_routes_stages[OF rest] by (auto simp: add_stage_def Let_def split: if_splits)
    then have "\<not> delivered_stage r" using Cons.prems(2) by (auto simp: list_all_iff)
    then show ?thesis using Cons.IH[OF rest Cons.prems(2)] by (simp add: add_stage_def Let_def)
  qed
qed simp

text \<open>C20: A batch that no route delivered still goes out to the dynamic routes, and raw: when every route
  was blocked, quarantined, disabled or failed, each dynamic call of the run carries the extracted
  events as they came, neither transformed nor protected.\<close>

theorem undelivered_batch_goes_out_raw:
  assumes "execute_route_pipeline env sm evs fs stats0 w = (Inr (p, stats), w1)"
    and "list_all (\<lambda>r. \<not> delivered_stage r) (pl_stages p)"
    and "finish_batch env opts sm t before evs fs p stats w1 = (s, w')"
  shows "\<exists>new. run_sends w' = run_sends w1 @ new \<and> list_all (\<lambda>x. sc_events (fst x) = evs) new"
proof -
  obtain sb ctxs b st where "process_routes (rn_pipe env)
      (Some (deliver_single_route (pn_send (rn_pipe env)) (map rt_route (sm_routes sm)))) sb ctxs b (fresh_caches (wo_pipe w))
      = (Inr p, st)"
    using assms(1) by (auto simp: execute_route_pipeline_def Let_def split: prod.splits sum.splits)
  then have raw: "pl_delivery p = []"
    using undelivered_reference assms(2) unfolding process_routes_def by fastforce
  from assms(3) show ?thesis
  proof (cases rule: finish_batch_cases)
    case (1 fan st')
    from after_pipeline_trace[OF 1(1)] show ?thesis unfolding 1(3) by (auto simp: raw list_all_iff)
  qed
qed

text \<open>The value of the masking rule goes out to the dynamic destination in plain text.\<close>

lemma masked_protection:
  "\<exists>res v. protect_batch (sample_env\<lparr>pe_db := True\<rparr>) 7 [JObj ssn_event]
      (sample_rules False [sample_rule ''$.ssn'' ''full_mask'']) [] empty_vault = (Inr res, v) \<and>
     pr_events res = [JObj [(''ssn'', JStr mask_literal), (''host'', JStr ''h'')]]"
proof -
  let ?p = "protect_batch (sample_env\<lparr>pe_db := True\<rparr>) 7 [JObj ssn_event]
      (sample_rules False [sample_rule ''$.ssn'' ''full_mask'']) [] empty_vault"
  have "case fst ?p of Inl e \<Rightarrow> False | Inr res \<Rightarrow> pr_events res = [JObj [(''ssn'', JStr mask_literal), (''host'', JStr ''h'')]]"
    by code_simp
  then show ?thesis by (cases ?p) (auto split: sum.splits)
qed

lemma one_dynamic_call:
  assumes "fan_out_after_pipeline env routes evs (Some d) outcome st = (fan, st')" "dyr_matches d = [m]" "evs \<noteq> []"
    and "dm_destination m \<notin> set (secondary_ids (loaded_bindings env) (fold (\<lambda>r. add_id (d_id (r_destination r))) routes []))"
    and "dm_enabled m" "dm_rate_limit m = None"
  shows "rs_sends st' \<noteq> rs_sends st"
proof -
  obtain k s1 where one: "deliver_dynamic_route env evs
      (secondary_ids (loaded_bindings env) (fold (\<lambda>r. add_id (d_id (r_destination r))) routes [])) m st = (k, s1)"
    by (rule that[OF prod.collapse[symmetric]])
  have "rs_sends s1 \<noteq> rs_sends st"
    using one assms(4-6) by (auto simp: deliver_dynamic_route_def send_to_destination_eq split: option.splits)
  moreover have "rs_sends st' = rs_sends s1"
    using assms(1-3) one by (auto simp: fan_out_after_pipeline_def deliver_dynamic_routes_def Let_def)
  ultimately show ?thesis by simp
qed

theorem undelivered_batch_goes_out_raw_witness:
  "\<exists>p stats w1 s w' x.
     execute_route_pipeline (sample_entered (Inr (JObj ssn_event)) (sample_stream False [sample_rule ''$.ssn'' ''full_mask'']))
       (sample_stream False [sample_rule ''$.ssn'' ''full_mask'']) [JObj ssn_event] None \<lparr>tx_extracted = 1, tx_mapped = 0, tx_enriched = 0\<rparr>
       empty_world = (Inr (p, stats), w1) \<and>
     finish_batch (sample_entered (Inr (JObj ssn_event)) (sample_stream False [sample_rule ''$.ssn'' ''full_mask''])) default_opts
       (sample_stream False [sample_rule ''$.ssn'' ''full_mask'']) ''CUSTOM_FIELD'' None [JObj ssn_event] None p stats w1 = (s, w') \<and>
     x \<in> set (run_sends w') \<and> sc_events (fst x) = [JObj ssn_event]"
proof -
  let ?rules = "[sample_rule ''$.ssn'' ''full_mask'']"
  let ?sm = "sample_stream False ?rules" and ?e = "sample_entered (Inr (JObj ssn_event)) (sample_stream False [sample_rule ''$.ssn'' ''full_mask''])"
  let ?stats = "\<lparr>tx_extracted = 1, tx_mapped = 0, tx_enriched = 0\<rparr>"
  let ?masked = "[JObj [(''ssn'', JStr mask_literal), (''host'', JStr ''h'')]]"
  have vault: "pss_vault (ps_protection (wo_pipe empty_world)) = empty_vault"
    by (simp add: empty_world_def pipe_start_def fresh_stage_state_def)
  obtain res v where pr: "protect_batch (sample_env\<lparr>pe_db := True\<rparr>) 7 [JObj ssn_event] (sample_rules False ?rules) []
      (pss_vault (ps_protection (wo_pipe empty_world))) = (Inr res, v)" "pr_events res = ?masked"
    unfolding vault using masked_protection by blast
  have pass: "policy_lets_pass sample_pipe (sample_ctx False ?rules) (ssn_shared False ?rules) ?masked" by code_simp
  let ?out = "(plain_outcome False ''route_skip'' (Some ''destination disabled''))\<lparr>so_destination_disabled := True\<rparr>"
  have snd: "deliver_single_route (pn_send sample_pipe) [sample_route False] 1 ?masked (wo_run empty_world) = (?out, idle_state)"
    by (simp add: deliver_single_route_def send_route_events_def hook_route_def empty_world_def pipe_start_def)
  obtain p stats w1 r q b where ex: "execute_route_pipeline ?e ?sm [JObj ssn_event] None ?stats empty_world = (Inr (p, stats), w1)"
    "p = add_stage r \<lparr>pl_stages = [], pl_metrics = b, pl_checkpoint = [], pl_delivery = []\<rparr>"
    "sg_delivery r = fst (route_delivery_stage 1 1 True (sg_policy r) ?masked
        (Some (deliver_single_route (pn_send sample_pipe) [sample_route False] 1)) q (wo_run empty_world))"
    "sg_events r = (if dl_success (sg_delivery r) = Some True then ?masked else [])" "run_sends w1 = []"
    "pres_allowed (sg_policy r)"
    using sample_pipeline[OF pr(1), of ?out idle_state "Inr (JObj ssn_event)" ?stats] pr(2) pass snd
    by (auto simp: idle_state_def)
  have "dl_success (sg_delivery r) = None"
    unfolding ex(3) using delivery_stage_sends(2)[of True "sg_policy r" ?masked _ _ ?out idle_state] snd ex(6)
    by (simp add: plain_outcome_def)
  then have "\<not> delivered_stage r" by (simp add: delivered_stage_def)
  then have undelivered: "list_all (\<lambda>r. \<not> delivered_stage r) (pl_stages p)" "pl_delivery p = []"
    unfolding ex(2) by (simp_all add: add_stage_def Let_def)
  obtain s w' where fin: "finish_batch ?e default_opts ?sm ''CUSTOM_FIELD'' None [JObj ssn_event] None p stats w1 = (s, w')"
    by (rule that[OF prod.collapse[symmetric]])
  obtain new where new: "run_sends w' = run_sends w1 @ new" "list_all (\<lambda>x. sc_events (fst x) = [JObj ssn_event]) new"
    using undelivered_batch_goes_out_raw[OF ex(1) undelivered(1) fin] by blast
  have "map (\<lambda>m. (dm_destination m, dm_enabled m, dm_rate_limit m))
      (dyr_matches (the (evaluate_dynamic_routes ?e ?sm [JObj ssn_event] None))) = [(5, True, None)]"
    and "evaluate_dynamic_routes ?e ?sm [JObj ssn_event] None \<noteq> None"
    by code_simp+
  then obtain d m where dyn: "evaluate_dynamic_routes ?e ?sm [JObj ssn_event] None = Some d" "dyr_matches d = [m]"
    "dm_destination m = 5" "dm_enabled m" "dm_rate_limit m = None" by fastforce
  have skip: "5 \<notin> set (secondary_ids (loaded_bindings (pn_send (rn_pipe ?e))) (fold (\<lambda>r. add_id (d_id (r_destination r))) (map rt_route (sm_routes ?sm)) []))"
    by code_simp
  from fin have "run_sends w' \<noteq> run_sends w1"
  proof (cases rule: finish_batch_cases)
    case (1 fan st)
    show ?thesis
      unfolding 1(3) using one_dynamic_call 1(1) dyn skip by (simp add: undelivered(2))
  qed
  then obtain x where "x \<in> set new" using new(1) by (cases new) auto
  then have "x \<in> set (run_sends w')" "sc_events (fst x) = [JObj ssn_event]" using new by (auto simp: list_all_iff)
  then show ?thesis using ex(1) fin by blast
qed

end
