(* ===== verification/Path_Walker.thy ===== *)
theory Path_Walker
  imports Json_Values
begin

text \<open>
  \<open>app/schema_observation/path_walker.py\<close>: the walk over the events of a batch that collects the
  field paths with their inferred types. It stops at a maximal depth and a maximal number of paths
  and looks at the first three items of a list. The specification is the list \<open>visits\<close> of
  everything the walk meets without the limit on paths: within the limit the walk records exactly
  that list (\<open>walk_all\<close>), beyond it a part of it (\<open>walk_sound\<close>), and never more than the maximal
  number of paths (\<open>collect_paths_bounded\<close>).
\<close>

section \<open>The walk\<close>

datatype value_type = T_Null | T_Boolean | T_Integer | T_Number | T_String | T_Object | T_Array | T_Mixed

fun type_name :: "value_type \<Rightarrow> string" where
  "type_name T_Null = ''null''"
| "type_name T_Boolean = ''boolean''"
| "type_name T_Integer = ''integer''"
| "type_name T_Number = ''number''"
| "type_name T_String = ''string''"
| "type_name T_Object = ''object''"
| "type_name T_Array = ''array''"
| "type_name T_Mixed = ''mixed''"

fun infer_value_type :: "json \<Rightarrow> value_type" where
  "infer_value_type JNull = T_Null"
| "infer_value_type (JBool _) = T_Boolean"
| "infer_value_type (JInt _) = T_Integer"
| "infer_value_type (JFloat _) = T_Number"
| "infer_value_type (JStr _) = T_String"
| "infer_value_type (JObj _) = T_Object"
| "infer_value_type (JList _) = T_Array"

definition merge_inferred_types :: "value_type option \<Rightarrow> value_type \<Rightarrow> value_type" where
  "merge_inferred_types existing new =
     (case existing of
        None \<Rightarrow> new
      | Some old \<Rightarrow>
          if old = new then new
          else if old = T_Mixed \<or> new = T_Mixed then T_Mixed
          else if old \<in> {T_Integer, T_Number} \<and> new \<in> {T_Integer, T_Number} then T_Number
          else if {old, new} \<subseteq> {T_Null, old} \<or> {old, new} \<subseteq> {T_Null, new}
            then (if old = T_Null then new else old)
          else T_Mixed)"

type_synonym path_types = "(string, value_type) dict"

definition array_sample_size :: nat where
  "array_sample_size = 3"

definition note_path :: "string \<Rightarrow> value_type \<Rightarrow> path_types \<Rightarrow> path_types" where
  "note_path path t out = dict_set path (merge_inferred_types (dict_get out path) t) out"

lemma size_obj_of: "is_obj x \<Longrightarrow> size_list (size_prod (\<lambda>_. 0) size) (obj_of x) < size x"
  by (cases x) simp_all

text \<open>
  The walk fills the dictionary \<open>out\<close>. The two loops over the members of an object and over the
  sampled items of a list return with the flag \<open>True\<close> when the code returns from inside them.
  The path of a child is \<open>f"{path}.{key}"\<close>, which is \<open>f"$.{key}"\<close> at the root.
\<close>

function (sequential) walk_event_fields :: "nat \<Rightarrow> nat \<Rightarrow> string \<Rightarrow> nat \<Rightarrow> json \<Rightarrow> path_types \<Rightarrow> path_types"
and walk_members :: "nat \<Rightarrow> nat \<Rightarrow> string \<Rightarrow> nat \<Rightarrow> (string \<times> json) list \<Rightarrow> path_types \<Rightarrow> path_types \<times> bool"
and walk_items :: "nat \<Rightarrow> nat \<Rightarrow> string \<Rightarrow> nat \<Rightarrow> nat \<Rightarrow> json list \<Rightarrow> path_types \<Rightarrow> path_types"
where
  "walk_event_fields max_depth max_paths path depth v out =
     (if length out \<ge> max_paths \<or> depth > max_depth then out
      else
        (let out1 = note_path path (infer_value_type v) out
         in if length out1 \<ge> max_paths then out1
            else
              (case v of
                 JObj kvs \<Rightarrow> fst (walk_members max_depth max_paths path depth kvs out1)
               | JList xs \<Rightarrow>
                   walk_items max_depth max_paths (path @ ''[]'') depth array_sample_size xs
                     (note_path (path @ ''[]'') T_Array out1)
               | _ \<Rightarrow> out1)))"
| "walk_members max_depth max_paths path depth [] out = (out, False)"
| "walk_members max_depth max_paths path depth ((k, v) # kvs) out =
     (let out1 = walk_event_fields max_depth max_paths (path @ ''.'' @ k) (depth + 1) v out
      in if length out1 \<ge> max_paths then (out1, True)
         else walk_members max_depth max_paths path depth kvs out1)"
| "walk_items max_depth max_paths path depth 0 xs out = out"
| "walk_items max_depth max_paths path depth (Suc n) [] out = out"
| "walk_items max_depth max_paths path depth (Suc n) (x # xs) out =
     (if is_obj x then
        (let (out1, returned) = walk_members max_depth max_paths path depth (obj_of x) out
         in if returned then out1 else walk_items max_depth max_paths path depth n xs out1)
      else
        (let out1 = walk_event_fields max_depth max_paths (path @ ''[]'') (depth + 1) x out
         in if length out1 \<ge> max_paths then out1
            else walk_items max_depth max_paths path depth n xs out1))"
  by pat_completeness auto

termination
  by (relation "measure (\<lambda>call. case call of
         Inl (d, m, path, depth, v, out) \<Rightarrow> size v
       | Inr (Inl (d, m, path, depth, kvs, out)) \<Rightarrow> size_list (size_prod (\<lambda>_. 0) size) kvs
       | Inr (Inr (d, m, path, depth, n, xs, out)) \<Rightarrow> size_list size xs)") (auto dest: size_obj_of)

text \<open>The loop over the top-level fields of an event.\<close>

fun collect_fields :: "nat \<Rightarrow> nat \<Rightarrow> (string \<times> json) list \<Rightarrow> path_types \<Rightarrow> path_types" where
  "collect_fields max_depth max_paths [] out = out"
| "collect_fields max_depth max_paths ((k, v) # kvs) out =
     (let out1 = walk_event_fields max_depth max_paths (''$.'' @ k) 0 v out
      in if length out1 \<ge> max_paths then out1 else collect_fields max_depth max_paths kvs out1)"

definition collect_paths_from_event :: "nat \<Rightarrow> nat \<Rightarrow> json \<Rightarrow> path_types" where
  "collect_paths_from_event max_depth max_paths event =
     (case event of
        JObj kvs \<Rightarrow> collect_fields max_depth max_paths kvs []
      | _ \<Rightarrow> walk_event_fields max_depth max_paths ''$'' 0 event [])"

text \<open>The merge of one event's paths into the batch; the flag is the return of the whole function.\<close>

fun merge_paths :: "nat \<Rightarrow> path_types \<Rightarrow> path_types \<Rightarrow> path_types \<times> bool" where
  "merge_paths max_paths [] merged = (merged, False)"
| "merge_paths max_paths ((path, t) # rest) merged =
     (let m = note_path path t merged
      in if length m \<ge> max_paths then (m, True) else merge_paths max_paths rest m)"

fun merge_events :: "nat \<Rightarrow> nat \<Rightarrow> json list \<Rightarrow> path_types \<Rightarrow> path_types" where
  "merge_events max_depth max_paths [] merged = merged"
| "merge_events max_depth max_paths (e # es) merged =
     (let (m, returned) = merge_paths max_paths (collect_paths_from_event max_depth max_paths e) merged
      in if returned then m else merge_events max_depth max_paths es m)"

definition collect_paths_from_events :: "nat \<Rightarrow> nat \<Rightarrow> nat \<Rightarrow> json list \<Rightarrow> path_types" where
  "collect_paths_from_events max_depth max_paths max_events events =
     merge_events max_depth max_paths (take max_events events) []"

section \<open>What the walk meets\<close>

function (sequential) visits :: "nat \<Rightarrow> string \<Rightarrow> nat \<Rightarrow> json \<Rightarrow> (string \<times> value_type) list"
and member_visits :: "nat \<Rightarrow> string \<Rightarrow> nat \<Rightarrow> (string \<times> json) list \<Rightarrow> (string \<times> value_type) list"
and item_visits :: "nat \<Rightarrow> string \<Rightarrow> nat \<Rightarrow> nat \<Rightarrow> json list \<Rightarrow> (string \<times> value_type) list"
where
  "visits max_depth path depth v =
     (if depth > max_depth then []
      else (path, infer_value_type v) #
        (case v of
           JObj kvs \<Rightarrow> member_visits max_depth path depth kvs
         | JList xs \<Rightarrow> (path @ ''[]'', T_Array) # item_visits max_depth (path @ ''[]'') depth array_sample_size xs
         | _ \<Rightarrow> []))"
| "member_visits max_depth path depth [] = []"
| "member_visits max_depth path depth ((k, v) # kvs) =
     visits max_depth (path @ ''.'' @ k) (depth + 1) v @ member_visits max_depth path depth kvs"
| "item_visits max_depth path depth 0 xs = []"
| "item_visits max_depth path depth (Suc n) [] = []"
| "item_visits max_depth path depth (Suc n) (x # xs) =
     (if is_obj x then member_visits max_depth path depth (obj_of x)
      else visits max_depth (path @ ''[]'') (depth + 1) x)
     @ item_visits max_depth path depth n xs"
  by pat_completeness auto

termination
  by (relation "measure (\<lambda>call. case call of
         Inl (d, path, depth, v) \<Rightarrow> size v
       | Inr (Inl (d, path, depth, kvs)) \<Rightarrow> size_list (size_prod (\<lambda>_. 0) size) kvs
       | Inr (Inr (d, path, depth, n, xs)) \<Rightarrow> size_list size xs)") (auto dest: size_obj_of)

definition event_visits :: "nat \<Rightarrow> json \<Rightarrow> (string \<times> value_type) list" where
  "event_visits max_depth event =
     (case event of
        JObj kvs \<Rightarrow> concat (map (\<lambda>(k, v). visits max_depth (''$.'' @ k) 0 v) kvs)
      | _ \<Rightarrow> visits max_depth ''$'' 0 event)"

abbreviation batch_visits :: "nat \<Rightarrow> nat \<Rightarrow> json list \<Rightarrow> (string \<times> value_type) list" where
  "batch_visits max_depth max_events events \<equiv>
     concat (map (event_visits max_depth) (take max_events events))"

text \<open>Recording a list of visits.\<close>

definition note_all :: "(string \<times> value_type) list \<Rightarrow> path_types \<Rightarrow> path_types" where
  "note_all vs out = fold (\<lambda>(p, t). note_path p t) vs out"

abbreviation paths_of :: "(string \<times> 'a) list \<Rightarrow> string set" where
  "paths_of d \<equiv> fst ` set d"

lemma note_all_simps [simp]:
  "note_all [] out = out"
  "note_all ((p, t) # vs) out = note_all vs (note_path p t out)"
  "note_all (us @ vs) out = note_all vs (note_all us out)"
  by (simp_all add: note_all_def)

lemma note_path_ok: "dict_ok out \<Longrightarrow> dict_ok (note_path p t out)"
  by (simp add: note_path_def dict_set_ok)

lemma note_path_keys [simp]: "paths_of (note_path p t out) = insert p (paths_of out)"
  by (simp add: note_path_def dom_update image_set[symmetric] del: set_map image_set)

lemma note_all_ok: "dict_ok out \<Longrightarrow> dict_ok (note_all vs out)"
  by (induction vs arbitrary: out) (auto simp: note_path_ok)

lemma note_all_keys [simp]: "paths_of (note_all vs out) = paths_of vs \<union> paths_of out"
proof (induction vs arbitrary: out)
  case (Cons vt vs)
  obtain p t where "vt = (p, t)" by (cases vt)
  then show ?case by (simp add: Cons.IH)
qed simp

lemma dict_size: "dict_ok d \<Longrightarrow> length d = card (paths_of d)"
  by (metis distinct_card length_map list.set_map)

lemma note_all_size: "dict_ok out \<Longrightarrow> length (note_all vs out) = card (paths_of vs \<union> paths_of out)"
  by (simp add: dict_size note_all_ok)

text \<open>A part of the paths a walk meets is fewer than all of them.\<close>

lemma fewer_paths:
  "card (paths_of (us @ vs) \<union> paths_of out) < M \<Longrightarrow> card (paths_of us \<union> paths_of out) < M"
  "card (paths_of (us @ vs) \<union> paths_of out) < M \<Longrightarrow>
     card (paths_of vs \<union> paths_of (note_all us out)) < M"
proof -
  assume lt: "card (paths_of (us @ vs) \<union> paths_of out) < M"
  have "card (paths_of us \<union> paths_of out) \<le> card (paths_of (us @ vs) \<union> paths_of out)"
    by (rule card_mono) auto
  with lt show "card (paths_of us \<union> paths_of out) < M" by simp
next
  assume lt: "card (paths_of (us @ vs) \<union> paths_of out) < M"
  have "paths_of vs \<union> paths_of (note_all us out) = paths_of (us @ vs) \<union> paths_of out"
    by (simp add: image_Un) blast
  with lt show "card (paths_of vs \<union> paths_of (note_all us out)) < M" by simp
qed

declare walk_event_fields.simps [simp del] visits.simps [simp del]

section \<open>Within the limit\<close>

lemma walk_all_parts:
  shows "dict_ok out \<Longrightarrow> card (paths_of (visits D path depth v) \<union> paths_of out) < M \<Longrightarrow>
           walk_event_fields D M path depth v out = note_all (visits D path depth v) out"
    and "dict_ok out \<Longrightarrow> card (paths_of (member_visits D path depth kvs) \<union> paths_of out) < M \<Longrightarrow>
           walk_members D M path depth kvs out = (note_all (member_visits D path depth kvs) out, False)"
    and "dict_ok out \<Longrightarrow> card (paths_of (item_visits D path depth n xs) \<union> paths_of out) < M \<Longrightarrow>
           walk_items D M path depth n xs out = note_all (item_visits D path depth n xs) out"
proof (induction D M path depth v out and D M path depth kvs out and D M path depth n xs out
    rule: walk_event_fields_walk_members_walk_items.induct)
  case (1 D M path depth v out)
  show ?case
  proof (cases "depth > D")
    case True
    then show ?thesis by (simp add: walk_event_fields.simps visits.simps)
  next
    case False
    let ?rest = "case v of JObj kvs \<Rightarrow> member_visits D path depth kvs
         | JList xs \<Rightarrow> (path @ ''[]'', T_Array) # item_visits D (path @ ''[]'') depth array_sample_size xs
         | _ \<Rightarrow> []"
    let ?out1 = "note_path path (infer_value_type v) out"
    from False have vis: "visits D path depth v = [(path, infer_value_type v)] @ ?rest"
      by (simp add: visits.simps)
    note small = "1.prems"(2)[unfolded vis]
    have s0: "length out < M"
      using fewer_paths(1)[of "[]" "[(path, infer_value_type v)] @ ?rest" out M] small "1.prems"(1)
      by (simp add: dict_size)
    have ok1: "dict_ok ?out1" by (rule note_path_ok[OF "1.prems"(1)])
    have s1: "length ?out1 < M" using fewer_paths(1)[OF small] ok1 by (simp add: dict_size)
    have rest: "card (paths_of ?rest \<union> paths_of ?out1) < M" using fewer_paths(2)[OF small] by simp
    show ?thesis
    proof (cases v)
      case (JList xs)
      let ?out2 = "note_path (path @ ''[]'') T_Array ?out1"
      have ok2: "dict_ok ?out2" by (rule note_path_ok[OF ok1])
      have "card (paths_of (item_visits D (path @ ''[]'') depth array_sample_size xs) \<union> paths_of ?out2) < M"
        using rest JList by (simp add: insert_commute)
      with "1.IH"(1)[OF _ refl _ JList ok2] False s0 s1 show ?thesis
        unfolding walk_event_fields.simps[of D M path depth v out] vis by (simp add: JList Let_def)
    next
      case (JObj kvs)
      with "1.IH"(2)[OF _ refl _ JObj ok1] False s0 s1 rest show ?thesis
        unfolding walk_event_fields.simps[of D M path depth v out] vis by (simp add: JObj Let_def)
    qed (use False s0 s1 in \<open>simp_all add: walk_event_fields.simps visits.simps Let_def\<close>)
  qed
next
  case (2 D M path depth out)
  then show ?case by simp
next
  case (3 D M path depth k v kvs out)
  let ?us = "visits D (path @ ''.'' @ k) (depth + 1) v"
  let ?vs = "member_visits D path depth kvs"
  have small: "card (paths_of (?us @ ?vs) \<union> paths_of out) < M" using "3.prems"(2) by simp
  have one: "walk_event_fields D M (path @ ''.'' @ k) (depth + 1) v out = note_all ?us out"
    by (rule "3.IH"(1)[OF "3.prems"(1) fewer_paths(1)[OF small]])
  have "length (note_all ?us out) < M"
    using fewer_paths(1)[OF small] "3.prems"(1) by (simp add: note_all_size)
  with one "3.IH"(2)[OF one[symmetric] _ note_all_ok[OF "3.prems"(1)] fewer_paths(2)[OF small]]
  show ?case by (simp add: Let_def)
next
  case (4 D M path depth xs out)
  then show ?case by simp
next
  case (5 D M path depth n out)
  then show ?case by simp
next
  case (6 D M path depth n x xs out)
  let ?us = "if is_obj x then member_visits D path depth (obj_of x) else visits D (path @ ''[]'') (depth + 1) x"
  let ?vs = "item_visits D path depth n xs"
  have small: "card (paths_of (?us @ ?vs) \<union> paths_of out) < M" using "6.prems"(2) by simp
  note su = fewer_paths(1)[OF small] and sv = fewer_paths(2)[OF small] and ok = note_all_ok[OF "6.prems"(1)]
  have len: "length (note_all ?us out) < M" using su "6.prems"(1) by (simp add: note_all_size)
  show ?case
  proof (cases "is_obj x")
    case True
    have one: "walk_members D M path depth (obj_of x) out = (note_all ?us out, False)"
      using "6.IH"(1)[OF True "6.prems"(1)] su True by simp
    have "walk_items D M path depth n xs (note_all ?us out) = note_all ?vs (note_all ?us out)"
      using "6.IH"(2)[OF True one[symmetric] refl _ ok sv] by simp
    with True one show ?thesis by simp
  next
    case False
    have one: "walk_event_fields D M (path @ ''[]'') (depth + 1) x out = note_all ?us out"
      using "6.IH"(3)[OF False "6.prems"(1)] su False by simp
    have "walk_items D M path depth n xs (note_all ?us out) = note_all ?vs (note_all ?us out)"
      using "6.IH"(4)[OF False one[symmetric] _ ok sv] len by simp
    with False one len show ?thesis by (simp add: Let_def)
  qed
qed


lemma collect_fields_all:
  assumes "dict_ok out" "card (paths_of (concat (map (\<lambda>(k, v). visits D (''$.'' @ k) 0 v) kvs)) \<union> paths_of out) < M"
  shows "collect_fields D M kvs out = note_all (concat (map (\<lambda>(k, v). visits D (''$.'' @ k) 0 v) kvs)) out"
  using assms
proof (induction kvs arbitrary: out)
  case (Cons kv kvs)
  obtain k v where kv: "kv = (k, v)" by (cases kv)
  let ?us = "visits D (''$.'' @ k) 0 v"
  let ?vs = "concat (map (\<lambda>(k, v). visits D (''$.'' @ k) 0 v) kvs)"
  have small: "card (paths_of (?us @ ?vs) \<union> paths_of out) < M" using Cons.prems(2) kv by simp
  have one: "walk_event_fields D M (''$.'' @ k) 0 v out = note_all ?us out"
    by (rule walk_all_parts(1)[OF Cons.prems(1) fewer_paths(1)[OF small]])
  have len: "length (note_all ?us out) < M"
    using fewer_paths(1)[OF small] Cons.prems(1) by (simp add: note_all_size)
  have "collect_fields D M kvs (note_all ?us out) = note_all ?vs (note_all ?us out)"
    by (rule Cons.IH[OF note_all_ok[OF Cons.prems(1)] fewer_paths(2)[OF small]])
  then show ?case using one len kv by (simp add: Let_def)
qed simp

lemma collect_event_all:
  assumes "card (paths_of (event_visits D e)) < M"
  shows "collect_paths_from_event D M e = note_all (event_visits D e) []"
proof (cases "is_obj e")
  case True
  then obtain kvs where "e = JObj kvs" by (cases e) auto
  with assms collect_fields_all[of "[]" D kvs M] show ?thesis
    by (simp add: collect_paths_from_event_def event_visits_def)
next
  case False
  then have "event_visits D e = visits D ''$'' 0 e" "collect_paths_from_event D M e = walk_event_fields D M ''$'' 0 e []"
    by (cases e; simp add: event_visits_def collect_paths_from_event_def)+
  with assms walk_all_parts(1)[of "[]" D "''$''" 0 e M] show ?thesis by simp
qed

lemma merge_paths_all:
  assumes "dict_ok m" "card (paths_of vs \<union> paths_of m) < M"
  shows "merge_paths M vs m = (note_all vs m, False)"
  using assms
proof (induction vs arbitrary: m)
  case (Cons vt vs)
  obtain p t where vt: "vt = (p, t)" by (cases vt)
  have small: "card (paths_of ([(p, t)] @ vs) \<union> paths_of m) < M" using Cons.prems(2) vt by simp
  note ok = note_path_ok[OF Cons.prems(1), of p t]
  have "length (note_path p t m) < M"
    using fewer_paths(1)[OF small] ok by (simp add: dict_size)
  moreover have "merge_paths M vs (note_path p t m) = (note_all vs (note_path p t m), False)"
    using Cons.IH[OF ok] fewer_paths(2)[OF small] by simp
  ultimately show ?case using vt by (simp add: Let_def)
qed simp

section \<open>The type of a path\<close>

text \<open>The join of the types seen at a path, in any order.\<close>

definition join_types :: "value_type list \<Rightarrow> value_type option" where
  "join_types ts = fold (\<lambda>t a. Some (merge_inferred_types a t)) ts None"

definition types_at :: "string \<Rightarrow> (string \<times> value_type) list \<Rightarrow> value_type list" where
  "types_at p vs = map snd (filter (\<lambda>vt. fst vt = p) vs)"

lemma merge_assoc:
  "merge_inferred_types (Some (merge_inferred_types a s)) t =
   merge_inferred_types a (merge_inferred_types (Some s) t)"
  by (cases a; cases s; cases t) (auto simp: merge_inferred_types_def split: option.splits)

lemma types_at_simps [simp]:
  "types_at p [] = []"
  "types_at p ((q, t) # vs) = (if q = p then t # types_at p vs else types_at p vs)"
  "types_at p (us @ vs) = types_at p us @ types_at p vs"
  by (simp_all add: types_at_def)

lemma note_path_get:
  "dict_get (note_path q t out) p = (if p = q then Some (merge_inferred_types (dict_get out q) t) else dict_get out p)"
  by (simp add: note_path_def dict_simps)

lemma note_all_get:
  "dict_get (note_all vs out) p = fold (\<lambda>t a. Some (merge_inferred_types a t)) (types_at p vs) (dict_get out p)"
proof (induction vs arbitrary: out)
  case (Cons vt vs)
  obtain q t where "vt = (q, t)" by (cases vt)
  then show ?case by (simp add: Cons.IH note_path_get)
qed simp

lemma merge_None [simp]: "merge_inferred_types None t = t"
  by (simp add: merge_inferred_types_def)

lemma join_from:
  "fold (\<lambda>t a. Some (merge_inferred_types a t)) ts (Some (merge_inferred_types a s)) =
   Some (merge_inferred_types a (the (fold (\<lambda>t a. Some (merge_inferred_types a t)) ts (Some s))))"
proof (induction ts arbitrary: s)
  case (Cons t ts)
  show ?case using Cons.IH[of "merge_inferred_types (Some s) t"] by (simp add: merge_assoc)
qed simp

lemma join_from_Some:
  "fold (\<lambda>t a. Some (merge_inferred_types a t)) ts a =
     (case join_types ts of None \<Rightarrow> a | Some s \<Rightarrow> Some (merge_inferred_types a s))"
proof (cases ts)
  case Nil
  then show ?thesis by (simp add: join_types_def)
next
  case (Cons t rest)
  have "fold (\<lambda>t a. Some (merge_inferred_types a t)) rest (Some t) \<noteq> None"
    by (induction rest arbitrary: t) auto
  then show ?thesis
    using Cons join_from[of rest a t] by (auto simp: join_types_def)
qed

text \<open>Noting the paths of one event, already joined, adds what noting its visits adds.\<close>

lemma types_at_dict:
  "dict_ok d \<Longrightarrow> types_at p d = (case dict_get d p of None \<Rightarrow> [] | Some t \<Rightarrow> [t])"
proof (induction d)
  case (Cons kv d)
  obtain k t where kv: "kv = (k, t)" by (cases kv)
  have "types_at k d = []" if "k \<notin> fst ` set d"
    using that by (auto simp: types_at_def filter_empty_conv)
  with Cons kv show ?case by auto
qed simp

lemma note_all_fresh: "dict_get (note_all vs []) p = join_types (types_at p vs)"
  by (simp add: note_all_get join_types_def)

lemma note_joined_get:
  "dict_get (note_all (note_all vs []) out) p = dict_get (note_all vs out) p"
  using note_all_ok[of "[]" vs]
  by (simp add: note_all_get[of _ out] types_at_dict note_all_fresh join_from_Some[of "types_at p vs"] split: option.split)

lemma merge_events_all:
  assumes "dict_ok m" "card (paths_of (concat (map (event_visits D) es)) \<union> paths_of m) < M"
  shows "dict_ok (merge_events D M es m) \<and>
    paths_of (merge_events D M es m) = paths_of (concat (map (event_visits D) es)) \<union> paths_of m \<and>
    dict_get (merge_events D M es m) p = dict_get (note_all (concat (map (event_visits D) es)) m) p"
  using assms
proof (induction es arbitrary: m)
  case (Cons e es)
  let ?us = "event_visits D e"
  let ?vs = "concat (map (event_visits D) es)"
  let ?m1 = "note_all (note_all ?us []) m"
  have small: "card (paths_of (?us @ ?vs) \<union> paths_of m) < M" using Cons.prems(2) by simp
  have "card (paths_of ?us) \<le> card (paths_of (?us @ ?vs) \<union> paths_of m)" by (rule card_mono) auto
  with small have ev: "collect_paths_from_event D M e = note_all ?us []" by (simp add: collect_event_all)
  have mp: "merge_paths M (note_all ?us []) m = (?m1, False)"
    using fewer_paths(1)[OF small] Cons.prems(1) by (simp add: merge_paths_all)
  have step: "merge_events D M (e # es) m = merge_events D M es ?m1"
    by (simp add: ev mp)
  have ok: "dict_ok ?m1" by (rule note_all_ok[OF Cons.prems(1)])
  have small1: "card (paths_of ?vs \<union> paths_of ?m1) < M"
    using fewer_paths(2)[OF small] by simp
  show ?case using Cons.IH[OF ok small1] step
    by (simp add: note_all_get[of _ ?m1] note_joined_get note_all_get[of _ "note_all ?us m"] Un_ac image_Un)
qed simp_all

text \<open>Below the limit on paths, a batch has exactly the paths the walk meets in its first
  \<open>max_events\<close> events, each with the join of all the types seen there.\<close>

theorem collected_paths_exact:
  assumes "card (paths_of (batch_visits D n events)) < M"
  shows "paths_of (collect_paths_from_events D M n events) = paths_of (batch_visits D n events)"
    and "dict_get (collect_paths_from_events D M n events) p = join_types (types_at p (batch_visits D n events))"
  using merge_events_all[of "[]" D "take n events" M p] assms
  by (simp_all add: collect_paths_from_events_def note_all_fresh)

lemma collected_paths_ok:
  assumes "card (paths_of (batch_visits D n events)) < M"
  shows "dict_ok (collect_paths_from_events D M n events)"
  using merge_events_all[of "[]" D "take n events" M] assms by (simp add: collect_paths_from_events_def)

section \<open>Beyond the limit\<close>

text \<open>Whatever the limit, the walk adds only paths it meets, keeps those it has, and stops at the
  maximal number.\<close>

definition grown :: "nat \<Rightarrow> (string \<times> value_type) list \<Rightarrow> path_types \<Rightarrow> path_types \<Rightarrow> bool" where
  "grown M vs out out' \<longleftrightarrow>
     dict_ok out' \<and> length out' \<le> M \<and> paths_of out \<subseteq> paths_of out' \<and> paths_of out' \<subseteq> paths_of vs \<union> paths_of out"

lemma grown_refl: "dict_ok out \<Longrightarrow> length out \<le> M \<Longrightarrow> grown M vs out out"
  by (auto simp: grown_def)

lemma subset_steps:
  "A \<subseteq> U \<union> X \<Longrightarrow> B \<subseteq> V \<union> A \<Longrightarrow> B \<subseteq> U \<union> V \<union> X"
  "A \<subseteq> U \<union> X \<Longrightarrow> A \<subseteq> U \<union> V \<union> X"
  "A \<subseteq> V \<union> X \<Longrightarrow> A \<subseteq> U \<union> V \<union> X"
  "U \<subseteq> V \<Longrightarrow> A \<subseteq> U \<union> X \<Longrightarrow> A \<subseteq> V \<union> X"
  by blast+

lemma grown_trans: "grown M us out out1 \<Longrightarrow> grown M vs out1 out2 \<Longrightarrow> grown M (us @ vs) out out2"
  unfolding grown_def set_append image_Un by (meson subset_steps order_trans)

lemma grown_more: "grown M us out out1 \<Longrightarrow> grown M (us @ vs) out out1"
  unfolding grown_def set_append image_Un by (meson subset_steps order_trans)

lemma grown_more_left: "grown M vs out out1 \<Longrightarrow> grown M (us @ vs) out out1"
  unfolding grown_def set_append image_Un by (meson subset_steps order_trans)

lemma grown_note: "dict_ok out \<Longrightarrow> length out < M \<Longrightarrow> grown M [(p, t)] out (note_path p t out)"
  using dict_size[OF note_path_ok, of out p t]
  by (auto simp: grown_def note_path_ok dict_size card_insert_if)

lemma walk_grown_parts:
  shows "dict_ok out \<Longrightarrow> length out \<le> M \<Longrightarrow>
           grown M (visits D path depth v) out (walk_event_fields D M path depth v out)"
    and "dict_ok out \<Longrightarrow> length out \<le> M \<Longrightarrow>
           grown M (member_visits D path depth kvs) out (fst (walk_members D M path depth kvs out))"
    and "dict_ok out \<Longrightarrow> length out \<le> M \<Longrightarrow>
           grown M (item_visits D path depth n xs) out (walk_items D M path depth n xs out)"
proof (induction D M path depth v out and D M path depth kvs out and D M path depth n xs out
    rule: walk_event_fields_walk_members_walk_items.induct)
  case (1 D M path depth v out)
  show ?case
  proof (cases "M \<le> length out \<or> D < depth")
    case True
    then show ?thesis using "1.prems" by (simp add: walk_event_fields.simps grown_refl)
  next
    case False
    let ?out1 = "note_path path (infer_value_type v) out"
    have g: "grown M [(path, infer_value_type v)] out ?out1"
      using False "1.prems" by (simp add: grown_note)
    have ok1: "dict_ok ?out1" "length ?out1 \<le> M" using g by (auto simp: grown_def)
    note more = grown_trans[OF g]
    show ?thesis
    proof (cases "length ?out1 \<ge> M")
      case True
      then show ?thesis using False grown_more[OF g]
        by (simp add: walk_event_fields.simps[of D M path depth v out] visits.simps)
    next
      case small: False
      show ?thesis
      proof (cases v)
        case (JList xs)
        have g2: "grown M [(path @ ''[]'', T_Array)] ?out1 (note_path (path @ ''[]'') T_Array ?out1)"
          using small ok1 by (simp add: grown_note)
        have ok2: "dict_ok (note_path (path @ ''[]'') T_Array ?out1)" "length (note_path (path @ ''[]'') T_Array ?out1) \<le> M"
          using g2 by (auto simp: grown_def)
        show ?thesis
          using more[OF grown_trans[OF g2 "1.IH"(1)[OF _ refl _ JList ok2]]] False small JList
          unfolding walk_event_fields.simps[of D M path depth v out] visits.simps[of D path depth v]
          by (simp add: Let_def)
      next
        case (JObj kvs)
        show ?thesis
          using more[OF "1.IH"(2)[OF _ refl _ JObj ok1]] False small
          unfolding walk_event_fields.simps[of D M path depth v out] visits.simps[of D path depth v]
          by (simp add: JObj Let_def)
      qed (use False small g in \<open>simp_all add: walk_event_fields.simps visits.simps Let_def\<close>)
    qed
  qed
next
  case (3 D M path depth k v kvs out)
  let ?out1 = "walk_event_fields D M (path @ ''.'' @ k) (depth + 1) v out"
  have g: "grown M (visits D (path @ ''.'' @ k) (depth + 1) v) out ?out1"
    by (rule "3.IH"(1)[OF "3.prems"])
  then have ok: "dict_ok ?out1" "length ?out1 \<le> M" by (auto simp: grown_def)
  show ?case
    using grown_more[OF g] grown_trans[OF g "3.IH"(2)[OF refl _ ok]] by (simp add: Let_def)
next
  case (6 D M path depth n x xs out)
  show ?case
  proof (cases "is_obj x")
    case True
    obtain out1 ret where w: "walk_members D M path depth (obj_of x) out = (out1, ret)"
      by (rule that[OF prod.collapse[symmetric]])
    have g: "grown M (member_visits D path depth (obj_of x)) out out1"
      using "6.IH"(1)[OF True "6.prems"] w by simp
    then have ok: "dict_ok out1" "length out1 \<le> M" by (auto simp: grown_def)
    show ?thesis
      using grown_more[OF g] grown_trans[OF g "6.IH"(2)[OF True w[symmetric] refl _ ok]] True w
      by simp
  next
    case False
    let ?out1 = "walk_event_fields D M (path @ ''[]'') (depth + 1) x out"
    have g: "grown M (visits D (path @ ''[]'') (depth + 1) x) out ?out1"
      by (rule "6.IH"(3)[OF False "6.prems"])
    then have ok: "dict_ok ?out1" "length ?out1 \<le> M" by (auto simp: grown_def)
    show ?thesis
      using grown_more[OF g] grown_trans[OF g "6.IH"(4)[OF False refl _ ok]] False
      by (simp add: Let_def)
  qed
qed (simp_all add: grown_refl)

lemma collect_fields_grown:
  assumes "dict_ok out" "length out \<le> M"
  shows "grown M (concat (map (\<lambda>(k, v). visits D (''$.'' @ k) 0 v) kvs)) out (collect_fields D M kvs out)"
  using assms
proof (induction kvs arbitrary: out)
  case (Cons kv kvs)
  obtain k v where kv: "kv = (k, v)" by (cases kv)
  let ?out1 = "walk_event_fields D M (''$.'' @ k) 0 v out"
  have g: "grown M (visits D (''$.'' @ k) 0 v) out ?out1" by (rule walk_grown_parts(1)[OF Cons.prems])
  then have ok: "dict_ok ?out1" "length ?out1 \<le> M" by (auto simp: grown_def)
  show ?case using grown_more[OF g] grown_trans[OF g Cons.IH[OF ok]] kv by (simp add: Let_def)
qed (simp add: grown_refl)

lemma collect_event_grown: "grown M (event_visits D e) [] (collect_paths_from_event D M e)"
proof (cases "is_obj e")
  case True
  then obtain kvs where "e = JObj kvs" by (cases e) auto
  then show ?thesis using collect_fields_grown[of "[]" M D kvs]
    by (simp add: collect_paths_from_event_def event_visits_def)
next
  case False
  then have "event_visits D e = visits D ''$'' 0 e" "collect_paths_from_event D M e = walk_event_fields D M ''$'' 0 e []"
    by (cases e; simp add: event_visits_def collect_paths_from_event_def)+
  with walk_grown_parts(1)[of "[]" M D "''$''" 0 e] show ?thesis by simp
qed

lemma merge_paths_grown:
  "dict_ok m \<Longrightarrow> length m < M \<Longrightarrow>
     grown M vs m (fst (merge_paths M vs m)) \<and> (snd (merge_paths M vs m) \<or> length (fst (merge_paths M vs m)) < M)"
proof (induction vs arbitrary: m)
  case (Cons vt vs)
  obtain p t where vt: "vt = (p, t)" by (cases vt)
  have g: "grown M [(p, t)] m (note_path p t m)" using Cons.prems by (simp add: grown_note)
  then have ok: "dict_ok (note_path p t m)" by (simp add: grown_def)
  show ?case
    using grown_more[OF g, of vs] grown_trans[OF g, of vs] Cons.IH[OF ok] vt by (auto simp: Let_def)
qed (simp add: grown_refl)

lemma grown_paths: "paths_of us \<subseteq> paths_of vs \<Longrightarrow> grown M us out out' \<Longrightarrow> grown M vs out out'"
  unfolding grown_def by (meson subset_steps)

lemma merge_events_grown:
  "dict_ok m \<Longrightarrow> length m < M \<Longrightarrow>
     grown M (concat (map (event_visits D) es)) m (merge_events D M es m)"
proof (induction es arbitrary: m)
  case (Cons e es)
  obtain m1 ret where w: "merge_paths M (collect_paths_from_event D M e) m = (m1, ret)"
    by (rule that[OF prod.collapse[symmetric]])
  have sub: "paths_of (collect_paths_from_event D M e) \<subseteq> paths_of (event_visits D e)"
    using collect_event_grown[of M D e] by (simp add: grown_def)
  have g: "grown M (event_visits D e) m m1" and len: "ret \<or> length m1 < M"
    using merge_paths_grown[OF Cons.prems, of "collect_paths_from_event D M e"] grown_paths[OF sub, of M m] w by auto
  show ?case
  proof (cases ret)
    case True
    then show ?thesis using grown_more[OF g, of "concat (map (event_visits D) es)"] w by simp
  next
    case False
    have ok: "dict_ok m1" using g by (simp add: grown_def)
    show ?thesis using grown_trans[OF g Cons.IH[OF ok]] len False w by simp
  qed
qed (simp add: grown_refl)

theorem collect_paths_bounded:
  assumes "0 < M"
  shows "length (collect_paths_from_events D M n events) \<le> M"
    and "paths_of (collect_paths_from_events D M n events) \<subseteq> paths_of (batch_visits D n events)"
  using merge_events_grown[of "[]" M D "take n events"] assms
  by (simp_all add: collect_paths_from_events_def grown_def)

end
