(* ===== verification/Schema_Observation.thy ===== *)
theory Schema_Observation
  imports Path_Walker
begin

text \<open>
  \<open>app/schema_observation/service.py\<close> and \<open>drift_detection.py\<close>: the observed schema of a stream,
  merged run by run from the paths of the batches, its baseline, and the drift findings raised
  against the baseline by fields that appear, disappear or change their type for a configured
  number of consecutive runs. The JSON columns are modelled by what the code writes into them;
  times are integers. The counters kept per path implement the streaks of the run history
  (\<open>streak_counters\<close>), and a finding is raised exactly when the streak of its path reached the
  threshold (\<open>drift_findings_exact\<close>).
\<close>

section \<open>State\<close>

record obs_settings =
  os_enabled :: bool
  os_drift_enabled :: bool
  os_max_events :: int
  os_max_paths :: int
  os_max_depth :: int
  os_baseline_min_runs :: int
  os_baseline_min_events :: int
  os_added_confirm_runs :: int
  os_removed_absent_runs :: int
  os_type_confirm_runs :: int

text \<open>The entry of a path. \<open>pm_add\<close> is \<open>None\<close> where the key is missing.\<close>

record path_meta =
  pm_type :: value_type
  pm_count :: int
  pm_absent :: int
  pm_add :: "int option"
  pm_type_runs :: int
  pm_last_type :: "value_type option"

type_synonym path_inventory = "(string, path_meta) dict"

record observed_row =
  ob_paths :: path_inventory
  ob_baseline :: "path_types option"
  ob_baseline_at :: "int option"
  ob_events :: int
  ob_runs :: int
  ob_last :: int

datatype drift_status = Drift_Open | Drift_Acknowledged | Drift_Resolved

record drift_row =
  dr_id :: int
  dr_stream :: int
  dr_path :: string
  dr_category :: string
  dr_status :: drift_status
  dr_first :: int
  dr_last :: int

record drift_table =
  dt_rows :: "drift_row list"
  dt_next :: int

record obs_state =
  oz_rows :: "(int, observed_row) dict"
  oz_drifts :: drift_table

definition schema_drift_detection_enabled :: "obs_settings \<Rightarrow> bool" where
  "schema_drift_detection_enabled cfg \<longleftrightarrow> os_enabled cfg \<and> os_drift_enabled cfg"

definition baseline_min_runs :: "obs_settings \<Rightarrow> int" where
  "baseline_min_runs cfg = max 1 (os_baseline_min_runs cfg)"

definition baseline_min_events :: "obs_settings \<Rightarrow> int" where
  "baseline_min_events cfg = max 1 (os_baseline_min_events cfg)"

definition added_confirm_runs :: "obs_settings \<Rightarrow> int" where
  "added_confirm_runs cfg = max 1 (os_added_confirm_runs cfg)"

definition removed_absent_runs :: "obs_settings \<Rightarrow> int" where
  "removed_absent_runs cfg = max 1 (os_removed_absent_runs cfg)"

definition type_change_confirm_runs :: "obs_settings \<Rightarrow> int" where
  "type_change_confirm_runs cfg = max 1 (os_type_confirm_runs cfg)"

section \<open>Merging a batch\<close>

definition paths_from_row :: "path_inventory \<Rightarrow> path_inventory" where
  "paths_from_row d =
     map (\<lambda>(p, m). (p, m\<lparr>pm_add := Some (case pm_add m of None \<Rightarrow> 0 | Some n \<Rightarrow> n), pm_last_type := None\<rparr>)) d"

definition new_meta :: "value_type \<Rightarrow> int \<Rightarrow> int \<Rightarrow> path_meta" where
  "new_meta t n add =
     \<lparr>pm_type = t, pm_count = n, pm_absent = 0, pm_add = Some add, pm_type_runs = 0, pm_last_type = None\<rparr>"

definition merge_path :: "int \<Rightarrow> string \<times> value_type \<Rightarrow> path_inventory \<Rightarrow> path_inventory" where
  "merge_path n pt d =
     (case dict_get d (fst pt) of
        None \<Rightarrow> dict_set (fst pt) (new_meta (snd pt) n 0) d
      | Some m \<Rightarrow> dict_set (fst pt)
          (m\<lparr>pm_type := merge_inferred_types (Some (pm_type m)) (snd pt), pm_count := pm_count m + n\<rparr>) d)"

definition merge_path_inventories :: "path_inventory \<Rightarrow> path_types \<Rightarrow> int \<Rightarrow> path_inventory" where
  "merge_path_inventories existing batch n = fold (merge_path n) batch existing"

definition update_path_presence_streaks :: "path_types \<Rightarrow> path_inventory \<Rightarrow> path_inventory" where
  "update_path_presence_streaks batch d =
     map (\<lambda>(p, m). (p, if dict_has batch p then m\<lparr>pm_absent := 0, pm_add := map_option (\<lambda>n. n + 1) (pm_add m)\<rparr>
                       else m\<lparr>pm_absent := pm_absent m + 1, pm_add := Some 0\<rparr>)) d"

definition maybe_establish_baseline :: "obs_settings \<Rightarrow> int \<Rightarrow> path_inventory \<Rightarrow> observed_row \<Rightarrow> observed_row" where
  "maybe_establish_baseline cfg now d row =
     (if ob_baseline row \<noteq> None then row
      else if ob_runs row < baseline_min_runs cfg then row
      else if ob_events row < baseline_min_events cfg then row
      else if d = [] then row
      else row\<lparr>ob_baseline := Some (map (\<lambda>(p, m). (p, pm_type m)) d), ob_baseline_at := Some now\<rparr>)"

definition ensure_pending_add_tracking :: "path_types \<Rightarrow> path_types \<Rightarrow> path_inventory \<Rightarrow> path_inventory" where
  "ensure_pending_add_tracking baseline batch d =
     map (\<lambda>(p, m). (p, if dict_has batch p \<and> \<not> dict_has baseline p \<and> pm_add m = None then m\<lparr>pm_add := Some 0\<rparr> else m)) d"

definition is_primitive_type_change :: "value_type \<Rightarrow> value_type \<Rightarrow> bool" where
  "is_primitive_type_change base cur \<longleftrightarrow>
     base \<noteq> cur \<and> base \<notin> {T_Null, T_Mixed} \<and> cur \<notin> {T_Null, T_Mixed}"

definition type_streak :: "path_types \<Rightarrow> path_types \<Rightarrow> string \<Rightarrow> path_meta \<Rightarrow> path_meta" where
  "type_streak baseline batch p m =
     (case (dict_get baseline p, dict_get batch p) of
        (None, _) \<Rightarrow> m
      | (Some _, None) \<Rightarrow> m\<lparr>pm_type_runs := 0, pm_last_type := None\<rparr>
      | (Some b, Some t) \<Rightarrow>
          if is_primitive_type_change b t then m\<lparr>pm_type_runs := pm_type_runs m + 1, pm_last_type := Some t\<rparr>
          else m\<lparr>pm_type_runs := 0, pm_last_type := None\<rparr>)"

definition update_type_change_streaks :: "path_types \<Rightarrow> path_types \<Rightarrow> path_inventory \<Rightarrow> path_inventory" where
  "update_type_change_streaks baseline batch d = map (\<lambda>(p, m). (p, type_streak baseline batch p m)) d"

section \<open>Drift findings\<close>

definition upsert_open_drift :: "int \<Rightarrow> int \<Rightarrow> string \<times> string \<Rightarrow> drift_table \<Rightarrow> drift_table" where
  "upsert_open_drift now sid pc t =
     (case List.find (\<lambda>r. dr_stream r = sid \<and> dr_path r = fst pc \<and> dr_category r = snd pc) (dt_rows t) of
        None \<Rightarrow>
          t\<lparr>dt_rows := dt_rows t @ [\<lparr>dr_id = dt_next t, dr_stream = sid, dr_path = fst pc, dr_category = snd pc,
                                      dr_status = Drift_Open, dr_first = now, dr_last = now\<rparr>],
             dt_next := dt_next t + 1\<rparr>
      | Some f \<Rightarrow>
          if dr_status f \<noteq> Drift_Open then t
          else t\<lparr>dt_rows := map (\<lambda>r. if dr_id r = dr_id f then r\<lparr>dr_last := now\<rparr> else r) (dt_rows t)\<rparr>)"

definition added_paths :: "obs_settings \<Rightarrow> path_types \<Rightarrow> path_inventory \<Rightarrow> path_types \<Rightarrow> string list" where
  "added_paths cfg baseline d batch =
     filter (\<lambda>p. \<not> dict_has baseline p \<and>
       (case dict_get d p of None \<Rightarrow> False
        | Some m \<Rightarrow> \<not> (case pm_add m of None \<Rightarrow> 0 | Some n \<Rightarrow> n) < added_confirm_runs cfg)) (map fst batch)"

definition removed_paths :: "obs_settings \<Rightarrow> path_types \<Rightarrow> path_inventory \<Rightarrow> string list" where
  "removed_paths cfg baseline d =
     filter (\<lambda>p. case dict_get d p of None \<Rightarrow> False | Some m \<Rightarrow> \<not> pm_absent m < removed_absent_runs cfg) (map fst baseline)"

definition type_changed_paths :: "obs_settings \<Rightarrow> path_types \<Rightarrow> path_inventory \<Rightarrow> path_types \<Rightarrow> string list" where
  "type_changed_paths cfg baseline d batch =
     map fst (filter (\<lambda>(p, b).
       case (dict_get batch p, dict_get d p) of
         (Some t, Some m) \<Rightarrow> is_primitive_type_change b t \<and> \<not> pm_type_runs m < type_change_confirm_runs cfg
       | _ \<Rightarrow> False) baseline)"

definition detect_field_changes ::
    "obs_settings \<Rightarrow> int \<Rightarrow> int \<Rightarrow> observed_row \<Rightarrow> path_inventory \<Rightarrow> path_types \<Rightarrow> drift_table \<Rightarrow> drift_table" where
  "detect_field_changes cfg now sid row d batch t =
     (if \<not> schema_drift_detection_enabled cfg then t
      else
        (let baseline = (case ob_baseline row of None \<Rightarrow> [] | Some b \<Rightarrow> b)
         in if baseline = [] then t
            else fold (upsert_open_drift now sid)
                   (map (\<lambda>p. (p, ''field_added'')) (added_paths cfg baseline d batch)
                    @ map (\<lambda>p. (p, ''field_removed'')) (removed_paths cfg baseline d)
                    @ map (\<lambda>p. (p, ''field_type_changed'')) (type_changed_paths cfg baseline d batch)) t))"

section \<open>One run\<close>

definition finalize_observation_row ::
    "obs_settings \<Rightarrow> int \<Rightarrow> int \<Rightarrow> path_types \<Rightarrow> observed_row \<Rightarrow> drift_table \<Rightarrow> observed_row \<times> drift_table" where
  "finalize_observation_row cfg now sid batch row t =
     (if \<not> schema_drift_detection_enabled cfg then (row, t)
      else
        (let d1 = update_path_presence_streaks batch (ob_paths row);
             row1 = maybe_establish_baseline cfg now d1 row;
             baseline = (case ob_baseline row1 of None \<Rightarrow> [] | Some b \<Rightarrow> b);
             d2 = update_type_change_streaks baseline batch (ensure_pending_add_tracking baseline batch d1);
             row2 = row1\<lparr>ob_paths := d2\<rparr>
         in (row2, detect_field_changes cfg now sid row2 d2 batch t)))"

definition first_row :: "int \<Rightarrow> int \<Rightarrow> path_types \<Rightarrow> observed_row" where
  "first_row now n batch =
     \<lparr>ob_paths = map (\<lambda>(p, t). (p, new_meta t n 1)) batch, ob_baseline = None, ob_baseline_at = None,
      ob_events = n, ob_runs = 1, ob_last = now\<rparr>"

definition merged_row :: "int \<Rightarrow> int \<Rightarrow> path_types \<Rightarrow> observed_row \<Rightarrow> observed_row" where
  "merged_row now n batch row =
     row\<lparr>ob_paths := merge_path_inventories (paths_from_row (ob_paths row)) batch n,
         ob_events := ob_events row + n, ob_runs := ob_runs row + 1, ob_last := now\<rparr>"

definition observed_sample :: "obs_settings \<Rightarrow> json list \<Rightarrow> json list" where
  "observed_sample cfg events = take (nat (max 1 (os_max_events cfg))) (filter is_obj events)"

definition observed_batch :: "obs_settings \<Rightarrow> json list \<Rightarrow> path_types" where
  "observed_batch cfg events =
     collect_paths_from_events (nat (max 4 (os_max_depth cfg))) (nat (max 100 (os_max_paths cfg)))
       (nat (max 1 (os_max_events cfg))) (observed_sample cfg events)"

definition observe_extracted_events :: "obs_settings \<Rightarrow> int \<Rightarrow> int \<Rightarrow> json list \<Rightarrow> obs_state \<Rightarrow> obs_state" where
  "observe_extracted_events cfg now sid events st =
     (if \<not> os_enabled cfg \<or> events = [] then st
      else
        (let sample = observed_sample cfg events; batch = observed_batch cfg events
         in if sample = [] \<or> batch = [] then st
            else
              (let n = int (length sample);
                   row = (case dict_get (oz_rows st) sid of
                            None \<Rightarrow> first_row now n batch
                          | Some old \<Rightarrow> merged_row now n batch old);
                   (row', t) = finalize_observation_row cfg now sid batch row (oz_drifts st)
               in \<lparr>oz_rows = dict_set sid row' (oz_rows st), oz_drifts = t\<rparr>)))"

section \<open>The streaks of a history\<close>

text \<open>A history is the list of the batches of a stream, oldest first.\<close>

type_synonym history = "path_types list"

definition presence :: "history \<Rightarrow> string \<Rightarrow> nat" where
  "presence bs p = length (takeWhile (\<lambda>b. dict_has b p) (rev bs))"

definition absence :: "history \<Rightarrow> string \<Rightarrow> nat" where
  "absence bs p = length (takeWhile (\<lambda>b. \<not> dict_has b p) (rev bs))"

definition seen :: "history \<Rightarrow> string \<Rightarrow> bool" where
  "seen bs p \<longleftrightarrow> list_ex (\<lambda>b. dict_has b p) bs"

lemma streak_snoc [simp]:
  "presence (bs @ [b]) p = (if dict_has b p then presence bs p + 1 else 0)"
  "absence (bs @ [b]) p = (if dict_has b p then 0 else absence bs p + 1)"
  "seen (bs @ [b]) p \<longleftrightarrow> seen bs p \<or> dict_has b p"
  by (simp_all add: presence_def absence_def seen_def)

lemma streak_Nil [simp]: "presence [] p = 0" "absence [] p = 0" "\<not> seen [] p"
  by (simp_all add: presence_def absence_def seen_def)

lemma presence_le: "presence bs p \<le> length bs"
  unfolding presence_def by (metis length_rev length_takeWhile_le)

lemma presence_unseen: "\<not> seen bs p \<Longrightarrow> presence bs p = 0"
  by (cases bs rule: rev_cases) auto

text \<open>What the entry of a path says after a history. The counter of a path seen in every run is
  one ahead, since the first run both creates its entries at one and counts them.\<close>

definition counters_match :: "history \<Rightarrow> path_inventory \<Rightarrow> bool" where
  "counters_match bs d \<longleftrightarrow>
     (\<forall>p. case dict_get d p of
            None \<Rightarrow> \<not> seen bs p
          | Some m \<Rightarrow> seen bs p \<and> pm_absent m = int (absence bs p)
              \<and> pm_add m = Some (int (presence bs p) + (if presence bs p = length bs then 1 else 0)))"

lemma map_get:
  "dict_get (map (\<lambda>(p, m). (p, f p m)) d) q = map_option (f q) (dict_get d q)"
  by (induction d) auto

lemma paths_from_row_get:
  "dict_get (paths_from_row d) p =
     map_option (\<lambda>m. m\<lparr>pm_add := Some (case pm_add m of None \<Rightarrow> 0 | Some n \<Rightarrow> n), pm_last_type := None\<rparr>) (dict_get d p)"
  unfolding paths_from_row_def by (rule map_get)

lemma presence_streaks_get:
  "dict_get (update_path_presence_streaks batch d) p =
     map_option (\<lambda>m. if dict_has batch p then m\<lparr>pm_absent := 0, pm_add := map_option (\<lambda>n. n + 1) (pm_add m)\<rparr>
                     else m\<lparr>pm_absent := pm_absent m + 1, pm_add := Some 0\<rparr>) (dict_get d p)"
  unfolding update_path_presence_streaks_def by (rule map_get)

lemma merge_fold_get:
  assumes "dict_ok batch"
  shows "map_option (\<lambda>m. (pm_absent m, pm_add m)) (dict_get (merge_path_inventories d batch n) p) =
    (case dict_get d p of
       Some m \<Rightarrow> Some (pm_absent m, pm_add m)
     | None \<Rightarrow> if dict_has batch p then Some (0, Some 0) else None)"
  using assms unfolding merge_path_inventories_def
proof (induction batch arbitrary: d)
  case (Cons pt batch)
  have "p \<noteq> fst pt \<or> \<not> dict_has batch p"
    using Cons.prems by (auto dest: map_of_SomeD simp: image_iff)
  then show ?case
    using Cons by (cases pt) (auto simp: merge_path_def dict_simps new_meta_def split: option.splits)
qed (simp split: option.split)

lemma keep_counters:
  assumes "\<And>p m. dict_get d p = Some m \<Longrightarrow> pm_add m \<noteq> None"
  shows "map_option (\<lambda>m. (pm_absent m, pm_add m))
      (dict_get (update_type_change_streaks bl batch (ensure_pending_add_tracking bl batch d)) p) =
    map_option (\<lambda>m. (pm_absent m, pm_add m)) (dict_get d p)"
  using assms[of p] unfolding update_type_change_streaks_def ensure_pending_add_tracking_def map_get
  by (cases "dict_get d p") (auto simp: type_streak_def split: option.splits)

lemma counters_first:
  assumes "dict_ok batch"
  shows "counters_match [batch] (update_path_presence_streaks batch (map (\<lambda>(p, t). (p, new_meta t n 1)) batch))"
  unfolding counters_match_def presence_streaks_get map_get
proof
  fix p
  show "case map_option (\<lambda>m. if dict_has batch p then m\<lparr>pm_absent := 0, pm_add := map_option (\<lambda>n. n + 1) (pm_add m)\<rparr>
             else m\<lparr>pm_absent := pm_absent m + 1, pm_add := Some 0\<rparr>) (map_option (\<lambda>t. new_meta t n 1) (dict_get batch p)) of
          None \<Rightarrow> \<not> seen [batch] p
        | Some m \<Rightarrow> seen [batch] p \<and> pm_absent m = int (absence [batch] p)
            \<and> pm_add m = Some (int (presence [batch] p) + (if presence [batch] p = length [batch] then 1 else 0))"
    using streak_snoc[of "[]" batch p] by (cases "dict_get batch p") (simp_all add: new_meta_def)
qed

lemma counters_step:
  assumes match: "counters_match bs d" and "bs \<noteq> []" and ok: "dict_ok batch"
  shows "counters_match (bs @ [batch]) (update_path_presence_streaks batch (merge_path_inventories (paths_from_row d) batch n))"
  unfolding counters_match_def
proof
  fix p
  let ?d = "merge_path_inventories (paths_from_row d) batch n"
  have len: "presence bs p = 0 \<Longrightarrow> presence bs p \<noteq> length bs" using assms(2) by simp
  have m: "map_option (\<lambda>m. (pm_absent m, pm_add m)) (dict_get ?d p) =
    (case dict_get (paths_from_row d) p of
       Some m \<Rightarrow> Some (pm_absent m, pm_add m)
     | None \<Rightarrow> if dict_has batch p then Some (0, Some 0) else None)"
    by (rule merge_fold_get[OF ok])
  have old: "case dict_get d p of
            None \<Rightarrow> \<not> seen bs p
          | Some m \<Rightarrow> seen bs p \<and> pm_absent m = int (absence bs p)
              \<and> pm_add m = Some (int (presence bs p) + (if presence bs p = length bs then 1 else 0))"
    using match unfolding counters_match_def by blast
  show "case dict_get (update_path_presence_streaks batch ?d) p of
          None \<Rightarrow> \<not> seen (bs @ [batch]) p
        | Some m \<Rightarrow> seen (bs @ [batch]) p \<and> pm_absent m = int (absence (bs @ [batch]) p)
            \<and> pm_add m = Some (int (presence (bs @ [batch]) p)
                + (if presence (bs @ [batch]) p = length (bs @ [batch]) then 1 else 0))"
  proof (cases "dict_get d p")
    case None
    then have "\<not> seen bs p" using old by simp
    then show ?thesis
      using m None len presence_unseen[of bs p]
      by (cases "dict_get ?d p"; cases "dict_has batch p")
         (auto simp: presence_streaks_get paths_from_row_get split: if_splits)
  next
    case (Some m0)
    then show ?thesis
      using m old
      by (cases "dict_get ?d p"; cases "dict_has batch p")
         (auto simp: presence_streaks_get paths_from_row_get)
  qed
qed

lemma counters_kept:
  assumes "counters_match bs d"
  shows "counters_match bs (update_type_change_streaks bl batch (ensure_pending_add_tracking bl batch d))"
proof -
  have "pm_add m \<noteq> None" if "dict_get d p = Some m" for p m
  proof -
    have "case dict_get d p of None \<Rightarrow> True | Some m \<Rightarrow> pm_add m \<noteq> None"
      using assms unfolding counters_match_def by (auto split: option.splits)
    with that show ?thesis by simp
  qed
  then have keep: "map_option (\<lambda>m. (pm_absent m, pm_add m))
      (dict_get (update_type_change_streaks bl batch (ensure_pending_add_tracking bl batch d)) p) =
    map_option (\<lambda>m. (pm_absent m, pm_add m)) (dict_get d p)" for p
    by (rule keep_counters)
  show ?thesis
    unfolding counters_match_def
  proof
    fix p
    show "case dict_get (update_type_change_streaks bl batch (ensure_pending_add_tracking bl batch d)) p of
            None \<Rightarrow> \<not> seen bs p
          | Some m \<Rightarrow> seen bs p \<and> pm_absent m = int (absence bs p)
              \<and> pm_add m = Some (int (presence bs p) + (if presence bs p = length bs then 1 else 0))"
      using assms[unfolded counters_match_def, rule_format, of p] keep[of p]
      by (cases "dict_get d p"; cases "dict_get (update_type_change_streaks bl batch (ensure_pending_add_tracking bl batch d)) p") auto
  qed
qed

section \<open>The table of drift findings\<close>

definition has_drift :: "drift_table \<Rightarrow> int \<Rightarrow> string \<Rightarrow> string \<Rightarrow> bool" where
  "has_drift t sid p c \<longleftrightarrow> list_ex (\<lambda>r. dr_stream r = sid \<and> dr_path r = p \<and> dr_category r = c) (dt_rows t)"

lemma list_ex_map: "list_ex P (map f xs) = list_ex (\<lambda>x. P (f x)) xs"
  by (induction xs) simp_all

lemma touch_key:
  "dr_stream (if b then r\<lparr>dr_last := x\<rparr> else r) = dr_stream r"
  "dr_path (if b then r\<lparr>dr_last := x\<rparr> else r) = dr_path r"
  "dr_category (if b then r\<lparr>dr_last := x\<rparr> else r) = dr_category r"
  by simp_all

lemma upsert_drift:
  "has_drift (upsert_open_drift now s pc t) sid p c \<longleftrightarrow> has_drift t sid p c \<or> (sid = s \<and> pc = (p, c))"
proof (cases "List.find (\<lambda>r. dr_stream r = s \<and> dr_path r = fst pc \<and> dr_category r = snd pc) (dt_rows t)")
  case None
  then show ?thesis by (cases pc) (auto simp: upsert_open_drift_def has_drift_def)
next
  case (Some f)
  from find_Some_mem[OF Some] have f: "f \<in> set (dt_rows t)" "dr_stream f = s" "dr_path f = fst pc" "dr_category f = snd pc"
    by simp_all
  then have "has_drift t s (fst pc) (snd pc)" by (auto simp: has_drift_def list_ex_iff)
  moreover have "has_drift (upsert_open_drift now s pc t) sid p c = has_drift t sid p c"
    using Some touch_key by (simp add: upsert_open_drift_def has_drift_def list_ex_map)
  ultimately show ?thesis by auto
qed

lemma upsert_drifts:
  "has_drift (fold (upsert_open_drift now s) pcs t) sid p c \<longleftrightarrow> has_drift t sid p c \<or> (sid = s \<and> (p, c) \<in> set pcs)"
  by (induction pcs arbitrary: t) (auto simp: upsert_drift)

section \<open>Runs\<close>

type_synonym obs_run = "int \<times> int \<times> json list"

definition observe_run :: "obs_settings \<Rightarrow> obs_run \<Rightarrow> obs_state \<Rightarrow> obs_state" where
  "observe_run cfg r st = (case r of (now, sid, events) \<Rightarrow> observe_extracted_events cfg now sid events st)"

definition observe_runs :: "obs_settings \<Rightarrow> obs_run list \<Rightarrow> obs_state" where
  "observe_runs cfg runs = fold (observe_run cfg) runs \<lparr>oz_rows = [], oz_drifts = \<lparr>dt_rows = [], dt_next = 1\<rparr>\<rparr>"

text \<open>The history of a stream: the batches of its runs that met any path.\<close>

definition history_of :: "obs_settings \<Rightarrow> int \<Rightarrow> obs_run list \<Rightarrow> history" where
  "history_of cfg sid runs =
     filter (\<lambda>b. b \<noteq> []) (map (\<lambda>(now, s, events). observed_batch cfg events) (filter (\<lambda>(now, s, events). s = sid) runs))"

text \<open>The observed row of a stream after a history.\<close>

definition row_match :: "history \<Rightarrow> observed_row option \<Rightarrow> bool" where
  "row_match bs r =
     (case r of
        None \<Rightarrow> bs = []
      | Some row \<Rightarrow> bs \<noteq> [] \<and> counters_match bs (ob_paths row) \<and>
          (case ob_baseline row of
             None \<Rightarrow> True
           | Some bl \<Rightarrow> bl \<noteq> [] \<and> (\<forall>p. dict_has bl p \<longrightarrow> dict_has (ob_paths row) p)
               \<and> (\<forall>p. \<not> dict_has bl p \<longrightarrow> presence bs p < length bs)))"

definition overdue_added :: "obs_settings \<Rightarrow> history \<Rightarrow> observed_row option \<Rightarrow> string \<Rightarrow> bool" where
  "overdue_added cfg bs r p =
     (case map_option ob_baseline r of
        Some (Some bl) \<Rightarrow> \<not> dict_has bl p \<and> added_confirm_runs cfg \<le> int (presence bs p)
      | _ \<Rightarrow> False)"

definition overdue_removed :: "obs_settings \<Rightarrow> history \<Rightarrow> observed_row option \<Rightarrow> string \<Rightarrow> bool" where
  "overdue_removed cfg bs r p =
     (case map_option ob_baseline r of
        Some (Some bl) \<Rightarrow> dict_has bl p \<and> removed_absent_runs cfg \<le> int (absence bs p)
      | _ \<Rightarrow> False)"

lemma overdue_Some [simp]:
  "overdue_added cfg bs (Some row) p \<longleftrightarrow>
     (\<exists>bl. ob_baseline row = Some bl \<and> \<not> dict_has bl p \<and> added_confirm_runs cfg \<le> int (presence bs p))"
  "overdue_removed cfg bs (Some row) p \<longleftrightarrow>
     (\<exists>bl. ob_baseline row = Some bl \<and> dict_has bl p \<and> removed_absent_runs cfg \<le> int (absence bs p))"
  by (auto simp: overdue_added_def overdue_removed_def split: option.splits)

text \<open>The part of the final step that is common to the first and the later rows: \<open>row0\<close> is the
  row with its merged paths, whose counters will match the extended history once counted.\<close>

lemma finalize_row:
  assumes on: "schema_drift_detection_enabled cfg"
    and counted: "counters_match bs (update_path_presence_streaks batch (ob_paths row0))"
    and "bs \<noteq> []" "batch \<noteq> []" "\<And>p. dict_has batch p \<Longrightarrow> 0 < presence bs p"
    and "\<And>p. 0 < presence bs p \<Longrightarrow> dict_has batch p"
    and base: "case ob_baseline row0 of None \<Rightarrow> True
       | Some bl \<Rightarrow> bl \<noteq> [] \<and> (\<forall>p. dict_has bl p \<longrightarrow> dict_has (ob_paths row0) p)
           \<and> (\<forall>p. \<not> dict_has bl p \<longrightarrow> presence bs p < length bs)"
    and res: "finalize_observation_row cfg now s batch row0 t = (row, t')"
  shows "row_match bs (Some row)"
    and "has_drift t' sid p ''field_added'' \<longleftrightarrow> has_drift t sid p ''field_added'' \<or> (sid = s \<and> overdue_added cfg bs (Some row) p)"
    and "has_drift t' sid p ''field_removed'' \<longleftrightarrow> has_drift t sid p ''field_removed'' \<or> (sid = s \<and> overdue_removed cfg bs (Some row) p)"
proof -
  let ?d1 = "update_path_presence_streaks batch (ob_paths row0)"
  let ?row1 = "maybe_establish_baseline cfg now ?d1 row0"
  let ?bl = "case ob_baseline ?row1 of None \<Rightarrow> [] | Some b \<Rightarrow> b"
  let ?d2 = "update_type_change_streaks ?bl batch (ensure_pending_add_tracking ?bl batch ?d1)"
  have row: "row = ?row1\<lparr>ob_paths := ?d2\<rparr>" and t': "t' = detect_field_changes cfg now s row ?d2 batch t"
    using res on unfolding finalize_observation_row_def Let_def by auto
  have keys1: "dict_has ?d1 p \<longleftrightarrow> dict_has (ob_paths row0) p" for p
    by (simp add: presence_streaks_get)
  have keys2: "dict_has ?d2 p \<longleftrightarrow> dict_has ?d1 p" for p
    unfolding update_type_change_streaks_def ensure_pending_add_tracking_def map_get by simp
  have c2: "counters_match bs ?d2" by (rule counters_kept[OF counted])
  have unseen: "presence bs p < length bs" if "\<not> dict_has (ob_paths row0) p" for p
  proof -
    have "\<not> dict_has ?d1 p" using that keys1 by simp
    then have "\<not> seen bs p" using counted unfolding counters_match_def by (auto dest!: spec[of _ p] split: option.splits)
    then show ?thesis using presence_unseen[of bs p] assms(3) by simp
  qed
  have paths: "ob_paths row = ?d2" by (simp add: row)
  have base1: "case ob_baseline row of None \<Rightarrow> True
       | Some bl \<Rightarrow> bl \<noteq> [] \<and> (\<forall>p. dict_has bl p \<longrightarrow> dict_has ?d2 p) \<and> (\<forall>p. \<not> dict_has bl p \<longrightarrow> presence bs p < length bs)"
    using base unseen keys1 keys2 unfolding row
    by (auto simp: maybe_establish_baseline_def map_get[of "\<lambda>p. pm_type"] split: option.splits if_splits)
  show "row_match bs (Some row)"
    using c2 base1 assms(3) unfolding row_match_def option.case paths by simp
  have entry: "\<exists>m. dict_get ?d2 q = Some m \<and> pm_absent m = int (absence bs q)
      \<and> pm_add m = Some (int (presence bs q) + (if presence bs q = length bs then 1 else 0))" if "dict_has ?d2 q" for q
    using c2 that unfolding counters_match_def by (auto dest!: spec[of _ q])
  have drift: "has_drift t' sid p c \<longleftrightarrow> has_drift t sid p c \<or> (sid = s \<and> (\<exists>bl. ob_baseline row = Some bl \<and>
      ((c = ''field_added'' \<and> p \<in> set (added_paths cfg bl ?d2 batch)) \<or>
       (c = ''field_removed'' \<and> p \<in> set (removed_paths cfg bl ?d2)) \<or>
       (c = ''field_type_changed'' \<and> p \<in> set (type_changed_paths cfg bl ?d2 batch)))))" for p c
    using base1 on unfolding t' detect_field_changes_def Let_def
    by (cases "ob_baseline row") (auto simp: upsert_drifts)
  have seen_d2: "dict_has ?d2 q" if "0 < presence bs q" for q
  proof -
    have "seen bs q" using that presence_unseen[of bs q] by (cases "seen bs q") auto
    then show ?thesis using c2 unfolding counters_match_def by (auto dest!: spec[of _ q] split: option.splits)
  qed
  have add: "p \<in> set (added_paths cfg bl ?d2 batch) \<longleftrightarrow> \<not> dict_has bl p \<and> added_confirm_runs cfg \<le> int (presence bs p)"
    if bl: "ob_baseline row = Some bl" for bl
  proof (cases "dict_has bl p")
    case True
    then show ?thesis by (simp add: added_paths_def)
  next
    case False
    then have lt: "presence bs p < length bs" using base1 bl by simp
    have pos: "1 \<le> added_confirm_runs cfg" by (simp add: added_confirm_runs_def)
    have mem: "p \<in> set (map fst batch) \<longleftrightarrow> dict_has batch p" by (metis domIff dom_map_of_conv_image_fst list.set_map)
    show ?thesis
    proof (cases "dict_has batch p")
      case True
      obtain m where "dict_get ?d2 p = Some m \<and> pm_absent m = int (absence bs p)
          \<and> pm_add m = Some (int (presence bs p) + (if presence bs p = length bs then 1 else 0))"
        using entry[OF seen_d2[OF assms(5)[OF True]]] by blast
      with lt True False mem show ?thesis by (auto simp: added_paths_def)
    next
      case nb: False
      then have "presence bs p = 0" using assms(6) by blast
      with nb False mem pos show ?thesis by (simp add: added_paths_def)
    qed
  qed
  have rem: "p \<in> set (removed_paths cfg bl ?d2) \<longleftrightarrow> dict_has bl p \<and> removed_absent_runs cfg \<le> int (absence bs p)"
    if bl: "ob_baseline row = Some bl" for bl
  proof -
    have mem: "p \<in> set (map fst bl) \<longleftrightarrow> dict_has bl p" by (metis domIff dom_map_of_conv_image_fst list.set_map)
    have "dict_has bl p \<Longrightarrow> \<exists>m. dict_get ?d2 p = Some m \<and> pm_absent m = int (absence bs p)"
      using entry[of p] base1 bl by auto
    then show ?thesis using mem by (auto simp: removed_paths_def)
  qed
  show "has_drift t' sid p ''field_added'' \<longleftrightarrow> has_drift t sid p ''field_added'' \<or> (sid = s \<and> overdue_added cfg bs (Some row) p)"
    unfolding drift overdue_Some using add by auto
  show "has_drift t' sid p ''field_removed'' \<longleftrightarrow> has_drift t sid p ''field_removed'' \<or> (sid = s \<and> overdue_removed cfg bs (Some row) p)"
    unfolding drift overdue_Some using rem by auto
qed

lemma observed_batch_ok: "dict_ok (observed_batch cfg events)"
  using merge_events_grown[of "[]" "nat (max 100 (os_max_paths cfg))"]
  by (simp add: observed_batch_def collect_paths_from_events_def grown_def)

lemma observed_batch_sample: "observed_batch cfg events \<noteq> [] \<Longrightarrow> observed_sample cfg events \<noteq> [] \<and> events \<noteq> []"
  by (auto simp: observed_batch_def collect_paths_from_events_def observed_sample_def)

definition stream_row :: "obs_state \<Rightarrow> int \<Rightarrow> observed_row option" where
  "stream_row st sid = dict_get (oz_rows st) sid"

lemma observe_other:
  assumes "s \<noteq> sid \<or> observed_batch cfg events = []"
  shows "stream_row (observe_extracted_events cfg now s events st) sid = stream_row st sid"
    and "has_drift (oz_drifts (observe_extracted_events cfg now s events st)) sid p c = has_drift (oz_drifts st) sid p c"
proof -
  show "stream_row (observe_extracted_events cfg now s events st) sid = stream_row st sid"
    using assms by (auto simp: observe_extracted_events_def stream_row_def Let_def dict_simps split: prod.split)
  show "has_drift (oz_drifts (observe_extracted_events cfg now s events st)) sid p c = has_drift (oz_drifts st) sid p c"
    using assms
    by (auto simp: observe_extracted_events_def finalize_observation_row_def detect_field_changes_def Let_def
        upsert_drifts split: prod.splits if_splits)
qed

lemma observe_step:
  fixes now :: int
  assumes on: "schema_drift_detection_enabled cfg" and inv: "row_match bs (stream_row st sid)"
    and ne: "observed_batch cfg events \<noteq> []"
  defines "st' \<equiv> observe_extracted_events cfg now sid events st"
  shows "row_match (bs @ [observed_batch cfg events]) (stream_row st' sid)"
    and "has_drift (oz_drifts st') sid p ''field_added'' \<longleftrightarrow> has_drift (oz_drifts st) sid p ''field_added''
      \<or> overdue_added cfg (bs @ [observed_batch cfg events]) (stream_row st' sid) p"
    and "has_drift (oz_drifts st') sid p ''field_removed'' \<longleftrightarrow> has_drift (oz_drifts st) sid p ''field_removed''
      \<or> overdue_removed cfg (bs @ [observed_batch cfg events]) (stream_row st' sid) p"
proof -
  let ?b = "observed_batch cfg events" and ?n = "int (length (observed_sample cfg events))"
  define row0 where "row0 = (case stream_row st sid of None \<Rightarrow> first_row now ?n ?b | Some old \<Rightarrow> merged_row now ?n ?b old)"
  obtain row t where fin: "finalize_observation_row cfg now sid ?b row0 (oz_drifts st) = (row, t)"
    by (rule that[OF prod.collapse[symmetric]])
  have st': "st' = \<lparr>oz_rows = dict_set sid row (oz_rows st), oz_drifts = t\<rparr>"
    using ne observed_batch_sample[OF ne] on fin
    by (simp add: st'_def observe_extracted_events_def Let_def row0_def stream_row_def schema_drift_detection_enabled_def)
  have row: "stream_row st' sid = Some row" by (simp add: st' stream_row_def dict_simps)
  have counted: "counters_match (bs @ [?b]) (update_path_presence_streaks ?b (ob_paths row0))"
  proof (cases "stream_row st sid")
    case None
    then have "bs = []" using inv by (simp add: row_match_def)
    then show ?thesis using None counters_first[OF observed_batch_ok] by (simp add: row0_def first_row_def)
  next
    case (Some old)
    then have "bs \<noteq> []" "counters_match bs (ob_paths old)" using inv by (simp_all add: row_match_def)
    from counters_step[OF this(2,1) observed_batch_ok] Some show ?thesis
      by (simp add: row0_def merged_row_def)
  qed
  have base: "case ob_baseline row0 of None \<Rightarrow> True
       | Some bl \<Rightarrow> bl \<noteq> [] \<and> (\<forall>p. dict_has bl p \<longrightarrow> dict_has (ob_paths row0) p)
           \<and> (\<forall>p. \<not> dict_has bl p \<longrightarrow> presence (bs @ [?b]) p < length (bs @ [?b]))"
  proof (cases "stream_row st sid")
    case None
    then show ?thesis by (simp add: row0_def first_row_def)
  next
    case (Some old)
    have keep: "dict_has (ob_paths row0) q" if "dict_has (ob_paths old) q" for q
    proof -
      have "map_option (\<lambda>m. (pm_absent m, pm_add m)) (dict_get (ob_paths row0) q) \<noteq> None"
        using that Some unfolding row0_def merged_row_def
        by (auto simp: merge_fold_get[OF observed_batch_ok] paths_from_row_get split: option.split)
      then show ?thesis by simp
    qed
    have "presence bs q < length bs \<Longrightarrow> presence (bs @ [?b]) q < length (bs @ [?b])" for q by simp
    with inv Some keep show ?thesis
      by (auto simp: row_match_def row0_def merged_row_def split: option.splits)
  qed
  have p1: "0 < presence (bs @ [?b]) q" if "dict_has ?b q" for q using that by simp
  have p2: "dict_has ?b q" if "0 < presence (bs @ [?b]) q" for q using that by (simp split: if_splits)
  have p0: "bs @ [?b] \<noteq> []" by simp
  note parts = finalize_row[OF on counted p0 ne p1 p2 base fin]
  show "row_match (bs @ [observed_batch cfg events]) (stream_row st' sid)"
    unfolding row by (rule parts(1))
  show "has_drift (oz_drifts st') sid p ''field_added'' \<longleftrightarrow> has_drift (oz_drifts st) sid p ''field_added''
      \<or> overdue_added cfg (bs @ [observed_batch cfg events]) (stream_row st' sid) p"
    using parts(2)[of sid p] unfolding row by (simp add: st')
  show "has_drift (oz_drifts st') sid p ''field_removed'' \<longleftrightarrow> has_drift (oz_drifts st) sid p ''field_removed''
      \<or> overdue_removed cfg (bs @ [observed_batch cfg events]) (stream_row st' sid) p"
    using parts(3)[of sid p] unfolding row by (simp add: st')
qed

lemma history_snoc:
  "history_of cfg sid (runs @ [(now, s, events)]) =
     (if s = sid \<and> observed_batch cfg events \<noteq> [] then history_of cfg sid runs @ [observed_batch cfg events]
      else history_of cfg sid runs)"
  by (auto simp: history_of_def)

lemma runs_snoc: "observe_runs cfg (runs @ [r]) = observe_run cfg r (observe_runs cfg runs)"
  by (simp add: observe_runs_def)

lemma up_to_snoc:
  "(\<exists>i \<le> length (xs @ [x]). P (take i (xs @ [x]))) \<longleftrightarrow> (\<exists>i \<le> length xs. P (take i xs)) \<or> P (xs @ [x])"
proof -
  have "(\<exists>i \<le> length (xs @ [x]). P (take i (xs @ [x]))) \<longleftrightarrow>
      (\<exists>i \<le> length xs. P (take i (xs @ [x]))) \<or> P (take (length xs + 1) (xs @ [x]))"
    by (auto simp: le_Suc_eq)
  then show ?thesis by auto
qed

abbreviation row_after :: "obs_settings \<Rightarrow> int \<Rightarrow> obs_run list \<Rightarrow> observed_row option" where
  "row_after cfg sid runs \<equiv> stream_row (observe_runs cfg runs) sid"

lemma drifts_after:
  assumes on: "schema_drift_detection_enabled cfg"
  shows "row_match (history_of cfg sid runs) (row_after cfg sid runs) \<and>
    (has_drift (oz_drifts (observe_runs cfg runs)) sid p ''field_added'' \<longleftrightarrow>
       (\<exists>i \<le> length runs. overdue_added cfg (history_of cfg sid (take i runs)) (row_after cfg sid (take i runs)) p)) \<and>
    (has_drift (oz_drifts (observe_runs cfg runs)) sid p ''field_removed'' \<longleftrightarrow>
       (\<exists>i \<le> length runs. overdue_removed cfg (history_of cfg sid (take i runs)) (row_after cfg sid (take i runs)) p))"
proof (induction runs rule: rev_induct)
  case Nil
  show ?case
    by (simp add: observe_runs_def history_of_def row_match_def stream_row_def has_drift_def overdue_added_def overdue_removed_def)
next
  case (snoc r runs)
  obtain now s events where r: "r = (now, s, events)" by (cases r)
  show ?case
  proof (cases "s = sid \<and> observed_batch cfg events \<noteq> []")
    case True
    note step = observe_step[OF on conjunct1[OF snoc] conjunct2[OF True], where now = now]
    show ?thesis
      using snoc True step
      unfolding up_to_snoc[where P = "\<lambda>rs. overdue_added cfg (history_of cfg sid rs) (row_after cfg sid rs) p"]
        up_to_snoc[where P = "\<lambda>rs. overdue_removed cfg (history_of cfg sid rs) (row_after cfg sid rs) p"]
      unfolding r runs_snoc history_snoc observe_run_def prod.case by simp
  next
    case False
    then have hist: "history_of cfg sid (runs @ [(now, s, events)]) = history_of cfg sid runs" by (auto simp: history_snoc)
    from False have "s \<noteq> sid \<or> observed_batch cfg events = []" by blast
    note step = observe_other[OF this, of now "observe_runs cfg runs"]
    have last: "(\<exists>i \<le> length runs. P (take i runs)) \<or> P runs \<longleftrightarrow> (\<exists>i \<le> length runs. P (take i runs))" for P
      by auto
    show ?thesis
      using snoc False step
      unfolding up_to_snoc[where P = "\<lambda>rs. overdue_added cfg (history_of cfg sid rs) (row_after cfg sid rs) p"]
        up_to_snoc[where P = "\<lambda>rs. overdue_removed cfg (history_of cfg sid rs) (row_after cfg sid rs) p"]
      unfolding r hist unfolding runs_snoc observe_run_def prod.case
      using last[of "\<lambda>rs. overdue_added cfg (history_of cfg sid rs) (row_after cfg sid rs) p"]
        last[of "\<lambda>rs. overdue_removed cfg (history_of cfg sid rs) (row_after cfg sid rs) p"]
      by simp
  qed
qed

text \<open>C22: A field is reported as added exactly when at the end of some run it is missing from the
  baseline and was present in the configured number of consecutive runs up to that one, and as
  removed exactly when it is in the baseline and was absent for the configured number: the stored
  counters implement the streaks of the stream's history, whatever other streams do in between.\<close>

theorem drift_findings_exact:
  assumes "schema_drift_detection_enabled cfg"
  shows "(has_drift (oz_drifts (observe_runs cfg runs)) sid p ''field_added'' \<longleftrightarrow>
       (\<exists>i \<le> length runs. overdue_added cfg (history_of cfg sid (take i runs)) (row_after cfg sid (take i runs)) p)) \<and>
    (has_drift (oz_drifts (observe_runs cfg runs)) sid p ''field_removed'' \<longleftrightarrow>
       (\<exists>i \<le> length runs. overdue_removed cfg (history_of cfg sid (take i runs)) (row_after cfg sid (take i runs)) p))"
  using drifts_after[OF assms, of sid runs p] by blast

definition sample_obs_settings :: obs_settings where
  "sample_obs_settings =
     \<lparr>os_enabled = True, os_drift_enabled = True, os_max_events = 10, os_max_paths = 100, os_max_depth = 6,
      os_baseline_min_runs = 1, os_baseline_min_events = 1, os_added_confirm_runs = 2,
      os_removed_absent_runs = 2, os_type_confirm_runs = 2\<rparr>"

definition sample_obs_runs :: "obs_run list" where
  "sample_obs_runs =
     [(1, 7, [JObj [(''a'', JInt 1)]]), (2, 7, [JObj [(''a'', JInt 1), (''b'', JInt 2)]]),
      (3, 8, [JObj [(''c'', JInt 3)]]), (4, 7, [JObj [(''b'', JInt 2)]]), (5, 7, [JObj [(''d'', JInt 2)]])]"

theorem drift_findings_exact_witness:
  "has_drift (oz_drifts (observe_runs sample_obs_settings sample_obs_runs)) 7 ''$.b'' ''field_added'' \<and>
   has_drift (oz_drifts (observe_runs sample_obs_settings sample_obs_runs)) 7 ''$.a'' ''field_removed''"
proof -
  have on: "schema_drift_detection_enabled sample_obs_settings"
    by (simp add: schema_drift_detection_enabled_def sample_obs_settings_def)
  have added: "overdue_added sample_obs_settings (history_of sample_obs_settings 7 (take 4 sample_obs_runs))
      (row_after sample_obs_settings 7 (take 4 sample_obs_runs)) ''$.b''"
    by code_simp
  have removed: "overdue_removed sample_obs_settings (history_of sample_obs_settings 7 (take 5 sample_obs_runs))
      (row_after sample_obs_settings 7 (take 5 sample_obs_runs)) ''$.a''"
    by code_simp
  have len: "length sample_obs_runs = 5" by (simp add: sample_obs_runs_def)
  have "has_drift (oz_drifts (observe_runs sample_obs_settings sample_obs_runs)) 7 ''$.b'' ''field_added''"
    unfolding drift_findings_exact[OF on, THEN conjunct1] len by (rule exI[of _ 4]) (simp add: added)
  moreover have "has_drift (oz_drifts (observe_runs sample_obs_settings sample_obs_runs)) 7 ''$.a'' ''field_removed''"
    unfolding drift_findings_exact[OF on, THEN conjunct2] len by (rule exI[of _ 5]) (rule conjI[OF order_refl removed])
  ultimately show ?thesis by (rule conjI)
qed

end
