(* ===== verification/Secrets.thy ===== *)
theory Secrets
  imports Json_Values
begin

text \<open>
  \<open>app/security/secrets.py\<close>: the masking of secrets in what leaves the API, and the merge of a
  masked payload that comes back with an update. The keys of a payload are strings; the rewriting of
  URLs with \<open>urllib\<close> is left out.
\<close>

section \<open>Masking\<close>

definition sensitive_field_names :: "string list" where
  "sensitive_field_names =
     [''secret_key'', ''access_key'', ''password'', ''basic_password'', ''token'', ''bearer_token'',
      ''api_key_value'', ''client_secret'', ''oauth_client_secret'', ''oauth2_client_secret'',
      ''login_password'', ''refresh_token'', ''access_token'', ''id_token'', ''api_key'', ''secret'',
      ''private_key'', ''tls_key_pem'', ''certificate_pem'']"

definition sensitive_header_names :: "string list" where
  "sensitive_header_names = [''authorization'', ''cookie'', ''set-cookie'', ''x-api-key'']"

definition MASK :: string where "MASK = ''********''"

definition swap_char :: "char \<Rightarrow> char \<Rightarrow> string \<Rightarrow> string" where
  "swap_char a b s = map (\<lambda>c. if c = a then b else c) s"

definition normalize_secret_field_name :: "string \<Rightarrow> string" where
  "normalize_secret_field_name name = swap_char (CHR ''-'') (CHR ''_'') (py_lower name)"

definition is_sensitive_field_name :: "string \<Rightarrow> bool" where
  "is_sensitive_field_name name \<longleftrightarrow> normalize_secret_field_name name \<in> set sensitive_field_names"

definition mask_text :: "string \<Rightarrow> string" where
  "mask_text item = (if item \<noteq> [] then MASK else item)"

definition mask_http_header :: "string \<Rightarrow> string \<Rightarrow> string" where
  "mask_http_header key item =
     (let lk = py_lower key; low_key = swap_char (CHR ''_'') (CHR ''-'') lk in
      if lk \<in> set sensitive_header_names then mask_text item
      else if contains_str ''secret'' lk then mask_text item
      else if py_endswith low_key ''-token'' \<or> contains_str ''token'' lk \<or> contains_str ''password'' lk
      then mask_text item
      else if contains_str ''api-key'' low_key \<or> py_endswith low_key ''apikey'' \<or> contains_str ''api_key'' lk
      then mask_text item
      else item)"

definition mask_http_headers :: "(string, string) dict \<Rightarrow> (string, string) dict" where
  "mask_http_headers headers = map (\<lambda>(k, item). (k, mask_http_header k item)) headers"

definition mask_headers_map :: "bool \<Rightarrow> event \<Rightarrow> (string, string) dict" where
  "mask_headers_map mask_all headers =
     (let raw = map (\<lambda>(k, v). (k, if v = JNull then [] else py_str v)) headers in
      if mask_all then map (\<lambda>(k, v). (k, if py_strip v \<noteq> [] then MASK else v)) raw
      else mask_http_headers raw)"

definition blank :: "json \<Rightarrow> bool" where
  "blank v \<longleftrightarrow> v = JNull \<or> v = JStr []"

definition mask_param_map :: "event \<Rightarrow> event" where
  "mask_param_map params =
     map (\<lambda>(k, v). (k, if is_sensitive_field_name k \<and> \<not> blank v then JStr MASK else v)) params"

fun mask_secrets :: "json \<Rightarrow> json" where
  "mask_secrets (JObj d) =
     JObj (map (\<lambda>(k, v). (k, if is_sensitive_field_name k then (if \<not> blank v then JStr MASK else v)
                         else mask_secrets v)) d)"
| "mask_secrets (JList xs) = JList (map mask_secrets xs)"
| "mask_secrets v = v"

definition has_pem :: "string \<Rightarrow> bool" where
  "has_pem s \<longleftrightarrow> contains_str ''-----BEGIN'' s \<and> contains_str ''-----END'' s"

fun redact_pem_literals :: "json \<Rightarrow> json" where
  "redact_pem_literals (JStr s) = (if has_pem s then JStr MASK else JStr s)"
| "redact_pem_literals (JObj d) = JObj (map (\<lambda>(k, v). (k, redact_pem_literals v)) d)"
| "redact_pem_literals (JList xs) = JList (map redact_pem_literals xs)"
| "redact_pem_literals v = v"

definition is_headers :: "string \<Rightarrow> json \<Rightarrow> bool" where
  "is_headers k v \<longleftrightarrow> py_lower k = ''headers'' \<and> is_obj v"

fun mask_nested_headers :: "bool \<Rightarrow> json \<Rightarrow> json" where
  "mask_nested_headers all (JObj d) =
     JObj (map (\<lambda>(k, v). (k, if is_headers k v then JObj (map (\<lambda>(h, s). (h, JStr s)) (mask_headers_map all (obj_of v)))
                         else mask_nested_headers all v)) d)"
| "mask_nested_headers all (JList xs) = JList (map (mask_nested_headers all) xs)"
| "mask_nested_headers all v = v"

definition mask_config_payload :: "bool \<Rightarrow> json \<Rightarrow> json" where
  "mask_config_payload all value = redact_pem_literals (mask_nested_headers all (mask_secrets value))"

definition mask_secrets_and_pem :: "json \<Rightarrow> json" where
  "mask_secrets_and_pem value = redact_pem_literals (mask_secrets value)"

section \<open>Merging an update\<close>

text \<open>What the stored value has under a key, and at an index: \<open>None\<close> of Python is \<open>JNull\<close>.\<close>

definition prior_of :: "json \<Rightarrow> string \<Rightarrow> json" where
  "prior_of existing key =
     (case dict_get (obj_of existing) key of None \<Rightarrow> JNull | Some v \<Rightarrow> v)"

fun items_of :: "json \<Rightarrow> json list" where
  "items_of (JList xs) = xs"
| "items_of _ = []"

definition item_at :: "json list \<Rightarrow> nat \<Rightarrow> json" where
  "item_at xs i = (if i < length xs then xs ! i else JNull)"

fun is_text :: "json \<Rightarrow> bool" where
  "is_text (JStr _) = True"
| "is_text _ = False"

text \<open>The walk over a list carries the stored items that are left, which are the items at the index.\<close>

fun preserve_masked_secrets :: "json \<Rightarrow> json \<Rightarrow> json"
  and preserve_fields :: "event \<Rightarrow> json \<Rightarrow> event"
  and preserve_items :: "json list \<Rightarrow> json list \<Rightarrow> json list" where
  "preserve_masked_secrets (JObj d) existing = JObj (preserve_fields d existing)"
| "preserve_masked_secrets (JList xs) existing = JList (preserve_items xs (items_of existing))"
| "preserve_masked_secrets v existing = v"
| "preserve_fields [] existing = []"
| "preserve_fields ((key, item) # d) existing =
     (let prior = prior_of existing key in
      (key,
       if is_sensitive_field_name key \<and> item = JStr MASK \<and> \<not> blank prior then prior
       else if item = JStr MASK \<and> is_text prior \<and> \<not> blank prior then prior
       else preserve_masked_secrets item prior))
     # preserve_fields d existing"
| "preserve_items [] stored = []"
| "preserve_items (x # xs) stored =
     preserve_masked_secrets x (case stored of [] \<Rightarrow> JNull | s # _ \<Rightarrow> s)
     # preserve_items xs (case stored of [] \<Rightarrow> [] | _ # ss \<Rightarrow> ss)"

lemma preserve_items_at:
  "preserve_items xs stored = map (\<lambda>i. preserve_masked_secrets (xs ! i) (item_at stored i)) [0..<length xs]"
proof (induction xs arbitrary: stored)
  case (Cons x xs)
  have shift: "map f [0..<Suc n] = f 0 # map (\<lambda>i. f (Suc i)) [0..<n]" for f :: "nat \<Rightarrow> json" and n
    by (simp add: upt_conv_Cons map_Suc_upt[symmetric] del: upt_Suc)
  show ?case
    by (cases stored) (simp_all add: Cons shift item_at_def del: upt_Suc)
qed simp

section \<open>Nothing secret leaves\<close>

fun fields_ok :: "json \<Rightarrow> bool" where
  "fields_ok (JObj d) \<longleftrightarrow>
     (\<forall>(k, v) \<in> set d. (is_sensitive_field_name k \<longrightarrow> blank v \<or> v = JStr MASK) \<and> fields_ok v)"
| "fields_ok (JList xs) \<longleftrightarrow> (\<forall>x \<in> set xs. fields_ok x)"
| "fields_ok _ \<longleftrightarrow> True"

definition sensitive_header :: "string \<Rightarrow> bool" where
  "sensitive_header h \<longleftrightarrow>
     py_lower h \<in> set sensitive_header_names
     \<or> contains_str ''secret'' (py_lower h) \<or> contains_str ''token'' (py_lower h)
     \<or> contains_str ''password'' (py_lower h)"

definition header_hidden :: "bool \<Rightarrow> string \<Rightarrow> json \<Rightarrow> bool" where
  "header_hidden all h s \<longleftrightarrow>
     (all \<or> sensitive_header h \<longrightarrow> s = JStr MASK \<or> (\<exists>t. s = JStr t \<and> py_strip t = []))"

fun headers_ok :: "bool \<Rightarrow> json \<Rightarrow> bool" where
  "headers_ok all (JObj d) \<longleftrightarrow>
     (\<forall>(k, v) \<in> set d. (is_headers k v \<longrightarrow> (\<forall>(h, s) \<in> set (obj_of v). header_hidden all h s)) \<and> headers_ok all v)"
| "headers_ok all (JList xs) \<longleftrightarrow> (\<forall>x \<in> set xs. headers_ok all x)"
| "headers_ok all _ \<longleftrightarrow> True"

fun pem_free :: "json \<Rightarrow> bool" where
  "pem_free (JStr s) \<longleftrightarrow> \<not> has_pem s"
| "pem_free (JObj d) \<longleftrightarrow> (\<forall>(k, v) \<in> set d. pem_free v)"
| "pem_free (JList xs) \<longleftrightarrow> (\<forall>x \<in> set xs. pem_free x)"
| "pem_free _ \<longleftrightarrow> True"

lemma mask_no_pem [simp]: "\<not> has_pem MASK" "\<not> has_pem []"
  by code_simp+

lemma mask_not_blank [simp]: "MASK \<noteq> []" "py_strip MASK \<noteq> []"
  by code_simp+

lemma blank_cases: "blank v \<longleftrightarrow> v = JNull \<or> v = JStr []"
  by (simp add: blank_def)

lemma redact_blank [simp]: "blank v \<Longrightarrow> redact_pem_literals v = v" "redact_pem_literals (JStr MASK) = JStr MASK"
  by (auto simp: blank_def)

lemma headers_not_sensitive: "py_lower k = ''headers'' \<Longrightarrow> \<not> is_sensitive_field_name k"
  by (simp add: is_sensitive_field_name_def normalize_secret_field_name_def swap_char_def sensitive_field_names_def)

lemma blank_ok [simp]: "blank v \<Longrightarrow> fields_ok v" "blank v \<Longrightarrow> headers_ok all v" "blank v \<Longrightarrow> pem_free v"
  by (auto simp: blank_def)

lemma is_headers_shape [simp]:
  "is_headers k (redact_pem_literals v) = is_headers k v" "is_headers k (mask_secrets v) = is_headers k v"
  "is_headers k (mask_nested_headers all v) = is_headers k v" "is_headers k (JObj d) = (py_lower k = ''headers'')"
  by (cases v; auto simp: is_headers_def)+

lemma mask_secrets_fields: "fields_ok (mask_secrets v)"
  by (induction v rule: mask_secrets.induct) (auto split: if_splits)

lemma nested_sensitive:
  "is_sensitive_field_name k \<Longrightarrow> is_headers k v \<Longrightarrow> False"
  using headers_not_sensitive by (auto simp: is_headers_def)

lemma nested_keeps_blank [simp]: "blank v \<Longrightarrow> mask_nested_headers all v = v"
  by (auto simp: blank_def)

lemma header_field_ok:
  assumes "(h, s) \<in> set (mask_headers_map all d)" "\<forall>(k, v) \<in> set d. is_sensitive_field_name k \<longrightarrow> blank v \<or> v = JStr MASK"
    "is_sensitive_field_name h"
  shows "s = [] \<or> s = MASK"
  using assms
  by (fastforce simp: mask_headers_map_def mask_http_headers_def mask_http_header_def mask_text_def blank_def Let_def
      py_strip_Nil split: if_splits)

definition nested_entry :: "bool \<Rightarrow> string \<Rightarrow> json \<Rightarrow> json" where
  "nested_entry all k v =
     (if is_headers k v then JObj (map (\<lambda>(h, s). (h, JStr s)) (mask_headers_map all (obj_of v)))
      else mask_nested_headers all v)"

lemma mask_nested_obj:
  "mask_nested_headers all (JObj d) = JObj (map (\<lambda>(k, v). (k, nested_entry all k v)) d)"
  by (simp add: nested_entry_def)

lemma nested_entry_shape [simp]: "is_headers k (nested_entry all k v) = is_headers k v"
  by (auto simp: nested_entry_def) (simp add: is_headers_def)

lemma header_texts_fields:
  assumes "fields_ok v" "is_headers k v"
  shows "fields_ok (JObj (map (\<lambda>(h, s). (h, JStr s)) (mask_headers_map all (obj_of v))))"
  using assms header_field_ok[of _ _ all "obj_of v"]
  by (cases v) (fastforce simp: is_headers_def blank_def)+

lemma nested_entry_sensitive:
  "is_sensitive_field_name k \<Longrightarrow> blank v \<or> v = JStr MASK \<Longrightarrow> nested_entry all k v = v"
  using nested_sensitive[of k v] by (auto simp: nested_entry_def)

lemma mask_nested_fields: "fields_ok v \<Longrightarrow> fields_ok (mask_nested_headers all v)"
proof (induction all v rule: mask_nested_headers.induct)
  case (1 all d)
  have "fields_ok (nested_entry all k v)" if kv: "(k, v) \<in> set d" for k v
  proof -
    from 1(2) kv have v: "fields_ok v" by auto
    show ?thesis
    proof (cases "is_headers k v")
      case True
      with header_texts_fields[OF v True] show ?thesis by (simp only: nested_entry_def if_True)
    next
      case False
      with 1(1)[OF kv refl False v] show ?thesis by (simp only: nested_entry_def if_False)
    qed
  qed
  with 1(2) show ?case unfolding mask_nested_obj by (fastforce simp: nested_entry_sensitive)
qed auto

lemma redact_fields: "fields_ok v \<Longrightarrow> fields_ok (redact_pem_literals v)"
  by (induction v rule: redact_pem_literals.induct) auto

lemma header_map_hidden: "(h, s) \<in> set (mask_headers_map all d) \<Longrightarrow> header_hidden all h (JStr s)"
  by (auto simp: mask_headers_map_def mask_http_headers_def mask_http_header_def mask_text_def header_hidden_def
      sensitive_header_def Let_def py_strip_Nil split: if_splits)

lemma headers_ok_texts [simp]: "headers_ok all (JObj (map (\<lambda>(h, s). (h, JStr s)) hs))"
  by (auto simp: is_headers_def)

lemma mask_nested_headers_ok: "headers_ok all (mask_nested_headers all v)"
proof (induction all v rule: mask_nested_headers.induct)
  case (1 all d)
  have "headers_ok all (nested_entry all k v)" if "(k, v) \<in> set d" for k v
    using 1[OF that refl] headers_ok_texts by (simp add: nested_entry_def del: headers_ok.simps(1))
  moreover have "header_hidden all h s" if "is_headers k v" "(h, s) \<in> set (obj_of (nested_entry all k v))" for k v h s
    using that by (auto simp: nested_entry_def header_map_hidden)
  ultimately show ?case unfolding mask_nested_obj by fastforce
qed auto

lemma hidden_redacted: "header_hidden all h s \<Longrightarrow> header_hidden all h (redact_pem_literals s)"
  by (auto simp: header_hidden_def)

lemma obj_of_redacted: "obj_of (redact_pem_literals v) = map (\<lambda>(k, v). (k, redact_pem_literals v)) (obj_of v)"
  by (cases v) auto

lemma redact_headers: "headers_ok all v \<Longrightarrow> headers_ok all (redact_pem_literals v)"
  by (induction v rule: redact_pem_literals.induct) (fastforce simp: obj_of_redacted hidden_redacted)+

lemma redact_pem_free: "pem_free (redact_pem_literals v)"
  by (induction v rule: redact_pem_literals.induct) auto


section \<open>A masked payload that comes back\<close>

fun pem_item :: "json \<Rightarrow> bool" where
  "pem_item (JStr s) = has_pem s"
| "pem_item _ = False"

text \<open>Stored values the merge can restore: dictionaries with each key once, header maps of texts, and no
  PEM text directly in a list.\<close>

fun restorable :: "json \<Rightarrow> bool" where
  "restorable (JObj d) \<longleftrightarrow>
     dict_ok d \<and> (\<forall>(k, v) \<in> set d.
        is_sensitive_field_name k
        \<or> (if is_headers k v then dict_ok (obj_of v) \<and> (\<forall>(h, s) \<in> set (obj_of v). is_text s) else restorable v))"
| "restorable (JList xs) \<longleftrightarrow> (\<forall>x \<in> set xs. restorable x \<and> \<not> pem_item x)"
| "restorable _ \<longleftrightarrow> True"

definition merge_field :: "string \<Rightarrow> json \<Rightarrow> json \<Rightarrow> json" where
  "merge_field key item prior =
     (if is_sensitive_field_name key \<and> item = JStr MASK \<and> \<not> blank prior then prior
      else if item = JStr MASK \<and> is_text prior \<and> \<not> blank prior then prior
      else preserve_masked_secrets item prior)"

lemma preserve_fields_map:
  "preserve_fields d existing = map (\<lambda>(k, item). (k, merge_field k item (prior_of existing k))) d"
  by (induction d) (auto simp: merge_field_def Let_def)

lemma preserve_text [simp]: "preserve_masked_secrets (JStr s) e = JStr s"
  by simp

lemma prior_of_mem: "dict_ok d \<Longrightarrow> (k, v) \<in> set d \<Longrightarrow> prior_of (JObj d) k = v"
  by (simp add: prior_of_def)

lemma preserve_back:
  assumes "dict_ok d" "\<And>k v. (k, v) \<in> set d \<Longrightarrow> merge_field k (f k v) v = v"
  shows "preserve_masked_secrets (JObj (map (\<lambda>(k, v). (k, f k v)) d)) (JObj d) = JObj d"
proof -
  have "map (\<lambda>(k, v). (k, merge_field k (f k v) (prior_of (JObj d) k))) d = map (\<lambda>x. x) d"
    by (rule map_cong) (auto simp: prior_of_mem[OF assms(1)] assms(2))
  then show ?thesis by (simp add: preserve_fields_map o_def case_prod_unfold)
qed

definition mask_entry :: "bool \<Rightarrow> string \<Rightarrow> json \<Rightarrow> json" where
  "mask_entry all k v =
     redact_pem_literals (nested_entry all k
       (if is_sensitive_field_name k then (if \<not> blank v then JStr MASK else v) else mask_secrets v))"

lemma mask_config_simps:
  "mask_config_payload all (JObj d) = JObj (map (\<lambda>(k, v). (k, mask_entry all k v)) d)"
  "mask_config_payload all (JList xs) = JList (map (mask_config_payload all) xs)"
  "mask_config_payload all (JStr s) = (if has_pem s then JStr MASK else JStr s)"
  "mask_config_payload all JNull = JNull" "mask_config_payload all (JBool b) = JBool b"
  "mask_config_payload all (JInt i) = JInt i" "mask_config_payload all (JFloat f) = JFloat f"
  by (simp_all add: mask_config_payload_def mask_nested_obj mask_entry_def case_prod_unfold o_def
      del: mask_nested_headers.simps(1))

lemma config_masks_texts:
  assumes "mask_config_payload all v = JStr MASK" shows "is_text v \<and> \<not> blank v"
  using assms by (cases v) (auto simp: mask_config_simps blank_def MASK_def split: if_splits)

definition header_value :: "bool \<Rightarrow> string \<Rightarrow> json \<Rightarrow> string" where
  "header_value all h v =
     (let t = (if v = JNull then [] else py_str v) in
      if all then (if py_strip t \<noteq> [] then MASK else t) else mask_http_header h t)"

lemma mask_headers_value: "mask_headers_map all d = map (\<lambda>(h, v). (h, header_value all h v)) d"
  by (simp add: mask_headers_map_def mask_http_headers_def header_value_def o_def case_prod_unfold Let_def)

lemma mask_http_header_cases: "mask_http_header h u = u \<or> (mask_http_header h u = MASK \<and> u \<noteq> [])"
  unfolding mask_http_header_def mask_text_def Let_def by presburger

lemma header_value_cases: "header_value all h (JStr u) = u \<or> (header_value all h (JStr u) = MASK \<and> u \<noteq> [])"
  using mask_http_header_cases[of h u] by (auto simp: header_value_def Let_def py_strip_Nil)

lemma merge_text:
  assumes "t = u \<or> (t = MASK \<and> u \<noteq> [])"
  shows "merge_field h (redact_pem_literals (JStr t)) (JStr u) = JStr u"
  using assms by (auto simp: merge_field_def blank_def)

text \<open>The first pass over a field, and both passes over a header.\<close>

definition mask_field :: "string \<Rightarrow> json \<Rightarrow> json" where
  "mask_field k v =
     (if is_sensitive_field_name k then (if \<not> blank v then JStr MASK else v) else mask_secrets v)"

lemma mask_header_cases:
  "header_value all h (mask_field h (JStr u)) = u \<or> (header_value all h (mask_field h (JStr u)) = MASK \<and> u \<noteq> [])"
  using header_value_cases[of all h u] header_value_cases[of all h MASK] by (auto simp: mask_field_def blank_def)

lemma masked_headers:
  "is_headers k (JObj hs) \<Longrightarrow> mask_entry all k (JObj hs) =
     JObj (map (\<lambda>(h, v). (h, redact_pem_literals (JStr (header_value all h (mask_field h v))))) hs)"
  using nested_sensitive[of k "JObj hs"]
  by (auto simp: mask_entry_def nested_entry_def mask_headers_value mask_field_def o_def case_prod_unfold)

lemma restore_headers:
  assumes "is_headers k (JObj hs)" "dict_ok hs" "\<forall>(h, s) \<in> set hs. is_text s"
  shows "preserve_masked_secrets (mask_entry all k (JObj hs)) (JObj hs) = JObj hs"
  unfolding masked_headers[OF assms(1)]
proof (rule preserve_back[OF assms(2)])
  fix h v assume "(h, v) \<in> set hs"
  with assms(3) obtain u where "v = JStr u" by (cases v) auto
  then show "merge_field h (redact_pem_literals (JStr (header_value all h (mask_field h v)))) v = v"
    using mask_header_cases[of all h u] by (simp only: merge_text)
qed

lemma mask_entry_plain:
  "\<not> is_sensitive_field_name k \<Longrightarrow> \<not> is_headers k v \<Longrightarrow> mask_entry all k v = mask_config_payload all v"
  by (simp add: mask_entry_def nested_entry_def mask_config_payload_def)

lemma mask_entry_sensitive:
  "is_sensitive_field_name k \<Longrightarrow> mask_entry all k v = (if blank v then v else JStr MASK)"
  by (simp add: mask_entry_def nested_entry_sensitive)

lemma preserve_blank: "blank v \<Longrightarrow> preserve_masked_secrets v v = v"
  by (auto simp: blank_def)

lemma merge_not_mask: "item \<noteq> JStr MASK \<Longrightarrow> merge_field k item prior = preserve_masked_secrets item prior"
  by (simp add: merge_field_def)

lemma restored:
  "restorable v \<Longrightarrow> \<not> pem_item v \<Longrightarrow> preserve_masked_secrets (mask_config_payload all v) v = v"
proof (induction v rule: restorable.induct)
  case (1 d)
  have "merge_field k (mask_entry all k v) v = v" if kv: "(k, v) \<in> set d" for k v
  proof (cases "is_sensitive_field_name k")
    case True
    then show ?thesis by (simp add: mask_entry_sensitive merge_field_def preserve_blank)
  next
    case plain: False
    show ?thesis
    proof (cases "is_headers k v")
      case True
      then obtain hs where hs: "v = JObj hs" by (cases v) (auto simp: is_headers_def)
      from 1(2) kv have "is_sensitive_field_name k \<or>
          (if is_headers k v then dict_ok (obj_of v) \<and> (\<forall>(h, s) \<in> set (obj_of v). is_text s) else restorable v)"
        by (simp only: restorable.simps) fast
      with True plain hs have "dict_ok hs" "\<forall>(h, s) \<in> set hs. is_text s" by simp_all
      with True hs show ?thesis
        using restore_headers[of k hs all] masked_headers[of k hs all] by (simp add: merge_not_mask)
    next
      case False
      note entry = mask_entry_plain[OF plain False]
      show ?thesis
      proof (cases "mask_config_payload all v = JStr MASK")
        case True
        with config_masks_texts[OF True] entry show ?thesis by (simp add: merge_field_def)
      next
        case masked: False
        then have "\<not> pem_item v" by (cases v) (auto simp: mask_config_simps)
        moreover have "restorable v" using 1(2) kv plain False by auto
        ultimately show ?thesis
          using 1(1)[OF kv refl False] masked entry by (simp add: merge_not_mask)
      qed
    qed
  qed
  moreover have "dict_ok d" using 1(2) by simp
  ultimately show ?case unfolding mask_config_simps(1) by (blast intro: preserve_back)
next
  case (2 xs)
  then show ?case
    by (auto simp: mask_config_simps preserve_items_at item_at_def intro!: nth_equalityI)
qed (auto simp: mask_config_simps)

text \<open>C38: The round trip of an editor keeps the secrets: when a client reads a configuration masked and sends it
  back unchanged, the merge restores exactly what is stored, whichever headers were masked, for every value
  whose header maps hold texts and whose lists hold no PEM text directly.\<close>

theorem masked_update_keeps_secrets:
  assumes "restorable v" "\<not> pem_item v"
  shows "preserve_masked_secrets (mask_config_payload all v) v = v"
  by (rule restored[OF assms])

definition sample_config :: json where
  "sample_config =
     JObj [(''url'', JStr ''https://a''), (''Password'', JStr ''p1''), (''ca'', JStr ''-----BEGIN X-----END''),
           (''headers'', JObj [(''X-Token'', JStr ''t1''), (''Accept'', JStr ''json'')]),
           (''retries'', JList [JInt 1, JObj [(''api-key'', JStr ''k1'')]])]"

theorem masked_update_keeps_secrets_witness:
  "preserve_masked_secrets (mask_config_payload False sample_config) sample_config = sample_config"
  by (rule masked_update_keeps_secrets) code_simp+

text \<open>Positions in lists are no identities. When an entry was removed from a list before the masked
  payload comes back, the secret of the removed entry is stored in the next one; and a PEM text directly in a
  list is overwritten with the mask.\<close>

theorem removed_entry_shifts_secrets:
  "preserve_masked_secrets
      (JObj [(''peers'', JList [JObj [(''host'', JStr ''b''), (''password'', JStr MASK)]])])
      (JObj [(''peers'', JList [JObj [(''host'', JStr ''a''), (''password'', JStr ''secret-a'')],
                              JObj [(''host'', JStr ''b''), (''password'', JStr ''secret-b'')]])])
     = JObj [(''peers'', JList [JObj [(''host'', JStr ''b''), (''password'', JStr ''secret-a'')]])]
   \<and> (let stored = JObj [(''ca'', JList [JStr ''-----BEGIN X-----END''])] in
      preserve_masked_secrets (mask_config_payload False stored) stored = JObj [(''ca'', JList [JStr MASK])])"
  by code_simp

end
