(* ===== verification/Sensitive_Detection.thy ===== *)
theory Sensitive_Detection
  imports Schema_Observation Secrets "HOL-Library.List_Lexorder" "HOL-Library.Char_ord"
begin

text \<open>
  \<open>app/sensitive_detection\<close>: the string samples of a batch, the field-name rules with their
  false-positive policy, the two value patterns, the hits of a batch, the table of findings with
  its confirm counter, the operator's acknowledgement, and the detection context one run shares.
  Timestamps are integers; the settings are the record \<open>detect_settings\<close>. Logger output is left
  out, and none of the code modelled here can raise, so its exception handlers are not taken.
\<close>

section \<open>String samples\<close>

text \<open>\<open>collect_string_samples_from_events\<close>: the first string at each path, with the walk's own
  early returns.\<close>

type_synonym samples = "(string, string) dict"

function (sequential) sample_walk :: "nat \<Rightarrow> nat \<Rightarrow> json \<Rightarrow> string \<Rightarrow> nat \<Rightarrow> samples \<Rightarrow> samples"
and sample_members :: "nat \<Rightarrow> nat \<Rightarrow> bool \<Rightarrow> (string \<times> json) list \<Rightarrow> string \<Rightarrow> nat \<Rightarrow> samples \<Rightarrow> samples"
and sample_items :: "nat \<Rightarrow> nat \<Rightarrow> nat \<Rightarrow> json list \<Rightarrow> string \<Rightarrow> nat \<Rightarrow> samples \<Rightarrow> samples"
where
  "sample_walk max_depth max_paths v path depth smp =
     (if length smp \<ge> max_paths \<or> depth > max_depth then smp
      else
        (case v of
           JStr s \<Rightarrow> if dict_has smp path then smp else dict_set path s smp
         | JObj kvs \<Rightarrow> sample_members max_depth max_paths True kvs path depth smp
         | JList xs \<Rightarrow> sample_items max_depth max_paths 3 xs (path @ ''[]'') depth smp
         | _ \<Rightarrow> smp))"
| "sample_members max_depth max_paths stop [] path depth smp = smp"
| "sample_members max_depth max_paths stop ((k, v) # kvs) path depth smp =
     (let smp1 = sample_walk max_depth max_paths v (path @ ''.'' @ k) (depth + 1) smp
      in if stop \<and> length smp1 \<ge> max_paths then smp1
         else sample_members max_depth max_paths stop kvs path depth smp1)"
| "sample_items max_depth max_paths 0 xs path depth smp = smp"
| "sample_items max_depth max_paths (Suc n) [] path depth smp = smp"
| "sample_items max_depth max_paths (Suc n) (x # xs) path depth smp =
     (let smp1 = (if is_obj x then sample_members max_depth max_paths False (obj_of x) path depth smp
                  else sample_walk max_depth max_paths x (path @ ''[]'') (depth + 1) smp)
      in if length smp1 \<ge> max_paths then smp1
         else sample_items max_depth max_paths n xs path depth smp1)"
  by pat_completeness auto

termination
  by (relation "measure (\<lambda>call. case call of
         Inl (d, m, v, path, depth, smp) \<Rightarrow> size v
       | Inr (Inl (d, m, stop, kvs, path, depth, smp)) \<Rightarrow> size_list (size_prod (\<lambda>_. 0) size) kvs
       | Inr (Inr (d, m, n, xs, path, depth, smp)) \<Rightarrow> size_list size xs)") (auto dest: size_obj_of)

fun sample_fields :: "nat \<Rightarrow> nat \<Rightarrow> (string \<times> json) list \<Rightarrow> samples \<Rightarrow> samples" where
  "sample_fields max_depth max_paths [] smp = smp"
| "sample_fields max_depth max_paths ((k, v) # kvs) smp =
     (let smp1 = sample_walk max_depth max_paths v (''$.'' @ k) 0 smp
      in if length smp1 \<ge> max_paths then smp1 else sample_fields max_depth max_paths kvs smp1)"

fun sample_events :: "nat \<Rightarrow> nat \<Rightarrow> json list \<Rightarrow> samples \<Rightarrow> samples" where
  "sample_events max_depth max_paths [] smp = smp"
| "sample_events max_depth max_paths (e # es) smp =
     sample_events max_depth max_paths es
       (case e of
          JObj kvs \<Rightarrow> sample_fields max_depth max_paths kvs smp
        | _ \<Rightarrow> sample_walk max_depth max_paths e ''$'' 0 smp)"

definition collect_string_samples_from_events :: "nat \<Rightarrow> nat \<Rightarrow> nat \<Rightarrow> json list \<Rightarrow> samples" where
  "collect_string_samples_from_events max_depth max_paths max_events events =
     sample_events max_depth max_paths (take max_events events) []"

section \<open>Field-name rules\<close>

definition ends_with :: "string \<Rightarrow> string \<Rightarrow> bool" where
  "ends_with s suffix \<longleftrightarrow> py_startswith (rev s) (rev suffix)"

definition secret_tier_b_substrings :: "string list" where
  "secret_tier_b_substrings =
     [''passwd'', ''credential'', ''privatekey'', ''apikey'', ''authorization'', ''set_cookie'', ''x-api-key'']"

definition pii_exact_leaves :: "string list" where
  "pii_exact_leaves =
     [''email'', ''e_mail'', ''mail_address'', ''phone'', ''mobile'', ''msisdn'', ''ssn'',
      ''social_security'', ''national_id'', ''date_of_birth'', ''dob'', ''birth_date'', ''full_name'',
      ''first_name'', ''last_name'', ''given_name'', ''family_name'', ''street_address'',
      ''home_address'', ''postal_code'', ''zip_code'']"

definition pii_compound_leaves :: "string list" where
  "pii_compound_leaves = [''user_email'', ''customer_email'', ''billing_email'']"

definition security_metadata_terms :: "string list" where
  "security_metadata_terms =
     [''auth_method'', ''authentication'', ''permission'', ''permissions'', ''role'', ''roles'', ''mfa'',
      ''mfa_enabled'', ''tls_version'', ''cipher'', ''ciphersuite'', ''security_level'', ''acl'', ''scopes'',
      ''oauth_scope'', ''grant_type'']"

definition session_allowed :: "string list" where
  "session_allowed = [''session_auth'', ''session_security'']"

definition fp_metric_substrings :: "string list" where
  "fp_metric_substrings =
     [''count'', ''total'', ''num'', ''size'', ''length'', ''version'', ''type'', ''status'', ''enabled'', ''flag'']"

definition fp_token_allowed_leaves :: "string list" where
  "fp_token_allowed_leaves =
     [''access_token'', ''refresh_token'', ''id_token'', ''bearer_token'', ''api_key'', ''auth_token'',
      ''oauth_token'', ''token'']"

definition fp_cookie_secret_leaves :: "string list" where
  "fp_cookie_secret_leaves = [''cookie'', ''set_cookie'', ''cookies'']"

definition leaf_segment :: "string \<Rightarrow> string" where
  "leaf_segment field_path =
     (if field_path = ''$'' then []
      else
        (let remainder = (if py_startswith field_path ''$.'' then drop 2 field_path
                          else if py_startswith field_path ''$'' then dropWhile (\<lambda>c. c = CHR ''.'') (drop 1 field_path)
                          else field_path)
         in if remainder = [] then []
            else py_lower (str_replace ''[]'' [] (last (split_on CHR ''.'' remainder)))))"

datatype rule_tier = Tier_A | Tier_B

datatype sens_class = Secret | Pii | Security_Metadata

fun class_name :: "sens_class \<Rightarrow> string" where
  "class_name Secret = ''secret''"
| "class_name Pii = ''pii''"
| "class_name Security_Metadata = ''security_metadata''"

definition fp1_blocks :: "string \<Rightarrow> bool" where
  "fp1_blocks leaf \<longleftrightarrow> leaf \<in> {''id'', ''ids'', ''uuid'', ''guid'', ''uid''}"

definition fp2_blocks_secret_pii :: "string \<Rightarrow> bool" where
  "fp2_blocks_secret_pii leaf \<longleftrightarrow> list_ex (ends_with leaf) [''_id'', ''_ids'', ''_uuid'', ''_guid'']"

definition fp3_blocks_tier_b :: "string \<Rightarrow> bool" where
  "fp3_blocks_tier_b leaf \<longleftrightarrow> list_ex (\<lambda>sub. contains_str sub leaf) fp_metric_substrings"

definition fp4_allows_token :: "string \<Rightarrow> bool" where
  "fp4_allows_token leaf \<longleftrightarrow> leaf \<in> set fp_token_allowed_leaves \<or> \<not> contains_str ''token'' leaf"

definition fp5_blocks_secret :: "string \<Rightarrow> bool" where
  "fp5_blocks_secret leaf \<longleftrightarrow> contains_str ''session'' leaf \<and> leaf \<notin> set session_allowed"

definition fp6_allows_cookie_secret :: "string \<Rightarrow> bool" where
  "fp6_allows_cookie_secret leaf \<longleftrightarrow> \<not> contains_str ''cookie'' leaf \<or> leaf \<in> set fp_cookie_secret_leaves"

definition fp7_blocks_user :: "string \<Rightarrow> bool" where
  "fp7_blocks_user leaf \<longleftrightarrow> \<not> contains_str ''user'' leaf \<or> leaf \<in> set pii_compound_leaves"

definition apply_false_positive_policy :: "string \<Rightarrow> sens_class \<Rightarrow> rule_tier \<Rightarrow> bool" where
  "apply_false_positive_policy leaf cls tier =
     (if leaf = [] then False
      else if fp1_blocks leaf then False
      else if tier = Tier_B \<and> fp3_blocks_tier_b leaf then False
      else if cls = Secret \<and> (\<not> fp4_allows_token leaf \<or> fp5_blocks_secret leaf \<or> \<not> fp6_allows_cookie_secret leaf) then False
      else if cls \<in> {Secret, Pii} \<and> ((tier \<noteq> Tier_A \<and> fp2_blocks_secret_pii leaf) \<or> \<not> fp7_blocks_user leaf) then False
      else if cls = Security_Metadata \<and>
              ((tier \<noteq> Tier_A \<and> fp2_blocks_secret_pii leaf)
               \<or> (contains_str ''session'' leaf \<and> leaf \<notin> set session_allowed)) then False
      else True)"

definition substring_variants :: "string \<Rightarrow> string list" where
  "substring_variants sub =
     [sub, str_replace ''-'' ''_'' sub, str_replace ''_'' ''-'' sub, str_replace ''-'' [] sub]"

definition tier_b_matches :: "string \<Rightarrow> string \<Rightarrow> bool" where
  "tier_b_matches leaf sub \<longleftrightarrow>
     list_ex (\<lambda>v. contains_str v leaf \<or> contains_str v (str_replace ''_'' [] leaf)) (substring_variants sub)"

definition match_secret_field_name :: "string \<Rightarrow> (string \<times> string) option" where
  "match_secret_field_name leaf =
     (if (leaf \<in> set fp_cookie_secret_leaves \<or> leaf \<in> set sensitive_field_names)
          \<and> apply_false_positive_policy leaf Secret Tier_A
      then Some (''secret.leaf.'' @ leaf, leaf)
      else map_option (\<lambda>sub. (''secret.substring.'' @ sub, sub))
             (List.find (\<lambda>sub. tier_b_matches leaf sub \<and> apply_false_positive_policy leaf Secret Tier_B)
                secret_tier_b_substrings))"

definition match_pii_field_name :: "string \<Rightarrow> (string \<times> string) option" where
  "match_pii_field_name leaf =
     (if (leaf \<in> set pii_exact_leaves \<or> leaf \<in> set pii_compound_leaves
          \<or> leaf \<in> {''email_verified'', ''email_domain''})
          \<and> apply_false_positive_policy leaf Pii Tier_A
      then Some (''pii.leaf.'' @ leaf, leaf) else None)"

definition match_security_metadata_field_name :: "string \<Rightarrow> (string \<times> string) option" where
  "match_security_metadata_field_name leaf =
     (if leaf = ''auth'' \<and> apply_false_positive_policy leaf Security_Metadata Tier_A
      then Some (''security_metadata.leaf.auth'', ''auth'')
      else
        (case List.find (\<lambda>term. contains_str term leaf \<and> apply_false_positive_policy leaf Security_Metadata Tier_B)
                security_metadata_terms of
           Some term \<Rightarrow> Some (''security_metadata.term.'' @ term, term)
         | None \<Rightarrow>
             if leaf \<in> set session_allowed then Some (''security_metadata.leaf.'' @ leaf, leaf) else None))"

record det_hit =
  dh_path :: string
  dh_type :: value_type
  dh_class :: sens_class
  dh_method :: string
  dh_rule :: string
  dh_segment :: string
  dh_pattern :: "string option"

definition name_hit :: "string \<Rightarrow> value_type \<Rightarrow> sens_class \<Rightarrow> (string \<times> string) option \<Rightarrow> det_hit list" where
  "name_hit path t cls m =
     (case m of
        None \<Rightarrow> []
      | Some (rule, seg) \<Rightarrow>
          [\<lparr>dh_path = path, dh_type = t, dh_class = cls, dh_method = ''field_name'', dh_rule = rule,
            dh_segment = seg, dh_pattern = None\<rparr>])"

definition evaluate_field_name_rules :: "string \<Rightarrow> value_type \<Rightarrow> det_hit list" where
  "evaluate_field_name_rules path t =
     (let leaf = leaf_segment path
      in if leaf = [] then []
         else name_hit path t Secret (match_secret_field_name leaf)
              @ name_hit path t Pii (match_pii_field_name leaf)
              @ name_hit path t Security_Metadata (match_security_metadata_field_name leaf))"

definition leaf_allows_pattern_pii :: "string \<Rightarrow> bool" where
  "leaf_allows_pattern_pii leaf \<longleftrightarrow> match_pii_field_name leaf \<noteq> None"

section \<open>Value patterns\<close>

definition pem_pattern_match :: "string \<Rightarrow> bool" where
  "pem_pattern_match v \<longleftrightarrow> contains_str ''-----BEGIN'' v \<and> contains_str ''-----END'' v"

definition is_letter :: "char \<Rightarrow> bool" where
  "is_letter c \<longleftrightarrow> (let n = of_char c :: nat in (65 \<le> n \<and> n \<le> 90) \<or> (97 \<le> n \<and> n \<le> 122))"

definition domain_char :: "char \<Rightarrow> bool" where
  "domain_char c \<longleftrightarrow> is_letter c \<or> py_isdigit c \<or> c \<in> {CHR ''.'', CHR ''-''}"

definition local_char :: "char \<Rightarrow> bool" where
  "local_char c \<longleftrightarrow> domain_char c \<or> c \<in> {CHR ''_'', CHR ''%'', CHR ''+''}"

text \<open>
  \<open>^[A-Za-z0-9._%+-]+@[A-Za-z0-9.-]+\.[A-Za-z]{2,}$\<close>: the part before the only \<open>@\<close>, the domain up
  to its last point, and the letters after it. \<open>$\<close> also matches before a final newline.
\<close>

definition email_re :: "string \<Rightarrow> bool" where
  "email_re s =
     (let t = (if s \<noteq> [] \<and> last s = CHR 0x0A then butlast s else s);
          user = takeWhile (\<lambda>c. c \<noteq> CHR ''@'') t;
          domain = drop (length user + 1) t;
          top = rev (takeWhile (\<lambda>c. c \<noteq> CHR ''.'') (rev domain));
          host = take (length domain - length top - 1) domain
      in user \<noteq> [] \<and> list_all local_char user \<and> length user < length t
         \<and> host \<noteq> [] \<and> list_all domain_char host \<and> length top < length domain
         \<and> 2 \<le> length top \<and> list_all is_letter top)"

definition email_pattern_match :: "string \<Rightarrow> bool" where
  "email_pattern_match v \<longleftrightarrow> length v \<le> 320 \<and> email_re v"

definition pattern_hit :: "string \<Rightarrow> value_type \<Rightarrow> sens_class \<Rightarrow> string \<Rightarrow> string \<Rightarrow> det_hit" where
  "pattern_hit path t cls leaf pattern =
     \<lparr>dh_path = path, dh_type = t, dh_class = cls, dh_method = ''pattern'', dh_rule = ''pattern.'' @ pattern,
      dh_segment = (if leaf = [] then ''value'' else leaf), dh_pattern = Some pattern\<rparr>"

definition evaluate_pattern_rules :: "string \<Rightarrow> value_type \<Rightarrow> string option \<Rightarrow> det_hit option" where
  "evaluate_pattern_rules path t sample =
     (case sample of
        None \<Rightarrow> None
      | Some s \<Rightarrow>
          if t \<noteq> T_String \<or> s = [] then None
          else
            (let leaf = leaf_segment path
             in if pem_pattern_match s \<and> apply_false_positive_policy leaf Secret Tier_B
                then Some (pattern_hit path t Secret leaf ''pem'')
                else if email_pattern_match s \<and> leaf_allows_pattern_pii leaf
                        \<and> apply_false_positive_policy leaf Pii Tier_B
                then Some (pattern_hit path t Pii leaf ''email'')
                else None))"

section \<open>Hits of a batch\<close>

record detect_settings =
  ds_detect_enabled :: bool
  ds_max_depth :: int
  ds_max_paths :: int
  ds_max_events :: int
  ds_confirm_runs :: int

definition max_depth_of :: "detect_settings \<Rightarrow> nat" where
  "max_depth_of cfg = nat (max 1 (ds_max_depth cfg))"

definition max_paths_of :: "detect_settings \<Rightarrow> nat" where
  "max_paths_of cfg = nat (max 1 (ds_max_paths cfg))"

definition max_events_of :: "detect_settings \<Rightarrow> nat" where
  "max_events_of cfg = nat (max 1 (ds_max_events cfg))"

definition confirm_runs_of :: "detect_settings \<Rightarrow> int" where
  "confirm_runs_of cfg = max 1 (ds_confirm_runs cfg)"

type_synonym hit_key = "string \<times> sens_class"

definition hit_key :: "det_hit \<Rightarrow> hit_key" where
  "hit_key h = (dh_path h, dh_class h)"

text \<open>One candidate of the loop: appended unless its key was seen.\<close>

definition add_hit :: "det_hit \<Rightarrow> det_hit list \<times> hit_key list \<Rightarrow> det_hit list \<times> hit_key list" where
  "add_hit h acc =
     (let (hits, seen) = acc
      in if hit_key h \<in> set seen then acc else (hits @ [h], hit_key h # seen))"

definition detect_path ::
    "path_types \<Rightarrow> samples \<Rightarrow> string \<Rightarrow> det_hit list \<times> hit_key list \<Rightarrow> det_hit list \<times> hit_key list" where
  "detect_path paths smp path acc =
     (let t = the (dict_get paths path);
          acc1 = fold add_hit (evaluate_field_name_rules path t) acc
      in if t = T_String then
           (case evaluate_pattern_rules path t (dict_get smp path) of
              None \<Rightarrow> acc1
            | Some h \<Rightarrow> add_hit h acc1)
         else acc1)"

definition detect_hits_for_batch :: "detect_settings \<Rightarrow> json list \<Rightarrow> det_hit list" where
  "detect_hits_for_batch cfg events =
     (if events = [] then []
      else
        (let paths = collect_paths_from_events (max_depth_of cfg) (max_paths_of cfg) (max_events_of cfg) events;
             smp = collect_string_samples_from_events (max_depth_of cfg) (max_paths_of cfg) (max_events_of cfg) events
         in fst (fold (detect_path paths smp) (sort (map fst paths)) ([], []))))"

text \<open>The dictionary of a hit.\<close>

definition hit_json :: "det_hit \<Rightarrow> json" where
  "hit_json h =
     JObj ([(''field_path'', JStr (dh_path h)), (''inferred_type'', JStr (type_name (dh_type h))),
            (''sensitivity_class'', JStr (class_name (dh_class h))), (''detection_method'', JStr (dh_method h)),
            (''matched_rule'', JStr (dh_rule h)), (''matched_segment'', JStr (dh_segment h))]
           @ (case dh_pattern h of None \<Rightarrow> [] | Some p \<Rightarrow> [(''pattern'', JStr p)]))"

section \<open>Detection context\<close>

record detection_context =
  dx_stream :: int
  dx_events :: "json list"
  dx_findings :: "json list"
  dx_by_event :: "(nat \<times> json list) list"
  dx_classes :: "string set"
  dx_field_hits :: "json list"
  dx_detected_at :: int

definition finding_classes :: "json list \<Rightarrow> string set" where
  "finding_classes findings =
     set (List.map_filter (\<lambda>f. case f of
             JObj d \<Rightarrow> (case dict_get d ''sensitivity_class'' of
                          None \<Rightarrow> None | Some JNull \<Rightarrow> None | Some raw \<Rightarrow> Some (py_str raw))
           | _ \<Rightarrow> None) findings)"

definition build_sensitive_detection_context ::
    "detect_settings \<Rightarrow> int \<Rightarrow> int \<Rightarrow> json list \<Rightarrow> json list option \<Rightarrow> detection_context option" where
  "build_sensitive_detection_context cfg now sid events given =
     (if events = [] then None
      else if given = None \<and> \<not> ds_detect_enabled cfg then None
      else
        (let findings = (case given of Some f \<Rightarrow> f | None \<Rightarrow> map hit_json (detect_hits_for_batch cfg events))
         in Some \<lparr>dx_stream = sid, dx_events = events, dx_findings = findings,
                  dx_by_event = map (\<lambda>i. (i, findings)) [0..<length events],
                  dx_classes = finding_classes findings, dx_field_hits = findings, dx_detected_at = now\<rparr>))"

definition findings_from_context :: "detection_context option \<Rightarrow> json list option" where
  "findings_from_context ctx = map_option dx_findings ctx"

section \<open>The table of findings\<close>

datatype finding_status = F_Open | F_Acknowledged | F_Resolved

record sens_finding =
  sf_id :: int
  sf_stream :: int
  sf_path :: string
  sf_class :: sens_class
  sf_method :: string
  sf_status :: finding_status
  sf_count :: int
  sf_first :: int
  sf_last :: int
  sf_json :: event
  sf_drift :: "int option"
  sf_ack_at :: "int option"
  sf_ack_by :: "string option"
  sf_note :: "string option"

text \<open>The next identifier is that of the table's sequence.\<close>

record finding_table =
  ft_rows :: "sens_finding list"
  ft_next :: int

definition sanitize_finding_json :: "det_hit \<Rightarrow> int \<Rightarrow> event" where
  "sanitize_finding_json h count =
     fold dict_del [''value'', ''sample'', ''raw'', ''payload'', ''event'']
       ([(''matched_rule'', JStr (dh_rule h)),
         (''matched_segment'', JStr (if dh_segment h = [] then leaf_segment (dh_path h) else dh_segment h)),
         (''confirm_run_count'', JInt count), (''inferred_type'', JStr (type_name (dh_type h)))]
        @ (case dh_pattern h of None \<Rightarrow> [] | Some p \<Rightarrow> if p = [] then [] else [(''pattern'', JStr p)])
        @ (if dh_method h = [] then [] else [(''detection_method'', JStr (dh_method h))]))"

definition aggregate_hits :: "det_hit list \<Rightarrow> (hit_key, det_hit) dict" where
  "aggregate_hits hits = fold (\<lambda>h. dict_set (hit_key h) h) hits []"

definition finding_key :: "sens_finding \<Rightarrow> hit_key" where
  "finding_key f = (sf_path f, sf_class f)"

definition load_existing_findings_map ::
    "sens_finding list \<Rightarrow> int \<Rightarrow> hit_key list \<Rightarrow> (hit_key, sens_finding) dict" where
  "load_existing_findings_map rows sid keys =
     fold (\<lambda>r. if sf_stream r = sid \<and> finding_key r \<in> set keys then dict_set (finding_key r) r else id) rows []"

definition load_related_drift_ids_map :: "drift_row list \<Rightarrow> int \<Rightarrow> string list \<Rightarrow> (string, int) dict" where
  "load_related_drift_ids_map drifts sid paths =
     fold (\<lambda>d. if dr_stream d = sid \<and> dr_path d \<in> set paths \<and> dr_category d = ''field_added'' \<and> dr_status d = Drift_Open
               then dict_set (dr_path d) (dr_id d) else id) drifts []"

definition new_finding :: "int \<Rightarrow> int \<Rightarrow> det_hit \<Rightarrow> int option \<Rightarrow> int \<Rightarrow> sens_finding" where
  "new_finding now sid h drift i =
     \<lparr>sf_id = i, sf_stream = sid, sf_path = dh_path h, sf_class = dh_class h, sf_method = dh_method h,
      sf_status = F_Open, sf_count = 1, sf_first = now, sf_last = now, sf_json = sanitize_finding_json h 1,
      sf_drift = drift, sf_ack_at = None, sf_ack_by = None, sf_note = None\<rparr>"

definition confirm_finding :: "int \<Rightarrow> det_hit \<Rightarrow> int option \<Rightarrow> sens_finding \<Rightarrow> sens_finding" where
  "confirm_finding now h drift f =
     f\<lparr>sf_count := sf_count f + 1, sf_last := now, sf_method := dh_method h,
       sf_json := sanitize_finding_json h (sf_count f + 1),
       sf_drift := (if sf_drift f = None then drift else sf_drift f)\<rparr>"

text \<open>
  The loop over the aggregated hits: a finding that is not open is left alone, an open one is
  confirmed in place, and a missing one becomes a new row; the new rows are added at the end.
\<close>

definition upsert_one ::
    "int \<Rightarrow> int \<Rightarrow> (hit_key, sens_finding) dict \<Rightarrow> (string, int) dict \<Rightarrow> hit_key \<times> det_hit \<Rightarrow>
     sens_finding list \<times> det_hit list \<times> nat \<Rightarrow> sens_finding list \<times> det_hit list \<times> nat" where
  "upsert_one now sid existing drifts kh acc =
     (let (key, h) = kh; (rows, fresh, n) = acc
      in case dict_get existing key of
           None \<Rightarrow> (rows, fresh @ [h], n + 1)
         | Some f \<Rightarrow>
             if sf_status f \<noteq> F_Open then acc
             else (map (\<lambda>r. if sf_id r = sf_id f then confirm_finding now h (dict_get drifts (fst key)) r else r) rows,
                   fresh, n + 1))"

fun add_findings :: "int \<Rightarrow> int \<Rightarrow> (string, int) dict \<Rightarrow> det_hit list \<Rightarrow> finding_table \<Rightarrow> finding_table" where
  "add_findings now sid drifts [] t = t"
| "add_findings now sid drifts (h # hs) t =
     add_findings now sid drifts hs
       (t\<lparr>ft_rows := ft_rows t @ [new_finding now sid h (dict_get drifts (dh_path h)) (ft_next t)],
          ft_next := ft_next t + 1\<rparr>)"

definition upsert_sensitive_hits_batch ::
    "int \<Rightarrow> int \<Rightarrow> drift_row list \<Rightarrow> det_hit list \<Rightarrow> finding_table \<Rightarrow> nat \<times> finding_table" where
  "upsert_sensitive_hits_batch now sid drifts hits t =
     (let aggregated = aggregate_hits hits
      in if aggregated = [] then (0, t)
         else
           (let keys = map fst aggregated;
                existing = load_existing_findings_map (ft_rows t) sid keys;
                dm = load_related_drift_ids_map drifts sid (map fst keys);
                (rows, fresh, n) = fold (upsert_one now sid existing dm) aggregated (ft_rows t, [], 0)
            in (n, add_findings now sid dm fresh (t\<lparr>ft_rows := rows\<rparr>))))"

definition persist_sensitive_hits ::
    "detect_settings \<Rightarrow> int \<Rightarrow> int \<Rightarrow> drift_row list \<Rightarrow> json list \<Rightarrow> det_hit list option \<Rightarrow> finding_table \<Rightarrow>
     (nat \<times> nat \<times> nat) \<times> finding_table" where
  "persist_sensitive_hits cfg now sid drifts events given t =
     (if \<not> ds_detect_enabled cfg then ((0, 0, 0), t)
      else
        (let hits = (case given of None \<Rightarrow> detect_hits_for_batch cfg events | Some hs \<Rightarrow> hs);
             (n, t1) = upsert_sensitive_hits_batch now sid drifts hits t;
             scanned = collect_paths_from_events (max_depth_of cfg) (max_paths_of cfg) (max_events_of cfg) events
         in ((length scanned, length hits, n), t1)))"

definition is_api_visible :: "detect_settings \<Rightarrow> sens_finding \<Rightarrow> bool \<Rightarrow> bool" where
  "is_api_visible cfg f include_resolved =
     (if sf_status f = F_Resolved then include_resolved else sf_count f \<ge> confirm_runs_of cfg)"

datatype ack_error = Finding_Not_Found | Finding_Wrong_Status finding_status | Finding_Not_Confirmed int

definition acknowledge_sensitive_finding ::
    "detect_settings \<Rightarrow> int \<Rightarrow> int \<Rightarrow> int \<Rightarrow> string \<Rightarrow> string option \<Rightarrow> finding_table \<Rightarrow>
     (ack_error + sens_finding) \<times> finding_table" where
  "acknowledge_sensitive_finding cfg now sid fid actor note t =
     (case List.find (\<lambda>r. sf_id r = fid \<and> sf_stream r = sid) (ft_rows t) of
        None \<Rightarrow> (Inl Finding_Not_Found, t)
      | Some f \<Rightarrow>
          if sf_status f \<noteq> F_Open then (Inl (Finding_Wrong_Status (sf_status f)), t)
          else if sf_count f < confirm_runs_of cfg then (Inl (Finding_Not_Confirmed (sf_count f)), t)
          else
            (let note' = (case note of None \<Rightarrow> sf_note f
                            | Some x \<Rightarrow> if py_strip x = [] then sf_note f else Some (py_strip x));
                 f' = f\<lparr>sf_status := F_Acknowledged, sf_ack_at := Some now, sf_ack_by := Some actor, sf_note := note'\<rparr>
             in (Inr f', t\<lparr>ft_rows := map (\<lambda>r. if sf_id r = fid then f' else r) (ft_rows t)\<rparr>)))"

definition detect_sensitive_fields ::
    "detect_settings \<Rightarrow> int \<Rightarrow> int \<Rightarrow> drift_row list \<Rightarrow> json list \<Rightarrow> finding_table \<Rightarrow>
     detection_context option \<times> finding_table" where
  "detect_sensitive_fields cfg now sid drifts events t =
     (case build_sensitive_detection_context cfg now sid events None of
        None \<Rightarrow> (None, t)
      | Some ctx \<Rightarrow>
          (Some ctx, snd (persist_sensitive_hits cfg now sid drifts events (Some (detect_hits_for_batch cfg events)) t)))"

section \<open>What a batch is reported for\<close>

definition candidates :: "path_types \<Rightarrow> samples \<Rightarrow> string \<Rightarrow> det_hit list" where
  "candidates paths smp path =
     (let t = the (dict_get paths path)
      in evaluate_field_name_rules path t
         @ (if t = T_String then (case evaluate_pattern_rules path t (dict_get smp path) of None \<Rightarrow> [] | Some h \<Rightarrow> [h]) else []))"

lemma detect_path_candidates: "detect_path paths smp path acc = fold add_hit (candidates paths smp path) acc"
  by (simp add: detect_path_def candidates_def Let_def split: option.split)

lemma detect_paths_candidates:
  "fold (detect_path paths smp) ps acc = fold add_hit (concat (map (candidates paths smp) ps)) acc"
  by (induction ps arbitrary: acc) (simp_all add: detect_path_candidates)

text \<open>The hits collected so far have distinct keys, and their keys are those seen.\<close>

definition hits_inv :: "det_hit list \<times> hit_key list \<Rightarrow> bool" where
  "hits_inv acc \<longleftrightarrow> distinct (map hit_key (fst acc)) \<and> set (snd acc) = hit_key ` set (fst acc)"

lemma add_hit_inv:
  assumes "hits_inv acc"
  shows "hits_inv (add_hit h acc)"
    and "hit_key ` set (fst (add_hit h acc)) = insert (hit_key h) (hit_key ` set (fst acc))"
    and "set (fst (add_hit h acc)) \<subseteq> insert h (set (fst acc))"
  using assms by (cases acc; auto simp: hits_inv_def add_hit_def)+

lemma add_hits_inv:
  assumes "hits_inv acc"
  shows "hits_inv (fold add_hit hs acc) \<and>
    hit_key ` set (fst (fold add_hit hs acc)) = hit_key ` set hs \<union> hit_key ` set (fst acc) \<and>
    set (fst (fold add_hit hs acc)) \<subseteq> set hs \<union> set (fst acc)"
  using assms
proof (induction hs arbitrary: acc)
  case (Cons h hs)
  note step = add_hit_inv[OF Cons.prems, of h]
  from Cons.IH[OF step(1)] step(2,3) show ?case by auto
qed simp

abbreviation batch_paths :: "detect_settings \<Rightarrow> json list \<Rightarrow> path_types" where
  "batch_paths cfg events \<equiv>
     collect_paths_from_events (max_depth_of cfg) (max_paths_of cfg) (max_events_of cfg) events"

abbreviation batch_samples :: "detect_settings \<Rightarrow> json list \<Rightarrow> samples" where
  "batch_samples cfg events \<equiv>
     collect_string_samples_from_events (max_depth_of cfg) (max_paths_of cfg) (max_events_of cfg) events"

abbreviation met :: "detect_settings \<Rightarrow> json list \<Rightarrow> (string \<times> value_type) list" where
  "met cfg events \<equiv> batch_visits (max_depth_of cfg) (max_events_of cfg) events"

lemma detect_hits:
  shows "distinct (map hit_key (detect_hits_for_batch cfg events))"
    and "hit_key ` set (detect_hits_for_batch cfg events) =
      (\<Union>p \<in> paths_of (batch_paths cfg events). hit_key ` set (candidates (batch_paths cfg events) (batch_samples cfg events) p))"
    and "set (detect_hits_for_batch cfg events) \<subseteq>
      (\<Union>p \<in> paths_of (batch_paths cfg events). set (candidates (batch_paths cfg events) (batch_samples cfg events) p))"
proof -
  let ?cs = "concat (map (candidates (batch_paths cfg events) (batch_samples cfg events)) (sort (map fst (batch_paths cfg events))))"
  have nil: "batch_paths cfg [] = []" by (simp add: collect_paths_from_events_def)
  have eq: "detect_hits_for_batch cfg events = fst (fold add_hit ?cs ([], []))"
    by (cases "events = []")
       (simp_all add: detect_hits_for_batch_def detect_paths_candidates Let_def nil)
  have inv: "hits_inv ([], [])" by (simp add: hits_inv_def)
  note all = add_hits_inv[OF inv, of ?cs]
  show "distinct (map hit_key (detect_hits_for_batch cfg events))"
    using all unfolding eq hits_inv_def by blast
  show "hit_key ` set (detect_hits_for_batch cfg events) =
      (\<Union>p \<in> paths_of (batch_paths cfg events). hit_key ` set (candidates (batch_paths cfg events) (batch_samples cfg events) p))"
    using all unfolding eq by (simp add: image_UN)
  show "set (detect_hits_for_batch cfg events) \<subseteq>
      (\<Union>p \<in> paths_of (batch_paths cfg events). set (candidates (batch_paths cfg events) (batch_samples cfg events) p))"
    using all unfolding eq by simp
qed

lemma name_hit_keys: "hit_key ` set (name_hit p t c m) = (if m = None then {} else {(p, c)})"
  by (auto simp: name_hit_def hit_key_def split: option.split)

lemma name_rule_classes:
  "(q, c) \<in> hit_key ` set (evaluate_field_name_rules p t) \<longleftrightarrow>
     q = p \<and> leaf_segment p \<noteq> [] \<and>
     (case c of Secret \<Rightarrow> match_secret_field_name (leaf_segment p) \<noteq> None
      | Pii \<Rightarrow> match_pii_field_name (leaf_segment p) \<noteq> None
      | Security_Metadata \<Rightarrow> match_security_metadata_field_name (leaf_segment p) \<noteq> None)"
  unfolding evaluate_field_name_rules_def Let_def
  by (cases c) (auto simp: image_Un name_hit_keys split: if_splits)

lemma pattern_path: "evaluate_pattern_rules p t s = Some h \<Longrightarrow> dh_path h = p \<and> dh_method h = ''pattern''"
  by (auto simp: evaluate_pattern_rules_def pattern_hit_def Let_def split: option.splits if_splits)

lemma name_rule_path: "h \<in> set (evaluate_field_name_rules p t) \<Longrightarrow> dh_path h = p \<and> dh_method h = ''field_name''"
  by (auto simp: evaluate_field_name_rules_def name_hit_def Let_def split: option.splits if_splits)

lemma candidate_path: "h \<in> set (candidates paths smp p) \<Longrightarrow> dh_path h = p"
proof -
  let ?t = "the (dict_get paths p)"
  assume h: "h \<in> set (candidates paths smp p)"
  show ?thesis
  proof (cases "h \<in> set (evaluate_field_name_rules p ?t)")
    case True
    then show ?thesis by (simp add: name_rule_path)
  next
    case False
    with h have "evaluate_pattern_rules p ?t (dict_get smp p) = Some h"
      by (cases "?t = T_String"; cases "evaluate_pattern_rules p ?t (dict_get smp p)")
         (simp_all add: candidates_def Let_def)
    then show ?thesis by (simp add: pattern_path)
  qed
qed

lemma sensitive_names_match: "list_all (\<lambda>n. match_secret_field_name n \<noteq> None) sensitive_field_names"
  by code_simp

lemma pii_names_match: "list_all (\<lambda>n. match_pii_field_name n \<noteq> None) (pii_exact_leaves @ pii_compound_leaves)"
  by code_simp

lemma below_limit_get:
  assumes "card (paths_of (met cfg events)) < max_paths_of cfg" "(p, t) \<in> set (met cfg events)"
  obtains s where "dict_get (batch_paths cfg events) p = Some s"
proof -
  have "p \<in> paths_of (batch_paths cfg events)"
    using collected_paths_exact(1)[OF assms(1)] assms(2) by force
  then show thesis using that by (metis dom_map_of_conv_image_fst domD)
qed

theorem detection_exact:
  assumes "card (paths_of (met cfg events)) < max_paths_of cfg"
  shows "distinct (map hit_key (detect_hits_for_batch cfg events))"
    and "(p, c) \<in> hit_key ` set (detect_hits_for_batch cfg events) \<longleftrightarrow>
      p \<in> paths_of (met cfg events) \<and>
      (p, c) \<in> hit_key ` set (candidates (batch_paths cfg events) (batch_samples cfg events) p)"
proof -
  show "distinct (map hit_key (detect_hits_for_batch cfg events))" by (rule detect_hits(1))
  have other: "q = p" if "(p, c) \<in> hit_key ` set (candidates (batch_paths cfg events) (batch_samples cfg events) q)" for q
    using that candidate_path by (auto simp: hit_key_def)
  show "(p, c) \<in> hit_key ` set (detect_hits_for_batch cfg events) \<longleftrightarrow>
      p \<in> paths_of (met cfg events) \<and>
      (p, c) \<in> hit_key ` set (candidates (batch_paths cfg events) (batch_samples cfg events) p)"
    unfolding detect_hits(2) collected_paths_exact(1)[OF assms] using other by blast
qed

lemma name_rules_reported:
  assumes "card (paths_of (met cfg events)) < max_paths_of cfg" "(p, t) \<in> set (met cfg events)"
    and "\<And>s. (p, c) \<in> hit_key ` set (evaluate_field_name_rules p s)"
  shows "(p, c) \<in> hit_key ` set (detect_hits_for_batch cfg events)"
proof -
  have "p \<in> paths_of (met cfg events)" using assms(2) by force
  then show ?thesis
    using assms(3) unfolding detection_exact(2)[OF assms(1)] candidates_def Let_def set_append image_Un
    by blast
qed

text \<open>C21: Below the limit on paths, every field of the scanned events whose last path segment is a known
  secret name, in any case and at any depth the walk reaches, is reported as a secret.\<close>

theorem sensitive_fields_reported:
  assumes "card (paths_of (met cfg events)) < max_paths_of cfg" "(p, t) \<in> set (met cfg events)"
    and "leaf_segment p \<in> set sensitive_field_names"
  shows "(p, Secret) \<in> hit_key ` set (detect_hits_for_batch cfg events)"
proof (rule name_rules_reported[OF assms(1,2)])
  fix s
  have "match_secret_field_name (leaf_segment p) \<noteq> None" "[] \<notin> set sensitive_field_names"
    using sensitive_names_match assms(3) by (auto simp: list_all_iff sensitive_field_names_def)
  then show "(p, Secret) \<in> hit_key ` set (evaluate_field_name_rules p s)"
    using assms(3) by (auto simp: name_rule_classes)
qed

definition sample_detect_settings :: detect_settings where
  "sample_detect_settings =
     \<lparr>ds_detect_enabled = True, ds_max_depth = 6, ds_max_paths = 50, ds_max_events = 10, ds_confirm_runs = 2\<rparr>"

definition login_event :: json where
  "login_event = JObj [(''user'', JStr ''kim''), (''auth_data'', JList [JObj [(''Access_Token'', JStr ''t0'')]])]"

lemma login_met:
  "met sample_detect_settings [login_event] =
     [(''$.user'', T_String), (''$.auth_data'', T_Array), (''$.auth_data[]'', T_Array), (''$.auth_data[].Access_Token'', T_String)]"
  by code_simp

theorem sensitive_fields_reported_witness:
  "(''$.auth_data[].Access_Token'', Secret) \<in> hit_key ` set (detect_hits_for_batch sample_detect_settings [login_event])"
proof (rule sensitive_fields_reported)
  show "card (paths_of (met sample_detect_settings [login_event])) < max_paths_of sample_detect_settings"
    unfolding login_met by (simp add: max_paths_of_def sample_detect_settings_def)
  show "(''$.auth_data[].Access_Token'', T_String) \<in> set (met sample_detect_settings [login_event])"
    unfolding login_met by simp
  show "leaf_segment ''$.auth_data[].Access_Token'' \<in> set sensitive_field_names" by code_simp
qed

text \<open>A compound name that contains \<open>password\<close> matches no rule.\<close>

theorem compound_password_missed:
  "evaluate_field_name_rules ''$.admin_password'' T_String = []"
  "evaluate_field_name_rules ''$.user_passwd'' T_String = []"
  "evaluate_field_name_rules ''$.password_hash'' T_String = []"
  by code_simp+

text \<open>A value pattern is only tried at a path whose joined type is string.\<close>

text \<open>A path whose values differ in type across the batch, so that their join is not the string
  type, is reported by its name only: a private key in one event goes unreported when another
  event has a number at the same path.\<close>

theorem type_conflict_hides_pattern:
  assumes "card (paths_of (met cfg events)) < max_paths_of cfg"
    and "join_types (types_at p (met cfg events)) \<noteq> Some T_String"
  shows "\<forall>h \<in> set (detect_hits_for_batch cfg events). dh_path h = p \<longrightarrow> dh_method h = ''field_name''"
proof (intro ballI impI)
  fix h
  assume h: "h \<in> set (detect_hits_for_batch cfg events)" "dh_path h = p"
  then obtain q where q: "q \<in> paths_of (batch_paths cfg events)"
      "h \<in> set (candidates (batch_paths cfg events) (batch_samples cfg events) q)"
    using detect_hits(3) by blast
  have "q = p" using candidate_path[OF q(2)] h(2) by simp
  moreover have "dict_get (batch_paths cfg events) p \<noteq> Some T_String"
    using collected_paths_exact(2)[OF assms(1)] assms(2) by simp
  ultimately have "the (dict_get (batch_paths cfg events) q) \<noteq> T_String"
    using q(1) by (metis dom_map_of_conv_image_fst domD option.sel)
  then have "h \<in> set (evaluate_field_name_rules q (the (dict_get (batch_paths cfg events) q)))"
    using q(2) by (simp add: candidates_def Let_def)
  then show "dh_method h = ''field_name''" by (simp add: name_rule_path)
qed

definition key_event :: "json \<Rightarrow> json" where
  "key_event v = JObj [(''blob'', v)]"

definition pem_text :: string where
  "pem_text = ''-----BEGIN KEY-----x-----END KEY-----''"

theorem type_conflict_hides_pattern_witness:
  "filter (\<lambda>h. dh_path h = ''$.blob'' \<and> dh_method h \<noteq> ''field_name'')
     (detect_hits_for_batch sample_detect_settings [key_event (JStr pem_text), key_event (JInt 1)]) = [] \<and>
   map hit_key (detect_hits_for_batch sample_detect_settings [key_event (JStr pem_text)]) = [(''$.blob'', Secret)]"
proof
  let ?evs = "[key_event (JStr pem_text), key_event (JInt 1)]"
  have met: "met sample_detect_settings ?evs = [(''$.blob'', T_String), (''$.blob'', T_Integer)]" by code_simp
  have "card (paths_of (met sample_detect_settings ?evs)) < max_paths_of sample_detect_settings"
    unfolding met by (simp add: max_paths_of_def sample_detect_settings_def)
  moreover have "join_types (types_at ''$.blob'' (met sample_detect_settings ?evs)) \<noteq> Some T_String"
    unfolding met by code_simp
  ultimately have "\<forall>h \<in> set (detect_hits_for_batch sample_detect_settings ?evs).
      dh_path h = ''$.blob'' \<longrightarrow> dh_method h = ''field_name''"
    by (rule type_conflict_hides_pattern)
  then show "filter (\<lambda>h. dh_path h = ''$.blob'' \<and> dh_method h \<noteq> ''field_name'')
      (detect_hits_for_batch sample_detect_settings ?evs) = []"
    by (auto simp: filter_empty_conv)
  show "map hit_key (detect_hits_for_batch sample_detect_settings [key_event (JStr pem_text)]) = [(''$.blob'', Secret)]"
    by code_simp
qed

section \<open>What an upsert does to the table\<close>

definition row_key :: "sens_finding \<Rightarrow> int \<times> hit_key" where
  "row_key r = (sf_stream r, finding_key r)"

definition findings_ok :: "finding_table \<Rightarrow> bool" where
  "findings_ok t \<longleftrightarrow> distinct (map row_key (ft_rows t)) \<and> distinct (map sf_id (ft_rows t))
     \<and> (\<forall>r \<in> set (ft_rows t). sf_id r < ft_next t)"

definition finding_of :: "finding_table \<Rightarrow> int \<Rightarrow> hit_key \<Rightarrow> sens_finding option" where
  "finding_of t sid k = List.find (\<lambda>r. row_key r = (sid, k)) (ft_rows t)"

lemma find_unique:
  "distinct (map f xs) \<Longrightarrow> x \<in> set xs \<Longrightarrow> List.find (\<lambda>y. f y = f x) xs = Some x"
  by (induction xs) auto

lemma finding_of_mem:
  "findings_ok t \<Longrightarrow> r \<in> set (ft_rows t) \<Longrightarrow> row_key r = (sid, k) \<Longrightarrow> finding_of t sid k = Some r"
  using find_unique[of row_key "ft_rows t" r] by (simp add: findings_ok_def finding_of_def)

lemma load_existing:
  assumes "distinct (map row_key rows)"
  shows "dict_get (load_existing_findings_map rows sid keys) k =
    (if k \<in> set keys then List.find (\<lambda>r. row_key r = (sid, k)) rows else None)"
proof -
  have "dict_get (fold (\<lambda>r. if sf_stream r = sid \<and> finding_key r \<in> set keys then dict_set (finding_key r) r else id) rows d) k =
      (if k \<in> set keys then (case List.find (\<lambda>r. row_key r = (sid, k)) rows of None \<Rightarrow> dict_get d k | Some r \<Rightarrow> Some r)
       else dict_get d k)" for d
    using assms
  proof (induction rows arbitrary: d)
    case (Cons r rows)
    have none: "List.find (\<lambda>x. row_key x = (sid, k)) rows = None" if "row_key r = (sid, k)"
      using Cons.prems that by (auto simp: find_None_iff image_iff)
    show ?case
      using Cons none by (auto simp: dict_simps row_key_def split: option.splits)
  qed simp
  then show ?thesis by (simp add: load_existing_findings_map_def split: option.splits)
qed

text \<open>The effect of one hit on one row.\<close>

definition confirm_row :: "int \<Rightarrow> int \<Rightarrow> (string, int) dict \<Rightarrow> hit_key \<times> det_hit \<Rightarrow> sens_finding \<Rightarrow> sens_finding" where
  "confirm_row now sid dm kh r =
     (if row_key r = (sid, fst kh) \<and> sf_status r = F_Open
      then confirm_finding now (snd kh) (dict_get dm (fst (fst kh))) r else r)"

lemma confirm_finding_simps [simp]:
  "sf_id (confirm_finding now h d f) = sf_id f" "row_key (confirm_finding now h d f) = row_key f"
  "sf_status (confirm_finding now h d f) = sf_status f"
  by (simp_all add: confirm_finding_def row_key_def finding_key_def)

lemma confirm_row_simps [simp]:
  "sf_id (confirm_row now sid dm kh f) = sf_id f" "row_key (confirm_row now sid dm kh f) = row_key f"
  "sf_status (confirm_row now sid dm kh f) = sf_status f"
  by (simp_all add: confirm_row_def)

lemma upsert_fold:
  assumes ids: "distinct (map sf_id rows0)" and keys: "distinct (map row_key rows0)"
    and g: "\<And>r. sf_id (g r) = sf_id r" "\<And>r. row_key (g r) = row_key r" "\<And>r. sf_status (g r) = sf_status r"
    and ex: "\<And>k. k \<in> fst ` set agg \<Longrightarrow> dict_get existing k = List.find (\<lambda>r. row_key r = (sid, k)) rows0"
  shows "\<exists>n'. fold (upsert_one now sid existing dm) agg (map g rows0, fresh, n) =
     (map (\<lambda>r. fold (confirm_row now sid dm) agg (g r)) rows0,
      fresh @ map snd (filter (\<lambda>kh. dict_get existing (fst kh) = None) agg), n')"
  using g ex
proof (induction agg arbitrary: g fresh n)
  case (Cons kh agg)
  obtain k h where kh: "kh = (k, h)" by (cases kh)
  have look: "dict_get existing k = List.find (\<lambda>r. row_key r = (sid, k)) rows0" using Cons.prems(4) kh by simp
  let ?g = "\<lambda>r. confirm_row now sid dm kh (g r)"
  have g': "sf_id (?g r) = sf_id r" "row_key (?g r) = row_key r" "sf_status (?g r) = sf_status r" for r
    using Cons.prems(1-3) by simp_all
  have step: "\<exists>n1. upsert_one now sid existing dm kh (map g rows0, fresh, n) =
      (map ?g rows0, fresh @ map snd (filter (\<lambda>kh. dict_get existing (fst kh) = None) [kh]), n1)"
  proof (cases "dict_get existing k")
    case None
    then have "\<forall>r \<in> set rows0. row_key r \<noteq> (sid, k)" using look by (auto simp: find_None_iff)
    then have "map ?g rows0 = map g rows0" using Cons.prems(2) kh by (simp add: confirm_row_def)
    then show ?thesis using None kh by (simp add: upsert_one_def)
  next
    case (Some f)
    then have f: "f \<in> set rows0" "row_key f = (sid, k)" using look by (auto dest!: find_Some_mem)
    have same: "sf_id r = sf_id f \<longleftrightarrow> row_key r = (sid, k)" if "r \<in> set rows0" for r
      using that f ids keys by (metis distinct_map inj_on_eq_iff)
    have uniq: "r = f" if "r \<in> set rows0" "row_key r = (sid, k)" for r
      using that f keys by (metis distinct_map inj_on_eq_iff)
    show ?thesis
    proof (cases "sf_status f = F_Open")
      case True
      have "map (\<lambda>r. if sf_id r = sf_id f then confirm_finding now h (dict_get dm (fst k)) r else r) (map g rows0) = map ?g rows0"
        unfolding map_map
      proof (rule map_cong[OF refl])
        fix r assume r: "r \<in> set rows0"
        show "((\<lambda>r. if sf_id r = sf_id f then confirm_finding now h (dict_get dm (fst k)) r else r) \<circ> g) r = ?g r"
          using same[OF r] uniq[OF r] True Cons.prems(1-3) kh by (cases "row_key r = (sid, k)") (simp_all add: confirm_row_def)
      qed
      then show ?thesis using Some True kh by (simp add: upsert_one_def)
    next
      case False
      have "map g rows0 = map ?g rows0"
      proof (rule map_cong[OF refl])
        fix r assume r: "r \<in> set rows0"
        show "g r = ?g r"
          using uniq[OF r] False Cons.prems(1-3) kh by (cases "row_key r = (sid, k)") (simp_all add: confirm_row_def)
      qed
      then show ?thesis using Some False kh by (simp add: upsert_one_def)
    qed
  qed
  then obtain n1 where "upsert_one now sid existing dm kh (map g rows0, fresh, n) =
      (map ?g rows0, fresh @ map snd (filter (\<lambda>kh. dict_get existing (fst kh) = None) [kh]), n1)" by blast
  moreover have ex': "dict_get existing k' = List.find (\<lambda>r. row_key r = (sid, k')) rows0" if "k' \<in> fst ` set agg" for k'
    using Cons.prems(4) that by simp
  ultimately show ?case
    using Cons.IH[of ?g "fresh @ map snd (filter (\<lambda>kh. dict_get existing (fst kh) = None) [kh])" n1, OF g' ex']
    by (cases "dict_get existing (fst kh) = None") auto
qed simp

lemma add_findings_rows:
  "\<exists>new. ft_rows (add_findings now sid dm hs t) = ft_rows t @ new
     \<and> map row_key new = map (\<lambda>h. (sid, hit_key h)) hs
     \<and> list_all (\<lambda>r. sf_status r = F_Open \<and> sf_count r = 1) new
     \<and> map sf_id new = map (\<lambda>i. ft_next t + int i) [0..<length hs]
     \<and> ft_next (add_findings now sid dm hs t) = ft_next t + int (length hs)"
proof (induction hs arbitrary: t)
  case (Cons h hs)
  let ?r = "new_finding now sid h (dict_get dm (dh_path h)) (ft_next t)"
  let ?t = "t\<lparr>ft_rows := ft_rows t @ [?r], ft_next := ft_next t + 1\<rparr>"
  obtain new where new: "ft_rows (add_findings now sid dm hs ?t) = ft_rows ?t @ new"
      "map row_key new = map (\<lambda>h. (sid, hit_key h)) hs"
      "list_all (\<lambda>r. sf_status r = F_Open \<and> sf_count r = 1) new"
      "map sf_id new = map (\<lambda>i. ft_next ?t + int i) [0..<length hs]"
      "ft_next (add_findings now sid dm hs ?t) = ft_next ?t + int (length hs)"
    using Cons.IH[of ?t] by blast
  have ids: "map (\<lambda>i. ft_next t + int i) [0..<length (h # hs)] = ft_next t # map (\<lambda>i. ft_next t + 1 + int i) [0..<length hs]"
    by (simp add: upt_conv_Cons map_Suc_upt[symmetric] comp_def algebra_simps del: upt_Suc)
  have row: "row_key ?r = (sid, hit_key h)" "sf_status ?r = F_Open" "sf_count ?r = 1" "sf_id ?r = ft_next t"
    by (simp_all add: new_finding_def row_key_def finding_key_def hit_key_def)
  show ?case
    unfolding ids using new row by (intro exI[of _ "?r # new"]) simp
qed simp

lemma dict_set_new: "k \<notin> fst ` set d \<Longrightarrow> dict_set k v d = d @ [(k, v)]"
  by (induction d) auto

lemma aggregate_distinct:
  assumes "distinct (map hit_key hits)"
  shows "aggregate_hits hits = map (\<lambda>h. (hit_key h, h)) hits"
proof -
  have "fold (\<lambda>h. dict_set (hit_key h) h) hits d = d @ map (\<lambda>h. (hit_key h, h)) hits"
    if "distinct (map fst d @ map hit_key hits)" for d
    using that
  proof (induction hits arbitrary: d)
    case (Cons h hits)
    have "dict_set (hit_key h) h d = d @ [(hit_key h, h)]"
      using Cons.prems by (intro dict_set_new) auto
    with Cons.IH[of "d @ [(hit_key h, h)]"] Cons.prems show ?case by simp
  qed simp
  from this[of "[]"] assms show ?thesis by (simp add: aggregate_hits_def)
qed

text \<open>The rows of an upsert: the old ones, confirmed where hit and open, and one new row per hit
  that had none.\<close>

lemma upsert_rows:
  assumes ok: "findings_ok t" and dist: "distinct (map hit_key hits)"
  obtains new dm where
    "ft_rows (snd (upsert_sensitive_hits_batch now sid drifts hits t)) =
       map (fold (confirm_row now sid dm) (map (\<lambda>h. (hit_key h, h)) hits)) (ft_rows t) @ new"
    "map row_key new = map (\<lambda>h. (sid, hit_key h)) (filter (\<lambda>h. finding_of t sid (hit_key h) = None) hits)"
    "list_all (\<lambda>r. sf_status r = F_Open \<and> sf_count r = 1) new"
    "\<forall>r \<in> set new. ft_next t \<le> sf_id r \<and> sf_id r < ft_next (snd (upsert_sensitive_hits_batch now sid drifts hits t))"
    "distinct (map sf_id new)"
    "ft_next t \<le> ft_next (snd (upsert_sensitive_hits_batch now sid drifts hits t))"
proof (cases "hits = []")
  case True
  then have "snd (upsert_sensitive_hits_batch now sid drifts hits t) = t"
    by (simp add: upsert_sensitive_hits_batch_def aggregate_hits_def)
  with True that[of "[]"] show ?thesis by simp
next
  case False
  let ?agg = "map (\<lambda>h. (hit_key h, h)) hits"
  let ?ex = "load_existing_findings_map (ft_rows t) sid (map fst ?agg)"
  let ?dm = "load_related_drift_ids_map drifts sid (map fst (map fst ?agg))"
  have keys: "distinct (map row_key (ft_rows t))" and ids: "distinct (map sf_id (ft_rows t))"
    using ok by (simp_all add: findings_ok_def)
  have ex: "dict_get ?ex k = List.find (\<lambda>r. row_key r = (sid, k)) (ft_rows t)" if "k \<in> fst ` set ?agg" for k
    using that by (subst load_existing[OF keys]) auto
  obtain n where fold: "fold (upsert_one now sid ?ex ?dm) ?agg (ft_rows t, [], 0) =
      (map (fold (confirm_row now sid ?dm) ?agg) (ft_rows t),
       map snd (filter (\<lambda>kh. dict_get ?ex (fst kh) = None) ?agg), n)"
    using upsert_fold[OF ids keys, where g = "\<lambda>r. r" and agg = ?agg and existing = ?ex and sid = sid
        and now = now and dm = ?dm and fresh = "[]" and n = 0] ex by auto
  have fresh: "map snd (filter (\<lambda>kh. dict_get ?ex (fst kh) = None) ?agg) =
      filter (\<lambda>h. finding_of t sid (hit_key h) = None) hits"
    by (simp add: filter_map comp_def load_existing[OF keys] finding_of_def cong: filter_cong)
  let ?t = "t\<lparr>ft_rows := map (fold (confirm_row now sid ?dm) ?agg) (ft_rows t)\<rparr>"
  have eq: "snd (upsert_sensitive_hits_batch now sid drifts hits t) =
      add_findings now sid ?dm (filter (\<lambda>h. finding_of t sid (hit_key h) = None) hits) ?t"
    using False fold fresh
    by (simp add: upsert_sensitive_hits_batch_def Let_def aggregate_distinct[OF dist])
  obtain new where new: "ft_rows (snd (upsert_sensitive_hits_batch now sid drifts hits t)) = ft_rows ?t @ new"
      "map row_key new = map (\<lambda>h. (sid, hit_key h)) (filter (\<lambda>h. finding_of t sid (hit_key h) = None) hits)"
      "list_all (\<lambda>r. sf_status r = F_Open \<and> sf_count r = 1) new"
      "map sf_id new = map (\<lambda>i. ft_next t + int i) [0..<length (filter (\<lambda>h. finding_of t sid (hit_key h) = None) hits)]"
      "ft_next (snd (upsert_sensitive_hits_batch now sid drifts hits t)) =
         ft_next t + int (length (filter (\<lambda>h. finding_of t sid (hit_key h) = None) hits))"
    using add_findings_rows[of now sid ?dm "filter (\<lambda>h. finding_of t sid (hit_key h) = None) hits" ?t]
    unfolding eq by auto
  have "set (map sf_id new) \<subseteq> {ft_next t ..< ft_next (snd (upsert_sensitive_hits_batch now sid drifts hits t))}"
    unfolding new(4,5) by auto
  then have "\<forall>r \<in> set new. ft_next t \<le> sf_id r \<and> sf_id r < ft_next (snd (upsert_sensitive_hits_batch now sid drifts hits t))"
    by auto
  moreover have "distinct (map sf_id new)" unfolding new(4) by (simp add: distinct_map inj_on_def)
  ultimately show ?thesis using that[of ?dm new] new by simp
qed

lemma fold_confirm_simps [simp]:
  "sf_id (fold (confirm_row now sid dm) agg r) = sf_id r"
  "row_key (fold (confirm_row now sid dm) agg r) = row_key r"
  "sf_status (fold (confirm_row now sid dm) agg r) = sf_status r"
  by (induction agg arbitrary: r) simp_all

lemma fold_confirm_id:
  "row_key r \<notin> (\<lambda>h. (sid, hit_key h)) ` set hits \<or> sf_status r \<noteq> F_Open \<Longrightarrow>
     fold (confirm_row now sid dm) (map (\<lambda>h. (hit_key h, h)) hits) r = r"
  by (induction hits) (auto simp: confirm_row_def)

lemma fold_confirm_count:
  assumes "distinct (map hit_key hits)" "row_key r \<in> (\<lambda>h. (sid, hit_key h)) ` set hits" "sf_status r = F_Open"
  shows "sf_count (fold (confirm_row now sid dm) (map (\<lambda>h. (hit_key h, h)) hits) r) = sf_count r + 1"
  using assms
proof (induction hits arbitrary: r)
  case (Cons h hits)
  show ?case
  proof (cases "row_key r = (sid, hit_key h)")
    case True
    let ?r = "confirm_row now sid dm (hit_key h, h) r"
    have "row_key ?r \<notin> (\<lambda>h. (sid, hit_key h)) ` set hits" using True Cons.prems(1) by auto
    then have "fold (confirm_row now sid dm) (map (\<lambda>h. (hit_key h, h)) hits) ?r = ?r" by (intro fold_confirm_id) simp
    moreover have "sf_count ?r = sf_count r + 1"
      using True Cons.prems(3) by (simp add: confirm_row_def confirm_finding_def)
    ultimately show ?thesis by simp
  next
    case False
    then have "confirm_row now sid dm (hit_key h, h) r = r" by (simp add: confirm_row_def)
    with False Cons show ?thesis by simp
  qed
qed simp

text \<open>
  An upsert keeps the table well formed. A finding that is hit and open gains one confirmation, a
  missing one starts open at one, and every other finding, acknowledged and resolved ones
  included, is left exactly as it was.
\<close>

theorem upsert_keeps_findings_ok:
  assumes "findings_ok t" "distinct (map hit_key hits)"
  shows "findings_ok (snd (upsert_sensitive_hits_batch now sid drifts hits t))"
proof -
  let ?t' = "snd (upsert_sensitive_hits_batch now sid drifts hits t)"
  obtain new dm where rows: "ft_rows ?t' =
       map (fold (confirm_row now sid dm) (map (\<lambda>h. (hit_key h, h)) hits)) (ft_rows t) @ new"
    and keys: "map row_key new = map (\<lambda>h. (sid, hit_key h)) (filter (\<lambda>h. finding_of t sid (hit_key h) = None) hits)"
    and ids: "\<forall>r \<in> set new. ft_next t \<le> sf_id r \<and> sf_id r < ft_next ?t'" "distinct (map sf_id new)"
    and nxt: "ft_next t \<le> ft_next ?t'"
    by (rule upsert_rows[OF assms])
  have oldk: "map row_key (ft_rows ?t') = map row_key (ft_rows t) @ map row_key new"
    and oldi: "map sf_id (ft_rows ?t') = map sf_id (ft_rows t) @ map sf_id new"
    unfolding rows by (simp_all add: comp_def)
  have "distinct (map hit_key (filter (\<lambda>h. finding_of t sid (hit_key h) = None) hits))"
    using assms(2) by (simp add: distinct_map_filter)
  then have "distinct (map row_key new)"
    unfolding keys distinct_map by (auto simp: inj_on_def)
  moreover have "set (map row_key (ft_rows t)) \<inter> set (map row_key new) = {}"
    unfolding keys by (auto simp: finding_of_def find_None_iff)
  moreover have "set (map sf_id (ft_rows t)) \<inter> set (map sf_id new) = {}"
    using assms(1) ids(1) by (fastforce simp: findings_ok_def)
  moreover have "\<forall>r \<in> set (ft_rows ?t'). sf_id r < ft_next ?t'"
    unfolding rows using assms(1) ids(1) nxt by (fastforce simp: findings_ok_def)
  ultimately show ?thesis
    using assms(1) ids(2) oldk oldi unfolding findings_ok_def by auto
qed

lemma find_map_keep: "(\<And>x. P (f x) = P x) \<Longrightarrow> List.find P (map f xs) = map_option f (List.find P xs)"
  by (induction xs) auto

theorem upsert_effect:
  fixes now sid :: int and drifts :: "drift_row list"
  assumes "findings_ok t" "distinct (map hit_key hits)"
  defines "t' \<equiv> snd (upsert_sensitive_hits_batch now sid drifts hits t)"
  shows "sid' \<noteq> sid \<or> k \<notin> hit_key ` set hits \<Longrightarrow> finding_of t' sid' k = finding_of t sid' k"
    and "finding_of t sid k = Some f \<Longrightarrow> sf_status f \<noteq> F_Open \<Longrightarrow> finding_of t' sid k = Some f"
    and "k \<in> hit_key ` set hits \<Longrightarrow>
      map_option (\<lambda>f. (sf_status f, sf_count f)) (finding_of t' sid k) =
      Some (case finding_of t sid k of
              None \<Rightarrow> (F_Open, 1)
            | Some f \<Rightarrow> (sf_status f, if sf_status f = F_Open then sf_count f + 1 else sf_count f))"
proof -
  obtain new dm where rows: "ft_rows t' =
       map (fold (confirm_row now sid dm) (map (\<lambda>h. (hit_key h, h)) hits)) (ft_rows t) @ new"
    and keys: "map row_key new = map (\<lambda>h. (sid, hit_key h)) (filter (\<lambda>h. finding_of t sid (hit_key h) = None) hits)"
    and fresh: "list_all (\<lambda>r. sf_status r = F_Open \<and> sf_count r = 1) new"
    unfolding t'_def by (rule upsert_rows[OF assms(1,2)])
  let ?F = "fold (confirm_row now sid dm) (map (\<lambda>h. (hit_key h, h)) hits)"
  have look: "finding_of t' s q = (case finding_of t s q of None \<Rightarrow> List.find (\<lambda>r. row_key r = (s, q)) new | Some f \<Rightarrow> Some (?F f))" for s q
    unfolding finding_of_def rows find_append by (subst find_map_keep) (simp_all split: option.split)
  have mem: "row_key r \<in> (\<lambda>h. (sid, hit_key h)) ` set (filter (\<lambda>h. finding_of t sid (hit_key h) = None) hits)"
    if "r \<in> set new" for r
    using that keys by (metis image_eqI list.set_map)
  have found: "row_key f = (s, q)" if "finding_of t s q = Some f" for s q f
    using that by (auto simp: finding_of_def dest: find_Some_mem)
  show "finding_of t' sid' k = finding_of t sid' k" if "sid' \<noteq> sid \<or> k \<notin> hit_key ` set hits"
  proof (cases "finding_of t sid' k")
    case None
    have "List.find (\<lambda>r. row_key r = (sid', k)) new = None"
      using mem that by (force simp: find_None_iff)
    then show ?thesis using None by (simp add: look)
  next
    case (Some f)
    then have "?F f = f" using found[OF Some] that by (intro fold_confirm_id) auto
    then show ?thesis using Some by (simp add: look)
  qed
  show "finding_of t' sid k = Some f" if "finding_of t sid k = Some f" "sf_status f \<noteq> F_Open"
    using that by (simp add: look fold_confirm_id)
  assume k: "k \<in> hit_key ` set hits"
  show "map_option (\<lambda>f. (sf_status f, sf_count f)) (finding_of t' sid k) =
      Some (case finding_of t sid k of
              None \<Rightarrow> (F_Open, 1)
            | Some f \<Rightarrow> (sf_status f, if sf_status f = F_Open then sf_count f + 1 else sf_count f))"
  proof (cases "finding_of t sid k")
    case None
    then have "(sid, k) \<in> set (map row_key new)" unfolding keys using k by auto
    then have "List.find (\<lambda>r. row_key r = (sid, k)) new \<noteq> None"
      by (auto simp: find_None_iff)
    then obtain r where r: "List.find (\<lambda>r. row_key r = (sid, k)) new = Some r" by blast
    moreover have "r \<in> set new" using find_Some_mem[OF r] by simp
    ultimately show ?thesis using None fresh by (simp add: look list_all_iff)
  next
    case (Some f)
    then have "row_key f \<in> (\<lambda>h. (sid, hit_key h)) ` set hits" using found[OF Some] k by auto
    then show ?thesis
      using Some fold_confirm_count[OF assms(2), of f sid now dm] fold_confirm_id[of f sid hits now dm] by (simp add: look)
  qed
qed

section \<open>The confirm counter over the runs\<close>

text \<open>Runs of the detection: each with its time, stream, open drifts and events.\<close>

type_synonym detect_run = "int \<times> int \<times> drift_row list \<times> json list"

definition detect_run :: "detect_settings \<Rightarrow> detect_run \<Rightarrow> finding_table \<Rightarrow> finding_table" where
  "detect_run cfg r t = (case r of (now, sid, drifts, events) \<Rightarrow> snd (detect_sensitive_fields cfg now sid drifts events t))"

definition run_hits :: "detect_settings \<Rightarrow> int \<Rightarrow> hit_key \<Rightarrow> detect_run \<Rightarrow> bool" where
  "run_hits cfg sid k r =
     (case r of (now, s, drifts, events) \<Rightarrow> s = sid \<and> k \<in> hit_key ` set (detect_hits_for_batch cfg events))"

lemma detect_run_upsert:
  assumes "ds_detect_enabled cfg"
  shows "detect_run cfg (now, s, drifts, events) t =
    snd (upsert_sensitive_hits_batch now s drifts (detect_hits_for_batch cfg events) t)"
proof (cases "events = []")
  case True
  then have "detect_hits_for_batch cfg events = []" by (simp add: detect_hits_for_batch_def)
  with True show ?thesis
    by (simp add: detect_run_def detect_sensitive_fields_def build_sensitive_detection_context_def
        upsert_sensitive_hits_batch_def aggregate_hits_def)
next
  case False
  with assms show ?thesis
    by (simp add: detect_run_def detect_sensitive_fields_def build_sensitive_detection_context_def
        persist_sensitive_hits_def Let_def split: prod.split)
qed

lemma detect_run_step:
  assumes cfg: "ds_detect_enabled cfg" and ok: "findings_ok t"
    and st: "map_option (\<lambda>f. (sf_status f, sf_count f)) (finding_of t sid k) = (if n = 0 then None else Some (F_Open, int n))"
  shows "findings_ok (detect_run cfg r t)"
    and "map_option (\<lambda>f. (sf_status f, sf_count f)) (finding_of (detect_run cfg r t) sid k) =
      (if run_hits cfg sid k r then Some (F_Open, int n + 1) else if n = 0 then None else Some (F_Open, int n))"
proof -
  obtain now s drifts events where r: "r = (now, s, drifts, events)" by (cases r)
  note dist = detect_hits(1)[of cfg events]
  note eq = detect_run_upsert[OF cfg, of now s drifts events t]
  show "findings_ok (detect_run cfg r t)" unfolding r eq by (rule upsert_keeps_findings_ok[OF ok dist])
  show "map_option (\<lambda>f. (sf_status f, sf_count f)) (finding_of (detect_run cfg r t) sid k) =
      (if run_hits cfg sid k r then Some (F_Open, int n + 1) else if n = 0 then None else Some (F_Open, int n))"
  proof (cases "run_hits cfg sid k r")
    case True
    then have "s = sid" "k \<in> hit_key ` set (detect_hits_for_batch cfg events)" by (simp_all add: run_hits_def r)
    with upsert_effect(3)[OF ok dist, of k now s drifts] st True show ?thesis
      unfolding r eq by (cases "finding_of t sid k") (auto split: if_splits)
  next
    case False
    then have "sid \<noteq> s \<or> k \<notin> hit_key ` set (detect_hits_for_batch cfg events)" by (auto simp: run_hits_def r)
    from upsert_effect(1)[OF ok dist this] st False show ?thesis
      unfolding r eq by simp
  qed
qed

text \<open>Whatever the interleaving of the streams, the confirm counter of a finding is the number of
  runs of its stream whose events hit it, and a finding exists exactly when there was one.\<close>

theorem confirm_count_is_runs:
  assumes "ds_detect_enabled cfg"
  shows "map_option (\<lambda>f. (sf_status f, sf_count f))
      (finding_of (fold (detect_run cfg) runs \<lparr>ft_rows = [], ft_next = 1\<rparr>) sid k) =
    (let n = length (filter (run_hits cfg sid k) runs) in if n = 0 then None else Some (F_Open, int n))"
proof -
  have "findings_ok (fold (detect_run cfg) runs \<lparr>ft_rows = [], ft_next = 1\<rparr>) \<and>
    map_option (\<lambda>f. (sf_status f, sf_count f))
      (finding_of (fold (detect_run cfg) runs \<lparr>ft_rows = [], ft_next = 1\<rparr>) sid k) =
    (if length (filter (run_hits cfg sid k) runs) = 0 then None
     else Some (F_Open, int (length (filter (run_hits cfg sid k) runs))))"
  proof (induction runs rule: rev_induct)
    case Nil
    show ?case by (simp add: findings_ok_def finding_of_def)
  next
    case (snoc r runs)
    from detect_run_step[OF assms conjunct1[OF snoc] conjunct2[OF snoc], of r] show ?case by simp
  qed
  then show ?thesis by (simp add: Let_def)
qed

theorem confirm_count_is_runs_witness:
  "map_option (\<lambda>f. (sf_status f, sf_count f))
      (finding_of (fold (detect_run sample_detect_settings)
          [(1, 5, [], [login_event]), (2, 6, [], [login_event]), (3, 5, [], []), (4, 5, [], [login_event])]
          \<lparr>ft_rows = [], ft_next = 1\<rparr>) 5 (''$.auth_data[].Access_Token'', Secret)) = Some (F_Open, 2)"
proof -
  have hit: "(''$.auth_data[].Access_Token'', Secret) \<in> hit_key ` set (detect_hits_for_batch sample_detect_settings [login_event])"
    by code_simp
  have "detect_hits_for_batch sample_detect_settings [] = []" by (simp add: detect_hits_for_batch_def)
  with hit have "length (filter (run_hits sample_detect_settings 5 (''$.auth_data[].Access_Token'', Secret))
      [(1, 5, [], [login_event]), (2, 6, [], [login_event]), (3, 5, [], []), (4, 5, [], [login_event])]) = 2"
    by (simp add: run_hits_def)
  then show ?thesis
    by (subst confirm_count_is_runs) (simp_all add: sample_detect_settings_def)
qed

end
