(* ===== verification/Replay_Service.thy ===== *)
theory Replay_Service
  imports Send_Path
begin

text \<open>
  \<open>app/replay/service.py\<close>: the replay of a recorded delivery. A replay claims the row in one
  transaction (status \<open>replaying\<close> with an attempt), calls the adapter without holding the row, and
  settles the row in a second transaction; a discard can come between. The functions are the
  transactions; \<open>replay_step\<close> lets several workers, crashes and discards interleave. The queries of
  destinations and routes, the resolution of the destination's configuration and the adapter are
  parameters, a time is a rational number of seconds, and the attempt identifiers \<open>uuid4\<close> gives are
  arguments. A row lock held by another request makes a request fail at once, which is the same as
  not making it. Latencies, payload hashes and the response dictionaries are left out.
\<close>

section \<open>Rows\<close>

datatype replay_status = R_Pending | R_Replaying | R_Replayed | R_Failed | R_Discarded

fun status_text :: "replay_status \<Rightarrow> string" where
  "status_text R_Pending = ''pending''"
| "status_text R_Replaying = ''replaying''"
| "status_text R_Replayed = ''replayed''"
| "status_text R_Failed = ''failed''"
| "status_text R_Discarded = ''discarded''"

record attempt =
  at_id :: string
  at_key :: string
  at_uncertain :: bool
  at_claimed :: rat

record stored_replay = replay_row +
  sr_id :: int
  sr_prefix :: "prefix_context option"
  sr_status :: replay_status
  sr_retry :: int
  sr_attempt :: "attempt option"
  sr_updated :: rat
  sr_last :: "rat option"

definition replay_terminal_statuses :: "replay_status list" where
  "replay_terminal_statuses = [R_Replayed, R_Discarded]"

datatype replay_error =
    Event_Not_Found
  | Replay_In_Progress
  | State_Error string
  | Config_Raised

record replay_log =
  lg_stage :: string
  lg_status :: string
  lg_retry :: int
  lg_error :: "string option"
  lg_message :: string

record replay_world =
  rw_row :: "stored_replay option"
  rw_windows :: windows
  rw_logs :: "replay_log list"

record replay_env =
  ry_destination :: "int \<Rightarrow> destination option"
  ry_route :: "int \<Rightarrow> route option"
  ry_resolve :: "string \<Rightarrow> event \<Rightarrow> event option"

record replay_call =
  rc_type :: string
  rc_events :: "json list"
  rc_config :: event
  rc_formatter :: "event option"
  rc_prefix :: "prefix_context option"
  rc_key :: string

section \<open>Attempts\<close>

definition claim_stale_after :: rat where
  "claim_stale_after = 120"

definition claim_is_fresh :: "attempt option \<Rightarrow> rat \<Rightarrow> bool" where
  "claim_is_fresh a now = (case a of None \<Rightarrow> False | Some x \<Rightarrow> at_claimed x \<ge> now - claim_stale_after)"

definition build_attempt_meta :: "int \<Rightarrow> string \<Rightarrow> rat \<Rightarrow> bool \<Rightarrow> attempt" where
  "build_attempt_meta event_id aid claimed uncertain =
     \<lparr>at_id = aid, at_key = ''replay-'' @ int_str event_id @ ''-'' @ aid, at_uncertain = uncertain, at_claimed = claimed\<rparr>"

definition extract_stored_events :: "stored_replay \<Rightarrow> json list" where
  "extract_stored_events row = copy_events (rp_events row) None"

definition persist_replay_log ::
    "stored_replay \<Rightarrow> string \<Rightarrow> string \<Rightarrow> string \<Rightarrow> string option \<Rightarrow> replay_world \<Rightarrow> replay_world" where
  "persist_replay_log row stage msg status code w =
     w\<lparr>rw_logs := rw_logs w @ [\<lparr>lg_stage = stage, lg_status = status, lg_retry = max 0 (sr_retry row),
         lg_error = code, lg_message = (if msg = [] then stage else msg)\<rparr>]\<rparr>"

definition effective_replay_rate_limit :: "replay_env \<Rightarrow> stored_replay \<Rightarrow> destination \<Rightarrow> int \<times> rate_cfg option" where
  "effective_replay_rate_limit env row dest =
     (case rp_route row of
        None \<Rightarrow> (rp_destination row, d_rate_limit dest)
      | Some rid \<Rightarrow>
          (case ry_route env rid of
             None \<Rightarrow> (rp_destination row, d_rate_limit dest)
           | Some r \<Rightarrow> (r_id r, case r_rate_limit r of Some c \<Rightarrow> Some c | None \<Rightarrow> d_rate_limit dest)))"

section \<open>The transactions\<close>

definition discard_replay_event :: "rat \<Rightarrow> replay_world \<Rightarrow> (replay_error + stored_replay) \<times> replay_world" where
  "discard_replay_event now w =
     (case rw_row w of
        None \<Rightarrow> (Inl Event_Not_Found, w)
      | Some row \<Rightarrow>
          if sr_status row \<in> set replay_terminal_statuses then (Inl (State_Error ''REPLAY_INVALID_STATE''), w)
          else
            (let row' = row\<lparr>sr_status := R_Discarded, sr_updated := now\<rparr>
             in (Inr row', persist_replay_log row' ''replay_event_discarded'' ''replay event discarded'' ''OK'' None
                             (w\<lparr>rw_row := Some row'\<rparr>))))"

definition commit_replay_claim :: "stored_replay \<Rightarrow> attempt \<Rightarrow> rat \<Rightarrow> stored_replay" where
  "commit_replay_claim row a now =
     row\<lparr>sr_attempt := Some a, sr_status := R_Replaying, sr_updated := now, sr_last := Some now,
         rp_error_type := None, rp_error_message := None\<rparr>"

definition claim_attempt :: "stored_replay \<Rightarrow> rat \<Rightarrow> string \<Rightarrow> attempt" where
  "claim_attempt row now uuid =
     (let recovery = (sr_status row = R_Replaying);
          old_id = (case sr_attempt row of None \<Rightarrow> [] | Some a \<Rightarrow> py_strip (at_id a));
          aid = (if recovery \<and> old_id \<noteq> [] then old_id else uuid);
          a = build_attempt_meta (sr_id row) aid now recovery
      in case sr_attempt row of
           Some old \<Rightarrow> if recovery \<and> at_key old \<noteq> [] then a\<lparr>at_key := at_key old\<rparr> else a
         | None \<Rightarrow> a)"

text \<open>\<open>execute_replay_event\<close> up to the commit of the claim.\<close>

definition replay_claim ::
    "replay_env \<Rightarrow> rat \<Rightarrow> string \<Rightarrow> replay_world \<Rightarrow> (replay_error + attempt \<times> replay_call) \<times> replay_world" where
  "replay_claim env now uuid w =
     (case rw_row w of
        None \<Rightarrow> (Inl Event_Not_Found, w)
      | Some row \<Rightarrow>
          if sr_status row = R_Discarded then (Inl (State_Error ''REPLAY_DISCARDED''), w)
          else if sr_status row = R_Replayed then (Inl (State_Error ''REPLAY_ALREADY_REPLAYED''), w)
          else if sr_status row = R_Replaying \<and> claim_is_fresh (sr_attempt row) now then (Inl Replay_In_Progress, w)
          else if extract_stored_events row = [] then (Inl (State_Error ''REPLAY_PAYLOAD_EMPTY''), w)
          else
            (case ry_destination env (rp_destination row) of
               None \<Rightarrow> (Inl (State_Error ''REPLAY_DESTINATION_NOT_FOUND''), w)
             | Some dest \<Rightarrow>
                 if \<not> d_enabled dest then (Inl (State_Error ''REPLAY_DESTINATION_DISABLED''), w)
                 else
                   (let dtype = py_upper (py_strip (if rp_type row \<noteq> [] then rp_type row else d_type dest))
                    in case ry_resolve env dtype (d_config dest) of
                         None \<Rightarrow> (Inl Config_Raised, w)
                       | Some config \<Rightarrow>
                           (let (key, limit) = effective_replay_rate_limit env row dest;
                                (ok, ws) = destination_allow now (rw_windows w) key limit;
                                w1 = w\<lparr>rw_windows := ws\<rparr>
                            in if \<not> ok then
                                 (Inl (State_Error ''REPLAY_DESTINATION_RATE_LIMITED''),
                                  persist_replay_log row ''replay_event_replay_failed'' ''destination rate limited''
                                    ''RATE_LIMITED'' (Some ''REPLAY_DESTINATION_RATE_LIMITED'') w1)
                               else
                                 (let a = claim_attempt row now uuid
                                  in (Inr (a, \<lparr>rc_type = dtype, rc_events = extract_stored_events row, rc_config = config,
                                               rc_formatter = rp_formatter row, rc_prefix = sr_prefix row, rc_key = at_key a\<rparr>),
                                      w1\<lparr>rw_row := Some (commit_replay_claim row a now)\<rparr>))))))"

text \<open>The rest of it, once the adapter has returned or raised.\<close>

definition replay_settle ::
    "rat \<Rightarrow> attempt \<Rightarrow> exn option \<Rightarrow> replay_world \<Rightarrow> (replay_error + string \<times> stored_replay) \<times> replay_world" where
  "replay_settle now a res w =
     (case rw_row w of
        None \<Rightarrow> (Inl Event_Not_Found, w)
      | Some row \<Rightarrow>
          if sr_status row = R_Discarded then (Inl (State_Error ''REPLAY_DISCARDED''), w)
          else if sr_status row = R_Replayed then (Inl (State_Error ''REPLAY_ALREADY_REPLAYED''), w)
          else
            (case res of
               Some err \<Rightarrow>
                 (let row' = row\<lparr>sr_status := R_Failed, sr_retry := sr_retry row + 1, sr_updated := now, sr_last := Some now,
                                 rp_error_type := Some (ex_type err), rp_error_message := Some (take 2000 (ex_message err)),
                                 sr_attempt := Some (a\<lparr>at_uncertain := True\<rparr>)\<rparr>
                  in (Inr (''failed'', row'),
                      persist_replay_log row' ''replay_event_replay_failed'' (take 500 (ex_message err)) ''FAILED''
                        (Some (ex_type err)) (w\<lparr>rw_row := Some row'\<rparr>)))
             | None \<Rightarrow>
                 (let row' = row\<lparr>sr_status := R_Replayed, sr_retry := sr_retry row + 1, sr_updated := now, sr_last := Some now,
                                 rp_error_type := None, rp_error_message := None, sr_attempt := Some a\<rparr>
                  in (Inr (''replayed'', row'),
                      persist_replay_log row' ''replay_event_replayed'' ''replay delivered successfully (at-least-once)''
                        ''OK'' None (w\<lparr>rw_row := Some row'\<rparr>)))))"

text \<open>One undisturbed call: \<open>between\<close> is what other requests do to the row while it is sent.\<close>

definition execute_replay_event ::
    "replay_env \<Rightarrow> rat \<Rightarrow> rat \<Rightarrow> string \<Rightarrow> (replay_call \<Rightarrow> exn option) \<Rightarrow> (replay_world \<Rightarrow> replay_world) \<Rightarrow> replay_world \<Rightarrow>
     (replay_error + string \<times> stored_replay) \<times> replay_world" where
  "execute_replay_event env now finish uuid send between w =
     (case replay_claim env now uuid w of
        (Inl e, w1) \<Rightarrow> (Inl e, w1)
      | (Inr (a, call), w1) \<Rightarrow> replay_settle finish a (send call) (between w1))"

section \<open>Interleaving\<close>

text \<open>
  The workers by number, each with its attempt and, once the adapter is done, its outcome; the trace
  of the adapter calls. \<open>timely\<close> bounds the clock: no worker takes longer than the claim stays
  fresh.
\<close>

record replay_sys =
  rz_world :: replay_world
  rz_now :: rat
  rz_jobs :: "nat \<Rightarrow> (attempt \<times> exn option option) option"
  rz_sent :: "(attempt \<times> exn option) list"

inductive replay_step :: "bool \<Rightarrow> replay_env \<Rightarrow> replay_sys \<Rightarrow> replay_sys \<Rightarrow> bool" for timely env where
  step_claim:
    "rz_jobs s p = None \<Longrightarrow> replay_claim env (rz_now s) uuid (rz_world s) = (Inr (a, call), w) \<Longrightarrow>
     replay_step timely env s (s\<lparr>rz_world := w, rz_jobs := (rz_jobs s)(p := Some (a, None))\<rparr>)"
| step_refused:
    "replay_claim env (rz_now s) uuid (rz_world s) = (Inl e, w) \<Longrightarrow>
     replay_step timely env s (s\<lparr>rz_world := w\<rparr>)"
| step_send:
    "rz_jobs s p = Some (a, None) \<Longrightarrow>
     replay_step timely env s (s\<lparr>rz_jobs := (rz_jobs s)(p := Some (a, Some res)), rz_sent := rz_sent s @ [(a, res)]\<rparr>)"
| step_settle:
    "rz_jobs s p = Some (a, Some res) \<Longrightarrow>
     replay_step timely env s (s\<lparr>rz_world := snd (replay_settle (rz_now s) a res (rz_world s)), rz_jobs := (rz_jobs s)(p := None)\<rparr>)"
| step_crash:
    "replay_step timely env s (s\<lparr>rz_jobs := (rz_jobs s)(p := None)\<rparr>)"
| step_discard:
    "replay_step timely env s (s\<lparr>rz_world := snd (discard_replay_event (rz_now s) (rz_world s))\<rparr>)"
| step_tick:
    "rz_now s \<le> t \<Longrightarrow> timely \<longrightarrow> (\<forall>p a r. rz_jobs s p = Some (a, r) \<longrightarrow> t - claim_stale_after \<le> at_claimed a) \<Longrightarrow>
     replay_step timely env s (s\<lparr>rz_now := t\<rparr>)"

inductive replay_reach :: "bool \<Rightarrow> replay_env \<Rightarrow> replay_sys \<Rightarrow> replay_sys \<Rightarrow> bool" for timely env s0 where
  reach_start: "replay_reach timely env s0 s0"
| reach_step: "replay_reach timely env s0 s \<Longrightarrow> replay_step timely env s s' \<Longrightarrow> replay_reach timely env s0 s'"

text \<open>A recorded row nobody works on.\<close>

definition idle_sys :: "replay_sys \<Rightarrow> bool" where
  "idle_sys s \<longleftrightarrow> rz_jobs s = (\<lambda>_. None) \<and> rz_sent s = [] \<and>
     (case rw_row (rz_world s) of None \<Rightarrow> True | Some row \<Rightarrow> sr_status row \<noteq> R_Replayed)"

section \<open>What a transaction does\<close>

lemma claim_attempt_claimed [simp]: "at_claimed (claim_attempt row now uuid) = now"
  by (simp add: claim_attempt_def build_attempt_meta_def Let_def split: option.split)

lemma claim_granted:
  assumes "replay_claim env now uuid w = (Inr (a, call), w')"
  obtains row where "rw_row w = Some row" "sr_status row \<noteq> R_Discarded" "sr_status row \<noteq> R_Replayed"
    "sr_status row = R_Replaying \<longrightarrow> \<not> claim_is_fresh (sr_attempt row) now"
    "a = claim_attempt row now uuid" "rw_row w' = Some (commit_replay_claim row a now)" "rc_key call = at_key a"
  using assms unfolding replay_claim_def Let_def
  by (cases "rw_row w") (auto split: if_split_asm option.split_asm prod.split_asm)

lemma claim_refused: "replay_claim env now uuid w = (Inl e, w') \<Longrightarrow> rw_row w' = rw_row w"
  unfolding replay_claim_def Let_def persist_replay_log_def
  by (cases "rw_row w") (auto split: if_split_asm option.split_asm prod.split_asm)

lemma commit_simps [simp]:
  "sr_status (commit_replay_claim row a now) = R_Replaying" "sr_attempt (commit_replay_claim row a now) = Some a"
  by (simp_all add: commit_replay_claim_def)

lemma settle_row:
  "rw_row (snd (replay_settle now a res w)) =
     (case rw_row w of
        None \<Rightarrow> None
      | Some row \<Rightarrow>
          if sr_status row \<in> {R_Discarded, R_Replayed} then Some row
          else Some (case res of
              Some err \<Rightarrow> row\<lparr>sr_status := R_Failed, sr_retry := sr_retry row + 1, sr_updated := now, sr_last := Some now,
                 rp_error_type := Some (ex_type err), rp_error_message := Some (take 2000 (ex_message err)),
                 sr_attempt := Some (a\<lparr>at_uncertain := True\<rparr>)\<rparr>
            | None \<Rightarrow> row\<lparr>sr_status := R_Replayed, sr_retry := sr_retry row + 1, sr_updated := now, sr_last := Some now,
                 rp_error_type := None, rp_error_message := None, sr_attempt := Some a\<rparr>))"
  by (simp add: replay_settle_def persist_replay_log_def Let_def split: option.split)

lemma discard_row:
  "rw_row (snd (discard_replay_event now w)) =
     map_option (\<lambda>row. if sr_status row \<in> {R_Discarded, R_Replayed} then row
                       else row\<lparr>sr_status := R_Discarded, sr_updated := now\<rparr>) (rw_row w)"
  by (simp add: discard_replay_event_def persist_replay_log_def replay_terminal_statuses_def Let_def split: option.split)

abbreviation row_of :: "replay_sys \<Rightarrow> stored_replay option" where
  "row_of s \<equiv> rw_row (rz_world s)"

section \<open>A replayed event was sent\<close>

definition sent_inv :: "replay_sys \<Rightarrow> bool" where
  "sent_inv s \<longleftrightarrow>
     (\<forall>p a. rz_jobs s p = Some (a, Some None) \<longrightarrow> (a, None) \<in> set (rz_sent s)) \<and>
     (\<forall>row. row_of s = Some row \<longrightarrow> sr_status row = R_Replayed \<longrightarrow>
        (\<exists>a. sr_attempt row = Some a \<and> (a, None) \<in> set (rz_sent s)))"

lemma sent_inv_step: "replay_step timely env s s' \<Longrightarrow> sent_inv s \<Longrightarrow> sent_inv s'"
proof (induction rule: replay_step.induct)
  case (step_claim s p uuid a call w)
  then show ?case by (elim claim_granted) (auto simp: sent_inv_def)
next
  case (step_refused s uuid e w)
  then show ?case by (simp add: sent_inv_def claim_refused)
next
  case (step_settle s p a res)
  then show ?case
    by (cases res; cases "row_of s") (auto simp: sent_inv_def settle_row)
next
  case (step_discard s)
  then show ?case by (cases "row_of s") (auto simp: sent_inv_def discard_row)
qed (auto simp: sent_inv_def)

lemma sent_inv_reach: "replay_reach timely env s0 s \<Longrightarrow> idle_sys s0 \<Longrightarrow> sent_inv s"
proof (induction rule: replay_reach.induct)
  case reach_start
  then show ?case by (auto simp: sent_inv_def idle_sys_def)
next
  case (reach_step s s')
  then show ?case by (blast intro: sent_inv_step)
qed

text \<open>C24: An event counts as replayed only when the adapter accepted it under the attempt the row
  shows, whatever the interleaving of workers, crashes and discards.\<close>

theorem replayed_was_sent:
  assumes "replay_reach timely env s0 s" "idle_sys s0"
    and "rw_row (rz_world s) = Some row" "sr_status row = R_Replayed"
  shows "\<exists>a. sr_attempt row = Some a \<and> (a, None) \<in> set (rz_sent s)"
  using sent_inv_reach[OF assms(1,2)] assms(3,4) by (simp add: sent_inv_def)

section \<open>One replay at a time\<close>

definition exclusive :: "replay_sys \<Rightarrow> bool" where
  "exclusive s \<longleftrightarrow>
     (\<forall>p a r. rz_jobs s p = Some (a, r) \<longrightarrow>
        rz_now s - claim_stale_after \<le> at_claimed a \<and>
        (\<exists>row. row_of s = Some row \<and> (sr_status row = R_Discarded \<or> (sr_status row = R_Replaying \<and> sr_attempt row = Some a)))) \<and>
     (\<forall>p q. rz_jobs s p \<noteq> None \<longrightarrow> rz_jobs s q \<noteq> None \<longrightarrow> p = q)"

lemma exclusive_claim:
  assumes "exclusive s" "replay_claim env (rz_now s) uuid (rz_world s) = (Inr (a, call), w)"
  shows "rz_jobs s = (\<lambda>_. None)"
proof (rule ccontr)
  assume "rz_jobs s \<noteq> (\<lambda>_. None)"
  then obtain p b r where job: "rz_jobs s p = Some (b, r)" by (metis not_None_eq surj_pair ext)
  obtain row where row: "row_of s = Some row" "sr_status row \<noteq> R_Discarded"
    "sr_status row = R_Replaying \<longrightarrow> \<not> claim_is_fresh (sr_attempt row) (rz_now s)"
    using claim_granted[OF assms(2)] by metis
  have "sr_status row = R_Replaying" "sr_attempt row = Some b" "rz_now s - claim_stale_after \<le> at_claimed b"
    using assms(1) job row(1,2) unfolding exclusive_def by fastforce+
  with row(3) show False by (simp add: claim_is_fresh_def)
qed

lemma exclusive_step: "replay_step True env s s' \<Longrightarrow> exclusive s \<Longrightarrow> exclusive s'"
proof (induction rule: replay_step.induct)
  case (step_claim s p uuid a call w)
  note none = exclusive_claim[OF step_claim(3,2)]
  from step_claim(2) show ?case
    by (elim claim_granted) (auto simp: exclusive_def none claim_stale_after_def split: if_splits)
next
  case (step_refused s uuid e w)
  then show ?case by (simp add: exclusive_def claim_refused)
next
  case (step_settle s p a res)
  then have none: "(rz_jobs s)(p := None) = (\<lambda>_. None)"
    unfolding exclusive_def by (metis fun_upd_apply option.distinct(1) ext)
  show ?case by (simp add: exclusive_def none)
next
  case (step_discard s)
  then show ?case by (cases "row_of s") (fastforce simp: exclusive_def discard_row)+
next
  case (step_tick s t)
  then show ?case by (simp add: exclusive_def)
next
  case (step_send s p a res)
  then show ?case unfolding exclusive_def by (auto split: if_splits)
next
  case (step_crash s p)
  then show ?case by (auto simp: exclusive_def)
qed


section \<open>A settled event is never sent again\<close>

text \<open>Once a row is replayed or discarded and no worker is left on it, no later request changes
  the row or sends anything.\<close>

theorem terminal_never_resent:
  assumes "replay_reach timely env s0 s" "rz_jobs s0 = (\<lambda>_. None)"
    and "rw_row (rz_world s0) = Some row" "sr_status row \<in> set replay_terminal_statuses"
  shows "rw_row (rz_world s) = Some row \<and> rz_sent s = rz_sent s0"
proof -
  have "row_of s = Some row \<and> rz_sent s = rz_sent s0 \<and> rz_jobs s = (\<lambda>_. None)"
    using assms
  proof (induction rule: replay_reach.induct)
    case (reach_step s s')
    from reach_step(2) reach_step.IH[OF reach_step.prems] reach_step.prems(3) show ?case
    proof (induction rule: replay_step.induct)
      case (step_claim s p uuid a call w)
      then show ?case by (elim claim_granted) (auto simp: replay_terminal_statuses_def)
    next
      case (step_refused s uuid e w)
      then show ?case by (simp add: claim_refused)
    next
      case (step_discard s)
      then show ?case by (auto simp: discard_row replay_terminal_statuses_def)
    qed auto
  qed simp
  then show ?thesis by blast
qed

section \<open>Samples\<close>

definition sample_replay_destination :: destination where
  "sample_replay_destination =
     \<lparr>d_id = Some 4, d_enabled = True, d_type = ''WEBHOOK'', d_name = ''sink'', d_config = [], d_rate_limit = None\<rparr>"

definition sample_replay_env :: replay_env where
  "sample_replay_env =
     \<lparr>ry_destination = (\<lambda>i. if i = 4 then Some sample_replay_destination else None), ry_route = (\<lambda>_. None),
      ry_resolve = (\<lambda>t c. Some c)\<rparr>"

definition sample_replay_row :: stored_replay where
  "sample_replay_row =
     \<lparr>rp_stream = 1, rp_destination = 4, rp_kind = Base_Route, rp_events = [JObj [(''id'', JInt 1)]],
      rp_type = ''WEBHOOK'', rp_formatter = None, rp_route = None, rp_dynamic = None, rp_failover = None,
      rp_error_type = Some ''TimeoutError'', rp_error_message = None, sr_id = 9, sr_prefix = None,
      sr_status = R_Pending, sr_retry = 0, sr_attempt = None, sr_updated = 0, sr_last = None\<rparr>"

definition sample_replay_sys :: replay_sys where
  "sample_replay_sys =
     \<lparr>rz_world = \<lparr>rw_row = Some sample_replay_row, rw_windows = [], rw_logs = []\<rparr>, rz_now = 0,
      rz_jobs = (\<lambda>_. None), rz_sent = []\<rparr>"

abbreviation sample_attempt :: "string \<Rightarrow> rat \<Rightarrow> bool \<Rightarrow> attempt" where
  "sample_attempt u t recovery \<equiv> build_attempt_meta 9 u t recovery"

lemma sample_idle: "idle_sys sample_replay_sys"
  by (simp add: idle_sys_def sample_replay_sys_def sample_replay_row_def)

text \<open>Any row of the sample shape that is not settled and carries no fresh claim is claimed.\<close>

lemma sample_claim:
  assumes "rw_row w = Some row" "sr_status row \<notin> {R_Discarded, R_Replayed}"
    and "sr_status row = R_Replaying \<longrightarrow> \<not> claim_is_fresh (sr_attempt row) now"
    and "rp_events row = rp_events sample_replay_row" "rp_destination row = 4" "rp_route row = None"
  obtains call where "replay_claim sample_replay_env now uuid w =
    (Inr (claim_attempt row now uuid, call), w\<lparr>rw_row := Some (commit_replay_claim row (claim_attempt row now uuid) now)\<rparr>)"
proof -
  have ev: "extract_stored_events row \<noteq> []"
    using assms(4) by (simp add: extract_stored_events_def copy_events_def sample_replay_row_def)
  have dest: "ry_destination sample_replay_env 4 = Some sample_replay_destination" "d_enabled sample_replay_destination"
      "d_rate_limit sample_replay_destination = None"
    by (simp_all add: sample_replay_env_def sample_replay_destination_def)
  have res: "ry_resolve sample_replay_env t c = Some c" for t c by (simp add: sample_replay_env_def)
  have "\<exists>call. replay_claim sample_replay_env now uuid w =
      (Inr (claim_attempt row now uuid, call), w\<lparr>rw_row := Some (commit_replay_claim row (claim_attempt row now uuid) now)\<rparr>)"
    using assms(1-3,5,6) ev dest res
    by (simp add: replay_claim_def Let_def effective_replay_rate_limit_def destination_allow_def)
  then show thesis using that by blast
qed

definition replayed_sys :: replay_sys where
  "replayed_sys =
     (let a = sample_attempt ''u1'' 0 False;
          w = \<lparr>rw_row = Some (commit_replay_claim sample_replay_row a 0), rw_windows = [], rw_logs = []\<rparr>
      in \<lparr>rz_world = snd (replay_settle 0 a None w), rz_now = 0, rz_jobs = (\<lambda>_. None), rz_sent = [(a, None)]\<rparr>)"

definition sending_sys :: replay_sys where
  "sending_sys =
     (let a = sample_attempt ''u1'' 0 False
      in \<lparr>rz_world = \<lparr>rw_row = Some (commit_replay_claim sample_replay_row a 0), rw_windows = [], rw_logs = []\<rparr>,
          rz_now = 0, rz_jobs = (\<lambda>_. None)(0 := Some (a, None)), rz_sent = []\<rparr>)"

lemma sending_reach: "replay_reach timely sample_replay_env sample_replay_sys sending_sys"
proof -
  obtain call where c: "replay_claim sample_replay_env 0 ''u1'' (rz_world sample_replay_sys) =
      (Inr (claim_attempt sample_replay_row 0 ''u1'', call),
       (rz_world sample_replay_sys)\<lparr>rw_row := Some (commit_replay_claim sample_replay_row (claim_attempt sample_replay_row 0 ''u1'') 0)\<rparr>)"
    by (rule sample_claim[of "rz_world sample_replay_sys" sample_replay_row 0])
       (simp_all add: sample_replay_sys_def sample_replay_row_def)
  have a: "claim_attempt sample_replay_row 0 ''u1'' = sample_attempt ''u1'' 0 False"
    by (simp add: claim_attempt_def sample_replay_row_def)
  have now: "rz_now sample_replay_sys = 0" "rz_jobs sample_replay_sys 0 = None"
    by (simp_all add: sample_replay_sys_def)
  have "replay_step timely sample_replay_env sample_replay_sys sending_sys"
    using step_claim[where env = sample_replay_env and timely = timely, OF now(2), unfolded now(1), OF c]
    by (simp add: a sending_sys_def sample_replay_sys_def Let_def)
  then show ?thesis by (rule reach_step[OF reach_start])
qed

lemma replayed_reach: "replay_reach timely sample_replay_env sample_replay_sys replayed_sys"
proof -
  let ?a = "sample_attempt ''u1'' 0 False"
  let ?s = "sending_sys\<lparr>rz_jobs := (rz_jobs sending_sys)(0 := Some (?a, Some None)), rz_sent := rz_sent sending_sys @ [(?a, None)]\<rparr>"
  have j: "rz_jobs sending_sys 0 = Some (?a, None)" by (simp add: sending_sys_def Let_def)
  have one: "replay_step timely sample_replay_env sending_sys ?s" by (rule step_send[OF j])
  have j2: "rz_jobs ?s 0 = Some (?a, Some None)" by simp
  have "replay_step timely sample_replay_env ?s replayed_sys"
    using step_settle[OF j2, of timely sample_replay_env]
    by (simp add: sending_sys_def replayed_sys_def Let_def fun_upd_idem)
  with one sending_reach show ?thesis by (blast intro: reach_step)
qed

theorem replayed_was_sent_witness:
  "\<exists>row. rw_row (rz_world replayed_sys) = Some row \<and> (\<exists>a. sr_attempt row = Some a \<and> (a, None) \<in> set (rz_sent replayed_sys))"
proof -
  obtain row where row: "rw_row (rz_world replayed_sys) = Some row" "sr_status row = R_Replayed"
    by (simp add: replayed_sys_def Let_def settle_row)
  show ?thesis
    using replayed_was_sent[OF replayed_reach[where timely = True] sample_idle row] row(1) by blast
qed


theorem terminal_never_resent_witness:
  "\<exists>row. rw_row (rz_world (replayed_sys\<lparr>rz_now := 500\<rparr>)) = Some row \<and> length (rz_sent (replayed_sys\<lparr>rz_now := 500\<rparr>)) = 1"
proof -
  obtain row where row: "rw_row (rz_world replayed_sys) = Some row" "sr_status row = R_Replayed"
    by (simp add: replayed_sys_def Let_def settle_row)
  have idle: "rz_jobs replayed_sys = (\<lambda>_. None)" by (simp add: replayed_sys_def Let_def)
  have "replay_step True sample_replay_env replayed_sys (replayed_sys\<lparr>rz_now := 500\<rparr>)"
    by (rule step_tick; simp add: replayed_sys_def Let_def)
  then have reach: "replay_reach True sample_replay_env replayed_sys (replayed_sys\<lparr>rz_now := 500\<rparr>)"
    by (rule reach_step[OF reach_start])
  have "sr_status row \<in> set replay_terminal_statuses" by (simp add: row(2) replay_terminal_statuses_def)
  from terminal_never_resent[OF reach idle row(1) this]
  have "rw_row (rz_world (replayed_sys\<lparr>rz_now := 500\<rparr>)) = Some row \<and> rz_sent (replayed_sys\<lparr>rz_now := 500\<rparr>) = rz_sent replayed_sys" .
  then show ?thesis by (simp add: replayed_sys_def Let_def)
qed

section \<open>The idempotency key\<close>

text \<open>The recovery of a stale claim sends under the key of the claim it replaces.\<close>

lemma recovery_keeps_key:
  assumes "replay_claim env now uuid w = (Inr (a, call), w')" "rw_row w = Some row"
    and "sr_status row = R_Replaying" "sr_attempt row = Some old" "at_key old \<noteq> []"
  shows "rc_key call = at_key old"
  using claim_granted[OF assms(1)] assms(2-) by (auto simp: claim_attempt_def Let_def)

text \<open>A replay of a failed row gets a new one, although the row says that an earlier delivery is
  uncertain.\<close>

lemma failed_claim_key:
  assumes "replay_claim env now uuid w = (Inr (a, call), w')" "rw_row w = Some row" "sr_status row = R_Failed"
  shows "rc_key call = ''replay-'' @ int_str (sr_id row) @ ''-'' @ uuid"
proof -
  have "a = claim_attempt row now uuid" "rc_key call = at_key a"
    using claim_granted[OF assms(1)] assms(2) by (metis option.inject)+
  then show ?thesis
    using assms(3) by (simp add: claim_attempt_def build_attempt_meta_def Let_def split: option.split)
qed

definition sample_timeout :: exn where
  "sample_timeout = \<lparr>ex_type = ''TimeoutError'', ex_message = ''timed out'', ex_ai_policy = False, ex_http_status = None,
      ex_cause_status = None, ex_own_status = None, ex_dest_send = False, ex_os = True, ex_httpx_timeout = False\<rparr>"

definition stale_sys :: replay_sys where
  "stale_sys =
     (let a = sample_attempt ''u1'' 0 False
      in \<lparr>rz_world = \<lparr>rw_row = Some (commit_replay_claim sample_replay_row a 0), rw_windows = [], rw_logs = []\<rparr>,
          rz_now = 200, rz_jobs = (\<lambda>_. None), rz_sent = [(a, None)]\<rparr>)"

lemma stale_reach: "replay_reach True sample_replay_env sample_replay_sys stale_sys"
proof -
  let ?a = "sample_attempt ''u1'' 0 False"
  let ?s1 = "sending_sys\<lparr>rz_jobs := (rz_jobs sending_sys)(0 := Some (?a, Some None)), rz_sent := rz_sent sending_sys @ [(?a, None)]\<rparr>"
  let ?s2 = "?s1\<lparr>rz_jobs := (rz_jobs ?s1)(0 := None)\<rparr>"
  have j: "rz_jobs sending_sys 0 = Some (?a, None)" by (simp add: sending_sys_def Let_def)
  have s1: "replay_step True sample_replay_env sending_sys ?s1" by (rule step_send[OF j])
  have s2: "replay_step True sample_replay_env ?s1 ?s2" by (rule step_crash)
  have "replay_step True sample_replay_env ?s2 (?s2\<lparr>rz_now := 200\<rparr>)"
    by (rule step_tick) (auto simp: sending_sys_def Let_def)
  moreover have "?s2\<lparr>rz_now := 200\<rparr> = stale_sys"
    by (simp add: sending_sys_def stale_sys_def Let_def fun_upd_idem)
  ultimately have s3: "replay_step True sample_replay_env ?s2 stale_sys" by simp
  show ?thesis by (rule reach_step[OF reach_step[OF reach_step[OF sending_reach s1] s2] s3])
qed

text \<open>One worker's whole replay, from a state without other workers.\<close>

lemma whole_replay:
  assumes "rz_jobs s = (\<lambda>_. None)" "replay_claim env (rz_now s) uuid (rz_world s) = (Inr (a, call), w)"
    and "replay_reach True env s0 s"
  shows "replay_reach True env s0
    (s\<lparr>rz_world := snd (replay_settle (rz_now s) a res w), rz_sent := rz_sent s @ [(a, res)]\<rparr>)"
proof -
  let ?s1 = "s\<lparr>rz_world := w, rz_jobs := (rz_jobs s)(0 := Some (a, None))\<rparr>"
  let ?s2 = "?s1\<lparr>rz_jobs := (rz_jobs ?s1)(0 := Some (a, Some res)), rz_sent := rz_sent ?s1 @ [(a, res)]\<rparr>"
  let ?s3 = "?s2\<lparr>rz_world := snd (replay_settle (rz_now ?s2) a res (rz_world ?s2)), rz_jobs := (rz_jobs ?s2)(0 := None)\<rparr>"
  have s1: "replay_step True env s ?s1" by (rule step_claim[OF _ assms(2)]) (simp add: assms(1))
  have s2: "replay_step True env ?s1 ?s2" by (rule step_send) simp
  have s3: "replay_step True env ?s2 ?s3" by (rule step_settle) simp
  have "?s3 = s\<lparr>rz_world := snd (replay_settle (rz_now s) a res w), rz_sent := rz_sent s @ [(a, res)]\<rparr>"
    using assms(1) by (simp add: fun_upd_idem)
  with reach_step[OF reach_step[OF reach_step[OF assms(3) s1] s2] s3] show ?thesis by simp
qed

text \<open>A destination can accept one event twice under two idempotency keys, with every worker
  timely: the first worker dies after the adapter accepted, the recovery under the same key fails,
  and the next replay of the failed row sends under a new key.\<close>

theorem accepted_under_two_keys:
  "\<exists>s a b. replay_reach True sample_replay_env sample_replay_sys s \<and>
     (a, None) \<in> set (rz_sent s) \<and> (b, None) \<in> set (rz_sent s) \<and> at_key a \<noteq> at_key b"
proof -
  have shape: "rp_events (commit_replay_claim r a t) = rp_events r" "rp_destination (commit_replay_claim r a t) = rp_destination r"
    "rp_route (commit_replay_claim r a t) = rp_route r" "sr_id (commit_replay_claim r a t) = sr_id r" for r a t
    by (simp_all add: commit_replay_claim_def)
  have base: "rp_destination sample_replay_row = 4" "rp_route sample_replay_row = None" "sr_id sample_replay_row = 9"
    by (simp_all add: sample_replay_row_def)
  define a1 where "a1 = sample_attempt ''u1'' 0 False"
  define row1 where "row1 = commit_replay_claim sample_replay_row a1 0"
  have w1: "rw_row (rz_world stale_sys) = Some row1" "rz_jobs stale_sys = (\<lambda>_. None)" "rz_now stale_sys = 200"
      "rz_sent stale_sys = [(a1, None)]"
    by (simp_all add: stale_sys_def Let_def row1_def a1_def)
  have row1: "sr_status row1 = R_Replaying" "sr_attempt row1 = Some a1" "rp_events row1 = rp_events sample_replay_row"
      "rp_destination row1 = 4" "rp_route row1 = None" "sr_id row1 = 9"
    by (simp_all add: row1_def shape base)
  have stale: "\<not> claim_is_fresh (Some a1) 200"
    by (simp add: claim_is_fresh_def claim_stale_after_def a1_def build_attempt_meta_def)
  define a2 where "a2 = claim_attempt row1 200 ''u2''"
  define world2 where "world2 = (rz_world stale_sys)\<lparr>rw_row := Some (commit_replay_claim row1 a2 200)\<rparr>"
  obtain call1 where c1: "replay_claim sample_replay_env 200 ''u2'' (rz_world stale_sys) = (Inr (a2, call1), world2)"
    unfolding a2_def world2_def by (rule sample_claim[OF w1(1), of 200]) (use row1 stale in simp_all)
  define s2 where "s2 = stale_sys\<lparr>rz_world := snd (replay_settle 200 a2 (Some sample_timeout) world2),
      rz_sent := rz_sent stale_sys @ [(a2, Some sample_timeout)]\<rparr>"
  have r2: "replay_reach True sample_replay_env sample_replay_sys s2"
    using whole_replay[OF w1(2) c1[folded w1(3)] stale_reach, of "Some sample_timeout"] by (simp add: w1(3) s2_def)
  obtain row2 where row2: "rw_row (rz_world s2) = Some row2" "sr_status row2 = R_Failed"
      "rp_events row2 = rp_events sample_replay_row" "rp_destination row2 = 4" "rp_route row2 = None" "sr_id row2 = 9"
    by (simp add: s2_def world2_def settle_row shape row1)
  have w2: "rz_jobs s2 = (\<lambda>_. None)" "rz_now s2 = 200" "(a1, None) \<in> set (rz_sent s2)"
    by (simp_all add: w1 s2_def)
  define a3 where "a3 = claim_attempt row2 200 ''u3''"
  obtain call2 where c2: "replay_claim sample_replay_env 200 ''u3'' (rz_world s2) =
      (Inr (a3, call2), (rz_world s2)\<lparr>rw_row := Some (commit_replay_claim row2 a3 200)\<rparr>)"
    unfolding a3_def by (rule sample_claim[OF row2(1)]) (simp_all add: row2)
  note r3 = whole_replay[OF w2(1) c2[folded w2(2)] r2, of None]
  have keys: "at_key a1 \<noteq> at_key a3"
    using row2(2,6) by (auto simp: a1_def a3_def claim_attempt_def build_attempt_meta_def Let_def split: option.split)
  show ?thesis by (intro exI conjI, rule r3) (use w2(3) keys in simp_all)
qed

end
