(* ===== verification/Quarantine.thy ===== *)
theory Quarantine
  imports Checkpointing Send_Path Route_Policy
begin

text \<open>
  \<open>app/quarantine/service.py\<close> and \<open>release_delivery.py\<close>: the rows of quarantined batches, their
  discard and their release, which sends the stored events to the routes and then moves the
  checkpoint of the stream. The stream context (\<open>load_stream_context\<close>, which raises \<open>ValueError\<close>), the
  adapters and the success of the checkpoint write are parameters; the row is locked for the
  whole release, so that requests on one row come one after the other. A request that raises is
  rolled back, except for the adapter calls it made. Latencies and the list queries are left out.
\<close>

section \<open>Rows\<close>

datatype quarantine_status = Q_Quarantined | Q_Released | Q_Discarded

definition quarantine_terminal_statuses :: "quarantine_status list" where
  "quarantine_terminal_statuses = [Q_Released, Q_Discarded]"

record held_event =
  hv_stream :: int
  hv_route :: "int option"
  hv_reason :: string
  hv_source :: string
  hv_status :: quarantine_status
  hv_payload :: "json list"
  hv_updated :: int
  hv_released_at :: "int option"
  hv_released_by :: "string option"

text \<open>The row the policy stage of a route inserts.\<close>

definition held_of_row :: "int \<Rightarrow> quarantine_row \<Rightarrow> held_event" where
  "held_of_row now q =
     \<lparr>hv_stream = qr_stream q, hv_route = Some (qr_route q), hv_reason = qr_reason q, hv_source = ''policy'',
      hv_status = Q_Quarantined, hv_payload = qr_payload q, hv_updated = now, hv_released_at = None,
      hv_released_by = None\<rparr>"

record quarantine_log =
  ql_stage :: string
  ql_event :: int
  ql_message :: string
  ql_status :: string
  ql_error :: "string option"

record quarantine_world =
  qw_held :: "(int, held_event) dict"
  qw_checkpoints :: checkpoint_table
  qw_sends :: "(send_call \<times> exn option) list"
  qw_logs :: "quarantine_log list"

record release_context =
  rx_name :: string
  rx_routes :: "route list"

record release_env =
  re_context :: "int \<Rightarrow> string + release_context"
  re_send :: "nat \<Rightarrow> send_call \<Rightarrow> exn option"
  re_checkpoint_ok :: bool

datatype quarantine_error =
    Quarantine_Not_Found
  | Quarantine_State string
  | Context_Error string

definition persist_quarantine_log ::
    "string \<Rightarrow> int \<Rightarrow> string \<Rightarrow> string \<Rightarrow> string option \<Rightarrow> quarantine_world \<Rightarrow> quarantine_world" where
  "persist_quarantine_log stage eid msg status code w =
     w\<lparr>qw_logs := qw_logs w @ [\<lparr>ql_stage = stage, ql_event = eid, ql_message = (if msg = [] then stage else msg),
                                ql_status = status, ql_error = code\<rparr>]\<rparr>"

definition stored_events :: "held_event \<Rightarrow> json list" where
  "stored_events row = filter is_obj (hv_payload row)"

section \<open>Delivery to the routes\<close>

definition release_call :: "string \<Rightarrow> int \<Rightarrow> json list \<Rightarrow> route \<Rightarrow> send_call" where
  "release_call name sid events r =
     (let d = r_destination r; dtype = py_upper (d_type d)
      in \<lparr>sc_type = dtype, sc_events = events, sc_config = d_config d, sc_formatter = r_formatter r,
          sc_prefix = \<lparr>px_stream = name, px_stream_id = sid, px_dest_name = d_name d, px_dest_type = dtype,
                       px_route = r_id r\<rparr>\<rparr>)"

text \<open>The loop over the routes: something to do, one success, no required failure, the last error.\<close>

record release_progress =
  rl_saw :: bool
  rl_any :: bool
  rl_required :: bool
  rl_error :: "string option"

definition release_start :: release_progress where
  "release_start = \<lparr>rl_saw = False, rl_any = False, rl_required = True, rl_error = None\<rparr>"

definition actionable :: "int option \<Rightarrow> route \<Rightarrow> bool" where
  "actionable only r \<longleftrightarrow> (case only of None \<Rightarrow> True | Some i \<Rightarrow> r_id r = i) \<and> r_enabled r \<and> d_enabled (r_destination r)"

definition release_route ::
    "release_env \<Rightarrow> string \<Rightarrow> int \<Rightarrow> json list \<Rightarrow> int option \<Rightarrow> route \<Rightarrow>
     release_progress \<times> (send_call \<times> exn option) list \<Rightarrow> release_progress \<times> (send_call \<times> exn option) list" where
  "release_route env name sid events only r acc =
     (case acc of (p, sends) \<Rightarrow>
        if \<not> actionable only r then (p, sends)
        else
          (let call = release_call name sid events r;
               res = re_send env (length sends) call;
               p1 = p\<lparr>rl_saw := True\<rparr>
           in (case res of
                 None \<Rightarrow> p1\<lparr>rl_any := True\<rparr>
               | Some e \<Rightarrow>
                   p1\<lparr>rl_error := Some (if ex_message e = [] then ex_type e else ex_message e),
                      rl_required := (rl_required p \<and> py_upper (r_failure_policy r) = ''LOG_AND_CONTINUE'')\<rparr>,
               sends @ [(call, res)])))"

definition deliver_protected_events_to_routes ::
    "release_env \<Rightarrow> int \<Rightarrow> json list \<Rightarrow> int option \<Rightarrow> (send_call \<times> exn option) list \<Rightarrow>
     (string + bool \<times> string option) \<times> (send_call \<times> exn option) list" where
  "deliver_protected_events_to_routes env sid events only sends =
     (case re_context env sid of
        Inl e \<Rightarrow> (Inl e, sends)
      | Inr ctx \<Rightarrow>
          if rx_routes ctx = [] then (Inr (False, Some ''no routes configured''), sends)
          else if events = [] then (Inr (False, Some ''empty protected payload''), sends)
          else
            (let (p, sends') = fold (release_route env (rx_name ctx) sid events only) (rx_routes ctx) (release_start, sends)
             in (Inr (if \<not> rl_saw p then (False, Some ''no actionable routes'')
                      else if \<not> rl_any p then
                        (False, Some (case rl_error p of Some e \<Rightarrow> if e = [] then ''all destination sends failed'' else e
                                      | None \<Rightarrow> ''all destination sends failed''))
                      else (rl_required p, None)), sends')))"

section \<open>Requests\<close>

definition discard_quarantine_event ::
    "int \<Rightarrow> int \<Rightarrow> quarantine_world \<Rightarrow> (quarantine_error + held_event) \<times> quarantine_world" where
  "discard_quarantine_event now eid w =
     (case dict_get (qw_held w) eid of
        None \<Rightarrow> (Inl Quarantine_Not_Found, w)
      | Some row \<Rightarrow>
          if hv_status row \<in> set quarantine_terminal_statuses then (Inl (Quarantine_State ''QUARANTINE_INVALID_STATE''), w)
          else
            (let row' = row\<lparr>hv_status := Q_Discarded, hv_updated := now\<rparr>
             in (Inr row', persist_quarantine_log ''quarantine_event_discarded'' eid ''quarantine event discarded'' ''OK'' None
                             (w\<lparr>qw_held := dict_set eid row' (qw_held w)\<rparr>))))"

text \<open>The checkpoint after a release: the value the runner builds before it adds the cursor, of the
  last stored event. The type is always \<open>EVENT\<close>: the stream has no attribute \<open>checkpoint_type\<close>.\<close>

definition checkpoint_value_from_last_event :: "event \<Rightarrow> event" where
  "checkpoint_value_from_last_event ev = base_checkpoint_value ev"

definition update_checkpoint_after_release :: "int \<Rightarrow> json list \<Rightarrow> checkpoint_table \<Rightarrow> event \<times> checkpoint_table" where
  "update_checkpoint_after_release sid events db =
     update_checkpoint_after_success db sid ''EVENT'' (checkpoint_value_from_last_event (obj_of (last events)))"

definition release_failed :: "int \<Rightarrow> int \<Rightarrow> held_event \<Rightarrow> string \<Rightarrow> string \<Rightarrow> quarantine_world \<Rightarrow> held_event \<times> quarantine_world" where
  "release_failed now eid row msg code w =
     (let row' = row\<lparr>hv_updated := now\<rparr>
      in (row', (persist_quarantine_log ''quarantine_event_release_failed'' eid msg ''FAILED'' (Some code) w)
                  \<lparr>qw_held := dict_set eid row' (qw_held w)\<rparr>))"

definition execute_quarantine_release ::
    "release_env \<Rightarrow> int \<Rightarrow> string option \<Rightarrow> bool \<Rightarrow> int \<Rightarrow> quarantine_world \<Rightarrow>
     (quarantine_error + string \<times> held_event) \<times> quarantine_world" where
  "execute_quarantine_release env now released_by update_checkpoint eid w =
     (case dict_get (qw_held w) eid of
        None \<Rightarrow> (Inl Quarantine_Not_Found, w)
      | Some row \<Rightarrow>
          if hv_status row = Q_Discarded then (Inl (Quarantine_State ''QUARANTINE_DISCARDED''), w)
          else if hv_status row = Q_Released then (Inl (Quarantine_State ''QUARANTINE_ALREADY_RELEASED''), w)
          else
            (let events = stored_events row
             in if events = [] then (Inl (Quarantine_State ''QUARANTINE_PAYLOAD_EMPTY''), w)
                else
                  (case deliver_protected_events_to_routes env (hv_stream row) events (hv_route row) (qw_sends w) of
                     (Inl e, sends) \<Rightarrow> (Inl (Context_Error e), w\<lparr>qw_sends := sends\<rparr>)
                   | (Inr (False, err), sends) \<Rightarrow>
                       (let msg = (case err of Some m \<Rightarrow> if m = [] then ''quarantine release delivery failed'' else m
                                   | None \<Rightarrow> ''quarantine release delivery failed'');
                            (row', w') = release_failed now eid row msg ''QUARANTINE_RELEASE_FAILED'' (w\<lparr>qw_sends := sends\<rparr>)
                        in (Inr (''failed'', row'), w'))
                   | (Inr (True, _), sends) \<Rightarrow>
                       if update_checkpoint \<and> \<not> re_checkpoint_ok env then
                         (let (row', w') = release_failed now eid row ''quarantine release checkpoint update failed''
                                             ''QUARANTINE_CHECKPOINT_FAILED'' (w\<lparr>qw_sends := sends\<rparr>)
                          in (Inr (''failed'', row'), w'))
                       else
                         (let row' = row\<lparr>hv_status := Q_Released, hv_updated := now, hv_released_at := Some now,
                                         hv_released_by := Some (take 128 (case released_by of Some s \<Rightarrow> if s = [] then ''system'' else s
                                                                           | None \<Rightarrow> ''system''))\<rparr>;
                              cps = (if update_checkpoint
                                     then snd (update_checkpoint_after_release (hv_stream row) events (qw_checkpoints w))
                                     else qw_checkpoints w)
                          in (Inr (''released'', row'),
                              persist_quarantine_log ''quarantine_event_released'' eid ''quarantine event released'' ''OK'' None
                                (w\<lparr>qw_sends := sends, qw_checkpoints := cps,
                                   qw_held := dict_set eid row' (qw_held w)\<rparr>))))))"

text \<open>Deleting a route keeps the rows it quarantined and clears their route (\<open>ON DELETE SET NULL\<close>).\<close>

definition delete_route :: "int \<Rightarrow> quarantine_world \<Rightarrow> quarantine_world" where
  "delete_route rid w =
     w\<lparr>qw_held := map (\<lambda>(i, row). (i, if hv_route row = Some rid then row\<lparr>hv_route := None\<rparr> else row)) (qw_held w)\<rparr>"

datatype quarantine_request =
    Release release_env int "string option" bool int
  | Discard int int
  | Drop_Route int

fun serve_quarantine :: "quarantine_request \<Rightarrow> quarantine_world \<Rightarrow> quarantine_world" where
  "serve_quarantine (Release env now by cp eid) w = snd (execute_quarantine_release env now by cp eid w)"
| "serve_quarantine (Discard now eid) w = snd (discard_quarantine_event now eid w)"
| "serve_quarantine (Drop_Route rid) w = delete_route rid w"

section \<open>The loop over the routes\<close>

abbreviation targets_of :: "int option \<Rightarrow> route list \<Rightarrow> route list" where
  "targets_of only rs \<equiv> filter (actionable only) rs"

text \<open>A failure a route may absorb.\<close>

definition absorbed :: "route \<Rightarrow> send_call \<times> exn option \<Rightarrow> bool" where
  "absorbed r x \<longleftrightarrow> snd x = None \<or> py_upper (r_failure_policy r) = ''LOG_AND_CONTINUE''"

lemma release_loop:
  "fold (release_route env name sid events only) rs (p, sends) = (p', sends') \<Longrightarrow>
   \<exists>new. sends' = sends @ new \<and> map fst new = map (release_call name sid events) (targets_of only rs) \<and>
     (rl_saw p' \<longleftrightarrow> rl_saw p \<or> targets_of only rs \<noteq> []) \<and>
     (rl_any p' \<longleftrightarrow> rl_any p \<or> list_ex (\<lambda>x. snd x = None) new) \<and>
     (rl_required p' \<longleftrightarrow> rl_required p \<and> list_all2 absorbed (targets_of only rs) new)"
proof (induction rs arbitrary: p sends)
  case (Cons r rs)
  show ?case
  proof (cases "actionable only r")
    case False
    then show ?thesis using Cons.IH[of p sends] Cons.prems by (simp add: release_route_def)
  next
    case True
    let ?call = "release_call name sid events r"
    let ?res = "re_send env (length sends) ?call"
    obtain p1 where step: "release_route env name sid events only r (p, sends) = (p1, sends @ [(?call, ?res)])"
        "rl_saw p1" "rl_any p1 \<longleftrightarrow> rl_any p \<or> ?res = None"
        "rl_required p1 \<longleftrightarrow> rl_required p \<and> absorbed r (?call, ?res)"
      using True by (cases ?res) (auto simp: release_route_def Let_def absorbed_def)
    then have "fold (release_route env name sid events only) rs (p1, sends @ [(?call, ?res)]) = (p', sends')"
      using Cons.prems by simp
    from Cons.IH[OF this] obtain new where new: "sends' = (sends @ [(?call, ?res)]) @ new"
        "map fst new = map (release_call name sid events) (targets_of only rs)"
        "rl_any p' \<longleftrightarrow> rl_any p1 \<or> list_ex (\<lambda>x. snd x = None) new" "rl_saw p'"
        "rl_required p' \<longleftrightarrow> rl_required p1 \<and> list_all2 absorbed (targets_of only rs) new"
      using step(2) by blast
    show ?thesis using new step True by (intro exI[of _ "(?call, ?res) # new"]) auto
  qed
qed simp

lemma deliver_outcome:
  assumes "deliver_protected_events_to_routes env sid events only sends = (Inr (ok, err), sends')" "events \<noteq> []"
    and "re_context env sid = Inr ctx"
  shows "\<exists>new. sends' = sends @ new \<and>
    map fst new = map (release_call (rx_name ctx) sid events) (targets_of only (rx_routes ctx)) \<and>
    (ok \<longleftrightarrow> list_ex (\<lambda>x. snd x = None) new \<and> list_all2 absorbed (targets_of only (rx_routes ctx)) new)"
proof (cases "rx_routes ctx = []")
  case True
  then show ?thesis using assms by (auto simp: deliver_protected_events_to_routes_def)
next
  case False
  obtain p sends1 where f: "fold (release_route env (rx_name ctx) sid events only) (rx_routes ctx) (release_start, sends) = (p, sends1)"
    by (metis surj_pair)
  from release_loop[OF f] obtain new where new: "sends1 = sends @ new"
      "map fst new = map (release_call (rx_name ctx) sid events) (targets_of only (rx_routes ctx))"
      "rl_saw p \<longleftrightarrow> targets_of only (rx_routes ctx) \<noteq> []" "rl_any p \<longleftrightarrow> list_ex (\<lambda>x. snd x = None) new"
      "rl_required p \<longleftrightarrow> list_all2 absorbed (targets_of only (rx_routes ctx)) new"
    by (auto simp: release_start_def)
  have "targets_of only (rx_routes ctx) = [] \<Longrightarrow> new = []" using new(2) by simp
  then show ?thesis
    using assms False f new by (auto simp: deliver_protected_events_to_routes_def split: if_splits)
qed

section \<open>Releases\<close>

definition held_in :: "quarantine_world \<Rightarrow> int \<Rightarrow> held_event \<Rightarrow> bool" where
  "held_in w eid row \<longleftrightarrow> dict_get (qw_held w) eid = Some row \<and> hv_status row = Q_Quarantined \<and> stored_events row \<noteq> []"

lemma release_result:
  assumes "held_in w eid row" "re_context env (hv_stream row) = Inr ctx"
    and "execute_quarantine_release env now by_user cp eid w = (res, w')"
  shows "\<exists>new. qw_sends w' = qw_sends w @ new \<and>
    map fst new = map (release_call (rx_name ctx) (hv_stream row) (stored_events row)) (targets_of (hv_route row) (rx_routes ctx)) \<and>
    (let delivered = (list_ex (\<lambda>x. snd x = None) new \<and> list_all2 absorbed (targets_of (hv_route row) (rx_routes ctx)) new)
     in if delivered \<and> (cp \<longrightarrow> re_checkpoint_ok env)
        then (\<exists>row'. dict_get (qw_held w') eid = Some row' \<and> hv_status row' = Q_Released \<and> hv_payload row' = hv_payload row) \<and>
             qw_checkpoints w' = (if cp then upsert_checkpoint (hv_stream row) ''EVENT''
                 (base_checkpoint_value (obj_of (last (stored_events row)))) (qw_checkpoints w) else qw_checkpoints w)
        else dict_get (qw_held w') eid = Some (row\<lparr>hv_updated := now\<rparr>) \<and> qw_checkpoints w' = qw_checkpoints w)"
proof -
  have row: "dict_get (qw_held w) eid = Some row" "hv_status row = Q_Quarantined" "stored_events row \<noteq> []"
    using assms(1) by (auto simp: held_in_def)
  obtain d sends where dl: "deliver_protected_events_to_routes env (hv_stream row) (stored_events row) (hv_route row) (qw_sends w) = (d, sends)"
    by (metis surj_pair)
  obtain ok err where d: "d = Inr (ok, err)"
    using dl assms(2) row(3) by (auto simp: deliver_protected_events_to_routes_def split: if_splits prod.splits)
  from deliver_outcome[OF dl[unfolded d] row(3) assms(2)] obtain new where new: "sends = qw_sends w @ new"
      "map fst new = map (release_call (rx_name ctx) (hv_stream row) (stored_events row)) (targets_of (hv_route row) (rx_routes ctx))"
      "ok \<longleftrightarrow> list_ex (\<lambda>x. snd x = None) new \<and> list_all2 absorbed (targets_of (hv_route row) (rx_routes ctx)) new"
    by blast
  have "qw_sends w' = sends \<and> (if ok \<and> (cp \<longrightarrow> re_checkpoint_ok env)
        then (\<exists>row'. dict_get (qw_held w') eid = Some row' \<and> hv_status row' = Q_Released \<and> hv_payload row' = hv_payload row) \<and>
             qw_checkpoints w' = (if cp then upsert_checkpoint (hv_stream row) ''EVENT''
                 (base_checkpoint_value (obj_of (last (stored_events row)))) (qw_checkpoints w) else qw_checkpoints w)
        else dict_get (qw_held w') eid = Some (row\<lparr>hv_updated := now\<rparr>) \<and> qw_checkpoints w' = qw_checkpoints w)"
    using assms(3) row dl d
    by (cases ok) (auto simp: execute_quarantine_release_def Let_def release_failed_def persist_quarantine_log_def
        update_checkpoint_after_release_def update_checkpoint_after_success_def checkpoint_value_from_last_event_def
        dict_simps split: if_splits prod.splits)
  then show ?thesis using new by (intro exI[of _ new]) (auto simp: Let_def)
qed

text \<open>C28: A release reports what it did: it sends exactly the stored events, once, to every enabled
  route in the row's scope; it marks the row released if and only if a destination accepted them,
  only failures that \<open>LOG_AND_CONTINUE\<close> absorbs came back and the checkpoint was written; and only
  then does the checkpoint of the stream move. Otherwise the row stays quarantined.\<close>

theorem release_outcome_exact:
  assumes "held_in w eid row" "re_context env (hv_stream row) = Inr ctx"
    and "execute_quarantine_release env now by_user True eid w = (res, w')"
  shows "\<exists>new. qw_sends w' = qw_sends w @ new \<and>
    map fst new = map (release_call (rx_name ctx) (hv_stream row) (stored_events row)) (targets_of (hv_route row) (rx_routes ctx)) \<and>
    (if list_ex (\<lambda>x. snd x = None) new \<and> list_all2 absorbed (targets_of (hv_route row) (rx_routes ctx)) new \<and> re_checkpoint_ok env
     then map_option hv_status (dict_get (qw_held w') eid) = Some Q_Released \<and>
          get_checkpoint (qw_checkpoints w') (hv_stream row) = Some (base_checkpoint_value (obj_of (last (stored_events row))))
     else map_option hv_status (dict_get (qw_held w') eid) = Some Q_Quarantined \<and> qw_checkpoints w' = qw_checkpoints w)"
proof -
  obtain new where new: "qw_sends w' = qw_sends w @ new"
      "map fst new = map (release_call (rx_name ctx) (hv_stream row) (stored_events row)) (targets_of (hv_route row) (rx_routes ctx))"
      "let delivered = (list_ex (\<lambda>x. snd x = None) new \<and> list_all2 absorbed (targets_of (hv_route row) (rx_routes ctx)) new)
       in if delivered \<and> (True \<longrightarrow> re_checkpoint_ok env)
        then (\<exists>row'. dict_get (qw_held w') eid = Some row' \<and> hv_status row' = Q_Released \<and> hv_payload row' = hv_payload row) \<and>
             qw_checkpoints w' = (if True then upsert_checkpoint (hv_stream row) ''EVENT''
                 (base_checkpoint_value (obj_of (last (stored_events row)))) (qw_checkpoints w) else qw_checkpoints w)
        else dict_get (qw_held w') eid = Some (row\<lparr>hv_updated := now\<rparr>) \<and> qw_checkpoints w' = qw_checkpoints w"
    using release_result[OF assms] by blast
  then show ?thesis
    using assms(1) checkpoint_store.lookup_store[of "hv_stream row" "''EVENT''"]
    by (intro exI[of _ new]) (auto simp: Let_def held_in_def checkpoint_store.lookup_store split: if_splits)
qed

section \<open>Terminal rows\<close>

lemma release_other_rows:
  assumes "eid' \<noteq> eid"
  shows "dict_get (qw_held (snd (execute_quarantine_release env now by_user cp eid' w))) eid = dict_get (qw_held w) eid"
proof (cases "dict_get (qw_held w) eid'")
  case (Some row)
  obtain d sends where dl: "deliver_protected_events_to_routes env (hv_stream row) (stored_events row) (hv_route row) (qw_sends w) = (d, sends)"
    by (metis surj_pair)
  show ?thesis
  proof (cases d)
    case (Inr res)
    obtain ok err where "res = (ok, err)" by (cases res)
    then show ?thesis
      using assms Some dl Inr by (cases ok) (simp_all add: execute_quarantine_release_def Let_def release_failed_def
        persist_quarantine_log_def dict_simps)
  qed (use Some dl in \<open>simp add: execute_quarantine_release_def Let_def\<close>)
qed (simp add: execute_quarantine_release_def)

lemma discard_other_rows:
  "eid' \<noteq> eid \<Longrightarrow> dict_get (qw_held (snd (discard_quarantine_event now eid' w))) eid = dict_get (qw_held w) eid"
  by (auto simp: discard_quarantine_event_def Let_def persist_quarantine_log_def dict_simps split: option.split)

lemma delete_route_row:
  "dict_get (qw_held (delete_route rid w)) eid =
     map_option (\<lambda>row. if hv_route row = Some rid then row\<lparr>hv_route := None\<rparr> else row) (dict_get (qw_held w) eid)"
proof -
  have "map_of (map (\<lambda>(i, row). (i, f row)) d) eid = map_option f (map_of d eid)" for f :: "held_event \<Rightarrow> held_event" and d
    by (induction d) auto
  then show ?thesis by (simp add: delete_route_def)
qed

definition terminal_in :: "quarantine_world \<Rightarrow> int \<Rightarrow> held_event \<Rightarrow> bool" where
  "terminal_in w eid row \<longleftrightarrow> (\<exists>row'. dict_get (qw_held w) eid = Some row' \<and> hv_status row' = hv_status row \<and>
     hv_payload row' = hv_payload row)"

lemma terminal_release:
  assumes "terminal_in w eid row" "hv_status row \<in> set quarantine_terminal_statuses"
  shows "\<exists>code. execute_quarantine_release env now by_user cp eid w = (Inl (Quarantine_State code), w)"
  using assms by (auto simp: terminal_in_def quarantine_terminal_statuses_def execute_quarantine_release_def)

lemma terminal_discard:
  assumes "terminal_in w eid row" "hv_status row \<in> set quarantine_terminal_statuses"
  shows "snd (discard_quarantine_event now eid w) = w"
  using assms by (auto simp: terminal_in_def discard_quarantine_event_def)

lemma terminal_serve:
  assumes "terminal_in w eid row" "hv_status row \<in> set quarantine_terminal_statuses"
  shows "terminal_in (serve_quarantine r w) eid row"
proof (cases r)
  case (Release env now by_user cp eid')
  show ?thesis
  proof (cases "eid' = eid")
    case True
    then show ?thesis using terminal_release[OF assms, of env now by_user cp] Release assms(1) by auto
  next
    case False
    then show ?thesis using assms(1) Release by (simp add: terminal_in_def release_other_rows)
  qed
next
  case (Discard now eid')
  then show ?thesis
    using assms terminal_discard[OF assms, of now]
    by (cases "eid' = eid") (simp_all add: terminal_in_def discard_other_rows)
next
  case (Drop_Route rid)
  obtain row' where "dict_get (qw_held w) eid = Some row'" "hv_status row' = hv_status row" "hv_payload row' = hv_payload row"
    using assms(1) by (auto simp: terminal_in_def)
  then show ?thesis
    using Drop_Route by (cases "hv_route row' = Some rid") (simp_all add: terminal_in_def delete_route_row)
qed

text \<open>A released or discarded batch is done with: after any sequence of releases, discards and
  route deletions its row has the same status and payload, and a further release is refused
  before anything is sent.\<close>

theorem settled_quarantine_is_final:
  assumes "dict_get (qw_held w) eid = Some row" "hv_status row \<in> set quarantine_terminal_statuses"
  shows "terminal_in (fold serve_quarantine rs w) eid row \<and>
    (\<exists>code. execute_quarantine_release env now by_user cp eid (fold serve_quarantine rs w)
       = (Inl (Quarantine_State code), fold serve_quarantine rs w))"
proof -
  have "terminal_in w eid row" using assms(1) by (auto simp: terminal_in_def)
  then have "terminal_in (fold serve_quarantine rs w) eid row"
    by (induction rs arbitrary: w) (auto simp: terminal_serve assms(2))
  then show ?thesis using terminal_release[OF _ assms(2)] by blast
qed

section \<open>Concrete releases\<close>

definition held_sample :: "int option \<Rightarrow> int \<Rightarrow> held_event" where
  "held_sample route n =
     \<lparr>hv_stream = 7, hv_route = route, hv_reason = ''policy:pii'', hv_source = ''policy'', hv_status = Q_Quarantined,
      hv_payload = [JObj [(''seq'', JInt n)]], hv_updated = 0, hv_released_at = None, hv_released_by = None\<rparr>"

definition route_to :: "int \<Rightarrow> string \<Rightarrow> route" where
  "route_to i policy =
     (hook_route policy)\<lparr>r_id := i, r_destination := (hook_destination i)\<lparr>d_name := ''d'' @ int_str i\<rparr>\<rparr>"

definition release_sample :: "route list \<Rightarrow> int list \<Rightarrow> release_env" where
  "release_sample rs down =
     \<lparr>re_context = (\<lambda>sid. Inr \<lparr>rx_name = ''s'', rx_routes = rs\<rparr>),
      re_send = (\<lambda>n c. if px_route (sc_prefix c) \<in> set down then Some send_error else None), re_checkpoint_ok = True\<rparr>"

definition progressed :: "held_event \<Rightarrow> int \<Rightarrow> quarantine_world" where
  "progressed row n =
     \<lparr>qw_held = [(1, row)], qw_checkpoints = upsert_checkpoint 7 ''CUSTOM_FIELD'' (base_checkpoint_value [(''seq'', JInt n)]) [],
      qw_sends = [], qw_logs = []\<rparr>"

abbreviation receivers :: "quarantine_world \<Rightarrow> int list" where
  "receivers w \<equiv> map (\<lambda>(c, res). px_route (sc_prefix c)) (qw_sends w)"

abbreviation seq_of_checkpoint :: "quarantine_world \<Rightarrow> json option" where
  "seq_of_checkpoint w \<equiv> (case get_checkpoint (qw_checkpoints w) 7 of None \<Rightarrow> None | Some d \<Rightarrow> dict_get d ''last_success_event'')"

theorem release_outcome_exact_witness:
  "map_option hv_status (dict_get (qw_held (snd (execute_quarantine_release
      (release_sample [route_to 1 ''LOG_AND_CONTINUE'', route_to 2 ''LOG_AND_CONTINUE''] [2]) 5 None True 1
      (progressed (held_sample None 3) 2)))) 1) = Some Q_Released"
proof -
  let ?env = "release_sample [route_to 1 ''LOG_AND_CONTINUE'', route_to 2 ''LOG_AND_CONTINUE''] [2]"
  let ?w = "progressed (held_sample None 3) 2"
  let ?run = "execute_quarantine_release ?env 5 None True 1 ?w"
  have held: "held_in ?w 1 (held_sample None 3)"
    by (simp add: held_in_def progressed_def held_sample_def stored_events_def)
  have ctx: "re_context ?env (hv_stream (held_sample None 3)) =
      Inr \<lparr>rx_name = ''s'', rx_routes = [route_to 1 ''LOG_AND_CONTINUE'', route_to 2 ''LOG_AND_CONTINUE'']\<rparr>"
    by (simp add: release_sample_def)
  obtain new where new: "qw_sends (snd ?run) = qw_sends ?w @ new"
    "(if list_ex (\<lambda>x. snd x = None) new \<and> list_all2 absorbed (targets_of (hv_route (held_sample None 3))
          [route_to 1 ''LOG_AND_CONTINUE'', route_to 2 ''LOG_AND_CONTINUE'']) new \<and> re_checkpoint_ok ?env
     then map_option hv_status (dict_get (qw_held (snd ?run)) 1) = Some Q_Released \<and>
          get_checkpoint (qw_checkpoints (snd ?run)) (hv_stream (held_sample None 3)) =
            Some (base_checkpoint_value (obj_of (last (stored_events (held_sample None 3)))))
     else map_option hv_status (dict_get (qw_held (snd ?run)) 1) = Some Q_Quarantined \<and>
          qw_checkpoints (snd ?run) = qw_checkpoints ?w)"
    using release_outcome_exact[OF held ctx prod.collapse[symmetric], of 5 None] by auto
  have "qw_sends ?w = []" by (simp add: progressed_def)
  then have "new = qw_sends (snd ?run)" using new(1) by simp
  moreover have "list_ex (\<lambda>x. snd x = None) (qw_sends (snd ?run)) \<and> list_all2 absorbed (targets_of (hv_route (held_sample None 3))
          [route_to 1 ''LOG_AND_CONTINUE'', route_to 2 ''LOG_AND_CONTINUE'']) (qw_sends (snd ?run)) \<and> re_checkpoint_ok ?env"
    by code_simp
  ultimately show ?thesis using new(2) by auto
qed

theorem settled_quarantine_is_final_witness:
  "\<exists>code. execute_quarantine_release (release_sample [route_to 1 ''LOG_AND_CONTINUE''] []) 9 None True 1
       (fold serve_quarantine [Release (release_sample [route_to 1 ''LOG_AND_CONTINUE''] []) 8 None True 1, Drop_Route 1]
          (progressed ((held_sample (Some 1) 3)\<lparr>hv_status := Q_Discarded\<rparr>) 2))
     = (Inl (Quarantine_State code),
        fold serve_quarantine [Release (release_sample [route_to 1 ''LOG_AND_CONTINUE''] []) 8 None True 1, Drop_Route 1]
          (progressed ((held_sample (Some 1) 3)\<lparr>hv_status := Q_Discarded\<rparr>) 2))"
proof -
  have "dict_get (qw_held (progressed ((held_sample (Some 1) 3)\<lparr>hv_status := Q_Discarded\<rparr>) 2)) 1 =
      Some ((held_sample (Some 1) 3)\<lparr>hv_status := Q_Discarded\<rparr>)"
    by (simp add: progressed_def)
  then show ?thesis
    by (rule settled_quarantine_is_final[THEN conjunct2]) (simp add: quarantine_terminal_statuses_def)
qed

text \<open>A release can move the checkpoint back: the stream has gone on to event 9 on its other routes
  when the batch held at event 3 is released, and the checkpoint then says 3, so the next run
  fetches the events from 3 on again.\<close>

theorem release_moves_checkpoint_back:
  "seq_of_checkpoint (progressed (held_sample (Some 1) 3) 9) = Some (JObj [(''seq'', JInt 9)]) \<and>
   seq_of_checkpoint (snd (execute_quarantine_release
     (release_sample [route_to 1 ''LOG_AND_CONTINUE'', route_to 2 ''LOG_AND_CONTINUE''] []) 5 None True 1
     (progressed (held_sample (Some 1) 3) 9))) = Some (JObj [(''seq'', JInt 3)])"
  by (rule conjI; code_simp)

text \<open>Deleting the route of a held batch widens its release: the row loses its route, and the
  release then sends the events to every other route of the stream, under whose rules they were
  never protected.\<close>

theorem deleted_route_widens_release:
  "receivers (snd (execute_quarantine_release
     (release_sample [route_to 1 ''LOG_AND_CONTINUE'', route_to 2 ''LOG_AND_CONTINUE''] []) 5 None True 1
     (progressed (held_sample (Some 1) 3) 2))) = [1] \<and>
   receivers (snd (execute_quarantine_release
     (release_sample [route_to 2 ''LOG_AND_CONTINUE'', route_to 3 ''LOG_AND_CONTINUE''] []) 5 None True 1
     (delete_route 1 (progressed (held_sample (Some 1) 3) 2)))) = [2, 3]"
  by (rule conjI; code_simp)

text \<open>A partial failure is repeated as a whole: the destination that accepted the batch gets it again.\<close>

lemma partial_release_repeats:
  "receivers (fold serve_quarantine
     [Release (release_sample [route_to 1 ''LOG_AND_CONTINUE'', route_to 2 ''RETRY_AND_BACKOFF''] [2]) 5 None True 1,
      Release (release_sample [route_to 1 ''LOG_AND_CONTINUE'', route_to 2 ''RETRY_AND_BACKOFF''] []) 6 None True 1]
     (progressed (held_sample None 3) 2)) = [1, 2, 1, 2]"
  by code_simp

end
