(* ===== verification/Governance.thy ===== *)
theory Governance
  imports Json_Values
begin

text \<open>
  \<open>app/governance_policies/service.py\<close> and \<open>app/governance_approval/service.py\<close>: the named
  governance policies, their validation, edits and lifecycle, and the approval workflow with its
  event log. Every endpoint commits when the service returns and rolls back when it raises, so a
  request that raises leaves the state as it was. Times are integers. The notifications, the
  impact and simulation summaries and the read models are left out; the existence of a stream is a
  parameter.
\<close>

section \<open>State\<close>

datatype policy_status = Draft | Review | Active | Retired

fun status_name :: "policy_status \<Rightarrow> string" where
  "status_name Draft = ''DRAFT''"
| "status_name Review = ''REVIEW''"
| "status_name Active = ''ACTIVE''"
| "status_name Retired = ''RETIRED''"

datatype approval_type = Submitted | Approved | Rejected | Request_Changes | Activated | Cancelled

record gov_policy =
  gp_name :: string
  gp_description :: "string option"
  gp_category :: string
  gp_status :: policy_status
  gp_json :: event
  gp_version :: int
  gp_activated :: "int option"
  gp_retired :: "int option"
  gp_created :: int
  gp_updated :: int

record approval_event =
  ae_policy :: int
  ae_type :: approval_type
  ae_actor :: string
  ae_comment :: "string option"
  ae_at :: int

text \<open>The events are kept in the order of their identifiers; \<open>gv_assigned\<close> are the assignments of
  a policy to streams with their enabled flag.\<close>

record gov_state =
  gv_policies :: "(int, gov_policy) dict"
  gv_events :: "approval_event list"
  gv_assigned :: "((int \<times> int) \<times> bool) list"
  gv_next :: int

datatype gov_error =
    Policy_Not_Found int
  | Stream_Not_Found int
  | Validation_Error string
  | Lifecycle_Error string
  | Approval_Error string
  | Integrity_Error

section \<open>Validation\<close>

definition policy_categories :: "string list" where
  "policy_categories = [''DATA_PROTECTION'', ''AI_GOVERNANCE'', ''COMPLIANCE'', ''CUSTOM'']"

definition condition_operators :: "string list" where
  "condition_operators = [''equals'', ''not_equals'', ''contains'']"

definition policy_action_types :: "string list" where
  "policy_action_types = [''quarantine'', ''tokenize'', ''mask'', ''audit_only'']"

definition condition_fields :: "string list" where
  "condition_fields = [''classification'', ''sensitivity'', ''field'']"

definition repr_field :: "event \<Rightarrow> string \<Rightarrow> string" where
  "repr_field d k = py_repr (case dict_get d k of None \<Rightarrow> JNull | Some v \<Rightarrow> v)"

definition text_in :: "json option \<Rightarrow> string list \<Rightarrow> bool" where
  "text_in v xs = (case v of Some (JStr s) \<Rightarrow> s \<in> set xs | _ \<Rightarrow> False)"

definition condition_error :: "nat \<Rightarrow> json \<Rightarrow> string option" where
  "condition_error idx c =
     (case c of
        JObj d \<Rightarrow>
          if \<not> text_in (dict_get d ''field'') condition_fields
          then Some (''unsupported condition field: '' @ repr_field d ''field'')
          else if \<not> text_in (dict_get d ''operator'') condition_operators
          then Some (''unsupported operator: '' @ repr_field d ''operator'')
          else if (case dict_get d ''value'' of Some (JStr s) \<Rightarrow> py_strip s = [] | _ \<Rightarrow> True)
          then Some (''conditions['' @ int_str (int idx) @ ''].value is required'')
          else None
      | _ \<Rightarrow> Some (''conditions['' @ int_str (int idx) @ ''] must be an object''))"

definition action_error :: "nat \<Rightarrow> json \<Rightarrow> string option" where
  "action_error idx a =
     (case a of
        JObj d \<Rightarrow>
          if \<not> text_in (dict_get d ''type'') policy_action_types
          then Some (''unsupported action type: '' @ repr_field d ''type'') else None
      | _ \<Rightarrow> Some (''actions['' @ int_str (int idx) @ ''] must be an object''))"

fun first_error :: "(nat \<Rightarrow> json \<Rightarrow> string option) \<Rightarrow> nat \<Rightarrow> json list \<Rightarrow> string option" where
  "first_error f i [] = None"
| "first_error f i (x # xs) = (case f i x of Some e \<Rightarrow> Some e | None \<Rightarrow> first_error f (i + 1) xs)"

definition validate_policy_json :: "event \<Rightarrow> string option" where
  "validate_policy_json d =
     (case (dict_get d ''conditions'', dict_get d ''actions'') of
        (Some (JList cs), Some (JList as)) \<Rightarrow>
          if cs = [] then Some ''policy_json requires at least one condition''
          else if as = [] then Some ''policy_json requires at least one action''
          else (case first_error condition_error 0 cs of Some e \<Rightarrow> Some e | None \<Rightarrow> first_error action_error 0 as)
      | (Some (JList cs), _) \<Rightarrow> Some ''policy_json.actions must be an array''
      | _ \<Rightarrow> Some ''policy_json.conditions must be an array'')"

section \<open>Policies\<close>

type_synonym 'a gov_result = "(gov_error + 'a) \<times> gov_state"

definition create_governance_policy ::
    "int \<Rightarrow> string \<Rightarrow> string option \<Rightarrow> string \<Rightarrow> policy_status \<Rightarrow> event \<Rightarrow> gov_state \<Rightarrow> int gov_result" where
  "create_governance_policy now name description category status pj st =
     (let label = py_strip name
      in if label = [] then (Inl (Validation_Error ''name is required''), st)
         else if category \<notin> set policy_categories then (Inl (Validation_Error (''unsupported category: '' @ py_repr_str category)), st)
         else if status \<noteq> Draft then (Inl (Validation_Error ''new policies must be created in DRAFT status''), st)
         else
           (case validate_policy_json pj of
              Some e \<Rightarrow> (Inl (Validation_Error e), st)
            | None \<Rightarrow>
                (let row = \<lparr>gp_name = label,
                       gp_description = (case description of None \<Rightarrow> None | Some d \<Rightarrow> if d = [] then None else Some (py_strip d)),
                       gp_category = category, gp_status = Draft, gp_json = pj, gp_version = 1, gp_activated = None,
                       gp_retired = None, gp_created = now, gp_updated = now\<rparr>
                 in (Inr (gv_next st),
                     st\<lparr>gv_policies := dict_set (gv_next st) row (gv_policies st), gv_next := gv_next st + 1\<rparr>))))"

record policy_edit =
  ed_name :: "string option"
  ed_description :: "string option"
  ed_category :: "string option"
  ed_status :: "policy_status option"
  ed_json :: "event option"

definition edited_fields :: "policy_edit \<Rightarrow> gov_policy \<Rightarrow> gov_policy" where
  "edited_fields ed row =
     row\<lparr>gp_name := (case ed_name ed of None \<Rightarrow> gp_name row | Some n \<Rightarrow> py_strip n),
         gp_description := (case ed_description ed of None \<Rightarrow> gp_description row
                              | Some d \<Rightarrow> if d = [] then None else Some (py_strip d)),
         gp_category := (case ed_category ed of None \<Rightarrow> gp_category row | Some c \<Rightarrow> c)\<rparr>"

definition update_governance_policy :: "int \<Rightarrow> int \<Rightarrow> policy_edit \<Rightarrow> gov_state \<Rightarrow> gov_policy gov_result" where
  "update_governance_policy now pid ed st =
     (case dict_get (gv_policies st) pid of
        None \<Rightarrow> (Inl (Policy_Not_Found pid), st)
      | Some row \<Rightarrow>
          if gp_status row = Retired then (Inl (Lifecycle_Error ''retired policies are view-only''), st)
          else if (case ed_name ed of Some n \<Rightarrow> py_strip n = [] | None \<Rightarrow> False)
          then (Inl (Validation_Error ''name is required''), st)
          else if (case ed_category ed of Some c \<Rightarrow> c \<notin> set policy_categories | None \<Rightarrow> False)
          then (Inl (Validation_Error (''unsupported category: '' @ py_repr_str (the (ed_category ed)))), st)
          else if (case ed_status ed of Some s \<Rightarrow> s \<noteq> gp_status row | None \<Rightarrow> False)
          then (Inl (Lifecycle_Error (''status changes must use lifecycle endpoints (current: '' @ status_name (gp_status row)
                  @ '', requested: '' @ status_name (the (ed_status ed)) @ '')'')), st)
          else
            (let row1 = edited_fields ed row
             in case ed_json ed of
                  None \<Rightarrow>
                    (let row2 = row1\<lparr>gp_updated := now\<rparr>
                     in (Inr row2, st\<lparr>gv_policies := dict_set pid row2 (gv_policies st)\<rparr>))
                | Some pj \<Rightarrow>
                    if gp_status row \<in> {Active, Retired}
                    then (Inl (Lifecycle_Error (''policy_json cannot be changed while status is '' @ status_name (gp_status row))), st)
                    else
                      (case validate_policy_json pj of
                         Some e \<Rightarrow> (Inl (Validation_Error e), st)
                       | None \<Rightarrow>
                           (let row2 = row1\<lparr>gp_json := pj, gp_version := gp_version row + 1, gp_updated := now\<rparr>
                            in (Inr row2, st\<lparr>gv_policies := dict_set pid row2 (gv_policies st)\<rparr>)))))"

fun lifecycle_next :: "policy_status \<Rightarrow> policy_status option" where
  "lifecycle_next Draft = Some Review"
| "lifecycle_next Review = Some Active"
| "lifecycle_next Active = Some Retired"
| "lifecycle_next Retired = None"

definition transition_policy_status :: "int \<Rightarrow> int \<Rightarrow> policy_status \<Rightarrow> gov_state \<Rightarrow> gov_policy gov_result" where
  "transition_policy_status now pid target st =
     (case dict_get (gv_policies st) pid of
        None \<Rightarrow> (Inl (Policy_Not_Found pid), st)
      | Some row \<Rightarrow>
          if lifecycle_next (gp_status row) \<noteq> Some target
          then (Inl (Lifecycle_Error (''invalid status transition: '' @ status_name (gp_status row) @ '' -> '' @ status_name target)), st)
          else
            (let row1 = row\<lparr>gp_status := target, gp_updated := now,
                   gp_activated := (if target = Active then Some now else gp_activated row),
                   gp_retired := (if target = Retired then Some now else gp_retired row)\<rparr>
             in (Inr row1, st\<lparr>gv_policies := dict_set pid row1 (gv_policies st)\<rparr>)))"

definition submit_policy_for_review :: "int \<Rightarrow> int \<Rightarrow> gov_state \<Rightarrow> gov_policy gov_result" where
  "submit_policy_for_review now pid = transition_policy_status now pid Review"

definition activate_policy :: "int \<Rightarrow> int \<Rightarrow> gov_state \<Rightarrow> gov_policy gov_result" where
  "activate_policy now pid = transition_policy_status now pid Active"

definition retire_policy :: "int \<Rightarrow> int \<Rightarrow> gov_state \<Rightarrow> gov_policy gov_result" where
  "retire_policy now pid = transition_policy_status now pid Retired"

text \<open>Deleting a policy deletes its events and assignments (\<open>ON DELETE CASCADE\<close>).\<close>

definition delete_governance_policy :: "int \<Rightarrow> gov_state \<Rightarrow> unit gov_result" where
  "delete_governance_policy pid st =
     (case dict_get (gv_policies st) pid of
        None \<Rightarrow> (Inl (Policy_Not_Found pid), st)
      | Some row \<Rightarrow>
          if gp_status row \<noteq> Retired
          then (Inl (Lifecycle_Error (''only retired policies can be deleted (current status: '' @ status_name (gp_status row) @ '')'')), st)
          else (Inr (), st\<lparr>gv_policies := dict_del pid (gv_policies st),
                          gv_events := filter (\<lambda>e. ae_policy e \<noteq> pid) (gv_events st),
                          gv_assigned := filter (\<lambda>a. fst (fst a) \<noteq> pid) (gv_assigned st)\<rparr>))"

text \<open>A stream listed twice that was not assigned before gives two new rows, which the unique
  constraint of the table refuses.\<close>

definition set_policy_assignments ::
    "(int \<Rightarrow> bool) \<Rightarrow> int \<Rightarrow> int \<Rightarrow> (int \<times> bool) list \<Rightarrow> gov_state \<Rightarrow> (int \<times> bool) list gov_result" where
  "set_policy_assignments stream_exists now pid entries st =
     (case dict_get (gv_policies st) pid of
        None \<Rightarrow> (Inl (Policy_Not_Found pid), st)
      | Some row \<Rightarrow>
          (case List.find (\<lambda>e. \<not> stream_exists (fst e)) entries of
             Some e \<Rightarrow> (Inl (Stream_Not_Found (fst e)), st)
           | None \<Rightarrow>
               if \<not> distinct (filter (\<lambda>sid. \<not> dict_has (gv_assigned st) (pid, sid)) (map fst entries))
               then (Inl Integrity_Error, st)
               else
               (let kept = filter (\<lambda>a. fst (fst a) \<noteq> pid \<or> snd (fst a) \<in> fst ` set entries) (gv_assigned st);
                    assigned = fold (\<lambda>e. dict_set (pid, fst e) (snd e)) entries kept
                in (Inr (map (\<lambda>a. (snd (fst a), snd a)) (sort_key (\<lambda>a. snd (fst a)) (filter (\<lambda>a. fst (fst a) = pid) assigned))),
                    st\<lparr>gv_assigned := assigned, gv_policies := dict_set pid (row\<lparr>gp_updated := now\<rparr>) (gv_policies st)\<rparr>))))"

section \<open>Previews\<close>

definition operator_label :: "string \<Rightarrow> string" where
  "operator_label op = (if op = ''equals'' then ''='' else if op = ''not_equals'' then ''!='' else op)"

fun format_condition :: "json \<Rightarrow> string" where
  "format_condition (JObj d) =
     (let text = (\<lambda>k dflt. case dict_get d k of None \<Rightarrow> dflt | Some v \<Rightarrow> py_str v)
      in text ''field'' [] @ '' '' @ operator_label (text ''operator'' ''equals'') @ '' '' @ text ''value'' [])"
| "format_condition _ = []"

fun format_action :: "json \<Rightarrow> string" where
  "format_action (JObj d) = (case dict_get d ''type'' of None \<Rightarrow> ''unknown'' | Some v \<Rightarrow> py_str v)"
| "format_action _ = []"

record preview_rule =
  pr_condition :: string
  pr_action :: string
  pr_combined :: string

text \<open>The summary joins the rules with a middle dot.\<close>

definition build_policy_preview :: "event \<Rightarrow> string + preview_rule list \<times> string" where
  "build_policy_preview d =
     (case validate_policy_json d of
        Some e \<Rightarrow> Inl e
      | None \<Rightarrow>
          (let items = (\<lambda>k. case dict_get d k of Some (JList xs) \<Rightarrow> xs | _ \<Rightarrow> []);
               cond = join_with '' AND '' (map format_condition (items ''conditions''));
               rules = map (\<lambda>a. \<lparr>pr_condition = cond, pr_action = format_action a,
                         pr_combined = ''IF '' @ cond @ '' THEN '' @ format_action a\<rparr>) (items ''actions'')
           in Inr (rules, join_with ('' '' @ [CHR 0xB7] @ '' '') (map pr_combined rules))))"

section \<open>Approval\<close>

definition load_events_for_policy :: "gov_state \<Rightarrow> int \<Rightarrow> approval_event list" where
  "load_events_for_policy st pid = sort_key ae_at (filter (\<lambda>e. ae_policy e = pid) (gv_events st))"

text \<open>The events from the latest submission on, \<open>None\<close> without one.\<close>

fun latest_cycle :: "approval_event list \<Rightarrow> approval_event list option" where
  "latest_cycle [] = None"
| "latest_cycle (e # es) =
     (case latest_cycle es of
        Some c \<Rightarrow> Some c
      | None \<Rightarrow> if ae_type e = Submitted then Some (e # es) else None)"

definition is_approved_cycle :: "approval_event list \<Rightarrow> bool" where
  "is_approved_cycle events =
     (case latest_cycle events of
        None \<Rightarrow> False
      | Some cycle \<Rightarrow>
          \<not> list_ex (\<lambda>e. ae_type e \<in> {Rejected, Request_Changes, Cancelled}) cycle
          \<and> list_ex (\<lambda>e. ae_type e = Approved) cycle)"

fun cycle_status :: "policy_status \<Rightarrow> approval_event list \<Rightarrow> string" where
  "cycle_status ps [] = (if ps = Review then ''PENDING_REVIEW'' else status_name ps)"
| "cycle_status ps (e # es) =
     (case ae_type e of
        Approved \<Rightarrow> ''APPROVED''
      | Rejected \<Rightarrow> ''REJECTED''
      | Request_Changes \<Rightarrow> ''REQUEST_CHANGES''
      | Cancelled \<Rightarrow> ''CANCELLED''
      | _ \<Rightarrow> cycle_status ps es)"

definition derive_approval_status :: "policy_status \<Rightarrow> approval_event list \<Rightarrow> string" where
  "derive_approval_status ps events =
     (if ps = Active then ''ACTIVATED''
      else if ps = Retired then ''RETIRED''
      else (case latest_cycle events of None \<Rightarrow> ''DRAFT'' | Some cycle \<Rightarrow> cycle_status ps (rev cycle)))"

definition record_event :: "int \<Rightarrow> int \<Rightarrow> approval_type \<Rightarrow> string \<Rightarrow> string option \<Rightarrow> gov_state \<Rightarrow> gov_state" where
  "record_event now pid t actor comment st =
     st\<lparr>gv_events := gv_events st @
          [\<lparr>ae_policy = pid, ae_type = t, ae_actor = (if py_strip actor = [] then ''Governance Operator'' else py_strip actor),
            ae_comment = (case comment of None \<Rightarrow> None | Some c \<Rightarrow> if c = [] then None else Some (py_strip c)),
            ae_at = now\<rparr>]\<rparr>"

definition current_text :: "string \<Rightarrow> gov_policy \<Rightarrow> string" where
  "current_text msg row = msg @ '' (current: '' @ status_name (gp_status row) @ '')''"

definition submit_policy_approval :: "int \<Rightarrow> int \<Rightarrow> string option \<Rightarrow> string \<Rightarrow> gov_state \<Rightarrow> gov_policy gov_result" where
  "submit_policy_approval now pid comment actor st =
     (case dict_get (gv_policies st) pid of
        None \<Rightarrow> (Inl (Policy_Not_Found pid), st)
      | Some row \<Rightarrow>
          (case gp_status row of
             Active \<Rightarrow> (Inl (Approval_Error ''active policies cannot be submitted for review''), st)
           | Retired \<Rightarrow> (Inl (Approval_Error ''retired policies cannot be submitted for review''), st)
           | Review \<Rightarrow> (Inl (Approval_Error (current_text ''only DRAFT policies can be submitted'' row)), st)
           | Draft \<Rightarrow>
               (case submit_policy_for_review now pid st of
                  (Inl e, _) \<Rightarrow> (Inl e, st)
                | (Inr updated, st1) \<Rightarrow> (Inr updated, record_event now pid Submitted actor comment st1))))"

definition approve_policy :: "int \<Rightarrow> int \<Rightarrow> string option \<Rightarrow> string \<Rightarrow> gov_state \<Rightarrow> gov_policy gov_result" where
  "approve_policy now pid comment actor st =
     (case dict_get (gv_policies st) pid of
        None \<Rightarrow> (Inl (Policy_Not_Found pid), st)
      | Some row \<Rightarrow>
          (case gp_status row of
             Retired \<Rightarrow> (Inl (Approval_Error ''retired policies cannot be approved''), st)
           | Draft \<Rightarrow> (Inl (Approval_Error ''draft policies cannot be approved''), st)
           | Active \<Rightarrow> (Inl (Approval_Error ''active policies cannot be approved''), st)
           | Review \<Rightarrow>
               (let row1 = row\<lparr>gp_updated := now\<rparr>; st1 = record_event now pid Approved actor comment st
                in (Inr row1, st1\<lparr>gv_policies := dict_set pid row1 (gv_policies st1)\<rparr>))))"

definition revert_policy_to_draft :: "int \<Rightarrow> int \<Rightarrow> gov_state \<Rightarrow> gov_policy gov_result" where
  "revert_policy_to_draft now pid st =
     (case dict_get (gv_policies st) pid of
        None \<Rightarrow> (Inl (Policy_Not_Found pid), st)
      | Some row \<Rightarrow>
          if gp_status row \<noteq> Review
          then (Inl (Approval_Error (current_text ''only policies in REVIEW can be returned to DRAFT'' row)), st)
          else (let row1 = row\<lparr>gp_status := Draft, gp_updated := now\<rparr>
                in (Inr row1, st\<lparr>gv_policies := dict_set pid row1 (gv_policies st)\<rparr>)))"

definition reject_policy :: "int \<Rightarrow> int \<Rightarrow> string option \<Rightarrow> string \<Rightarrow> bool \<Rightarrow> gov_state \<Rightarrow> gov_policy gov_result" where
  "reject_policy now pid comment actor request_changes st =
     (case dict_get (gv_policies st) pid of
        None \<Rightarrow> (Inl (Policy_Not_Found pid), st)
      | Some row \<Rightarrow>
          (case gp_status row of
             Active \<Rightarrow> (Inl (Approval_Error ''active policies cannot be rejected''), st)
           | Retired \<Rightarrow> (Inl (Approval_Error ''retired policies cannot be rejected''), st)
           | Draft \<Rightarrow> (Inl (Approval_Error (current_text ''only REVIEW policies can be rejected'' row)), st)
           | Review \<Rightarrow>
               (case revert_policy_to_draft now pid
                       (record_event now pid (if request_changes then Request_Changes else Rejected) actor comment st) of
                  (Inl e, _) \<Rightarrow> (Inl e, st)
                | (Inr r, st1) \<Rightarrow> (Inr r, st1))))"

definition activate_approved_policy :: "int \<Rightarrow> int \<Rightarrow> string option \<Rightarrow> string \<Rightarrow> gov_state \<Rightarrow> gov_policy gov_result" where
  "activate_approved_policy now pid comment actor st =
     (case dict_get (gv_policies st) pid of
        None \<Rightarrow> (Inl (Policy_Not_Found pid), st)
      | Some row \<Rightarrow>
          (case gp_status row of
             Retired \<Rightarrow> (Inl (Approval_Error ''retired policies cannot be activated''), st)
           | Active \<Rightarrow> (Inl (Approval_Error ''policy is already active''), st)
           | Draft \<Rightarrow> (Inl (Approval_Error (current_text ''only approved REVIEW policies can be activated'' row)), st)
           | Review \<Rightarrow>
               if \<not> is_approved_cycle (load_events_for_policy st pid)
               then (Inl (Approval_Error ''policy must be approved before activation''), st)
               else
                 (case activate_policy now pid st of
                    (Inl (Lifecycle_Error e), _) \<Rightarrow> (Inl (Approval_Error e), st)
                  | (Inl e, _) \<Rightarrow> (Inl e, st)
                  | (Inr updated, st1) \<Rightarrow> (Inr updated, record_event now pid Activated actor comment st1))))"

section \<open>Requests\<close>

text \<open>The routes of \<open>governance_policies/router.py\<close> and \<open>governance_approval/router.py\<close> that change
  the state.\<close>

datatype gov_request =
    Create string "string option" string policy_status event
  | Update int policy_edit
  | Submit_Review int
  | Activate_Directly int
  | Retire int
  | Delete int
  | Assign int "(int \<times> bool) list"
  | Submit_Approval int "string option" string
  | Approve int "string option" string
  | Reject int "string option" string bool
  | Activate_Approved int "string option" string

fun apply_request :: "(int \<Rightarrow> bool) \<Rightarrow> int \<Rightarrow> gov_request \<Rightarrow> gov_state \<Rightarrow> gov_state" where
  "apply_request ex now (Create n d c s j) st = snd (create_governance_policy now n d c s j st)"
| "apply_request ex now (Update pid ed) st = snd (update_governance_policy now pid ed st)"
| "apply_request ex now (Submit_Review pid) st = snd (submit_policy_for_review now pid st)"
| "apply_request ex now (Activate_Directly pid) st = snd (activate_policy now pid st)"
| "apply_request ex now (Retire pid) st = snd (retire_policy now pid st)"
| "apply_request ex now (Delete pid) st = snd (delete_governance_policy pid st)"
| "apply_request ex now (Assign pid es) st = snd (set_policy_assignments ex now pid es st)"
| "apply_request ex now (Submit_Approval pid c a) st = snd (submit_policy_approval now pid c a st)"
| "apply_request ex now (Approve pid c a) st = snd (approve_policy now pid c a st)"
| "apply_request ex now (Reject pid c a rc) st = snd (reject_policy now pid c a rc st)"
| "apply_request ex now (Activate_Approved pid c a) st = snd (activate_approved_policy now pid c a st)"

text \<open>Requests with the times they are served at.\<close>

fun serve :: "(int \<Rightarrow> bool) \<Rightarrow> (int \<times> gov_request) list \<Rightarrow> gov_state \<Rightarrow> gov_state" where
  "serve ex [] st = st"
| "serve ex ((now, r) # rs) st = serve ex rs (apply_request ex now r st)"

definition empty_gov :: gov_state where
  "empty_gov = \<lparr>gv_policies = [], gv_events = [], gv_assigned = [], gv_next = 1\<rparr>"

section \<open>Approval cycles\<close>

lemma latest_cycle_append:
  "latest_cycle (xs @ ys) =
     (case latest_cycle ys of Some c \<Rightarrow> Some c | None \<Rightarrow> map_option (\<lambda>c. c @ ys) (latest_cycle xs))"
  by (induction xs) (auto split: option.split)

lemma approved_cycle_activated:
  assumes "is_approved_cycle es" "ae_type e = Activated"
  shows "is_approved_cycle (es @ [e])"
  using assms by (auto simp: is_approved_cycle_def latest_cycle_append split: option.splits)

text \<open>The invariant of the store: the events are in the order of their times, none is in the future,
  and what is active or retired was approved.\<close>

abbreviation events_of :: "gov_state \<Rightarrow> int \<Rightarrow> approval_event list" where
  "events_of st pid \<equiv> filter (\<lambda>e. ae_policy e = pid) (gv_events st)"

definition approved_inv :: "int \<Rightarrow> gov_state \<Rightarrow> bool" where
  "approved_inv t st \<longleftrightarrow> sorted (map ae_at (gv_events st)) \<and> (\<forall>e \<in> set (gv_events st). ae_at e \<le> t) \<and>
     (\<forall>pid row. dict_get (gv_policies st) pid = Some row \<longrightarrow> gp_status row \<in> {Active, Retired} \<longrightarrow>
        is_approved_cycle (events_of st pid))"

lemma load_events_sorted:
  "sorted (map ae_at (gv_events st)) \<Longrightarrow> load_events_for_policy st pid = events_of st pid"
  by (simp add: load_events_for_policy_def sorted_filter sort_key_id_if_sorted)

lemma approved_inv_put:
  assumes "approved_inv t st" "gp_status row \<in> {Active, Retired} \<Longrightarrow> is_approved_cycle (events_of st pid)"
  shows "approved_inv t (st\<lparr>gv_policies := dict_set pid row (gv_policies st)\<rparr>)"
  using assms by (auto simp: approved_inv_def dict_simps)

lemma approved_inv_record:
  assumes "approved_inv t st"
    and "\<And>row. dict_get (gv_policies st) pid = Some row \<Longrightarrow> gp_status row \<in> {Active, Retired} \<Longrightarrow>
           ty = Activated"
  shows "approved_inv t (record_event t pid ty actor comment st)"
  using assms unfolding approved_inv_def record_event_def
  by (auto simp: sorted_append intro!: approved_cycle_activated)

lemma approved_inv_transition:
  assumes "approved_inv t st" "transition_policy_status t pid target st = (r, st')"
    and "target = Active \<Longrightarrow> is_approved_cycle (events_of st pid)"
  shows "approved_inv t st'"
proof -
  have "is_approved_cycle (events_of st pid)"
    if "dict_get (gv_policies st) pid = Some row" "lifecycle_next (gp_status row) = Some target"
       "target \<in> {Active, Retired}" for row
    using that assms by (cases "gp_status row") (auto simp: approved_inv_def)
  then show ?thesis
    using assms(1,2) unfolding transition_policy_status_def Let_def
    by (auto split: option.split_asm if_split_asm intro!: approved_inv_put)
qed

lemma transition_active_only:
  assumes "transition_policy_status t pid target st = (Inr r, st')"
  shows "\<exists>row. dict_get (gv_policies st) pid = Some row \<and> lifecycle_next (gp_status row) = Some target \<and>
    gv_events st' = gv_events st \<and>
    (\<forall>row'. dict_get (gv_policies st') pid = Some row' \<longrightarrow> gp_status row' = target)"
  using assms unfolding transition_policy_status_def Let_def
  by (auto simp: dict_simps split: option.split_asm if_split_asm)

lemma approved_inv_mono: "approved_inv t st \<Longrightarrow> t \<le> t' \<Longrightarrow> approved_inv t' st"
  by (force simp: approved_inv_def)

lemma approved_inv_create: "approved_inv t st \<Longrightarrow> approved_inv t (snd (create_governance_policy t n d c s j st))"
  by (auto simp: create_governance_policy_def Let_def approved_inv_def dict_simps split: option.split)

lemma update_effect:
  obtains "snd (update_governance_policy now pid ed st) = st"
  | row row' where "dict_get (gv_policies st) pid = Some row" "gp_status row' = gp_status row"
      "snd (update_governance_policy now pid ed st) = st\<lparr>gv_policies := dict_set pid row' (gv_policies st)\<rparr>"
      "gp_status row \<in> {Active, Retired} \<longrightarrow> gp_json row' = gp_json row \<and> gp_version row' = gp_version row"
proof (cases "snd (update_governance_policy now pid ed st) = st")
  case False
  then obtain row where row: "dict_get (gv_policies st) pid = Some row"
    by (cases "dict_get (gv_policies st) pid") (auto simp: update_governance_policy_def)
  show ?thesis
  proof (cases "ed_json ed")
    case None
    have "snd (update_governance_policy now pid ed st) =
        st\<lparr>gv_policies := dict_set pid (edited_fields ed row\<lparr>gp_updated := now\<rparr>) (gv_policies st)\<rparr>"
      using False unfolding update_governance_policy_def row Let_def None by (simp split: if_split_asm)
    then show ?thesis by (rule that(2)[OF row, rotated]) (simp_all add: edited_fields_def)
  next
    case (Some pj)
    have "gp_status row \<notin> {Active, Retired} \<and> snd (update_governance_policy now pid ed st) =
        st\<lparr>gv_policies := dict_set pid (edited_fields ed row\<lparr>gp_json := pj, gp_version := gp_version row + 1,
          gp_updated := now\<rparr>) (gv_policies st)\<rparr>"
      using False unfolding update_governance_policy_def row Let_def Some
      by (simp split: if_split_asm option.split_asm)
    then show ?thesis by (elim conjE, intro that(2)[OF row]) (simp_all add: edited_fields_def)
  qed
qed

lemma approved_inv_update:
  assumes "approved_inv t st"
  shows "approved_inv t (snd (update_governance_policy t pid ed st))"
proof (cases rule: update_effect[of t pid ed st])
  case (2 row row')
  have "is_approved_cycle (events_of st pid)" if "gp_status row' \<in> {Active, Retired}"
    using that 2(1,2) assms unfolding approved_inv_def by auto
  then show ?thesis using approved_inv_put[OF assms] 2(3) by simp
qed (use assms in simp)

lemma filter_deleted:
  "q \<noteq> pid \<Longrightarrow> filter (\<lambda>e. ae_policy e = q) (filter (\<lambda>e. ae_policy e \<noteq> pid) es) = filter (\<lambda>e. ae_policy e = q) es"
  by (induction es) auto

lemma approved_inv_delete: "approved_inv t st \<Longrightarrow> approved_inv t (snd (delete_governance_policy pid st))"
  unfolding delete_governance_policy_def approved_inv_def
  by (auto simp: dict_simps sorted_filter filter_deleted simp del: filter_filter split: option.split)

lemma approved_inv_assign: "approved_inv t st \<Longrightarrow> approved_inv t (snd (set_policy_assignments ex t pid es st))"
  unfolding set_policy_assignments_def Let_def
  by (auto simp: approved_inv_def dict_simps split: option.split)

lemma approved_inv_submit:
  assumes "approved_inv t st"
  shows "approved_inv t (snd (submit_policy_approval t pid c a st))"
proof (cases "transition_policy_status t pid Review st")
  case (Pair r st1)
  have st1: "approved_inv t st1" by (rule approved_inv_transition[OF assms Pair]) simp
  have "approved_inv t (record_event t pid Submitted a c st1)" if "r = Inr u" for u
    using transition_active_only[of t pid Review st u st1] Pair that
    by (intro approved_inv_record[OF st1]) auto
  then show ?thesis
    using assms Pair unfolding submit_policy_approval_def submit_policy_for_review_def
    by (auto split: option.split policy_status.split sum.split)
qed

lemma approved_inv_in_review:
  assumes "approved_inv t st" "dict_get (gv_policies st) pid = Some row" "gp_status row = Review"
    "gp_status row' \<in> {Draft, Review}"
  shows "approved_inv t (record_event t pid ty a c st\<lparr>gv_policies := dict_set pid row' (gv_policies st)\<rparr>)"
proof -
  have "approved_inv t (record_event t pid ty a c st)"
    by (rule approved_inv_record[OF assms(1)]) (use assms in auto)
  then have "approved_inv t (record_event t pid ty a c st\<lparr>gv_policies := dict_set pid row' (gv_policies (record_event t pid ty a c st))\<rparr>)"
    by (rule approved_inv_put) (use assms(4) in auto)
  then show ?thesis by (simp add: record_event_def)
qed

lemma record_policies [simp]: "gv_policies (record_event t pid ty a c st) = gv_policies st"
  by (simp add: record_event_def)

lemma approved_inv_approve: "approved_inv t st \<Longrightarrow> approved_inv t (snd (approve_policy t pid c a st))"
  unfolding approve_policy_def Let_def
  by (auto split: option.split policy_status.split intro: approved_inv_in_review)

lemma approved_inv_reject: "approved_inv t st \<Longrightarrow> approved_inv t (snd (reject_policy t pid c a rc st))"
  unfolding reject_policy_def revert_policy_to_draft_def Let_def
  by (auto split: option.split policy_status.split intro: approved_inv_in_review)

lemma approved_inv_activate:
  assumes "approved_inv t st"
  shows "approved_inv t (snd (activate_approved_policy t pid c a st))"
proof (cases "is_approved_cycle (load_events_for_policy st pid)")
  case True
  then have ok: "is_approved_cycle (events_of st pid)"
    using assms by (simp add: approved_inv_def load_events_sorted)
  obtain r st1 where p: "transition_policy_status t pid Active st = (r, st1)"
    by (rule that[OF prod.collapse[symmetric]])
  have "approved_inv t st1" using ok by (intro approved_inv_transition[OF assms p]) simp
  then have "approved_inv t (record_event t pid Activated a c st1)"
    by (rule approved_inv_record) simp
  then show ?thesis
    using assms p unfolding activate_approved_policy_def activate_policy_def
    by (auto split: option.split policy_status.split sum.split gov_error.split)
next
  case False
  then show ?thesis using assms
    by (auto simp: activate_approved_policy_def split: option.split policy_status.split)
qed

lemma approved_inv_request:
  assumes "approved_inv t st" "\<nexists>pid. r = Activate_Directly pid"
  shows "approved_inv t (apply_request ex t r st)"
proof -
  have tr: "approved_inv t (snd (transition_policy_status t pid target st))" if "target \<noteq> Active" for pid target
    using that by (intro approved_inv_transition[OF assms(1) prod.collapse[symmetric]]) simp
  show ?thesis
    using assms tr
    by (cases r) (simp_all add: submit_policy_for_review_def retire_policy_def approved_inv_create approved_inv_update
        approved_inv_delete approved_inv_assign approved_inv_submit approved_inv_approve approved_inv_reject
        approved_inv_activate)
qed

lemma approved_inv_serve:
  assumes "approved_inv t0 st" "sorted (t0 # map fst rs)" "\<forall>r \<in> set rs. \<nexists>pid. snd r = Activate_Directly pid"
  shows "\<exists>t. approved_inv t (serve ex rs st)"
  using assms
proof (induction rs arbitrary: t0 st)
  case (Cons x rs)
  obtain now r where x: "x = (now, r)" by (cases x)
  have "approved_inv now (apply_request ex now r st)"
    using Cons.prems x by (intro approved_inv_request approved_inv_mono[of t0 st now]) auto
  moreover have "sorted (now # map fst rs)" using Cons.prems(2) x by simp
  ultimately show ?case using Cons.IH[of now] Cons.prems(3) x by simp
qed auto

text \<open>C25: A policy is only ever in force with an approval: in every state reached through the
  requests of both routers other than the direct activation, whatever edits, rejections, deletions
  and resubmissions come between, the latest submission of an active or retired policy was approved
  and neither rejected nor sent back.\<close>

theorem active_policy_was_approved:
  assumes "sorted (map fst rs)" "\<forall>r \<in> set rs. \<nexists>pid. snd r = Activate_Directly pid"
    and "dict_get (gv_policies (serve ex rs empty_gov)) pid = Some row" "gp_status row \<in> {Active, Retired}"
  shows "is_approved_cycle (load_events_for_policy (serve ex rs empty_gov) pid)"
proof -
  have "\<exists>t0. sorted (t0 # map fst rs)"
    using assms(1) by (cases rs) (auto intro: exI[of _ "fst (hd rs)"])
  then obtain t0 where "sorted (t0 # map fst rs)" ..
  then obtain t where t: "approved_inv t (serve ex rs empty_gov)"
    using approved_inv_serve[of t0 empty_gov rs ex] assms(2) by (auto simp: approved_inv_def empty_gov_def)
  then show ?thesis using assms(3,4) unfolding approved_inv_def by (auto simp: load_events_sorted)
qed

section \<open>What is in force stays as it is\<close>

definition frozen :: "int \<Rightarrow> gov_policy \<Rightarrow> gov_state \<Rightarrow> bool" where
  "frozen pid row st \<longleftrightarrow> pid < gv_next st \<and>
     (\<forall>row'. dict_get (gv_policies st) pid = Some row' \<longrightarrow>
        gp_status row' \<in> {Active, Retired} \<and> gp_json row' = gp_json row \<and> gp_version row' = gp_version row)"

lemma frozen_put:
  assumes "frozen pid row st" "gv_next st' = gv_next st" "gv_policies st' = dict_set q new (gv_policies st)"
    and "q = pid \<Longrightarrow> gp_status new \<in> {Active, Retired} \<and> gp_json new = gp_json row \<and> gp_version new = gp_version row"
  shows "frozen pid row st'"
  using assms by (auto simp: frozen_def dict_simps)

lemma frozen_row:
  "frozen pid row st \<Longrightarrow> dict_get (gv_policies st) pid = Some old \<Longrightarrow>
     gp_status old \<in> {Active, Retired} \<and> gp_json old = gp_json row \<and> gp_version old = gp_version row"
  by (auto simp: frozen_def)

lemma frozen_record [simp]: "frozen pid row (record_event t q ty a c st) = frozen pid row st"
  by (simp add: frozen_def record_event_def)

lemma frozen_transition:
  assumes "frozen pid row st"
  shows "frozen pid row (snd (transition_policy_status t q target st))"
proof (cases "dict_get (gv_policies st) q")
  case (Some old)
  have "target = Retired" if "q = pid" "lifecycle_next (gp_status old) = Some target"
    using frozen_row[OF assms, of old] that Some by auto
  then have "frozen pid row (st\<lparr>gv_policies := dict_set q (old\<lparr>gp_status := target, gp_updated := t,
      gp_activated := x, gp_retired := y\<rparr>) (gv_policies st)\<rparr>)"
    if "lifecycle_next (gp_status old) = Some target" for x y
    using frozen_row[OF assms, of old] Some that 
    by (intro frozen_put[OF assms, of _ q "old\<lparr>gp_status := target, gp_updated := t, gp_activated := x, gp_retired := y\<rparr>"])
      auto
  then show ?thesis using assms Some by (simp add: transition_policy_status_def Let_def)
qed (simp add: transition_policy_status_def assms)

lemma frozen_in_review:
  assumes "frozen pid row st" "dict_get (gv_policies st) q = Some old" "gp_status old = Review"
    "gv_next st' = gv_next st" "gv_policies st' = dict_set q new (gv_policies st)"
  shows "frozen pid row st'"
  using assms by (intro frozen_put[OF assms(1,4,5)]) (auto dest!: frozen_row)

lemma frozen_activate:
  assumes "frozen pid row st"
  shows "frozen pid row (snd (activate_approved_policy t q c a st))"
proof -
  obtain r st1 where p: "transition_policy_status t q Active st = (r, st1)"
    by (rule that[OF prod.collapse[symmetric]])
  then have "frozen pid row st1" using frozen_transition[OF assms, of t q Active] by simp
  then show ?thesis
    using assms p unfolding activate_approved_policy_def activate_policy_def
    by (auto split: option.split policy_status.split sum.split gov_error.split)
qed

lemma frozen_submit:
  assumes "frozen pid row st"
  shows "frozen pid row (snd (submit_policy_approval t q c a st))"
proof -
  obtain r st1 where p: "transition_policy_status t q Review st = (r, st1)"
    by (rule that[OF prod.collapse[symmetric]])
  then have "frozen pid row st1" using frozen_transition[OF assms, of t q Review] by simp
  then show ?thesis
    using assms p unfolding submit_policy_approval_def submit_policy_for_review_def
    by (auto split: option.split policy_status.split sum.split)
qed

lemma frozen_update:
  assumes "frozen pid row st"
  shows "frozen pid row (snd (update_governance_policy t q ed st))"
proof (cases rule: update_effect[of t q ed st])
  case (2 old new)
  show ?thesis
  proof (rule frozen_put[OF assms])
    show "gv_next (snd (update_governance_policy t q ed st)) = gv_next st" unfolding 2(3) by simp
    show "gv_policies (snd (update_governance_policy t q ed st)) = dict_set q new (gv_policies st)"
      unfolding 2(3) by simp
    show "gp_status new \<in> {Active, Retired} \<and> gp_json new = gp_json row \<and> gp_version new = gp_version row"
      if "q = pid" using frozen_row[OF assms, of old] 2(1,2,4) that by simp
  qed
qed (simp add: assms)

lemma frozen_create: "frozen pid row st \<Longrightarrow> frozen pid row (snd (create_governance_policy t n d c s j st))"
  by (auto simp: create_governance_policy_def Let_def frozen_def dict_simps split: option.split)

lemma frozen_delete: "frozen pid row st \<Longrightarrow> frozen pid row (snd (delete_governance_policy q st))"
  by (auto simp: delete_governance_policy_def frozen_def dict_simps split: option.split)

lemma frozen_assign:
  assumes "frozen pid row st"
  shows "frozen pid row (snd (set_policy_assignments ex t q es st))"
proof (cases "dict_get (gv_policies st) q")
  case (Some old)
  then show ?thesis
    using assms frozen_row[OF assms, of old] unfolding set_policy_assignments_def Let_def
    by (auto split: option.split intro!: frozen_put[OF assms])
qed (simp add: set_policy_assignments_def assms)

lemma frozen_approve:
  assumes "frozen pid row st"
  shows "frozen pid row (snd (approve_policy t q c a st))"
proof (cases "dict_get (gv_policies st) q")
  case (Some old)
  then show ?thesis
    using assms unfolding approve_policy_def Let_def
    by (cases "gp_status old") (simp_all add: frozen_in_review[OF assms Some] record_event_def)
qed (simp add: approve_policy_def assms)

lemma frozen_reject:
  assumes "frozen pid row st"
  shows "frozen pid row (snd (reject_policy t q c a rc st))"
proof (cases "dict_get (gv_policies st) q")
  case (Some old)
  then show ?thesis
    using assms unfolding reject_policy_def revert_policy_to_draft_def Let_def
    by (cases "gp_status old") (simp_all add: frozen_in_review[OF assms Some] record_event_def)
qed (simp add: reject_policy_def assms)

lemma frozen_request:
  assumes "frozen pid row st"
  shows "frozen pid row (apply_request ex t r st)"
  using assms
  by (cases r) (simp_all add: frozen_create frozen_update frozen_transition frozen_delete frozen_assign frozen_approve
      frozen_reject frozen_activate frozen_submit submit_policy_for_review_def activate_policy_def retire_policy_def)

lemma frozen_serve: "frozen pid row st \<Longrightarrow> frozen pid row (serve ex rs st)"
  by (induction rs arbitrary: st) (auto simp: frozen_request)

text \<open>C26: What is in force does not change: from the moment a policy is active, no sequence of
  requests of either router, the direct ones included, changes its conditions and actions or its
  version, takes it back to draft or review, or puts another policy under its identifier after a
  deletion.\<close>

theorem active_content_is_frozen:
  assumes "dict_get (gv_policies st) pid = Some row" "gp_status row \<in> {Active, Retired}" "pid < gv_next st"
    and "dict_get (gv_policies (serve ex rs st)) pid = Some row'"
  shows "gp_json row' = gp_json row \<and> gp_version row' = gp_version row \<and> gp_status row' \<in> {Active, Retired}"
proof -
  have "frozen pid row st" using assms(1-3) by (simp add: frozen_def)
  from frozen_row[OF frozen_serve[OF this] assms(4)] show ?thesis by blast
qed

section \<open>Concrete histories\<close>

definition rule_json :: "string \<Rightarrow> event" where
  "rule_json action = [(''conditions'', JList [JObj [(''field'', JStr ''field''), (''operator'', JStr ''equals''),
      (''value'', JStr ''ssn'')]]), (''actions'', JList [JObj [(''type'', JStr action)]])]"

abbreviation no_edit :: policy_edit where
  "no_edit \<equiv> \<lparr>ed_name = None, ed_description = None, ed_category = None, ed_status = None, ed_json = None\<rparr>"

definition approved_history :: "(int \<times> gov_request) list" where
  "approved_history =
     [(1, Create ''Mask'' None ''CUSTOM'' Draft (rule_json ''mask'')), (2, Submit_Approval 1 None ''ann''),
      (3, Reject 1 (Some ''no'') ''bob'' True), (4, Submit_Approval 1 None ''ann''), (5, Approve 1 None ''bob''),
      (6, Activate_Approved 1 None ''bob'')]"

abbreviation policy_after :: "(int \<times> gov_request) list \<Rightarrow> gov_policy option" where
  "policy_after rs \<equiv> dict_get (gv_policies (serve (\<lambda>_. True) rs empty_gov)) 1"

lemma policy_after_approved:
  "map_option gp_status (policy_after approved_history) = Some Active"
  "map_option gp_json (policy_after approved_history) = Some (rule_json ''mask'')"
  by code_simp+

theorem active_policy_was_approved_witness:
  "is_approved_cycle (load_events_for_policy (serve (\<lambda>_. True) approved_history empty_gov) 1)"
proof -
  obtain row where row: "policy_after approved_history = Some row" "gp_status row = Active"
    using policy_after_approved(1) by auto
  show ?thesis
    by (rule active_policy_was_approved[OF _ _ row(1)]) (simp_all add: approved_history_def row(2))
qed

theorem active_content_is_frozen_witness:
  "map_option gp_json (policy_after (approved_history @
     [(7, Update 1 (no_edit\<lparr>ed_json := Some (rule_json ''audit_only'')\<rparr>)), (8, Retire 1)])) = Some (rule_json ''mask'')"
proof -
  let ?st = "serve (\<lambda>_. True) approved_history empty_gov"
  let ?rs = "[(7, Update 1 (no_edit\<lparr>ed_json := Some (rule_json ''audit_only'')\<rparr>)), (8, Retire 1)]"
  have app: "serve ex (xs @ ys) st = serve ex ys (serve ex xs st)" for ex xs ys st
    by (induction xs arbitrary: st) auto
  obtain row where row: "dict_get (gv_policies ?st) 1 = Some row" "gp_status row = Active" "gp_json row = rule_json ''mask''"
    using policy_after_approved by auto
  have "map_option gp_status (dict_get (gv_policies (serve (\<lambda>_. True) ?rs ?st)) 1) = Some Retired" by code_simp
  then obtain row' where row': "dict_get (gv_policies (serve (\<lambda>_. True) ?rs ?st)) 1 = Some row'" by auto
  have "1 < gv_next ?st" by code_simp
  then have "gp_json row' = gp_json row"
    using active_content_is_frozen[OF row(1) _ _ row'] row(2) by simp
  then show ?thesis using row(3) row' by (simp add: app)
qed

text \<open>An approval does not cover what goes into force: the content may be edited between the
  approval and the activation. The policy below is approved masking a field, edited in review to
  only audit it, and activated with the approval of its earlier version.\<close>

theorem approved_then_edited:
  "map_option (\<lambda>row. (gp_status row, gp_version row, gp_json row))
     (policy_after [(1, Create ''Mask'' None ''CUSTOM'' Draft (rule_json ''mask'')), (2, Submit_Approval 1 None ''ann''),
        (3, Approve 1 None ''bob''), (4, Update 1 (no_edit\<lparr>ed_json := Some (rule_json ''audit_only'')\<rparr>)),
        (5, Activate_Approved 1 None ''ann'')])
   = Some (Active, 2, rule_json ''audit_only'')"
  by code_simp

text \<open>The direct activation needs no approval: through the lifecycle routes of the policy router
  a policy reaches \<open>ACTIVE\<close> with no approval event at all.\<close>

theorem direct_activation_unapproved:
  "map_option gp_status (policy_after [(1, Create ''Mask'' None ''CUSTOM'' Draft (rule_json ''mask'')),
      (2, Submit_Review 1), (3, Activate_Directly 1)]) = Some Active \<and>
   gv_events (serve (\<lambda>_. True) [(1, Create ''Mask'' None ''CUSTOM'' Draft (rule_json ''mask'')),
      (2, Submit_Review 1), (3, Activate_Directly 1)] empty_gov) = []"
  by (rule conjI; code_simp)

end
