(* ===== verification/Backfill.thy ===== *)
theory Backfill
  imports Run_Properties
begin

text \<open>
  \<open>app/backfill/service.py\<close>, \<open>worker.py\<close> and \<open>runtime.py\<close>: the jobs that replay a time window of a
  stream, their start, cancellation and end, and the reconciliation at the start of a process. A
  definition is one transaction, or one stretch of the worker between two commits. Every process
  has a coordinator of its own. The lock of a stream is held from the locked read to the commit; what
  the session had loaded before it waited for the lock is the argument \<open>seen\<close>, and \<open>fresh\<close> says
  whether the locked read replaces it (SQLAlchemy keeps the attributes of an object the session
  already holds unless the query asks for \<open>populate_existing\<close>). The parser of ISO texts, the run of
  the stream and the snapshot of the source are parameters. Rows deleted under a request and the
  list queries are left out.
\<close>

section \<open>Jobs\<close>

datatype job_status = J_Pending | J_Running | J_Cancelling | J_Completed | J_Failed | J_Cancelled

fun job_status_text :: "job_status \<Rightarrow> string" where
  "job_status_text J_Pending = ''PENDING''"
| "job_status_text J_Running = ''RUNNING''"
| "job_status_text J_Cancelling = ''CANCELLING''"
| "job_status_text J_Completed = ''COMPLETED''"
| "job_status_text J_Failed = ''FAILED''"
| "job_status_text J_Cancelled = ''CANCELLED''"

record replay_summary =
  sm_outcome :: string
  sm_extracted :: int
  sm_sent :: int
  sm_skipped :: int

record delivery_summary =
  dv_status :: string
  dv_sent :: int
  dv_failed :: int
  dv_skipped :: int

record backfill_options =
  bo_start :: "string option"
  bo_end :: "string option"
  bo_dry_run :: bool
  bo_dry_complete :: bool

type_synonym checkpoint_snapshot = "string \<times> json"

record backfill_job =
  jb_stream :: int
  jb_status :: job_status
  jb_mode :: string
  jb_by :: string
  jb_started :: "int option"
  jb_completed :: "int option"
  jb_failed :: "int option"
  jb_snapshot :: "checkpoint_snapshot option"
  jb_options :: backfill_options
  jb_progress :: event
  jb_error :: "string option"
  jb_summary :: "delivery_summary option"

record progress_event =
  pe_job :: int
  pe_stream :: int
  pe_type :: string
  pe_level :: string
  pe_code :: "string option"

record backfill_world =
  bw_jobs :: "(int, backfill_job) dict"
  bw_next :: int
  bw_events :: "progress_event list"

definition active_job :: "backfill_job \<Rightarrow> bool" where
  "active_job j \<longleftrightarrow> jb_status j \<in> {J_Running, J_Cancelling}"

definition count_active_backfills_on_stream :: "backfill_world \<Rightarrow> int \<Rightarrow> int \<Rightarrow> nat" where
  "count_active_backfills_on_stream w sid excl =
     length (filter (\<lambda>(i, j). jb_stream j = sid \<and> active_job j \<and> i \<noteq> excl) (bw_jobs w))"

definition list_active_backfill_jobs :: "backfill_world \<Rightarrow> (int \<times> backfill_job) list" where
  "list_active_backfill_jobs w = sort_key fst (filter (\<lambda>(i, j). active_job j) (bw_jobs w))"

definition stage_progress_event :: "int \<Rightarrow> int \<Rightarrow> string \<Rightarrow> string \<Rightarrow> string option \<Rightarrow> backfill_world \<Rightarrow> backfill_world" where
  "stage_progress_event jid sid ty level code w =
     w\<lparr>bw_events := bw_events w @ [\<lparr>pe_job = jid, pe_stream = sid, pe_type = ty, pe_level = level, pe_code = code\<rparr>]\<rparr>"

definition save_job :: "int \<Rightarrow> backfill_job \<Rightarrow> backfill_world \<Rightarrow> backfill_world" where
  "save_job jid j w = w\<lparr>bw_jobs := dict_set jid j (bw_jobs w)\<rparr>"

section \<open>The coordinator of a process\<close>

record ephemeral_checkpoint =
  eph_mode :: string
  eph_type :: string
  eph_value :: json

record coordinator =
  co_sessions :: "(int, ephemeral_checkpoint) dict"
  co_cancel :: "int set"
  co_owned :: "int set"

definition new_coordinator :: coordinator where
  "new_coordinator = \<lparr>co_sessions = [], co_cancel = {}, co_owned = {}\<rparr>"

definition capture_checkpoint_snapshot :: "checkpoint_table \<Rightarrow> int \<Rightarrow> checkpoint_snapshot option" where
  "capture_checkpoint_snapshot db sid =
     map_option (\<lambda>row. (cp_type row, cp_value row)) (get_checkpoint_by_stream_id db sid)"

definition build_ephemeral_checkpoint_state :: "checkpoint_snapshot option \<Rightarrow> ephemeral_checkpoint" where
  "build_ephemeral_checkpoint_state snap =
     (case snap of
        None \<Rightarrow> \<lparr>eph_mode = ''empty'', eph_type = ''NONE'', eph_value = JObj []\<rparr>
      | Some (t, v) \<Rightarrow> \<lparr>eph_mode = ''from_snapshot'', eph_type = t, eph_value = (if truthy v then v else JObj [])\<rparr>)"

definition register_job_session :: "int \<Rightarrow> checkpoint_snapshot option \<Rightarrow> coordinator \<Rightarrow> coordinator" where
  "register_job_session jid snap c = c\<lparr>co_sessions := dict_set jid (build_ephemeral_checkpoint_state snap) (co_sessions c)\<rparr>"

definition clear_job_session :: "int \<Rightarrow> coordinator \<Rightarrow> coordinator" where
  "clear_job_session jid c =
     c\<lparr>co_sessions := dict_del jid (co_sessions c), co_cancel := co_cancel c - {jid}, co_owned := co_owned c - {jid}\<rparr>"

definition claim_job_owner :: "int \<Rightarrow> coordinator \<Rightarrow> bool \<times> coordinator" where
  "claim_job_owner jid c = (if jid \<in> co_owned c then (False, c) else (True, c\<lparr>co_owned := insert jid (co_owned c)\<rparr>))"

definition release_job_owner :: "int \<Rightarrow> coordinator \<Rightarrow> coordinator" where
  "release_job_owner jid c = c\<lparr>co_owned := co_owned c - {jid}\<rparr>"

definition is_job_owned :: "int \<Rightarrow> coordinator \<Rightarrow> bool" where
  "is_job_owned jid c = (jid \<in> co_owned c)"

definition request_cancel :: "int \<Rightarrow> coordinator \<Rightarrow> coordinator" where
  "request_cancel jid c = c\<lparr>co_cancel := insert jid (co_cancel c)\<rparr>"

definition is_cancel_requested :: "int \<Rightarrow> coordinator \<Rightarrow> bool" where
  "is_cancel_requested jid c = (jid \<in> co_cancel c)"

section \<open>Requests\<close>

datatype backfill_error =
    Bad_Mode
  | Stream_Missing
  | Job_Missing
  | Invalid_Transition job_status
  | Another_Active
  | Status_Changed
  | Bad_Window

definition allowed_modes :: "string list" where
  "allowed_modes = [''CHECKPOINT_REWIND'', ''TIME_RANGE_REPLAY'', ''OBJECT_REPLAY'', ''FILE_REPLAY'', ''INITIAL_FILL'']"

definition default_progress :: event where
  "default_progress = [(''phase'', JStr ''queued''), (''chunks_done'', JInt 0), (''chunks_total'', JNull)]"

definition create_backfill_job ::
    "(int \<Rightarrow> bool) \<Rightarrow> checkpoint_table \<Rightarrow> int \<Rightarrow> string \<Rightarrow> string \<Rightarrow> backfill_options \<Rightarrow> coordinator \<Rightarrow> backfill_world \<Rightarrow>
     (backfill_error + int) \<times> coordinator \<times> backfill_world" where
  "create_backfill_job stream_exists cps sid mode by_user opts c w =
     (if mode \<notin> set allowed_modes then (Inl Bad_Mode, c, w)
      else if \<not> stream_exists sid then (Inl Stream_Missing, c, w)
      else
        (let snap = capture_checkpoint_snapshot cps sid;
             jid = bw_next w;
             j = \<lparr>jb_stream = sid, jb_status = J_Pending, jb_mode = mode,
                  jb_by = take 256 (if by_user = [] then ''unknown'' else by_user), jb_started = None, jb_completed = None,
                  jb_failed = None, jb_snapshot = snap, jb_options = opts, jb_progress = default_progress,
                  jb_error = None, jb_summary = None\<rparr>
         in (Inr jid, register_job_session jid snap c,
             stage_progress_event jid sid ''job_created'' ''INFO'' None ((save_job jid j w)\<lparr>bw_next := jid + 1\<rparr>))))"

text \<open>The status the guards of a locked read see.\<close>

definition locked_status :: "bool \<Rightarrow> job_status \<Rightarrow> backfill_job \<Rightarrow> job_status" where
  "locked_status fresh seen j = (if fresh then jb_status j else seen)"

text \<open>\<open>start_backfill_job\<close> up to the commit; the worker of the request comes after it.\<close>

definition start_backfill_job ::
    "bool \<Rightarrow> job_status \<Rightarrow> int \<Rightarrow> int \<Rightarrow> coordinator \<Rightarrow> backfill_world \<Rightarrow>
     (backfill_error + unit) \<times> coordinator \<times> backfill_world" where
  "start_backfill_job fresh seen now jid c w =
     (case dict_get (bw_jobs w) jid of
        None \<Rightarrow> (Inl Job_Missing, c, w)
      | Some j \<Rightarrow>
          (let s = locked_status fresh seen j
           in if s \<noteq> J_Pending then (Inl (Invalid_Transition s), c, w)
              else if count_active_backfills_on_stream w (jb_stream j) jid > 0 then
                (Inl Another_Active, c,
                 stage_progress_event jid (jb_stream j) ''job_failed'' ''WARNING'' (Some ''CONCURRENT_BACKFILL_ACTIVE'') w)
              else
                (Inr (), register_job_session jid (jb_snapshot j) c,
                 stage_progress_event jid (jb_stream j) ''job_started'' ''INFO'' None
                   (save_job jid (j\<lparr>jb_status := J_Running,
                                    jb_started := (case jb_started j of None \<Rightarrow> Some now | Some t \<Rightarrow> Some t)\<rparr>) w))))"

text \<open>\<open>replay_stream_backfill\<close>: a window from the operator, created and started; \<open>iso_text\<close> writes a time
  as an ISO text.\<close>

definition replay_stream_backfill ::
    "(int \<Rightarrow> bool) \<Rightarrow> checkpoint_table \<Rightarrow> (int \<Rightarrow> string) \<Rightarrow> int \<Rightarrow> int \<Rightarrow> int \<Rightarrow> bool \<Rightarrow> string \<Rightarrow> int \<Rightarrow> coordinator \<Rightarrow>
     backfill_world \<Rightarrow> (backfill_error + int) \<times> coordinator \<times> backfill_world" where
  "replay_stream_backfill stream_exists cps iso_text sid from_t to_t dry by_user now c w =
     (if from_t \<ge> to_t then (Inl Bad_Window, c, w)
      else
        (case create_backfill_job stream_exists cps sid ''TIME_RANGE_REPLAY'' by_user
                \<lparr>bo_start = Some (iso_text from_t), bo_end = Some (iso_text to_t), bo_dry_run = dry, bo_dry_complete = False\<rparr> c w of
           (Inl e, cw) \<Rightarrow> (Inl e, cw)
         | (Inr jid, c1, w1) \<Rightarrow>
             (case start_backfill_job True J_Pending now jid c1 w1 of
                (Inl e, cw) \<Rightarrow> (Inl e, cw)
              | (Inr _, cw) \<Rightarrow> (Inr jid, cw))))"

definition completed_once :: "int \<Rightarrow> backfill_job \<Rightarrow> backfill_job" where
  "completed_once now j = j\<lparr>jb_completed := (case jb_completed j of None \<Rightarrow> Some now | Some t \<Rightarrow> Some t)\<rparr>"

definition finalize_cancelling_without_owner ::
    "bool \<Rightarrow> job_status \<Rightarrow> int \<Rightarrow> int \<Rightarrow> coordinator \<Rightarrow> backfill_world \<Rightarrow>
     (backfill_error + unit) \<times> coordinator \<times> backfill_world" where
  "finalize_cancelling_without_owner fresh seen now jid c w =
     (case dict_get (bw_jobs w) jid of
        None \<Rightarrow> (Inl Job_Missing, c, w)
      | Some j \<Rightarrow>
          (let s = locked_status fresh seen j
           in if s = J_Cancelled then (Inr (), c, w)
              else if s \<noteq> J_Cancelling then (Inl Status_Changed, c, w)
              else if is_job_owned jid c then (Inr (), c, w)
              else (Inr (), clear_job_session jid c,
                    stage_progress_event jid (jb_stream j) ''job_cancelled'' ''INFO'' None
                      (save_job jid (completed_once now (j\<lparr>jb_status := J_Cancelled\<rparr>)) w))))"

text \<open>\<open>cancel_backfill_job\<close>: \<open>seen\<close> is the status of its first read. After the commit of a
  cancellation the session reads again, so that the finalisation sees \<open>CANCELLING\<close>.\<close>

definition cancel_backfill_job ::
    "bool \<Rightarrow> job_status \<Rightarrow> int \<Rightarrow> int \<Rightarrow> coordinator \<Rightarrow> backfill_world \<Rightarrow>
     (backfill_error + unit) \<times> coordinator \<times> backfill_world" where
  "cancel_backfill_job fresh seen now jid c w =
     (case dict_get (bw_jobs w) jid of
        None \<Rightarrow> (Inl Job_Missing, c, w)
      | Some j \<Rightarrow>
          (if seen = J_Pending then
             (if locked_status fresh seen j \<noteq> J_Pending then (Inl Status_Changed, c, w)
              else (Inr (), clear_job_session jid c,
                    stage_progress_event jid (jb_stream j) ''job_cancelled'' ''INFO'' None
                      (stage_progress_event jid (jb_stream j) ''cancellation_requested'' ''INFO'' None
                        (save_job jid (j\<lparr>jb_status := J_Cancelled\<rparr>) w))))
           else if seen = J_Running then
             (if locked_status fresh seen j \<noteq> J_Running then (Inl Status_Changed, c, w)
              else
                (let c1 = request_cancel jid c;
                     w1 = stage_progress_event jid (jb_stream j) ''cancellation_requested'' ''INFO'' None
                            (save_job jid (j\<lparr>jb_status := J_Cancelling\<rparr>) w)
                 in if is_job_owned jid c1 then (Inr (), c1, w1)
                    else finalize_cancelling_without_owner fresh J_Cancelling now jid c1 w1))
           else if seen = J_Cancelling then
             (let c1 = request_cancel jid c
              in if is_job_owned jid c1 then (Inr (), c1, w)
                 else finalize_cancelling_without_owner fresh seen now jid c1 w)
           else (Inl (Invalid_Transition seen), c, w)))"

section \<open>The worker\<close>

definition fail_job :: "int \<Rightarrow> int \<Rightarrow> string \<Rightarrow> backfill_world \<Rightarrow> backfill_world" where
  "fail_job now jid msg w =
     (case dict_get (bw_jobs w) jid of
        None \<Rightarrow> w
      | Some j \<Rightarrow>
          if \<not> active_job j then w
          else stage_progress_event jid (jb_stream j) ''job_failed'' ''ERROR'' (Some ''REPLAY_FAILED'')
                 (save_job jid (j\<lparr>jb_status := J_Failed, jb_failed := Some now, jb_error := Some (take 8000 msg)\<rparr>) w))"

definition cancel_terminal :: "int \<Rightarrow> int \<Rightarrow> coordinator \<Rightarrow> backfill_world \<Rightarrow> coordinator \<times> backfill_world" where
  "cancel_terminal now jid c w =
     (case dict_get (bw_jobs w) jid of
        None \<Rightarrow> (c, w)
      | Some j \<Rightarrow>
          if \<not> active_job j then (c, w)
          else (clear_job_session jid c,
                stage_progress_event jid (jb_stream j) ''job_cancelled'' ''INFO'' None
                  (save_job jid (completed_once now (j\<lparr>jb_status := J_Cancelled\<rparr>)) w)))"

text \<open>A parsed time: whether it has a zone, and its instant. Python refuses to compare a time with a
  zone and one without.\<close>

record backfill_env =
  be_iso :: "string \<Rightarrow> (bool \<times> int) option"
  be_load :: "int \<Rightarrow> string option"

definition parse_iso_dt :: "backfill_env \<Rightarrow> string \<Rightarrow> (bool \<times> int) option" where
  "parse_iso_dt env raw =
     (let s = py_strip raw
      in be_iso env (if s \<noteq> [] \<and> last s = CHR ''Z'' then butlast s @ ''+00:00'' else s))"

text \<open>The options the run of the stream gets: no checkpoint, the window, and whether it is dry.\<close>

record replay_run =
  rq_stream :: int
  rq_persist :: bool
  rq_from :: int
  rq_to :: int
  rq_dry :: bool

text \<open>What a stretch of the worker leaves: it is done, a run of the stream comes next, the second half
  of the dry lifecycle does, or it raises.\<close>

datatype worker_next = W_Done | W_Run replay_run | W_Dry | W_Raised

definition run_replay_job ::
    "backfill_env \<Rightarrow> int \<Rightarrow> int \<Rightarrow> coordinator \<Rightarrow> backfill_world \<Rightarrow> worker_next \<times> coordinator \<times> backfill_world" where
  "run_replay_job env now jid c w =
     (case dict_get (bw_jobs w) jid of
        None \<Rightarrow> (W_Done, c, w)
      | Some j \<Rightarrow>
          if \<not> active_job j then (W_Done, c, w)
          else if is_cancel_requested jid c \<or> jb_status j = J_Cancelling then (W_Done, cancel_terminal now jid c w)
          else
            (case (Option.bind (bo_start (jb_options j)) (parse_iso_dt env), Option.bind (bo_end (jb_options j)) (parse_iso_dt env)) of
               (Some (zs, s), Some (ze, e)) \<Rightarrow>
                 if zs \<noteq> ze then (W_Raised, c, w)
                 else if s \<ge> e then (W_Done, c, fail_job now jid ''start_time must be before end_time'' w)
                 else
                   (let w1 = stage_progress_event jid (jb_stream j) ''replay_started'' ''INFO'' None w
                    in case be_load env (jb_stream j) of
                         Some err \<Rightarrow> (W_Done, c, fail_job now jid err w1)
                       | None \<Rightarrow> (W_Run \<lparr>rq_stream = jb_stream j, rq_persist = False, rq_from = s, rq_to = e,
                                         rq_dry = bo_dry_run (jb_options j)\<rparr>, c, w1))
             | _ \<Rightarrow> (W_Done, c, fail_job now jid ''invalid backfill window'' w)))"

text \<open>After the run: the error it raised, or its summary. The worker reads the job, and where it is
  still running it saves the result in the next stretch.\<close>

definition after_run ::
    "int \<Rightarrow> int \<Rightarrow> string + replay_summary \<Rightarrow> coordinator \<Rightarrow> backfill_world \<Rightarrow>
     backfill_job option \<times> coordinator \<times> backfill_world" where
  "after_run now jid res c w =
     (case res of
        Inl err \<Rightarrow> (None, c, fail_job now jid err w)
      | Inr sm \<Rightarrow>
          if is_cancel_requested jid c then (None, cancel_terminal now jid c w)
          else
            (case dict_get (bw_jobs w) jid of
               None \<Rightarrow> (None, c, w)
             | Some j \<Rightarrow>
                 if jb_status j = J_Cancelling then (None, cancel_terminal now jid c w)
                 else if jb_status j \<noteq> J_Running then (None, c, w)
                 else (Some j, c, w)))"

definition merge_progress :: "event \<Rightarrow> event \<Rightarrow> event" where
  "merge_progress upd d = fold (\<lambda>(k, v). dict_set k v) upd d"

text \<open>The update writes the columns the worker changed in the row \<open>j\<close> it had read, over whatever the
  row is by then; an error that was \<open>None\<close> and is set to \<open>None\<close> is no change.\<close>

definition save_result :: "int \<Rightarrow> int \<Rightarrow> replay_summary \<Rightarrow> backfill_job \<Rightarrow> backfill_world \<Rightarrow> backfill_world" where
  "save_result now jid sm j w =
     (case dict_get (bw_jobs w) jid of
        None \<Rightarrow> w
      | Some cur \<Rightarrow>
          (let summary = \<lparr>dv_status = sm_outcome sm, dv_sent = sm_sent sm,
                          dv_failed = max 0 (sm_extracted sm - sm_sent sm - sm_skipped sm), dv_skipped = sm_skipped sm\<rparr>;
               cur1 = cur\<lparr>jb_progress := merge_progress [(''phase'', JStr ''completed''), (''stream_outcome'', JStr (sm_outcome sm)),
                        (''extracted_event_count'', JInt (sm_extracted sm)), (''delivered_batch_event_count'', JInt (sm_sent sm))]
                        (jb_progress j), jb_summary := Some summary\<rparr>;
               cur2 = (if sm_outcome sm = ''skipped_lock''
                       then cur1\<lparr>jb_status := J_Failed, jb_failed := Some now,
                               jb_error := Some ''Stream lock held; replay did not run''\<rparr>
                       else cur1\<lparr>jb_status := J_Completed, jb_completed := Some now,
                               jb_error := (if jb_error j = None then jb_error cur else None)\<rparr>)
           in stage_progress_event jid (jb_stream j) ''replay_completed'' ''INFO'' None (save_job jid cur2 w)))"

text \<open>A job without a window: markers, and after their commits a second read.\<close>

definition run_dry_lifecycle :: "int \<Rightarrow> int \<Rightarrow> coordinator \<Rightarrow> backfill_world \<Rightarrow> worker_next \<times> coordinator \<times> backfill_world" where
  "run_dry_lifecycle now jid c w =
     (case dict_get (bw_jobs w) jid of
        None \<Rightarrow> (W_Done, c, w)
      | Some j \<Rightarrow>
          if \<not> active_job j then (W_Done, c, w)
          else if is_cancel_requested jid c \<or> jb_status j = J_Cancelling then (W_Done, cancel_terminal now jid c w)
          else
            (let ev = (\<lambda>ty. stage_progress_event jid (jb_stream j) ty ''INFO'' None)
             in (W_Dry, c, ev ''chunk_completed'' (ev ''checkpoint_snapshot_used'' (ev ''chunk_started'' w)))))"

definition finish_dry_lifecycle :: "int \<Rightarrow> int \<Rightarrow> coordinator \<Rightarrow> backfill_world \<Rightarrow> coordinator \<times> backfill_world" where
  "finish_dry_lifecycle now jid c w =
     (case dict_get (bw_jobs w) jid of
        None \<Rightarrow> (c, w)
      | Some j \<Rightarrow>
          if jb_status j = J_Cancelling \<or> is_cancel_requested jid c then cancel_terminal now jid c w
          else if jb_status j \<noteq> J_Running then (c, w)
          else
            (let j1 = j\<lparr>jb_progress := merge_progress [(''phase'', JStr ''running''), (''chunk_index'', JInt 0),
                          (''chunks_done'', JInt 1)] (jb_progress j)\<rparr>
             in if bo_dry_complete (jb_options j)
                then (c, stage_progress_event jid (jb_stream j) ''job_completed'' ''INFO'' None
                           (save_job jid (j1\<lparr>jb_status := J_Completed, jb_completed := Some now\<rparr>) w))
                else (c, save_job jid j1 w)))"

text \<open>\<open>start_job\<close>, up to what comes next; the owner is released where nothing does.\<close>

definition worker_start_job ::
    "backfill_env \<Rightarrow> int \<Rightarrow> int \<Rightarrow> coordinator \<Rightarrow> backfill_world \<Rightarrow> worker_next \<times> coordinator \<times> backfill_world" where
  "worker_start_job env now jid c w =
     (case claim_job_owner jid c of
        (False, c1) \<Rightarrow> (W_Done, c1, w)
      | (True, c1) \<Rightarrow>
          (let (next, c2, w2) =
             (case dict_get (bw_jobs w) jid of
                None \<Rightarrow> (W_Done, c1, w)
              | Some j \<Rightarrow>
                  if bo_start (jb_options j) \<notin> {None, Some []} \<and> bo_end (jb_options j) \<notin> {None, Some []}
                  then run_replay_job env now jid c1 w
                  else run_dry_lifecycle now jid c1 w)
           in (next, if next \<in> {W_Done, W_Raised} then release_job_owner jid c2 else c2, w2)))"

section \<open>Reconciliation\<close>

definition reconcile_job ::
    "bool \<Rightarrow> job_status \<Rightarrow> int \<Rightarrow> int \<Rightarrow> coordinator \<Rightarrow> backfill_world \<Rightarrow> coordinator \<times> backfill_world" where
  "reconcile_job fresh seen now jid c w =
     (if is_job_owned jid c then (c, w)
      else
        (case dict_get (bw_jobs w) jid of
           None \<Rightarrow> (c, w)
         | Some j \<Rightarrow>
             (let s = locked_status fresh seen j
              in if s \<notin> {J_Running, J_Cancelling} then (c, w)
                 else if s = J_Running then
                   (clear_job_session jid c,
                    stage_progress_event jid (jb_stream j) ''job_failed'' ''ERROR'' (Some ''OWNERSHIP_LOST_ON_RESTART'')
                      (save_job jid (j\<lparr>jb_status := J_Failed, jb_failed := Some now,
                         jb_error := Some ''Backfill ownership lost after process restart'',
                         jb_progress := merge_progress [(''phase'', JStr ''failed''),
                           (''reconcile'', JStr ''ownership_lost_on_restart'')] (jb_progress j)\<rparr>) w))
                 else
                   (clear_job_session jid c,
                    stage_progress_event jid (jb_stream j) ''job_cancelled'' ''INFO'' (Some ''OWNERSHIP_LOST_ON_RESTART'')
                      (save_job jid (completed_once now (j\<lparr>jb_status := J_Cancelled,
                         jb_progress := merge_progress [(''phase'', JStr ''cancelled''),
                           (''reconcile'', JStr ''ownership_lost_on_restart'')] (jb_progress j)\<rparr>)) w)))))"

definition reconcile_orphaned_backfill_jobs :: "int \<Rightarrow> coordinator \<Rightarrow> backfill_world \<Rightarrow> coordinator \<times> backfill_world" where
  "reconcile_orphaned_backfill_jobs now c w =
     fold (\<lambda>(jid, j) (c, w). reconcile_job True (jb_status j) now jid c w) (list_active_backfill_jobs w) (c, w)"

section \<open>Processes\<close>

text \<open>The threads of the processes, each with the process it belongs to and what it is about to do; the
  runs of streams that were made, in order. A crash loses a process' threads and its coordinator.\<close>

datatype worker_phase =
    P_Start int
  | P_Run int replay_run
  | P_Save int replay_summary backfill_job
  | P_Dry int

record backfill_sys =
  bz_world :: backfill_world
  bz_coord :: "nat \<Rightarrow> coordinator"
  bz_threads :: "nat \<Rightarrow> (nat \<times> worker_phase) option"
  bz_runs :: "replay_run list"

definition set_coord :: "nat \<Rightarrow> coordinator \<times> backfill_world \<Rightarrow> backfill_sys \<Rightarrow> backfill_sys" where
  "set_coord p cw s = s\<lparr>bz_coord := (bz_coord s)(p := fst cw), bz_world := snd cw\<rparr>"

definition set_thread :: "nat \<Rightarrow> (nat \<times> worker_phase) option \<Rightarrow> backfill_sys \<Rightarrow> backfill_sys" where
  "set_thread t x s = s\<lparr>bz_threads := (bz_threads s)(t := x)\<rparr>"

definition next_phase :: "nat \<Rightarrow> int \<Rightarrow> worker_next \<Rightarrow> (nat \<times> worker_phase) option" where
  "next_phase p jid n = (case n of W_Run r \<Rightarrow> Some (p, P_Run jid r) | W_Dry \<Rightarrow> Some (p, P_Dry jid) | _ \<Rightarrow> None)"

inductive backfill_step :: "bool \<Rightarrow> backfill_env \<Rightarrow> backfill_sys \<Rightarrow> backfill_sys \<Rightarrow> bool" for fresh env where
  bs_create:
    "backfill_step fresh env s
       (set_coord p (snd (create_backfill_job ex cps sid mode by_user opts (bz_coord s p) (bz_world s))) s)"
| bs_start:
    "start_backfill_job fresh seen now jid (bz_coord s p) (bz_world s) = (Inr (), cw) \<Longrightarrow> bz_threads s t = None \<Longrightarrow>
     backfill_step fresh env s (set_thread t (Some (p, P_Start jid)) (set_coord p cw s))"
| bs_start_refused:
    "start_backfill_job fresh seen now jid (bz_coord s p) (bz_world s) = (Inl e, cw) \<Longrightarrow>
     backfill_step fresh env s (set_coord p cw s)"
| bs_worker:
    "bz_threads s t = Some (p, P_Start jid) \<Longrightarrow> worker_start_job env now jid (bz_coord s p) (bz_world s) = (n, cw) \<Longrightarrow>
     backfill_step fresh env s (set_thread t (next_phase p jid n) (set_coord p cw s))"
| bs_run:
    "bz_threads s t = Some (p, P_Run jid r) \<Longrightarrow> after_run now jid res (bz_coord s p) (bz_world s) = (j, c, w) \<Longrightarrow>
     backfill_step fresh env s
       ((set_thread t (case (j, res) of (Some x, Inr sm) \<Rightarrow> Some (p, P_Save jid sm x) | _ \<Rightarrow> None)
          (set_coord p (if j = None then release_job_owner jid c else c, w) s))\<lparr>bz_runs := bz_runs s @ [r]\<rparr>)"
| bs_save:
    "bz_threads s t = Some (p, P_Save jid sm j) \<Longrightarrow>
     backfill_step fresh env s
       (set_thread t None (set_coord p (release_job_owner jid (bz_coord s p), save_result now jid sm j (bz_world s)) s))"
| bs_dry:
    "bz_threads s t = Some (p, P_Dry jid) \<Longrightarrow> finish_dry_lifecycle now jid (bz_coord s p) (bz_world s) = (c, w) \<Longrightarrow>
     backfill_step fresh env s (set_thread t None (set_coord p (release_job_owner jid c, w) s))"
| bs_cancel:
    "backfill_step fresh env s (set_coord p (snd (cancel_backfill_job fresh seen now jid (bz_coord s p) (bz_world s))) s)"
| bs_reconcile:
    "backfill_step fresh env s (set_coord p (reconcile_job fresh seen now jid (bz_coord s p) (bz_world s)) s)"
| bs_crash:
    "backfill_step fresh env s
       (s\<lparr>bz_coord := (bz_coord s)(p := new_coordinator),
          bz_threads := (\<lambda>t. case bz_threads s t of Some (q, ph) \<Rightarrow> if q = p then None else Some (q, ph) | None \<Rightarrow> None)\<rparr>)"

inductive backfill_reach :: "bool \<Rightarrow> backfill_env \<Rightarrow> backfill_sys \<Rightarrow> backfill_sys \<Rightarrow> bool" for fresh env s0 where
  br_start: "backfill_reach fresh env s0 s0"
| br_step: "backfill_reach fresh env s0 s \<Longrightarrow> backfill_step fresh env s s' \<Longrightarrow> backfill_reach fresh env s0 s'"

section \<open>One active job per stream\<close>

definition one_active :: "backfill_world \<Rightarrow> bool" where
  "one_active w \<longleftrightarrow> (\<forall>i j i' j'. dict_get (bw_jobs w) i = Some j \<longrightarrow> dict_get (bw_jobs w) i' = Some j' \<longrightarrow>
     active_job j \<longrightarrow> active_job j' \<longrightarrow> jb_stream j = jb_stream j' \<longrightarrow> i = i')"

text \<open>A transaction that makes no job active.\<close>

definition calm :: "backfill_world \<Rightarrow> backfill_world \<Rightarrow> bool" where
  "calm w w' \<longleftrightarrow> (\<forall>i j'. dict_get (bw_jobs w') i = Some j' \<longrightarrow> active_job j' \<longrightarrow>
     (\<exists>j. dict_get (bw_jobs w) i = Some j \<and> active_job j \<and> jb_stream j' = jb_stream j))"

lemma calm_refl [simp, intro]: "calm w w"
  by (auto simp: calm_def)

lemma calm_trans: "calm w w1 \<Longrightarrow> calm w1 w2 \<Longrightarrow> calm w w2"
  by (fastforce simp: calm_def)

lemma calm_one_active: "calm w w' \<Longrightarrow> one_active w \<Longrightarrow> one_active w'"
  unfolding calm_def one_active_def by metis

lemma calm_stage [simp]: "calm w (stage_progress_event i sid ty lv code w') = calm w w'"
  by (simp add: calm_def stage_progress_event_def)

lemma calm_save_inactive: "\<not> active_job j \<Longrightarrow> calm w (save_job i j w)"
  by (auto simp: calm_def save_job_def dict_simps)

lemma calm_save_same:
  "dict_get (bw_jobs w) i = Some j \<Longrightarrow> active_job j \<Longrightarrow> jb_stream j' = jb_stream j \<Longrightarrow> calm w (save_job i j' w)"
  by (auto simp: calm_def save_job_def dict_simps)

lemma active_simps [simp]:
  "active_job (j\<lparr>jb_status := st\<rparr>) = (st \<in> {J_Running, J_Cancelling})"
  "active_job (j\<lparr>jb_progress := x\<rparr>) = active_job j"
  "active_job (j\<lparr>jb_failed := y\<rparr>) = active_job j"
  "active_job (j\<lparr>jb_error := z\<rparr>) = active_job j"
  "active_job (j\<lparr>jb_completed := y\<rparr>) = active_job j"
  "active_job (j\<lparr>jb_started := y\<rparr>) = active_job j"
  "active_job (j\<lparr>jb_summary := s\<rparr>) = active_job j"
  "active_job (completed_once now j) = active_job j"
  by (simp_all add: active_job_def completed_once_def)

lemma active_status: "jb_status j = J_Running \<or> jb_status j = J_Cancelling \<Longrightarrow> active_job j"
  by (auto simp: active_job_def)

lemma calm_create: "calm w (snd (snd (create_backfill_job ex cps sid mode by_user opts c w)))"
  by (auto simp: create_backfill_job_def Let_def calm_def stage_progress_event_def save_job_def active_job_def dict_simps)

lemma calm_fail_job: "calm w (fail_job now i msg w)"
  by (auto simp: fail_job_def intro!: calm_save_inactive split: option.split)

lemma calm_cancel_terminal: "cancel_terminal now i c w = (c', w') \<Longrightarrow> calm w w'"
  by (auto simp: cancel_terminal_def intro!: calm_save_inactive split: option.split_asm if_split_asm)

lemma calm_finalize: "finalize_cancelling_without_owner fresh seen now i c w = (r, c', w') \<Longrightarrow> calm w w'"
  by (auto simp: finalize_cancelling_without_owner_def Let_def intro!: calm_save_inactive split: option.split_asm if_split_asm)

lemma calm_cancel:
  assumes "cancel_backfill_job True seen now i c w = (r, c', w')"
  shows "calm w w'"
proof (cases "dict_get (bw_jobs w) i")
  case (Some j)
  let ?w1 = "stage_progress_event i (jb_stream j) ''cancellation_requested'' ''INFO'' None
               (save_job i (j\<lparr>jb_status := J_Cancelling\<rparr>) w)"
  have w1: "calm w ?w1" if "jb_status j = J_Running"
    using Some that by (auto intro!: calm_save_same simp: active_job_def)
  show ?thesis
  proof (cases seen)
    case J_Running
    then show ?thesis
      using assms Some w1 calm_trans[OF w1 calm_finalize]
      by (auto simp: cancel_backfill_job_def locked_status_def Let_def split: if_split_asm)
  qed (use assms Some in \<open>auto simp: cancel_backfill_job_def Let_def intro!: calm_save_inactive dest: calm_finalize split: if_split_asm\<close>)
qed (use assms in \<open>auto simp: cancel_backfill_job_def\<close>)

lemma calm_run_replay: "run_replay_job env now i c w = (n, c', w') \<Longrightarrow> calm w w'"
proof -
  assume run: "run_replay_job env now i c w = (n, c', w')"
  have fail: "calm w (fail_job now i msg (stage_progress_event i sid ty lv code w))" for msg sid ty lv code
    by (rule calm_trans[OF _ calm_fail_job]) simp
  show ?thesis
    using run fail by (auto simp: run_replay_job_def Let_def calm_fail_job dest: calm_cancel_terminal
        split: option.split_asm if_split_asm prod.split_asm)
qed

lemma calm_dry: "run_dry_lifecycle now i c w = (n, c', w') \<Longrightarrow> calm w w'"
  by (auto simp: run_dry_lifecycle_def Let_def dest: calm_cancel_terminal split: option.split_asm if_split_asm)

lemma calm_finish_dry:
  assumes "finish_dry_lifecycle now i c w = (c', w')"
  shows "calm w w'"
proof (cases "dict_get (bw_jobs w) i")
  case (Some j)
  have "calm w (save_job i (j\<lparr>jb_progress := x\<rparr>) w)" if "jb_status j = J_Running" for x
    using Some that by (auto intro!: calm_save_same active_status)
  then show ?thesis
    using assms Some by (auto simp: finish_dry_lifecycle_def Let_def calm_save_inactive dest: calm_cancel_terminal
        split: if_split_asm)
qed (use assms in \<open>simp add: finish_dry_lifecycle_def\<close>)

lemma calm_worker: "worker_start_job env now i c w = (n, c', w') \<Longrightarrow> calm w w'"
  by (auto simp: worker_start_job_def Let_def dest: calm_run_replay calm_dry
      split: prod.split_asm bool.split_asm option.split_asm if_split_asm)

lemma calm_after_run: "after_run now i res c w = (j, c', w') \<Longrightarrow> calm w w'"
  by (auto simp: after_run_def calm_fail_job dest: calm_cancel_terminal
      split: sum.split_asm if_split_asm option.split_asm prod.split_asm)

lemma calm_save_result: "calm w (save_result now i sm j w)"
  by (auto simp: save_result_def Let_def intro!: calm_save_inactive split: option.split)

lemma calm_reconcile: "reconcile_job fresh seen now i c w = (c', w') \<Longrightarrow> calm w w'"
  by (auto simp: reconcile_job_def Let_def intro!: calm_save_inactive split: option.split_asm if_split_asm)

lemma start_keeps_one:
  assumes "start_backfill_job fresh seen now i c w = (r, c', w')" "one_active w"
  shows "one_active w'"
proof (cases "dict_get (bw_jobs w) i")
  case (Some j)
  show ?thesis
  proof (cases "bw_jobs w' = bw_jobs w")
    case False
    have idle: "count_active_backfills_on_stream w (jb_stream j) i = 0"
      and jobs: "bw_jobs w' = dict_set i (j\<lparr>jb_status := J_Running,
          jb_started := (case jb_started j of None \<Rightarrow> Some now | Some t \<Rightarrow> Some t)\<rparr>) (bw_jobs w)"
      using assms(1) Some False
      by (auto simp: start_backfill_job_def Let_def stage_progress_event_def save_job_def split: if_split_asm)
    have other: "active_job k \<longrightarrow> jb_stream k \<noteq> jb_stream j \<and> jb_stream j \<noteq> jb_stream k" if "dict_get (bw_jobs w) i' = Some k" "i' \<noteq> i" for i' k
      using idle map_of_SomeD[OF that(1)] that(2) unfolding count_active_backfills_on_stream_def
      by (auto simp: filter_empty_conv)
    show ?thesis
      using assms(2) other unfolding one_active_def jobs by (auto simp: dict_simps split: if_split_asm)
  qed (use assms(2) in \<open>simp add: one_active_def\<close>)
qed (use assms in \<open>simp add: start_backfill_job_def\<close>)

lemma set_world [simp]: "bz_world (set_coord p cw s) = snd cw" "bz_world (set_thread t x s) = bz_world s"
  by (simp_all add: set_coord_def set_thread_def)

lemma one_active_step:
  assumes "backfill_step True env s s'" "one_active (bz_world s)"
  shows "one_active (bz_world s')"
  using assms
proof (induction rule: backfill_step.induct)
  case (bs_cancel s p seen now jid)
  obtain r c w where "cancel_backfill_job True seen now jid (bz_coord s p) (bz_world s) = (r, c, w)" by (metis surj_pair)
  then show ?case using bs_cancel calm_one_active[OF calm_cancel] by simp
next
  case (bs_reconcile s p seen now jid)
  obtain c w where "reconcile_job True seen now jid (bz_coord s p) (bz_world s) = (c, w)" by (metis surj_pair)
  then show ?case using bs_reconcile calm_one_active[OF calm_reconcile] by simp
next
  case (bs_start seen now jid s p cw t)
  then show ?case by (cases cw) (auto dest: start_keeps_one)
next
  case (bs_start_refused seen now jid s p e cw)
  then show ?case by (cases cw) (auto dest: start_keeps_one)
next
  case (bs_worker s t p jid now n cw)
  then show ?case by (cases cw) (auto dest: calm_worker calm_one_active)
qed (auto dest: calm_after_run calm_finish_dry calm_one_active intro: calm_one_active[OF calm_create] calm_one_active[OF calm_save_result])

lemma one_active_reach:
  "backfill_reach True env s0 s \<Longrightarrow> one_active (bz_world s0) \<Longrightarrow> one_active (bz_world s)"
  by (induction rule: backfill_reach.induct) (auto intro: one_active_step)


section \<open>The runs of a backfill\<close>

definition bounded_run :: "replay_run \<Rightarrow> bool" where
  "bounded_run r \<longleftrightarrow> \<not> rq_persist r \<and> rq_from r < rq_to r"

definition runs_inv :: "backfill_sys \<Rightarrow> bool" where
  "runs_inv s \<longleftrightarrow> (\<forall>r \<in> set (bz_runs s). bounded_run r) \<and>
     (\<forall>t p i r. bz_threads s t = Some (p, P_Run i r) \<longrightarrow> bounded_run r)"

lemma replay_run_bounded: "run_replay_job env now i c w = (W_Run r, c', w') \<Longrightarrow> bounded_run r"
  by (auto simp: run_replay_job_def Let_def bounded_run_def cancel_terminal_def
      split: option.split_asm if_split_asm prod.split_asm)

lemma worker_run_bounded: "worker_start_job env now i c w = (W_Run r, c', w') \<Longrightarrow> bounded_run r"
  by (auto simp: worker_start_job_def Let_def run_dry_lifecycle_def dest: replay_run_bounded
      split: prod.split_asm bool.split_asm option.split_asm if_split_asm)

lemma set_runs [simp]: "bz_runs (set_coord p cw s) = bz_runs s" "bz_runs (set_thread t x s) = bz_runs s"
  by (simp_all add: set_coord_def set_thread_def)

lemma set_threads [simp]: "bz_threads (set_coord p cw s) = bz_threads s"
  "bz_threads (set_thread t x s) = (bz_threads s)(t := x)"
  by (simp_all add: set_coord_def set_thread_def)

lemma runs_inv_step:
  assumes "backfill_step fresh env s s'" "runs_inv s"
  shows "runs_inv s'"
  using assms
proof (induction rule: backfill_step.induct)
  case (bs_worker s t p jid now n cw)
  have "bounded_run r" if "next_phase p jid n = Some (q, P_Run i r)" for q i r
    using bs_worker(2) that worker_run_bounded[of env now jid "bz_coord s p" "bz_world s" r "fst cw" "snd cw"]
    by (cases n) (auto simp: next_phase_def)
  then show ?case using bs_worker(3) by (auto simp: runs_inv_def)
next
  case (bs_run s t p jid r now res j c w)
  then show ?case by (auto simp: runs_inv_def split: option.splits sum.splits)
next
  case (bs_crash s p)
  then show ?case by (auto simp: runs_inv_def split: option.splits if_splits)
qed (auto simp: runs_inv_def)

lemma runs_inv_reach: "backfill_reach fresh env s0 s \<Longrightarrow> runs_inv s0 \<Longrightarrow> runs_inv s"
  by (induction rule: backfill_reach.induct) (auto intro: runs_inv_step)

text \<open>C30: A backfill never moves a checkpoint: every run a worker makes has a window that is not empty
  and is not allowed to persist, and such a run, whatever it fetches and delivers, however it ends,
  leaves every checkpoint as it was. No freshness of the reads is assumed.\<close>

theorem backfill_keeps_checkpoints:
  assumes "backfill_reach fresh benv s0 s" "bz_runs s0 = []" "bz_threads s0 = (\<lambda>_. None)" "r \<in> set (bz_runs s)"
    and "ro_persist opts = rq_persist r" "run env opts sm ck w = (res, w')"
  shows "rq_from r < rq_to r \<and> wo_checkpoints w' = wo_checkpoints w"
proof -
  have "runs_inv s0" using assms(2,3) by (simp add: runs_inv_def)
  then have "runs_inv s" by (rule runs_inv_reach[OF assms(1)])
  then have "bounded_run r" using assms(4) by (simp add: runs_inv_def)
  then show ?thesis using unpersisted_run_keeps_checkpoints[OF assms(6)] assms(5) by (simp add: bounded_run_def)
qed

section \<open>Concrete histories\<close>

definition window_opts :: backfill_options where
  "window_opts = \<lparr>bo_start = Some ''2024-01-01T00:00:00Z'', bo_end = Some ''2024-01-02T00:00:00Z'', bo_dry_run = False,
                  bo_dry_complete = False\<rparr>"

definition sample_backfill_env :: backfill_env where
  "sample_backfill_env =
     \<lparr>be_iso = (\<lambda>t. if t = ''2024-01-01T00:00:00+00:00'' then Some (True, 0)
                    else if t = ''2024-01-02T00:00:00+00:00'' then Some (True, 86400)
                    else if t = ''2024-01-02'' then Some (False, 86400) else None),
      be_load = (\<lambda>_. None)\<rparr>"

definition empty_backfill :: backfill_sys where
  "empty_backfill =
     \<lparr>bz_world = \<lparr>bw_jobs = [], bw_next = 1, bw_events = []\<rparr>, bz_coord = (\<lambda>_. new_coordinator), bz_threads = (\<lambda>_. None),
      bz_runs = []\<rparr>"

definition created_backfill :: "backfill_options \<Rightarrow> backfill_sys" where
  "created_backfill opts =
     set_coord 0 (snd (create_backfill_job (\<lambda>_. True) [] 7 ''TIME_RANGE_REPLAY'' ''ann'' opts
       (bz_coord empty_backfill 0) (bz_world empty_backfill))) empty_backfill"

text \<open>Process \<open>p\<close> starts the job 1 in thread \<open>t\<close>, and its worker goes on to the run.\<close>

definition started :: "bool \<Rightarrow> nat \<Rightarrow> nat \<Rightarrow> backfill_sys \<Rightarrow> backfill_sys" where
  "started fresh t p s =
     (let cw = snd (start_backfill_job fresh J_Pending 5 1 (bz_coord s p) (bz_world s));
          s1 = set_thread t (Some (p, P_Start 1)) (set_coord p cw s);
          (n, cw2) = worker_start_job sample_backfill_env 6 1 (bz_coord s1 p) (bz_world s1)
      in set_thread t (next_phase p 1 n) (set_coord p cw2 s1))"

lemma started_reach:
  assumes "backfill_reach fresh sample_backfill_env s0 s" "bz_threads s t = None"
    and "fst (start_backfill_job fresh J_Pending 5 1 (bz_coord s p) (bz_world s)) = Inr ()"
  shows "backfill_reach fresh sample_backfill_env s0 (started fresh t p s)"
proof -
  let ?cw = "snd (start_backfill_job fresh J_Pending 5 1 (bz_coord s p) (bz_world s))"
  let ?s1 = "set_thread t (Some (p, P_Start 1)) (set_coord p ?cw s)"
  obtain n cw2 where w: "worker_start_job sample_backfill_env 6 1 (bz_coord ?s1 p) (bz_world ?s1) = (n, cw2)"
    by (metis surj_pair)
  have "start_backfill_job fresh J_Pending 5 1 (bz_coord s p) (bz_world s) = (Inr (), ?cw)"
    using assms(3) by (metis prod.collapse)
  then have "backfill_step fresh sample_backfill_env s ?s1" using assms(2) by (rule bs_start)
  then have s1: "backfill_reach fresh sample_backfill_env s0 ?s1" by (rule br_step[OF assms(1)])
  have "backfill_step fresh sample_backfill_env ?s1 (set_thread t (next_phase p 1 n) (set_coord p cw2 ?s1))"
    by (rule bs_worker[OF _ w]) simp
  from br_step[OF s1 this] show ?thesis using w by (simp add: started_def)
qed

lemma created_reach: "backfill_reach fresh sample_backfill_env empty_backfill (created_backfill opts)"
  unfolding created_backfill_def by (rule br_step[OF br_start bs_create])

abbreviation job_status_in :: "backfill_sys \<Rightarrow> job_status option" where
  "job_status_in s \<equiv> map_option jb_status (dict_get (bw_jobs (bz_world s)) 1)"

abbreviation phase_of :: "backfill_sys \<Rightarrow> nat \<Rightarrow> (nat \<times> worker_phase) option" where
  "phase_of s t \<equiv> bz_threads s t"

definition day_run :: replay_run where
  "day_run = \<lparr>rq_stream = 7, rq_persist = False, rq_from = 0, rq_to = 86400, rq_dry = False\<rparr>"


text \<open>The sample job with its run made: the worker is left with the result to save.\<close>

definition ran :: backfill_sys where
  "ran =
     (let s = started True 0 0 (created_backfill window_opts);
          (j, c, w) = after_run 8 1 (Inr \<lparr>sm_outcome = ''completed'', sm_extracted = 1, sm_sent = 1, sm_skipped = 0\<rparr>)
                        (bz_coord s 0) (bz_world s)
      in (set_thread 0 (case j of Some x \<Rightarrow> Some (0, P_Save 1 \<lparr>sm_outcome = ''completed'', sm_extracted = 1, sm_sent = 1, sm_skipped = 0\<rparr> x)
                        | None \<Rightarrow> None) (set_coord 0 (c, w) s))\<lparr>bz_runs := bz_runs s @ [day_run]\<rparr>)"

lemma ran_reach: "backfill_reach True sample_backfill_env empty_backfill ran"
proof -
  let ?s = "started True 0 0 (created_backfill window_opts)"
  let ?sm = "\<lparr>sm_outcome = ''completed'', sm_extracted = 1, sm_sent = 1, sm_skipped = 0\<rparr>"
  have s: "backfill_reach True sample_backfill_env empty_backfill ?s"
    by (rule started_reach[OF created_reach]) (simp add: created_backfill_def empty_backfill_def, code_simp)
  have ph: "bz_threads ?s 0 = Some (0, P_Run 1 day_run)" by code_simp
  obtain j c w where a: "after_run 8 1 (Inr ?sm) (bz_coord ?s 0) (bz_world ?s) = (j, c, w)" by (metis surj_pair)
  have "map_option jb_status (fst (after_run 8 1 (Inr ?sm) (bz_coord ?s 0) (bz_world ?s))) = Some J_Running" by code_simp
  then obtain x where x: "j = Some x" using a by auto
  from br_step[OF s bs_run[OF ph a]] show ?thesis unfolding ran_def by (simp add: a x Let_def)
qed

theorem backfill_keeps_checkpoints_witness:
  "rq_from day_run < rq_to day_run \<and>
   wo_checkpoints (snd (run (run_sample_env (Inr (JObj ssn_event))) (default_opts\<lparr>ro_persist := False\<rparr>) (sample_stream True [])
     None empty_world)) = wo_checkpoints empty_world"
proof -
  have "bz_runs empty_backfill = []" "bz_threads empty_backfill = (\<lambda>_. None)" by (simp_all add: empty_backfill_def)
  moreover have "day_run \<in> set (bz_runs ran)" by (simp add: ran_def Let_def split: prod.split)
  moreover have "ro_persist (default_opts\<lparr>ro_persist := False\<rparr>) = rq_persist day_run" by (simp add: day_run_def)
  ultimately show ?thesis by (rule backfill_keeps_checkpoints[OF ran_reach _ _ _ _ prod.collapse[symmetric]])
qed

text \<open>Where another process cancels between the worker's last read and its save, the cancelled job
  ends as completed.\<close>

lemma cancelled_job_completes:
  "let cw = snd (cancel_backfill_job True J_Running 9 1 (bz_coord ran 1) (bz_world ran))
   in map_option jb_status (dict_get (bw_jobs (snd cw)) 1) = Some J_Cancelled \<and>
      (case bz_threads ran 0 of
         Some (_, P_Save jid sm j) \<Rightarrow>
           map_option jb_status (dict_get (bw_jobs (save_result 10 jid sm j (snd cw))) 1) = Some J_Completed
       | _ \<Rightarrow> False)"
  by code_simp

text \<open>Without a refreshing read one job is started twice: two requests read it as pending, both take
  the lock in turn, and both workers go on to run the window, in different processes.\<close>

theorem stale_read_starts_twice:
  "(\<exists>s. backfill_reach False sample_backfill_env empty_backfill s \<and>
      phase_of s 0 = Some (0, P_Run 1 day_run) \<and> phase_of s 1 = Some (1, P_Run 1 day_run)) \<and>
   fst (start_backfill_job True J_Pending 5 1 new_coordinator (bz_world (started True 0 0 (created_backfill window_opts))))
     = Inl (Invalid_Transition J_Running)"
proof
  let ?s1 = "started False 0 0 (created_backfill window_opts)"
  let ?s2 = "started False 1 1 ?s1"
  have "backfill_reach False sample_backfill_env empty_backfill ?s1"
    by (rule started_reach[OF created_reach]) (simp add: created_backfill_def empty_backfill_def, code_simp)
  then have "backfill_reach False sample_backfill_env empty_backfill ?s2"
    by (rule started_reach) (code_simp, code_simp)
  moreover have "phase_of ?s2 0 = Some (0, P_Run 1 day_run) \<and> phase_of ?s2 1 = Some (1, P_Run 1 day_run)"
    by (rule conjI; code_simp)
  ultimately show "\<exists>s. backfill_reach False sample_backfill_env empty_backfill s \<and>
      phase_of s 0 = Some (0, P_Run 1 day_run) \<and> phase_of s 1 = Some (1, P_Run 1 day_run)" by blast
  show "fst (start_backfill_job True J_Pending 5 1 new_coordinator (bz_world (started True 0 0 (created_backfill window_opts))))
     = Inl (Invalid_Transition J_Running)" by code_simp
qed

text \<open>A cancellation served by another process does not know the worker: the job is cancelled at once,
  while the run of its window is still to come.\<close>

lemma cancel_elsewhere_does_not_stop:
  "let s = started True 0 0 (created_backfill window_opts);
       s' = set_coord 1 (snd (cancel_backfill_job True J_Running 7 1 (bz_coord s 1) (bz_world s))) s
   in job_status_in s' = Some J_Cancelled \<and> phase_of s' 0 = Some (0, P_Run 1 day_run)"
  by code_simp

text \<open>A job without a window is left running for good, and blocks the backfills of its stream.\<close>

lemma windowless_job_stays_running:
  "let s = started True 0 0 (created_backfill (window_opts\<lparr>bo_start := None\<rparr>));
       cw = finish_dry_lifecycle 7 1 (bz_coord s 0) (bz_world s)
   in phase_of s 0 = Some (0, P_Dry 1) \<and>
      map_option jb_status (dict_get (bw_jobs (snd cw)) 1) = Some J_Running \<and>
      count_active_backfills_on_stream (snd cw) 7 2 = 1"
  by code_simp

text \<open>So is one whose window has a zone on one side only: the comparison raises.\<close>

lemma mixed_window_stays_running:
  "let s = started True 0 0 (created_backfill (window_opts\<lparr>bo_end := Some ''2024-01-02''\<rparr>))
   in phase_of s 0 = None \<and> job_status_in s = Some J_Running"
  by code_simp

end
