(* ===== verification/Access_Rules.thy ===== *)
theory Access_Rules
  imports Relay_Prelude
begin

text \<open>
  \<open>app/auth/governance_rbac.py\<close> and \<open>app/auth/route_access.py\<close>: what a role may do, and the rules
  over role, method and path that the middleware asks for every request. A role is the string of the
  source; the optional role of the helpers is a string too, \<open>None\<close> being the empty one. The early
  returns of \<open>evaluate_http_access\<close> are sections that each return a denial or nothing; the first denial
  is the answer.
\<close>

section \<open>Roles\<close>

definition ADMINISTRATOR :: string where "ADMINISTRATOR = ''ADMINISTRATOR''"
definition OPERATOR :: string where "OPERATOR = ''OPERATOR''"
definition CONNECTOR_OPERATOR :: string where "CONNECTOR_OPERATOR = ''CONNECTOR_OPERATOR''"
definition GOVERNANCE_OPERATOR :: string where "GOVERNANCE_OPERATOR = ''GOVERNANCE_OPERATOR''"
definition GOVERNANCE_REVIEWER :: string where "GOVERNANCE_REVIEWER = ''GOVERNANCE_REVIEWER''"
definition GOVERNANCE_APPROVER :: string where "GOVERNANCE_APPROVER = ''GOVERNANCE_APPROVER''"
definition GOVERNANCE_AUDITOR :: string where "GOVERNANCE_AUDITOR = ''GOVERNANCE_AUDITOR''"
definition VIEWER :: string where "VIEWER = ''VIEWER''"

lemmas role_names = ADMINISTRATOR_def OPERATOR_def CONNECTOR_OPERATOR_def GOVERNANCE_OPERATOR_def
  GOVERNANCE_REVIEWER_def GOVERNANCE_APPROVER_def GOVERNANCE_AUDITOR_def VIEWER_def

definition governance_roles :: "string list" where
  "governance_roles = [GOVERNANCE_OPERATOR, GOVERNANCE_REVIEWER, GOVERNANCE_APPROVER, GOVERNANCE_AUDITOR]"

definition all_platform_roles :: "string list" where
  "all_platform_roles =
     [ADMINISTRATOR, OPERATOR, CONNECTOR_OPERATOR, GOVERNANCE_OPERATOR, GOVERNANCE_REVIEWER,
      GOVERNANCE_APPROVER, GOVERNANCE_AUDITOR, VIEWER]"

definition normalize_platform_role :: "string \<Rightarrow> string" where
  "normalize_platform_role role =
     (let r = py_upper (py_strip role) in if r = OPERATOR then CONNECTOR_OPERATOR else r)"

definition is_administrator :: "string \<Rightarrow> bool" where
  "is_administrator role \<longleftrightarrow> py_upper (py_strip role) = ADMINISTRATOR"

definition can_connector_operate :: "string \<Rightarrow> bool" where
  "can_connector_operate role \<longleftrightarrow>
     is_administrator role \<or> normalize_platform_role role = CONNECTOR_OPERATOR"

definition can_ai_policy_read :: "string \<Rightarrow> bool" where
  "can_ai_policy_read role \<longleftrightarrow>
     is_administrator role \<or> normalize_platform_role role \<in> {CONNECTOR_OPERATOR, VIEWER}"

definition can_ai_audit_read :: "string \<Rightarrow> bool" where
  "can_ai_audit_read role \<longleftrightarrow> can_ai_policy_read role"

definition can_ai_governance_read :: "string \<Rightarrow> bool" where
  "can_ai_governance_read role \<longleftrightarrow> can_ai_policy_read role"

definition can_ai_governance_operate :: "string \<Rightarrow> bool" where
  "can_ai_governance_operate role \<longleftrightarrow> can_connector_operate role"

definition can_ai_policy_operate :: "string \<Rightarrow> bool" where
  "can_ai_policy_operate role \<longleftrightarrow> can_connector_operate role"

definition can_governance_read :: "string \<Rightarrow> bool" where
  "can_governance_read role \<longleftrightarrow>
     is_administrator role \<or> normalize_platform_role role \<in> set governance_roles \<union> {CONNECTOR_OPERATOR}"

definition can_governance_dashboard_read :: "string \<Rightarrow> bool" where
  "can_governance_dashboard_read role \<longleftrightarrow>
     can_governance_read role \<or> normalize_platform_role role = VIEWER"

definition can_governance_operations_access :: "string \<Rightarrow> bool" where
  "can_governance_operations_access role \<longleftrightarrow>
     is_administrator role
     \<or> normalize_platform_role role \<in> {GOVERNANCE_OPERATOR, GOVERNANCE_REVIEWER, GOVERNANCE_APPROVER}"

definition can_governance_write :: "string \<Rightarrow> bool" where
  "can_governance_write role \<longleftrightarrow>
     is_administrator role \<or> normalize_platform_role role = GOVERNANCE_OPERATOR"

definition can_policy_review :: "string \<Rightarrow> bool" where
  "can_policy_review role \<longleftrightarrow>
     is_administrator role \<or> normalize_platform_role role \<in> {GOVERNANCE_REVIEWER, GOVERNANCE_APPROVER}"

definition can_policy_approve :: "string \<Rightarrow> bool" where
  "can_policy_approve role \<longleftrightarrow> can_policy_review role"

definition can_policy_activate :: "string \<Rightarrow> bool" where
  "can_policy_activate role \<longleftrightarrow>
     is_administrator role \<or> normalize_platform_role role = GOVERNANCE_APPROVER"

definition can_quarantine_action :: "string \<Rightarrow> bool" where
  "can_quarantine_action role \<longleftrightarrow>
     is_administrator role \<or> normalize_platform_role role = GOVERNANCE_OPERATOR"

definition can_replay_action :: "string \<Rightarrow> bool" where
  "can_replay_action role \<longleftrightarrow> can_quarantine_action role"

definition can_audit_read :: "string \<Rightarrow> bool" where
  "can_audit_read role \<longleftrightarrow>
     is_administrator role \<or> normalize_platform_role role \<in> set governance_roles"

lemmas can_defs = can_connector_operate_def can_ai_policy_read_def can_ai_audit_read_def
  can_ai_governance_read_def can_ai_governance_operate_def can_ai_policy_operate_def
  can_governance_read_def can_governance_dashboard_read_def can_governance_operations_access_def
  can_governance_write_def can_policy_review_def can_policy_approve_def can_policy_activate_def
  can_quarantine_action_def can_replay_action_def can_audit_read_def is_administrator_def

definition build_capabilities :: "string \<Rightarrow> (string \<times> bool) list" where
  "build_capabilities role =
     (let r = py_upper (py_strip role);
          is_admin = (r = ADMINISTRATOR);
          is_viewer = (r = VIEWER);
          can_operate = can_connector_operate role;
          gov_read = can_governance_read role
      in [(''workspace_mutations'', can_operate),
          (''runtime_stream_control'', can_operate),
          (''runtime_logs_cleanup'', can_operate),
          (''backfill_mutations'', can_operate),
          (''retention_execute'', can_operate),
          (''validation_mutations'', can_operate),
          (''backup_import_apply'', is_admin),
          (''backup_import_preview'', can_operate),
          (''backup_clone'', can_operate),
          (''admin_user_management'', is_admin),
          (''admin_password_changes'', is_admin),
          (''admin_maintenance_health'', is_admin),
          (''admin_support_bundle'', is_admin),
          (''admin_https_write'', is_admin),
          (''admin_retention_policy_write'', is_admin),
          (''admin_alert_settings_write'', is_admin),
          (''admin_config_snapshot_apply'', is_admin),
          (''administration_apis'', is_admin \<or> can_operate),
          (''read_only_monitoring'', is_admin \<or> can_operate \<or> is_viewer \<or> gov_read),
          (''governance_read'', gov_read),
          (''governance_dashboard_read'', can_governance_dashboard_read role),
          (''governance_operations_access'', can_governance_operations_access role),
          (''governance_mutations'', can_governance_write role),
          (''governance_policy_submit'', can_governance_write role),
          (''governance_policy_review'', can_policy_approve role),
          (''governance_policy_approve'', can_policy_approve role),
          (''governance_policy_activate'', can_policy_activate role),
          (''governance_quarantine_action'', can_quarantine_action role),
          (''governance_replay_action'', can_replay_action role),
          (''governance_audit_read'', can_audit_read role),
          (''ai_gateway_read'', is_admin \<or> can_operate \<or> is_viewer),
          (''ai_gateway_operate'', can_operate),
          (''ai_gateway_admin'', is_admin),
          (''ai_policy_read'', can_ai_policy_read role),
          (''ai_policy_operate'', can_ai_policy_operate role),
          (''ai_audit_read'', can_ai_audit_read role),
          (''ai_governance_read'', can_ai_governance_read role),
          (''ai_governance_operate'', can_ai_governance_operate role)])"

section \<open>Requests\<close>

definition safe_methods :: "string list" where
  "safe_methods = [''GET'', ''HEAD'', ''OPTIONS'']"

record access_denied =
  ad_code :: string
  ad_message :: string

definition deny :: "string \<Rightarrow> string \<Rightarrow> access_denied option" where
  "deny code message = Some \<lparr>ad_code = code, ad_message = message\<rparr>"

definition under :: "string \<Rightarrow> string \<Rightarrow> bool" where
  "under prefix path \<longleftrightarrow> path = prefix \<or> py_startswith path (prefix @ ''/'')"

definition is_governance_read_post :: "string \<Rightarrow> string \<Rightarrow> bool" where
  "is_governance_read_post base path \<longleftrightarrow>
     py_startswith path (base @ ''/governance'')
     \<and> (py_endswith path ''/preview'' \<or> py_endswith path ''/simulate''
        \<or> contains_str ''/impact-preview'' path \<or> py_endswith path ''/impact'')"

definition is_viewer_allowed_post :: "string \<Rightarrow> string \<Rightarrow> bool" where
  "is_viewer_allowed_post base path \<longleftrightarrow>
     py_startswith path (base @ ''/runtime/preview/'')
     \<or> path = base @ ''/runtime/format-preview''
     \<or> (contains_str ''/runtime/streams/'' path \<and> py_endswith path ''/pipeline-debug'')"

fun first_denial :: "access_denied option list \<Rightarrow> access_denied option" where
  "first_denial [] = None"
| "first_denial (None # ds) = first_denial ds"
| "first_denial (Some d # ds) = Some d"

definition admin_surface_denied :: "string \<Rightarrow> string \<Rightarrow> string \<Rightarrow> access_denied option" where
  "admin_surface_denied base role path =
     (if role \<noteq> ADMINISTRATOR
         \<and> list_ex (\<lambda>p. under (base @ p) path)
             [''/admin/maintenance/health'', ''/admin/dev-validation/status'', ''/admin/support-bundle'',
              ''/admin/network-settings'', ''/admin/users'', ''/admin/password'']
      then deny ''ROLE_FORBIDDEN'' ''This endpoint requires the Administrator role.''
      else None)"

definition platform_policy_denied :: "string \<Rightarrow> string \<Rightarrow> string \<Rightarrow> string \<Rightarrow> access_denied option" where
  "platform_policy_denied base role m path =
     (if list_ex (\<lambda>p. under (base @ p) path)
           [''/admin/https-settings'', ''/admin/retention-policy'', ''/admin/alert-settings'']
         \<and> m \<notin> set safe_methods \<and> role \<noteq> ADMINISTRATOR
      then deny ''ROLE_FORBIDDEN'' ''Only an Administrator may change this platform configuration.''
      else if py_startswith path (base @ ''/backup/import/apply'') \<and> m \<notin> set safe_methods \<and> role \<noteq> ADMINISTRATOR
      then deny ''ROLE_FORBIDDEN'' ''Workspace import apply requires the Administrator role.''
      else if contains_str ''/apply-snapshot'' path \<and> py_startswith path (base @ ''/admin/config-versions'')
              \<and> m \<notin> set safe_methods \<and> role \<noteq> ADMINISTRATOR
      then deny ''ROLE_FORBIDDEN'' ''Applying configuration snapshots requires the Administrator role.''
      else None)"

definition governance_access_denied :: "string \<Rightarrow> string \<Rightarrow> string \<Rightarrow> access_denied option" where
  "governance_access_denied base role path =
     (if py_startswith path (base @ ''/governance/dashboard'') then
        (if can_governance_dashboard_read role then None
         else deny ''GOVERNANCE_DASHBOARD_FORBIDDEN''
                ''Governance dashboard requires an authorized Governance role or Viewer.'')
      else if py_startswith path (base @ ''/governance/operations'') then
        (if can_governance_operations_access role then None
         else deny ''GOVERNANCE_OPERATIONS_FORBIDDEN''
                ''Governance Operations requires Governance Operator role or higher.'')
      else if can_governance_read role then None
      else deny ''GOVERNANCE_READ_FORBIDDEN''
             ''Governance access requires an authorized Governance or Connector Operator role.'')"

definition governance_action_denied :: "string \<Rightarrow> string \<Rightarrow> access_denied option" where
  "governance_action_denied role path =
     (if py_endswith path ''/activate'' \<or> (contains_str ''/approvals/'' path \<and> py_endswith path ''/activate'') then
        (if can_policy_activate role then None
         else deny ''GOVERNANCE_ACTIVATE_FORBIDDEN'' ''Policy activation requires Governance Approver role.'')
      else if contains_str ''/approvals/'' path \<and> (py_endswith path ''/approve'' \<or> py_endswith path ''/reject'') then
        (if can_policy_approve role then None
         else deny ''GOVERNANCE_APPROVAL_FORBIDDEN''
                ''Governance approval requires Governance Reviewer or Approver role.'')
      else if contains_str ''/quarantine/release'' path \<or> contains_str ''/quarantine/discard'' path then
        (if can_quarantine_action role then None
         else deny ''GOVERNANCE_QUARANTINE_FORBIDDEN'' ''Quarantine release requires Governance Operator role.'')
      else if contains_str ''/quarantine/replay'' path then
        (if can_replay_action role then None
         else deny ''GOVERNANCE_REPLAY_FORBIDDEN'' ''Replay execution requires Governance Operator role.'')
      else if contains_str ''/governance/replay'' path
              \<and> (py_endswith path ''/execute'' \<or> py_endswith path ''/bulk-execute'') then
        (if can_replay_action role then None
         else deny ''GOVERNANCE_REPLAY_FORBIDDEN'' ''Replay execution requires Governance Operator role.'')
      else if can_governance_write role then None
      else deny ''GOVERNANCE_WRITE_FORBIDDEN'' ''Governance write actions require Governance Operator role.'')"

definition governance_denied :: "string \<Rightarrow> string \<Rightarrow> string \<Rightarrow> string \<Rightarrow> access_denied option" where
  "governance_denied base role m path =
     (if under (base @ ''/governance'') path then
        (case governance_access_denied base role path of
           Some d \<Rightarrow> Some d
         | None \<Rightarrow>
             if m \<notin> set safe_methods \<and> \<not> is_viewer_allowed_post base path
                \<and> \<not> is_governance_read_post base path
             then governance_action_denied role path else None)
      else None)"

definition workspace_denied :: "string \<Rightarrow> string \<Rightarrow> string \<Rightarrow> string \<Rightarrow> access_denied option" where
  "workspace_denied base role m path =
     (if m \<notin> set safe_methods \<and> \<not> is_viewer_allowed_post base path
         \<and> normalize_platform_role role \<notin> {ADMINISTRATOR, CONNECTOR_OPERATOR, OPERATOR, VIEWER}
         \<and> \<not> under (base @ ''/governance'') path
      then deny ''ROLE_FORBIDDEN'' ''This role may only access Governance resources.''
      else None)"

definition ai_denied :: "string \<Rightarrow> string \<Rightarrow> string \<Rightarrow> string \<Rightarrow> access_denied option" where
  "ai_denied base role m path =
     first_denial
       [if under (base @ ''/ai-providers'') path \<and> m \<notin> set safe_methods \<and> \<not> can_connector_operate role
        then deny ''ROLE_FORBIDDEN'' ''AI Provider mutations require Connector Operator or Administrator role.''
        else None,
        if under (base @ ''/ai-streams'') path \<and> m \<notin> set safe_methods \<and> \<not> can_connector_operate role
        then deny ''ROLE_FORBIDDEN'' ''AI Stream mutations require Connector Operator or Administrator role.''
        else None,
        if under (base @ ''/ai-policy-rules'') path then
          (if m \<in> set safe_methods then
             (if can_ai_policy_read role then None
              else deny ''ROLE_FORBIDDEN'' ''AI policy read requires Connector Operator, Viewer, or Administrator role.'')
           else if can_ai_policy_operate role then None
           else deny ''ROLE_FORBIDDEN'' ''AI policy mutations require Connector Operator or Administrator role.'')
        else None,
        if under (base @ ''/ai-providers/traffic'') path \<and> m \<notin> set safe_methods \<and> \<not> can_connector_operate role
        then deny ''ROLE_FORBIDDEN'' ''AI traffic metrics are read-only for VIEWER role.''
        else None,
        if under (base @ ''/ai-audit-events'') path then
          (if m \<notin> set safe_methods then deny ''ROLE_FORBIDDEN'' ''AI audit API is read-only.''
           else if can_ai_audit_read role then None
           else deny ''ROLE_FORBIDDEN'' ''AI audit read requires Connector Operator, Viewer, or Administrator role.'')
        else None,
        if under (base @ ''/ai-governance'') path then
          (if m \<in> set safe_methods then
             (if can_ai_governance_read role then None
              else deny ''ROLE_FORBIDDEN'' ''AI governance read requires Connector Operator, Viewer, or Administrator role.'')
           else if can_ai_governance_operate role then None
           else deny ''ROLE_FORBIDDEN'' ''AI governance mutations require Connector Operator or Administrator role.'')
        else None]"

definition role_denied :: "string \<Rightarrow> string \<Rightarrow> string \<Rightarrow> string \<Rightarrow> access_denied option" where
  "role_denied base role m path =
     (if role = VIEWER \<and> m \<notin> set safe_methods then
        (if is_viewer_allowed_post base path then None
         else deny ''ROLE_FORBIDDEN'' ''VIEWER role cannot perform mutating actions.'')
      else if role = OPERATOR \<and> m \<notin> set safe_methods
              \<and> list_ex (\<lambda>p. under (base @ p) path)
                  [''/admin/users'', ''/admin/password'', ''/admin/https-settings'',
                   ''/admin/retention-policy'', ''/admin/alert-settings'']
      then deny ''ROLE_FORBIDDEN'' ''OPERATOR role cannot modify administrator-only resources.''
      else None)"

definition evaluate_http_access :: "string \<Rightarrow> string \<Rightarrow> string \<Rightarrow> string \<Rightarrow> access_denied option" where
  "evaluate_http_access base role meth path =
     (let m = py_upper meth in
      first_denial
        [admin_surface_denied base role path,
         platform_policy_denied base role m path,
         governance_denied base role m path,
         workspace_denied base role m path,
         ai_denied base role m path,
         role_denied base role m path])"


section \<open>The roles of the platform\<close>

lemma known_role_strip [simp]:
  assumes "role \<in> set all_platform_roles" shows "py_upper (py_strip role) = role"
proof -
  have "list_all (\<lambda>r. py_upper (py_strip r) = r) all_platform_roles" by code_simp
  with assms show ?thesis by (simp add: list_all_iff)
qed

lemma known_role_names [simp]:
  "ADMINISTRATOR \<in> set all_platform_roles" "OPERATOR \<in> set all_platform_roles"
  "CONNECTOR_OPERATOR \<in> set all_platform_roles" "GOVERNANCE_OPERATOR \<in> set all_platform_roles"
  "GOVERNANCE_REVIEWER \<in> set all_platform_roles" "GOVERNANCE_APPROVER \<in> set all_platform_roles"
  "GOVERNANCE_AUDITOR \<in> set all_platform_roles" "VIEWER \<in> set all_platform_roles"
  by (simp_all add: all_platform_roles_def)

lemma role_neq [simp]:
  "ADMINISTRATOR \<noteq> OPERATOR" "ADMINISTRATOR \<noteq> CONNECTOR_OPERATOR" "ADMINISTRATOR \<noteq> GOVERNANCE_OPERATOR" "ADMINISTRATOR \<noteq> GOVERNANCE_REVIEWER" "ADMINISTRATOR \<noteq> GOVERNANCE_APPROVER" "ADMINISTRATOR \<noteq> GOVERNANCE_AUDITOR" "ADMINISTRATOR \<noteq> VIEWER"
  "OPERATOR \<noteq> ADMINISTRATOR" "OPERATOR \<noteq> CONNECTOR_OPERATOR" "OPERATOR \<noteq> GOVERNANCE_OPERATOR" "OPERATOR \<noteq> GOVERNANCE_REVIEWER" "OPERATOR \<noteq> GOVERNANCE_APPROVER" "OPERATOR \<noteq> GOVERNANCE_AUDITOR" "OPERATOR \<noteq> VIEWER"
  "CONNECTOR_OPERATOR \<noteq> ADMINISTRATOR" "CONNECTOR_OPERATOR \<noteq> OPERATOR" "CONNECTOR_OPERATOR \<noteq> GOVERNANCE_OPERATOR" "CONNECTOR_OPERATOR \<noteq> GOVERNANCE_REVIEWER" "CONNECTOR_OPERATOR \<noteq> GOVERNANCE_APPROVER" "CONNECTOR_OPERATOR \<noteq> GOVERNANCE_AUDITOR" "CONNECTOR_OPERATOR \<noteq> VIEWER"
  "GOVERNANCE_OPERATOR \<noteq> ADMINISTRATOR" "GOVERNANCE_OPERATOR \<noteq> OPERATOR" "GOVERNANCE_OPERATOR \<noteq> CONNECTOR_OPERATOR" "GOVERNANCE_OPERATOR \<noteq> GOVERNANCE_REVIEWER" "GOVERNANCE_OPERATOR \<noteq> GOVERNANCE_APPROVER" "GOVERNANCE_OPERATOR \<noteq> GOVERNANCE_AUDITOR" "GOVERNANCE_OPERATOR \<noteq> VIEWER"
  "GOVERNANCE_REVIEWER \<noteq> ADMINISTRATOR" "GOVERNANCE_REVIEWER \<noteq> OPERATOR" "GOVERNANCE_REVIEWER \<noteq> CONNECTOR_OPERATOR" "GOVERNANCE_REVIEWER \<noteq> GOVERNANCE_OPERATOR" "GOVERNANCE_REVIEWER \<noteq> GOVERNANCE_APPROVER" "GOVERNANCE_REVIEWER \<noteq> GOVERNANCE_AUDITOR" "GOVERNANCE_REVIEWER \<noteq> VIEWER"
  "GOVERNANCE_APPROVER \<noteq> ADMINISTRATOR" "GOVERNANCE_APPROVER \<noteq> OPERATOR" "GOVERNANCE_APPROVER \<noteq> CONNECTOR_OPERATOR" "GOVERNANCE_APPROVER \<noteq> GOVERNANCE_OPERATOR" "GOVERNANCE_APPROVER \<noteq> GOVERNANCE_REVIEWER" "GOVERNANCE_APPROVER \<noteq> GOVERNANCE_AUDITOR" "GOVERNANCE_APPROVER \<noteq> VIEWER"
  "GOVERNANCE_AUDITOR \<noteq> ADMINISTRATOR" "GOVERNANCE_AUDITOR \<noteq> OPERATOR" "GOVERNANCE_AUDITOR \<noteq> CONNECTOR_OPERATOR" "GOVERNANCE_AUDITOR \<noteq> GOVERNANCE_OPERATOR" "GOVERNANCE_AUDITOR \<noteq> GOVERNANCE_REVIEWER" "GOVERNANCE_AUDITOR \<noteq> GOVERNANCE_APPROVER" "GOVERNANCE_AUDITOR \<noteq> VIEWER"
  "VIEWER \<noteq> ADMINISTRATOR" "VIEWER \<noteq> OPERATOR" "VIEWER \<noteq> CONNECTOR_OPERATOR" "VIEWER \<noteq> GOVERNANCE_OPERATOR" "VIEWER \<noteq> GOVERNANCE_REVIEWER" "VIEWER \<noteq> GOVERNANCE_APPROVER" "VIEWER \<noteq> GOVERNANCE_AUDITOR"
  by (simp_all add: role_names)

lemma known_administrator [simp]:
  "role \<in> set all_platform_roles \<Longrightarrow> is_administrator role \<longleftrightarrow> role = ADMINISTRATOR"
  by (simp add: is_administrator_def)

lemma known_normalize [simp]:
  "role \<in> set all_platform_roles \<Longrightarrow>
     normalize_platform_role role = (if role = OPERATOR then CONNECTOR_OPERATOR else role)"
  by (simp add: normalize_platform_role_def)

lemma first_denial_None: "first_denial ds = None \<longleftrightarrow> (\<forall>d \<in> set ds. d = None)"
  by (induction ds rule: first_denial.induct) auto

lemma deny_not_None [simp]: "deny c m \<noteq> None" "None \<noteq> deny c m"
  by (simp_all add: deny_def)

text \<open>The table the rules are meant to implement: which roles an operation of the governance control
  plane asks for.\<close>

datatype control_action = Activate_Policy | Review_Policy | Handle_Quarantine | Replay_Events | Write_Policy

definition control_action_of :: "string \<Rightarrow> control_action" where
  "control_action_of path =
     (if py_endswith path ''/activate'' then Activate_Policy
      else if contains_str ''/approvals/'' path \<and> (py_endswith path ''/approve'' \<or> py_endswith path ''/reject'')
      then Review_Policy
      else if contains_str ''/quarantine/release'' path \<or> contains_str ''/quarantine/discard'' path
      then Handle_Quarantine
      else if contains_str ''/quarantine/replay'' path then Replay_Events
      else if contains_str ''/governance/replay'' path
              \<and> (py_endswith path ''/execute'' \<or> py_endswith path ''/bulk-execute'')
      then Replay_Events
      else Write_Policy)"

fun action_roles :: "control_action \<Rightarrow> string set" where
  "action_roles Activate_Policy = {ADMINISTRATOR, GOVERNANCE_APPROVER}"
| "action_roles Review_Policy = {ADMINISTRATOR, GOVERNANCE_REVIEWER, GOVERNANCE_APPROVER}"
| "action_roles Handle_Quarantine = {ADMINISTRATOR, GOVERNANCE_OPERATOR}"
| "action_roles Replay_Events = {ADMINISTRATOR, GOVERNANCE_OPERATOR}"
| "action_roles Write_Policy = {ADMINISTRATOR, GOVERNANCE_OPERATOR}"

definition administrator_path :: "string \<Rightarrow> string \<Rightarrow> bool" where
  "administrator_path base path \<longleftrightarrow>
     list_ex (\<lambda>p. under (base @ p) path)
       [''/admin/maintenance/health'', ''/admin/dev-validation/status'', ''/admin/support-bundle'',
        ''/admin/network-settings'', ''/admin/users'', ''/admin/password'', ''/admin/https-settings'',
        ''/admin/retention-policy'', ''/admin/alert-settings'']
     \<or> py_startswith path (base @ ''/backup/import/apply'')
     \<or> (contains_str ''/apply-snapshot'' path \<and> py_startswith path (base @ ''/admin/config-versions''))"

definition mutation_roles :: "string \<Rightarrow> string \<Rightarrow> string set" where
  "mutation_roles base path =
     (if administrator_path base path then {ADMINISTRATOR}
      else if under (base @ ''/ai-audit-events'') path then {}
      else if under (base @ ''/governance'') path then
        (if is_governance_read_post base path then set all_platform_roles - {VIEWER}
         else action_roles (control_action_of path))
      else {ADMINISTRATOR, OPERATOR, CONNECTOR_OPERATOR})"

lemma known_role_cases:
  assumes "role \<in> set all_platform_roles"
  obtains "role = ADMINISTRATOR" | "role = OPERATOR" | "role = CONNECTOR_OPERATOR" | "role = GOVERNANCE_OPERATOR"
    | "role = GOVERNANCE_REVIEWER" | "role = GOVERNANCE_APPROVER" | "role = GOVERNANCE_AUDITOR" | "role = VIEWER"
  using assms by (auto simp: all_platform_roles_def)

fun action_allowed :: "control_action \<Rightarrow> string \<Rightarrow> bool" where
  "action_allowed Activate_Policy role = can_policy_activate role"
| "action_allowed Review_Policy role = can_policy_approve role"
| "action_allowed Handle_Quarantine role = can_quarantine_action role"
| "action_allowed Replay_Events role = can_replay_action role"
| "action_allowed Write_Policy role = can_governance_write role"

lemma control_action_answer:
  "governance_action_denied role path = None \<longleftrightarrow> action_allowed (control_action_of path) role"
proof -
  have absorb: "A \<or> (B \<and> A) \<longleftrightarrow> A" for A B by blast
  have same: "(if b then True else False) = b" for b by simp
  show ?thesis
    unfolding governance_action_denied_def control_action_of_def absorb
      if_distrib[of "\<lambda>d. d = None"] if_distrib[of "\<lambda>a. action_allowed a role"]
    by (simp only: deny_not_None action_allowed.simps same refl)
qed

lemma control_action_table:
  assumes "role \<in> set all_platform_roles"
  shows "governance_action_denied role path = None \<longleftrightarrow> role \<in> action_roles (control_action_of path)"
  unfolding control_action_answer using assms
  by (cases rule: known_role_cases; cases "control_action_of path") (simp_all add: can_defs)

lemma mutation_needs_role:
  assumes "role \<in> set all_platform_roles" "m \<notin> set safe_methods" "\<not> is_viewer_allowed_post base path"
    "py_upper meth = m" "evaluate_http_access base role meth path = None"
  shows "role \<in> mutation_roles base path"
proof -
  from assms have parts: "admin_surface_denied base role path = None" "platform_policy_denied base role m path = None"
      "governance_denied base role m path = None" "workspace_denied base role m path = None"
      "ai_denied base role m path = None" "role_denied base role m path = None"
    by (simp_all add: evaluate_http_access_def first_denial_None)
  have admin: "role = ADMINISTRATOR" if "administrator_path base path"
    using that parts(1,2) assms(2)
    by (auto simp: administrator_path_def admin_surface_denied_def platform_policy_denied_def split: if_splits)
  have audit: "\<not> under (base @ ''/ai-audit-events'') path"
    using parts(5) assms(2) by (auto simp: ai_denied_def first_denial_None split: if_splits)
  have gov: "role \<in> action_roles (control_action_of path)"
    if "under (base @ ''/governance'') path" "\<not> is_governance_read_post base path"
    using that parts(3) assms(2,3) control_action_table[OF assms(1), of path]
    by (auto simp: governance_denied_def split: option.splits if_splits)
  have viewer: "role \<noteq> VIEWER"
    using parts(6) assms(2,3) by (auto simp: role_denied_def)
  have "role \<in> {ADMINISTRATOR, OPERATOR, CONNECTOR_OPERATOR}" if "\<not> under (base @ ''/governance'') path"
    using assms(1) that parts(4) assms(2,3) viewer
    by (cases rule: known_role_cases) (simp_all add: workspace_denied_def)
  with admin audit gov viewer assms(1) show ?thesis by (auto simp: mutation_roles_def)
qed

text \<open>C31: Separation of duties. Whatever the prefix of the API, a role other than the administrator that
  may write a policy (create, edit, submit it) may neither approve or reject one nor activate one, and the
  other way round: no two such requests are both let through.\<close>

theorem separation_of_duties:
  assumes "role \<in> set all_platform_roles" "role \<noteq> ADMINISTRATOR"
    and "py_upper m1 \<notin> set safe_methods" "py_upper m2 \<notin> set safe_methods"
    and "under (base @ ''/governance'') p1" "control_action_of p1 = Write_Policy"
    and "\<not> is_governance_read_post base p1" "\<not> is_viewer_allowed_post base p1"
    and "under (base @ ''/governance'') p2" "control_action_of p2 \<in> {Review_Policy, Activate_Policy}"
    and "\<not> is_governance_read_post base p2" "\<not> is_viewer_allowed_post base p2"
    and "evaluate_http_access base role m1 p1 = None"
  shows "evaluate_http_access base role m2 p2 \<noteq> None"
proof
  assume "evaluate_http_access base role m2 p2 = None"
  with assms have "role \<in> mutation_roles base p1" "role \<in> mutation_roles base p2"
    by (auto intro: mutation_needs_role)
  with assms show False by (auto simp: mutation_roles_def split: if_splits)
qed

theorem separation_of_duties_witness:
  "evaluate_http_access ''/api/v1'' GOVERNANCE_OPERATOR ''POST'' ''/api/v1/governance/approvals/7/submit'' = None
   \<and> evaluate_http_access ''/api/v1'' GOVERNANCE_OPERATOR ''POST'' ''/api/v1/governance/approvals/7/approve'' \<noteq> None"
proof
  show submit: "evaluate_http_access ''/api/v1'' GOVERNANCE_OPERATOR ''POST'' ''/api/v1/governance/approvals/7/submit'' = None"
    by code_simp
  show "evaluate_http_access ''/api/v1'' GOVERNANCE_OPERATOR ''POST'' ''/api/v1/governance/approvals/7/approve'' \<noteq> None"
    by (rule separation_of_duties[where ?p1.0 = "''/api/v1/governance/approvals/7/submit''" and ?m1.0 = "''POST''"])
       (simp_all only: submit, code_simp+)
qed

text \<open>The rule on the quarantine guards one of its two doors. A connector operator is refused the
  release under the governance prefix, with the message that it needs the governance operator's role, and let
  through to the same release under the runtime prefix.\<close>

theorem release_open_to_operators:
  "evaluate_http_access ''/api/v1'' CONNECTOR_OPERATOR ''POST'' ''/api/v1/governance/quarantine/release''
     = deny ''GOVERNANCE_QUARANTINE_FORBIDDEN'' ''Quarantine release requires Governance Operator role.''
   \<and> evaluate_http_access ''/api/v1'' CONNECTOR_OPERATOR ''POST'' ''/api/v1/runtime/quarantine-events/7/release'' = None"
  by code_simp

end
