(* ===== verification/Role_Guard.thy ===== *)
theory Role_Guard
  imports Access_Rules Json_Values
begin

text \<open>
  \<open>app/auth/jwt_service.py\<close> and \<open>app/auth/role_guard.py\<close>: the claims of a token, the principal of a
  request and the middleware in front of every handler. The JWT library is a parameter: \<open>jw_encode\<close>
  signs a payload, \<open>jw_decode\<close> checks the signature, the issuer and the expiry at a time and answers the
  payload or a message. Header names are kept in lower case, as Starlette does. What the request caches
  in \<open>request.state\<close> is the argument \<open>request_state\<close>. Dates outside the range of \<open>datetime\<close> are not
  represented.
\<close>

section \<open>Tokens\<close>

record auth_settings =
  au_api_prefix :: string
  au_require_auth :: bool
  au_dev_header_trust :: bool
  au_jwt_secret_key :: string
  au_secret_key :: string
  au_algorithm :: string
  au_issuer :: string
  au_access_minutes :: int
  au_refresh_minutes :: int

record jwt_lib =
  jw_encode :: "event \<Rightarrow> string \<Rightarrow> string \<Rightarrow> string"
  jw_decode :: "string \<Rightarrow> string \<Rightarrow> string \<Rightarrow> string \<Rightarrow> int \<Rightarrow> string + event"

record token_error =
  te_code :: string
  te_message :: string

record token_claims =
  tc_subject :: string
  tc_user_id :: int
  tc_role :: string
  tc_version :: int
  tc_type :: string
  tc_jti :: string
  tc_issued_at :: int
  tc_expires_at :: int
  tc_raw :: event
  tc_must_change :: bool

definition TOKEN_TYPE_ACCESS :: string where "TOKEN_TYPE_ACCESS = ''access''"
definition TOKEN_TYPE_REFRESH :: string where "TOKEN_TYPE_REFRESH = ''refresh''"

definition signing_key :: "auth_settings \<Rightarrow> string" where
  "signing_key st =
     (let k1 = py_strip (au_jwt_secret_key st);
          key = (if k1 \<noteq> [] then k1 else py_strip (au_secret_key st))
      in if key = [] then ''insecure-dev-secret'' else key)"

definition expire_minutes :: "auth_settings \<Rightarrow> string \<Rightarrow> int" where
  "expire_minutes st ty =
     max 1 (if ty = TOKEN_TYPE_REFRESH then au_refresh_minutes st else au_access_minutes st)"

definition build_payload ::
  "auth_settings \<Rightarrow> int \<Rightarrow> string \<Rightarrow> string \<Rightarrow> int \<Rightarrow> string \<Rightarrow> int \<Rightarrow> string \<Rightarrow> bool \<Rightarrow> event" where
  "build_payload st now jti username uid role tv ty must_change =
     [(''sub'', JStr username), (''uid'', JInt uid), (''role'', JStr role), (''tv'', JInt tv),
      (''typ'', JStr ty), (''iss'', JStr (au_issuer st)), (''iat'', JInt now),
      (''exp'', JInt (now + 60 * expire_minutes st ty)), (''jti'', JStr jti)]
     @ (if must_change then [(''mcp'', JInt 1)] else [])"

definition issue_token ::
  "jwt_lib \<Rightarrow> auth_settings \<Rightarrow> int \<Rightarrow> string \<Rightarrow> string \<Rightarrow> int \<Rightarrow> string \<Rightarrow> int \<Rightarrow> string \<Rightarrow> bool \<Rightarrow> string \<times> int" where
  "issue_token lib st now jti username uid role tv ty must_change =
     (jw_encode lib (build_payload st now jti username uid role tv ty must_change) (signing_key st) (au_algorithm st),
      now + 60 * expire_minutes st ty)"

definition issue_access_token ::
  "jwt_lib \<Rightarrow> auth_settings \<Rightarrow> int \<Rightarrow> string \<Rightarrow> string \<Rightarrow> int \<Rightarrow> string \<Rightarrow> int \<Rightarrow> bool \<Rightarrow> string \<times> int" where
  "issue_access_token lib st now jti username uid role tv must_change =
     issue_token lib st now jti username uid role tv TOKEN_TYPE_ACCESS must_change"

definition issue_refresh_token ::
  "jwt_lib \<Rightarrow> auth_settings \<Rightarrow> int \<Rightarrow> string \<Rightarrow> string \<Rightarrow> int \<Rightarrow> string \<Rightarrow> int \<Rightarrow> bool \<Rightarrow> string \<times> int" where
  "issue_refresh_token lib st now jti username uid role tv must_change =
     issue_token lib st now jti username uid role tv TOKEN_TYPE_REFRESH must_change"

definition token_invalid :: "string \<Rightarrow> token_error" where
  "token_invalid m = \<lparr>te_code = ''AUTH_TOKEN_INVALID'', te_message = m\<rparr>"

text \<open>\<open>str(payload.get(key) or "")\<close>\<close>

definition text_claim :: "event \<Rightarrow> string \<Rightarrow> string" where
  "text_claim payload key =
     (case dict_get payload key of None \<Rightarrow> [] | Some v \<Rightarrow> if truthy v then py_str v else [])"

text \<open>\<open>int(payload[key])\<close>, \<open>None\<close> where Python raises \<open>KeyError\<close>, \<open>TypeError\<close> or \<open>ValueError\<close>.\<close>

definition int_claim :: "event \<Rightarrow> string \<Rightarrow> int option" where
  "int_claim payload key = Option.bind (dict_get payload key) py_int"

definition read_claims :: "event \<Rightarrow> token_claims option" where
  "read_claims payload =
     (case dict_get payload ''sub'' of None \<Rightarrow> None | Some sub \<Rightarrow>
      (case int_claim payload ''uid'' of None \<Rightarrow> None | Some uid \<Rightarrow>
       (case dict_get payload ''role'' of None \<Rightarrow> None | Some role \<Rightarrow>
        (case int_claim payload ''tv'' of None \<Rightarrow> None | Some tv \<Rightarrow>
         (case int_claim payload ''iat'' of None \<Rightarrow> None | Some iat \<Rightarrow>
          (case int_claim payload ''exp'' of None \<Rightarrow> None | Some ex \<Rightarrow>
             Some \<lparr>tc_subject = py_str sub, tc_user_id = uid,
                   tc_role = py_upper (py_strip (py_str role)), tc_version = tv,
                   tc_type = text_claim payload ''typ'', tc_jti = text_claim payload ''jti'',
                   tc_issued_at = iat, tc_expires_at = ex, tc_raw = payload,
                   tc_must_change = (case dict_get payload ''mcp'' of None \<Rightarrow> False | Some v \<Rightarrow> truthy v)\<rparr>))))))"

definition decode_token ::
  "jwt_lib \<Rightarrow> auth_settings \<Rightarrow> int \<Rightarrow> string \<Rightarrow> string option \<Rightarrow> token_error + token_claims" where
  "decode_token lib st now token expected =
     (if token = [] then Inl \<lparr>te_code = ''AUTH_TOKEN_MISSING'', te_message = ''Missing authentication token.''\<rparr>
      else case jw_decode lib token (signing_key st) (au_algorithm st) (au_issuer st) now of
        Inl m \<Rightarrow>
          (let msg = (if m = [] then ''Invalid token.'' else m) in
           if contains_str ''expired'' (py_lower msg) \<or> contains_str ''signature has expired'' (py_lower msg)
           then Inl \<lparr>te_code = ''AUTH_TOKEN_EXPIRED'', te_message = ''Authentication token expired.''\<rparr>
           else Inl (token_invalid (''Invalid token: '' @ msg)))
      | Inr payload \<Rightarrow>
          (let ty = text_claim payload ''typ'' in
           if (case expected of None \<Rightarrow> False | Some e \<Rightarrow> e \<noteq> [] \<and> ty \<noteq> e)
           then Inl (token_invalid (''Expected '' @ the expected @ '' token but received ''
                       @ (if ty = [] then ''unknown'' else ty) @ ''.''))
           else (case read_claims payload of
                   None \<Rightarrow> Inl (token_invalid ''Malformed token claims'')
                 | Some c \<Rightarrow> Inr c)))"

section \<open>The principal of a request\<close>

record http_request =
  rq_method :: string
  rq_path :: string
  rq_headers :: "(string, string) dict"

datatype auth_source = From_Jwt | From_Dev_Header | Anonymous_Admin | Invalid_Token

record auth_context =
  ax_username :: string
  ax_role :: string
  ax_source :: auth_source
  ax_user_id :: "int option"
  ax_version :: "int option"
  ax_claims :: "token_claims option"
  ax_must_change :: bool

record request_state =
  rs_auth :: "auth_context option"
  rs_error :: "token_error option"

definition fresh_request :: request_state where
  "fresh_request = \<lparr>rs_auth = None, rs_error = None\<rparr>"

definition api_base :: "auth_settings \<Rightarrow> string" where
  "api_base st = rev (dropWhile (\<lambda>c. c = CHR ''/'') (rev (au_api_prefix st)))"

definition header_get :: "http_request \<Rightarrow> string \<Rightarrow> string option" where
  "header_get rq name = dict_get (rq_headers rq) (py_lower name)"

definition normalize_role :: "string option \<Rightarrow> string" where
  "normalize_role raw =
     (case raw of
        None \<Rightarrow> ADMINISTRATOR
      | Some r \<Rightarrow>
          if r = [] then ADMINISTRATOR
          else (let v = py_upper (py_strip r) in if v \<in> set all_platform_roles then v else VIEWER))"

definition bypass_prefixes :: "string \<Rightarrow> string list" where
  "bypass_prefixes base =
     [base @ ''/auth/login'', base @ ''/auth/refresh'', base @ ''/auth/logout'', base @ ''/ingest/webhook'',
      base @ ''/ingest/ai'', ''/health'', ''/api/openapi.json'', ''/docs'', ''/redoc'', ''/openapi.json'']"

definition is_bypass :: "string \<Rightarrow> string \<Rightarrow> bool" where
  "is_bypass base path \<longleftrightarrow> list_ex (\<lambda>p. path = p \<or> py_startswith path p) (bypass_prefixes base)"

definition must_change_password_bypass :: "string \<Rightarrow> string \<Rightarrow> bool" where
  "must_change_password_bypass base path \<longleftrightarrow>
     list_ex (\<lambda>p. path = p \<or> py_startswith path p)
       [base @ ''/auth/refresh'', base @ ''/auth/logout'', base @ ''/auth/whoami'', base @ ''/auth/change-password'']"

definition extract_bearer :: "http_request \<Rightarrow> string option" where
  "extract_bearer rq =
     (case header_get rq ''Authorization'' of
        None \<Rightarrow> None
      | Some raw \<Rightarrow>
          if py_startswith (py_lower raw) ''bearer '' then
            (let t = py_strip (drop 7 raw) in if t = [] then None else Some t)
          else None)"

definition jwt_context :: "token_claims \<Rightarrow> auth_context" where
  "jwt_context c =
     \<lparr>ax_username = (if tc_subject c = [] then ''anonymous'' else tc_subject c),
      ax_role = normalize_role (Some (tc_role c)), ax_source = From_Jwt,
      ax_user_id = Some (tc_user_id c), ax_version = Some (tc_version c), ax_claims = Some c,
      ax_must_change = tc_must_change c\<rparr>"

definition plain_context :: "string \<Rightarrow> string \<Rightarrow> auth_source \<Rightarrow> auth_context" where
  "plain_context user role src =
     \<lparr>ax_username = user, ax_role = role, ax_source = src, ax_user_id = None, ax_version = None,
      ax_claims = None, ax_must_change = False\<rparr>"

definition resolve_auth_context ::
  "jwt_lib \<Rightarrow> auth_settings \<Rightarrow> int \<Rightarrow> http_request \<Rightarrow> request_state \<Rightarrow> auth_context \<times> request_state" where
  "resolve_auth_context lib st now rq rs =
     (case rs_auth rs of
        Some c \<Rightarrow> (c, rs)
      | None \<Rightarrow>
        (case extract_bearer rq of
           Some token \<Rightarrow>
             (case decode_token lib st now token (Some TOKEN_TYPE_ACCESS) of
                Inl e \<Rightarrow>
                  (let ctx = plain_context ''anonymous'' VIEWER Invalid_Token
                   in (ctx, rs\<lparr>rs_auth := Some ctx, rs_error := Some e\<rparr>))
              | Inr c \<Rightarrow> (jwt_context c, rs\<lparr>rs_auth := Some (jwt_context c)\<rparr>))
         | None \<Rightarrow>
             (let raw_role = header_get rq ''X-GDC-Role'';
                  raw_user = (case header_get rq ''X-GDC-Username'' of None \<Rightarrow> [] | Some u \<Rightarrow> py_strip u);
                  ctx = (if au_dev_header_trust st
                            \<and> ((case raw_role of None \<Rightarrow> False | Some r \<Rightarrow> r \<noteq> []) \<or> raw_user \<noteq> [])
                         then plain_context (if raw_user = [] then ''anonymous'' else raw_user)
                                (normalize_role raw_role) From_Dev_Header
                         else plain_context ''anonymous'' ADMINISTRATOR Anonymous_Admin)
              in (ctx, rs\<lparr>rs_auth := Some ctx\<rparr>))))"

section \<open>The middleware\<close>

datatype guard_answer = Admitted | Refused int string string

definition role_guard_middleware ::
  "jwt_lib \<Rightarrow> auth_settings \<Rightarrow> int \<Rightarrow> http_request \<Rightarrow> request_state \<Rightarrow> guard_answer \<times> request_state" where
  "role_guard_middleware lib st now rq rs =
     (let meth = py_upper (rq_method rq); path = rq_path rq; base = api_base st in
      if meth = ''OPTIONS'' then (Admitted, rs)
      else if is_bypass base path then (Admitted, rs)
      else
        (let (ctx, rs1) = resolve_auth_context lib st now rq rs in
         case rs_error rs1 of
           Some e \<Rightarrow> (Refused 401 (te_code e) (te_message e), rs1)
         | None \<Rightarrow>
             if ax_source ctx = Anonymous_Admin \<and> au_require_auth st \<and> \<not> is_bypass base path then
               (Refused 401 ''AUTH_REQUIRED'' ''Authentication is required for this endpoint.'', rs1)
             else if ax_source ctx = From_Jwt \<and> ax_must_change ctx \<and> \<not> must_change_password_bypass base path then
               (Refused 403 ''PASSWORD_CHANGE_REQUIRED''
                  ''You must change your password before using this resource.'', rs1)
             else (case evaluate_http_access base (ax_role ctx) meth path of
                     Some d \<Rightarrow> (Refused 403 (ad_code d) (ad_message d), rs1)
                   | None \<Rightarrow> (Admitted, rs1))))"

text \<open>The per-route dependency: \<open>Inl\<close> is the refusal.\<close>

definition require_roles :: "string list \<Rightarrow> auth_context \<Rightarrow> string + string" where
  "require_roles allowed ctx =
     (let allowed_set = set (map (\<lambda>r. normalize_role (Some r)) allowed) in
      if ax_role ctx \<notin> allowed_set then Inl ''ROLE_FORBIDDEN'' else Inr (ax_role ctx))"

section \<open>Who gets through\<close>

lemma normalize_role_known [simp]: "normalize_role r \<in> set all_platform_roles"
  by (auto simp: normalize_role_def Let_def split: option.splits)

lemma py_upper_idem [simp]: "py_upper (py_upper s) = py_upper s"
proof -
  have "py_upper_char (py_upper_char c) = py_upper_char c" for c
  proof (cases "97 \<le> (of_char c :: nat) \<and> of_char c \<le> (122 :: nat)")
    case True
    then have "(of_char c - 32 :: nat) mod 256 = of_char c - 32" by (intro mod_less) arith
    with True show ?thesis by (auto simp: py_upper_char_def Let_def)
  qed (auto simp: py_upper_char_def Let_def)
  then show ?thesis by (simp add: py_upper_def)
qed

lemma evaluate_upper [simp]: "evaluate_http_access base role (py_upper m) path = evaluate_http_access base role m path"
  by (simp add: evaluate_http_access_def)

definition bearer_claims :: "jwt_lib \<Rightarrow> auth_settings \<Rightarrow> int \<Rightarrow> http_request \<Rightarrow> token_claims \<Rightarrow> bool" where
  "bearer_claims lib st now rq c \<longleftrightarrow>
     (\<exists>token. extract_bearer rq = Some token
        \<and> decode_token lib st now token (Some TOKEN_TYPE_ACCESS) = Inr c)"

lemma guard_admits:
  assumes "au_require_auth st" "\<not> au_dev_header_trust st"
  shows "fst (role_guard_middleware lib st now rq fresh_request) = Admitted \<longleftrightarrow>
     py_upper (rq_method rq) = ''OPTIONS'' \<or> is_bypass (api_base st) (rq_path rq)
     \<or> (\<exists>c. bearer_claims lib st now rq c
          \<and> (tc_must_change c \<longrightarrow> must_change_password_bypass (api_base st) (rq_path rq))
          \<and> evaluate_http_access (api_base st) (normalize_role (Some (tc_role c))) (rq_method rq) (rq_path rq) = None)"
  using assms
  by (auto simp: role_guard_middleware_def resolve_auth_context_def fresh_request_def bearer_claims_def
      plain_context_def jwt_context_def Let_def split: option.splits sum.splits)

text \<open>C32: With authentication required and the development headers off, a request that changes something
  reaches its handler only with a bearer token that the library accepts as an access token, and with a role
  that the table grants the change, a preview apart. Whatever the handler does, nobody reads or writes
  through another door than the listed prefixes.\<close>

theorem mutation_is_authorized:
  assumes "au_require_auth st" "\<not> au_dev_header_trust st"
    and "py_upper (rq_method rq) \<notin> set safe_methods" "\<not> is_bypass (api_base st) (rq_path rq)"
    and "fst (role_guard_middleware lib st now rq fresh_request) = Admitted"
  shows "\<exists>token c. extract_bearer rq = Some token
           \<and> decode_token lib st now token (Some TOKEN_TYPE_ACCESS) = Inr c
           \<and> (is_viewer_allowed_post (api_base st) (rq_path rq)
              \<or> normalize_role (Some (tc_role c)) \<in> mutation_roles (api_base st) (rq_path rq))"
proof -
  have "py_upper (rq_method rq) \<noteq> ''OPTIONS''" using assms(3) by (auto simp: safe_methods_def)
  with assms(4,5) obtain c where c: "bearer_claims lib st now rq c"
      "evaluate_http_access (api_base st) (normalize_role (Some (tc_role c))) (rq_method rq) (rq_path rq) = None"
    by (auto simp: guard_admits[OF assms(1,2)])
  have "normalize_role (Some (tc_role c)) \<in> mutation_roles (api_base st) (rq_path rq)"
    if "\<not> is_viewer_allowed_post (api_base st) (rq_path rq)"
    by (rule mutation_needs_role[OF _ assms(3) that _ c(2)]) simp_all
  with c(1) show ?thesis unfolding bearer_claims_def by blast
qed

definition sample_auth :: auth_settings where
  "sample_auth =
     \<lparr>au_api_prefix = ''/api/v1'', au_require_auth = True, au_dev_header_trust = False,
      au_jwt_secret_key = ''key'', au_secret_key = [], au_algorithm = ''HS256'', au_issuer = ''gdc-platform'',
      au_access_minutes = 60, au_refresh_minutes = 1440\<rparr>"

text \<open>A library for the witnesses: a token is the text of its payload's subject, and one payload is known.\<close>

definition sample_payload :: event where
  "sample_payload = build_payload sample_auth 1000 ''j'' ''ann'' 7 GOVERNANCE_OPERATOR 1 TOKEN_TYPE_ACCESS False"

definition sample_jwt :: jwt_lib where
  "sample_jwt =
     \<lparr>jw_encode = (\<lambda>p k a. text_claim p ''sub''),
      jw_decode = (\<lambda>t k a i now. if t = ''ann'' then Inr sample_payload else Inl ''Signature verification failed.'')\<rparr>"

definition sample_request :: http_request where
  "sample_request =
     \<lparr>rq_method = ''POST'', rq_path = ''/api/v1/governance/policies'',
      rq_headers = [(''authorization'', ''Bearer ann'')]\<rparr>"

theorem mutation_is_authorized_witness:
  "\<exists>token c. extract_bearer sample_request = Some token
     \<and> decode_token sample_jwt sample_auth 1000 token (Some TOKEN_TYPE_ACCESS) = Inr c
     \<and> (is_viewer_allowed_post (api_base sample_auth) (rq_path sample_request)
        \<or> normalize_role (Some (tc_role c)) \<in> mutation_roles (api_base sample_auth) (rq_path sample_request))"
  by (rule mutation_is_authorized) (code_simp+)

end
