(* ===== verification/Login_Throttle.thy ===== *)
theory Login_Throttle
  imports Relay_Prelude Complex_Main
begin

text \<open>
  \<open>app/auth/login_throttle.py\<close>: the failures of logins by account and by address, in sliding windows.
  The two tables of the process are the record \<open>throttle\<close>; \<open>time.monotonic()\<close> is the argument \<open>now\<close>.
  A lookup in a \<open>defaultdict\<close> creates the entry, as here. \<open>casefold\<close> acts on ASCII letters.
\<close>

section \<open>State and operations\<close>

record throttle_config =
  tg_max_per_username :: nat
  tg_max_per_ip :: nat
  tg_window :: rat
  tg_lockout :: rat

definition default_throttle :: throttle_config where
  "default_throttle = \<lparr>tg_max_per_username = 8, tg_max_per_ip = 40, tg_window = 900, tg_lockout = 60\<rparr>"

record throttle =
  th_by_username :: "(string, rat list) dict"
  th_by_ip :: "(string, rat list) dict"

definition empty_throttle :: throttle where
  "empty_throttle = \<lparr>th_by_username = [], th_by_ip = []\<rparr>"

definition prune_window :: "rat \<Rightarrow> rat \<Rightarrow> rat list \<Rightarrow> rat list" where
  "prune_window now window q = dropWhile (\<lambda>t. t < now - window) q"

definition username_key :: "string \<Rightarrow> string" where
  "username_key username = (let u = py_lower (py_strip username) in if u = [] then ''(empty)'' else u)"

definition ip_key :: "string \<Rightarrow> string" where
  "ip_key ip = (let i = py_strip ip in if i = [] then ''unknown'' else i)"

text \<open>The address of a request: the forwarded header, the host of the connection, or nothing.\<close>

definition client_ip_from_request :: "string option \<Rightarrow> string option \<Rightarrow> string" where
  "client_ip_from_request forwarded_for host =
     (let forwarded = py_strip (hd (split_on (CHR '','') (case forwarded_for of None \<Rightarrow> [] | Some f \<Rightarrow> f))) in
      if forwarded \<noteq> [] then take 128 forwarded
      else case host of
             None \<Rightarrow> ''unknown''
           | Some h \<Rightarrow> if h = [] then ''unknown'' else take 128 h)"

definition default_entry :: "(string, rat list) dict \<Rightarrow> string \<Rightarrow> rat list" where
  "default_entry d k = (case dict_get d k of None \<Rightarrow> [] | Some q \<Rightarrow> q)"

definition prune_entry :: "rat \<Rightarrow> rat \<Rightarrow> string \<Rightarrow> (string, rat list) dict \<Rightarrow> (string, rat list) dict" where
  "prune_entry now window k d = dict_set k (prune_window now window (default_entry d k)) d"

text \<open>\<open>Inl\<close> is the seconds of the \<open>Retry-After\<close> header of the 429 answer.\<close>

definition check_login_allowed ::
  "throttle_config \<Rightarrow> rat \<Rightarrow> string \<Rightarrow> string \<Rightarrow> throttle \<Rightarrow> (int + unit) \<times> throttle" where
  "check_login_allowed cfg now username ip th =
     (let uk = username_key username; ik = ip_key ip;
          us = prune_entry now (tg_window cfg) uk (th_by_username th);
          ips = prune_entry now (tg_window cfg) ik (th_by_ip th);
          th' = \<lparr>th_by_username = us, th_by_ip = ips\<rparr>
      in if length (default_entry us uk) \<ge> tg_max_per_username cfg
            \<or> length (default_entry ips ik) \<ge> tg_max_per_ip cfg
         then (Inl (max 1 \<lfloor>tg_lockout cfg\<rfloor>), th') else (Inr (), th'))"

definition record_login_failure ::
  "throttle_config \<Rightarrow> rat \<Rightarrow> string \<Rightarrow> string \<Rightarrow> throttle \<Rightarrow> throttle" where
  "record_login_failure cfg now username ip th =
     (let uk = username_key username; ik = ip_key ip;
          us = prune_entry now (tg_window cfg) uk (th_by_username th);
          ips = prune_entry now (tg_window cfg) ik (th_by_ip th)
      in \<lparr>th_by_username = dict_set uk (default_entry us uk @ [now]) us,
          th_by_ip = dict_set ik (default_entry ips ik @ [now]) ips\<rparr>)"

definition record_login_success :: "string \<Rightarrow> throttle \<Rightarrow> throttle" where
  "record_login_success username th =
     th\<lparr>th_by_username := dict_del (username_key username) (th_by_username th)\<rparr>"

section \<open>The windows hold the recent failures\<close>

text \<open>What happened to the throttle: the calls of the login handler with their times.\<close>

datatype throttle_call =
    Checked rat string string
  | Failed_Login rat string string
  | Succeeded_Login rat string

fun call_time :: "throttle_call \<Rightarrow> rat" where
  "call_time (Checked t _ _) = t"
| "call_time (Failed_Login t _ _) = t"
| "call_time (Succeeded_Login t _) = t"

fun throttle_step :: "throttle_config \<Rightarrow> throttle \<Rightarrow> throttle_call \<Rightarrow> throttle" where
  "throttle_step cfg th (Checked t u i) = snd (check_login_allowed cfg t u i th)"
| "throttle_step cfg th (Failed_Login t u i) = record_login_failure cfg t u i th"
| "throttle_step cfg th (Succeeded_Login t u) = record_login_success u th"

definition throttle_after :: "throttle_config \<Rightarrow> throttle_call list \<Rightarrow> throttle" where
  "throttle_after cfg calls = foldl (throttle_step cfg) empty_throttle calls"

text \<open>The specification: the failures of an account since its last success, and all of an address.\<close>

fun account_step :: "string \<Rightarrow> rat list \<Rightarrow> throttle_call \<Rightarrow> rat list" where
  "account_step k fs (Failed_Login t u i) = (if username_key u = k then fs @ [t] else fs)"
| "account_step k fs (Succeeded_Login t u) = (if username_key u = k then [] else fs)"
| "account_step k fs (Checked t u i) = fs"

definition account_failures :: "string \<Rightarrow> throttle_call list \<Rightarrow> rat list" where
  "account_failures k calls = foldl (account_step k) [] calls"

fun address_step :: "string \<Rightarrow> rat list \<Rightarrow> throttle_call \<Rightarrow> rat list" where
  "address_step k fs (Failed_Login t u i) = (if ip_key i = k then fs @ [t] else fs)"
| "address_step k fs _ = fs"

definition address_failures :: "string \<Rightarrow> throttle_call list \<Rightarrow> rat list" where
  "address_failures k calls = foldl (address_step k) [] calls"

definition recent :: "throttle_config \<Rightarrow> rat \<Rightarrow> rat list \<Rightarrow> rat list" where
  "recent cfg now fs = filter (\<lambda>t. now - tg_window cfg \<le> t) fs"

text \<open>A queue stands for the failures \<open>fs\<close> when it lacks only old ones, from the left.\<close>

definition window_of :: "throttle_config \<Rightarrow> rat \<Rightarrow> rat list \<Rightarrow> rat list \<Rightarrow> bool" where
  "window_of cfg seen fs q \<longleftrightarrow>
     sorted fs \<and> (\<forall>t \<in> set fs. t \<le> seen) \<and> (\<exists>old. fs = old @ q \<and> (\<forall>t \<in> set old. t < seen - tg_window cfg))"

lemma default_entry_set [simp]: "default_entry (dict_set k q d) k' = (if k' = k then q else default_entry d k')"
  by (simp add: default_entry_def dict_simps)

lemma default_entry_del [simp]: "default_entry (dict_del k d) k' = (if k' = k then [] else default_entry d k')"
  by (simp add: default_entry_def dict_simps)

lemma sorted_dropWhile_filter:
  "sorted q \<Longrightarrow> dropWhile (\<lambda>t. t < (c::rat)) q = filter (\<lambda>t. c \<le> t) q"
proof (induction q)
  case (Cons x q)
  show ?case
  proof (cases "x < c")
    case False
    with Cons.prems have "filter (\<lambda>t. c \<le> t) q = q" by (intro filter_True) force
    with False show ?thesis by simp
  qed (use Cons in simp)
qed simp

lemma window_recent:
  assumes "window_of cfg seen fs q" "seen \<le> now"
  shows "prune_window now (tg_window cfg) q = recent cfg now fs"
proof -
  from assms(1) obtain old where old: "fs = old @ q" "\<forall>t \<in> set old. t < seen - tg_window cfg" "sorted fs"
    by (auto simp: window_of_def)
  have "t < now - tg_window cfg" if "t \<in> set old" for t
  proof -
    from old(2) that have "t < seen - tg_window cfg" by blast
    also have "\<dots> \<le> now - tg_window cfg" using assms(2) by simp
    finally show ?thesis .
  qed
  then have "filter (\<lambda>t. now - tg_window cfg \<le> t) old = []"
    by (intro filter_False) (auto simp: not_le)
  with old show ?thesis
    by (simp add: prune_window_def recent_def sorted_dropWhile_filter sorted_append)
qed

lemma window_pruned:
  assumes "window_of cfg seen fs q" "seen \<le> now"
  shows "window_of cfg now fs (prune_window now (tg_window cfg) q)"
proof -
  from assms(1) obtain old where old: "fs = old @ q" "\<forall>t \<in> set old. t < seen - tg_window cfg" "sorted fs"
      "\<forall>t \<in> set fs. t \<le> seen"
    by (auto simp: window_of_def)
  let ?gone = "takeWhile (\<lambda>t. t < now - tg_window cfg) q"
  have "fs = (old @ ?gone) @ prune_window now (tg_window cfg) q"
    using old(1) by (simp add: prune_window_def)
  moreover have "\<forall>t \<in> set (old @ ?gone). t < now - tg_window cfg"
    using old(2) assms(2) by (fastforce dest: set_takeWhileD)
  ultimately show ?thesis
    using old(3,4) assms(2) unfolding window_of_def by (metis order_trans)
qed

lemma window_later: "window_of cfg seen fs q \<Longrightarrow> seen \<le> now \<Longrightarrow> window_of cfg now fs q"
  unfolding window_of_def by (fastforce intro: order_trans)

lemma window_append:
  assumes "window_of cfg now fs q" shows "window_of cfg now (fs @ [now]) (q @ [now])"
  using assms by (auto simp: window_of_def sorted_append)

lemma window_Nil [simp]: "window_of cfg now [] []"
  by (simp add: window_of_def)


definition throttle_inv :: "throttle_config \<Rightarrow> rat \<Rightarrow> throttle_call list \<Rightarrow> throttle \<Rightarrow> bool" where
  "throttle_inv cfg seen calls th \<longleftrightarrow>
     (\<forall>k. window_of cfg seen (account_failures k calls) (default_entry (th_by_username th) k)
        \<and> window_of cfg seen (address_failures k calls) (default_entry (th_by_ip th) k))"

lemma failures_snoc [simp]:
  "account_failures k (calls @ [c]) = account_step k (account_failures k calls) c"
  "address_failures k (calls @ [c]) = address_step k (address_failures k calls) c"
  "throttle_after cfg (calls @ [c]) = throttle_step cfg (throttle_after cfg calls) c"
  by (simp_all add: account_failures_def address_failures_def throttle_after_def)

lemma window_step:
  assumes "window_of cfg seen fs q" "seen \<le> now"
  shows "window_of cfg now fs (prune_window now (tg_window cfg) q)"
    and "window_of cfg now (fs @ [now]) (prune_window now (tg_window cfg) q @ [now])"
    and "window_of cfg now fs q"
  using window_pruned[OF assms] window_append[OF window_pruned[OF assms]] window_later[OF assms]
  by blast+

lemma throttle_inv_step:
  assumes "throttle_inv cfg seen calls th" "seen \<le> call_time c"
  shows "throttle_inv cfg (call_time c) (calls @ [c]) (throttle_step cfg th c)"
proof -
  have "window_of cfg seen (account_failures k calls) (default_entry (th_by_username th) k)"
    and "window_of cfg seen (address_failures k calls) (default_entry (th_by_ip th) k)" for k
    using assms(1) by (simp_all add: throttle_inv_def)
  note facts = window_step[OF this(1) assms(2)] window_step[OF this(2) assms(2)]
  show ?thesis
    by (cases c)
       (use facts in \<open>auto simp: throttle_inv_def check_login_allowed_def record_login_failure_def
          record_login_success_def prune_entry_def Let_def\<close>)
qed

lemma throttle_inv_after:
  assumes "sorted (map call_time calls)" "\<forall>c \<in> set calls. call_time c \<le> now"
  shows "throttle_inv cfg now calls (throttle_after cfg calls)"
  using assms
proof (induction calls arbitrary: now rule: rev_induct)
  case Nil
  then show ?case
    by (simp add: throttle_inv_def throttle_after_def empty_throttle_def account_failures_def
        address_failures_def default_entry_def)
next
  case (snoc c calls)
  then have "throttle_inv cfg (call_time c) calls (throttle_after cfg calls)"
    by (auto simp: sorted_append)
  from throttle_inv_step[OF this] have "throttle_inv cfg (call_time c) (calls @ [c]) (throttle_after cfg (calls @ [c]))"
    by simp
  with snoc.prems(2) show ?case
    unfolding throttle_inv_def by (metis in_set_conv_decomp window_later)
qed

text \<open>C36: The throttle implements its history: after any sequence of logins in the order of their times,
  the check refuses a login exactly when the account failed its maximum of times since its last success, or
  the address its maximum, within the last window; the pruned queues lose nothing that still counts.\<close>

theorem login_throttle_exact:
  assumes "sorted (map call_time calls)" "\<forall>c \<in> set calls. call_time c \<le> now"
  shows "isl (fst (check_login_allowed cfg now username ip (throttle_after cfg calls))) \<longleftrightarrow>
     tg_max_per_username cfg \<le> length (recent cfg now (account_failures (username_key username) calls))
     \<or> tg_max_per_ip cfg \<le> length (recent cfg now (address_failures (ip_key ip) calls))"
proof -
  have inv: "throttle_inv cfg now calls (throttle_after cfg calls)" by (rule throttle_inv_after[OF assms])
  have "prune_window now (tg_window cfg) (default_entry (th_by_username (throttle_after cfg calls)) k)
          = recent cfg now (account_failures k calls)"
    and "prune_window now (tg_window cfg) (default_entry (th_by_ip (throttle_after cfg calls)) k)
          = recent cfg now (address_failures k calls)" for k
    using inv window_recent[OF _ order_refl] by (auto simp: throttle_inv_def)
  then show ?thesis
    by (simp add: check_login_allowed_def prune_entry_def Let_def)
qed

definition eight_failures :: "throttle_call list" where
  "eight_failures = replicate 8 (Failed_Login 0 ''Ann'' ''10.0.0.1'')"

theorem login_throttle_exact_witness:
  "isl (fst (check_login_allowed default_throttle 60 ''ann'' ''10.0.0.2'' (throttle_after default_throttle eight_failures))) \<longleftrightarrow>
     tg_max_per_username default_throttle
       \<le> length (recent default_throttle 60 (account_failures (username_key ''ann'') eight_failures))
     \<or> tg_max_per_ip default_throttle
       \<le> length (recent default_throttle 60 (address_failures (ip_key ''10.0.0.2'') eight_failures))"
  by (rule login_throttle_exact) (simp_all add: eight_failures_def)

text \<open>The answer tells the client to come back after sixty seconds; the account stays closed until its
  failures leave the window of fifteen minutes. The lockout of the configuration closes nothing.\<close>

lemma lockout_outlasts_retry_after:
  "fst (check_login_allowed default_throttle 1 ''ann'' ''10.0.0.2'' (throttle_after default_throttle eight_failures)) = Inl 60"
  "fst (check_login_allowed default_throttle 899 ''ann'' ''10.0.0.2'' (throttle_after default_throttle eight_failures)) = Inl 60"
  "fst (check_login_allowed default_throttle 901 ''ann'' ''10.0.0.2'' (throttle_after default_throttle eight_failures)) = Inr ()"
  by code_simp+

end
