(* ===== verification/Auth_Sessions.thy ===== *)
theory Auth_Sessions
  imports Role_Guard Login_Throttle
begin

text \<open>
  \<open>app/auth/router.py\<close> and the user requests of \<open>app/platform_admin/router.py\<close>: login, refresh, logout,
  the changes of passwords, and the creation, change and deletion of users. A request is one transaction
  that commits; its time, its random parts (the ids of tokens, the salt) and the headers it carries are the
  record \<open>auth_env\<close>. \<open>bcrypt\<close> is a parameter. The display settings, the time zone of a user and the
  details of the journal are left out. The refresh is also given in its two halves, the row read and checked
  and the row written, for two requests that overlap.
\<close>

section \<open>State\<close>

record platform_user =
  pu_username :: string
  pu_hash :: string
  pu_role :: string
  pu_status :: string
  pu_version :: int
  pu_must_change :: bool
  pu_last_login :: "int option"

record auth_world =
  aw_users :: "(int, platform_user) dict"
  aw_next :: int
  aw_journal :: "(string \<times> string \<times> int option) list"
  aw_throttle :: throttle

record bcrypt_lib =
  bc_check :: "string \<Rightarrow> string \<Rightarrow> bool option"
  bc_hash :: "string \<Rightarrow> string \<Rightarrow> string"

record auth_env =
  en_now :: int
  en_mono :: rat
  en_jti :: "string \<times> string"
  en_salt :: string
  en_forwarded :: "string option"
  en_host :: "string option"

record token_bundle =
  tb_access :: string
  tb_refresh :: string
  tb_expires_in :: int
  tb_expires_at :: int
  tb_username :: string
  tb_role :: string
  tb_status :: string
  tb_must_change :: bool
  tb_capabilities :: "(string \<times> bool) list"

datatype auth_answer = Bundle token_bundle | Done | Refusal int string

definition ACTIVE :: string where "ACTIVE = ''ACTIVE''"

definition user_version :: "platform_user \<Rightarrow> int" where
  "user_version u = (if pu_version u = 0 then 1 else pu_version u)"

definition get_user_by_username :: "auth_world \<Rightarrow> string \<Rightarrow> (int \<times> platform_user) option" where
  "get_user_by_username w name = List.find (\<lambda>(i, u). pu_username u = name) (aw_users w)"

definition get_user_by_id :: "auth_world \<Rightarrow> int \<Rightarrow> platform_user option" where
  "get_user_by_id w uid = dict_get (aw_users w) uid"

definition count_administrators :: "auth_world \<Rightarrow> nat" where
  "count_administrators w =
     length (filter (\<lambda>(i, u). pu_role u = ADMINISTRATOR \<and> pu_status u = ACTIVE) (aw_users w))"

definition journal_entry :: "string \<Rightarrow> string \<Rightarrow> int option \<Rightarrow> auth_world \<Rightarrow> auth_world" where
  "journal_entry action actor entity w = w\<lparr>aw_journal := aw_journal w @ [(action, actor, entity)]\<rparr>"

definition save_user :: "int \<Rightarrow> platform_user \<Rightarrow> auth_world \<Rightarrow> auth_world" where
  "save_user uid u w = w\<lparr>aw_users := dict_set uid u (aw_users w)\<rparr>"

definition verify_password :: "bcrypt_lib \<Rightarrow> string \<Rightarrow> string \<Rightarrow> bool" where
  "verify_password bc plain hashed =
     (if hashed = [] then False else (case bc_check bc plain hashed of None \<Rightarrow> False | Some b \<Rightarrow> b))"

definition get_password_hash :: "bcrypt_lib \<Rightarrow> auth_env \<Rightarrow> string \<Rightarrow> string" where
  "get_password_hash bc env pw = bc_hash bc pw (en_salt env)"

text \<open>The empty list is no objection.\<close>

definition validate_new_platform_password :: "string \<Rightarrow> string" where
  "validate_new_platform_password value =
     (let s = py_strip value in
      if length s < 8 then ''Password must be at least 8 characters.''
      else if length s > 256 then ''Password must be at most 256 characters.''
      else if py_lower s = ''admin'' then ''The password \"admin\" is not allowed. Choose a stronger password.''
      else [])"

definition login_role :: "string \<Rightarrow> string" where
  "login_role raw =
     (let v = py_upper (py_strip raw) in if v \<in> set all_platform_roles then v else ADMINISTRATOR)"

definition build_token_bundle ::
  "jwt_lib \<Rightarrow> auth_settings \<Rightarrow> auth_env \<Rightarrow> int \<Rightarrow> string \<Rightarrow> string \<Rightarrow> int \<Rightarrow> string \<Rightarrow> bool \<Rightarrow> token_bundle" where
  "build_token_bundle lib st env uid username role tv status must_change =
     (let (access, access_exp) = issue_access_token lib st (en_now env) (fst (en_jti env)) username uid role tv must_change;
          (refresh, _) = issue_refresh_token lib st (en_now env) (snd (en_jti env)) username uid role tv must_change
      in \<lparr>tb_access = access, tb_refresh = refresh, tb_expires_in = max 1 (access_exp - en_now env),
          tb_expires_at = access_exp, tb_username = username, tb_role = role, tb_status = status,
          tb_must_change = must_change, tb_capabilities = build_capabilities role\<rparr>)"

section \<open>Login, refresh, logout\<close>

definition login ::
  "jwt_lib \<Rightarrow> bcrypt_lib \<Rightarrow> auth_settings \<Rightarrow> auth_env \<Rightarrow> string \<Rightarrow> string \<Rightarrow> auth_world \<Rightarrow> auth_answer \<times> auth_world" where
  "login lib bc st env name password w =
     (let username = py_strip name;
          ip = client_ip_from_request (en_forwarded env) (en_host env);
          (allowed, th) = check_login_allowed default_throttle (en_mono env) username ip (aw_throttle w);
          w1 = w\<lparr>aw_throttle := th\<rparr>
      in case allowed of
           Inl _ \<Rightarrow> (Refusal 429 ''LOGIN_RATE_LIMITED'', w1)
         | Inr _ \<Rightarrow>
           (let found = get_user_by_username w1 username;
                failed = (Refusal 400 ''USER_AUTH_FAILED'',
                  journal_entry ''USER_LOGIN_FAILED'' username (map_option fst found)
                    (w1\<lparr>aw_throttle := record_login_failure default_throttle (en_mono env) username ip th\<rparr>))
            in case found of
                 None \<Rightarrow> failed
               | Some (uid, u) \<Rightarrow>
                   if pu_status u \<noteq> ACTIVE \<or> \<not> verify_password bc password (pu_hash u) then failed
                   else
                     (let role = login_role (pu_role u);
                          w2 = journal_entry ''USER_LOGIN'' username (Some uid)
                                 (save_user uid (u\<lparr>pu_last_login := Some (en_now env)\<rparr>) w1)
                      in (Bundle (build_token_bundle lib st env uid username role (user_version u) (pu_status u)
                                    (pu_must_change u)),
                          w2\<lparr>aw_throttle := record_login_success username (aw_throttle w2)\<rparr>))))"

definition refresh_check ::
  "jwt_lib \<Rightarrow> auth_settings \<Rightarrow> auth_env \<Rightarrow> string \<Rightarrow> auth_world \<Rightarrow> string + (int \<times> platform_user)" where
  "refresh_check lib st env token w =
     (case decode_token lib st (en_now env) token (Some TOKEN_TYPE_REFRESH) of
        Inl e \<Rightarrow> Inl (te_code e)
      | Inr c \<Rightarrow>
          (case get_user_by_id w (tc_user_id c) of
             None \<Rightarrow> Inl ''AUTH_USER_INACTIVE''
           | Some u \<Rightarrow>
               if pu_status u \<noteq> ACTIVE then Inl ''AUTH_USER_INACTIVE''
               else if user_version u \<noteq> tc_version c then Inl ''AUTH_TOKEN_REVOKED''
               else Inr (tc_user_id c, u)))"

text \<open>The second half writes the new version from the row the first half read; the other columns keep
  what the table holds by then, and a row that is gone raises.\<close>

definition refresh_commit ::
  "jwt_lib \<Rightarrow> auth_settings \<Rightarrow> auth_env \<Rightarrow> int \<Rightarrow> platform_user \<Rightarrow> auth_world \<Rightarrow> auth_answer \<times> auth_world" where
  "refresh_commit lib st env uid u w =
     (case get_user_by_id w uid of
        None \<Rightarrow> (Refusal 500 ''STALE_ROW'', w)
      | Some current \<Rightarrow>
     (let role = login_role (pu_role u);
          new_tv = user_version u + 1
      in (Bundle (build_token_bundle lib st env uid (pu_username u) role new_tv (pu_status u) (pu_must_change u)),
          journal_entry ''USER_TOKEN_REFRESHED'' (pu_username u) (Some uid)
            (save_user uid (current\<lparr>pu_version := new_tv\<rparr>) w))))"

definition refresh :: "jwt_lib \<Rightarrow> auth_settings \<Rightarrow> auth_env \<Rightarrow> string \<Rightarrow> auth_world \<Rightarrow> auth_answer \<times> auth_world" where
  "refresh lib st env token w =
     (case refresh_check lib st env token w of
        Inl code \<Rightarrow> (Refusal 401 code, w)
      | Inr (uid, u) \<Rightarrow> refresh_commit lib st env uid u w)"

definition logout :: "auth_context \<Rightarrow> bool \<Rightarrow> auth_world \<Rightarrow> auth_answer \<times> auth_world" where
  "logout ctx revoke_all w =
     (case (ax_source ctx, ax_user_id ctx) of
        (From_Jwt, Some uid) \<Rightarrow>
          (case get_user_by_id w uid of
             None \<Rightarrow> (Done, w)
           | Some u \<Rightarrow>
               (Done, journal_entry ''USER_LOGOUT'' (pu_username u) (Some uid)
                  (save_user uid (if revoke_all then u\<lparr>pu_version := user_version u + 1\<rparr> else u) w)))
      | _ \<Rightarrow> (Done, w))"

text \<open>The row with a new password, as three of the requests write it.\<close>

definition with_password :: "bcrypt_lib \<Rightarrow> auth_env \<Rightarrow> string \<Rightarrow> platform_user \<Rightarrow> platform_user" where
  "with_password bc env pw u =
     u\<lparr>pu_hash := get_password_hash bc env pw, pu_must_change := False, pu_version := user_version u + 1\<rparr>"

definition change_own_password ::
  "bcrypt_lib \<Rightarrow> auth_env \<Rightarrow> auth_context \<Rightarrow> string \<Rightarrow> string \<Rightarrow> auth_world \<Rightarrow> auth_answer \<times> auth_world" where
  "change_own_password bc env ctx current_pw new_pw w =
     (case (ax_source ctx, ax_user_id ctx) of
        (From_Jwt, Some uid) \<Rightarrow>
          (case get_user_by_id w uid of
             None \<Rightarrow> (Refusal 401 ''AUTH_USER_INACTIVE'', w)
           | Some u \<Rightarrow>
               if pu_status u \<noteq> ACTIVE then (Refusal 401 ''AUTH_USER_INACTIVE'', w)
               else if user_version u \<noteq> (case ax_version ctx of None \<Rightarrow> 0 | Some v \<Rightarrow> v)
                 then (Refusal 401 ''AUTH_TOKEN_REVOKED'', w)
               else if \<not> verify_password bc current_pw (pu_hash u) then (Refusal 400 ''USER_AUTH_FAILED'', w)
               else if validate_new_platform_password new_pw \<noteq> [] then (Refusal 400 ''PASSWORD_POLICY_REJECTED'', w)
               else (Done, journal_entry ''PASSWORD_CHANGED'' (pu_username u) (Some uid)
                             (save_user uid (with_password bc env new_pw u) w)))
      | _ \<Rightarrow> (Refusal 401 ''AUTH_REQUIRED'', w))"

definition whoami :: "auth_settings \<Rightarrow> auth_context \<Rightarrow> auth_world \<Rightarrow> string + (string \<times> string \<times> bool)" where
  "whoami st ctx w =
     (if ax_source ctx = From_Jwt then
        (case get_user_by_id w (case ax_user_id ctx of None \<Rightarrow> 0 | Some i \<Rightarrow> i) of
           None \<Rightarrow> Inl ''AUTH_USER_INACTIVE''
         | Some u \<Rightarrow>
             if pu_status u \<noteq> ACTIVE then Inl ''AUTH_USER_INACTIVE''
             else if user_version u \<noteq> (case ax_version ctx of None \<Rightarrow> 0 | Some v \<Rightarrow> v) then Inl ''AUTH_TOKEN_REVOKED''
             else Inr (ax_username ctx, ax_role ctx, True))
      else if ax_source ctx = Invalid_Token then Inl ''AUTH_TOKEN_INVALID''
      else if au_require_auth st then Inl ''AUTH_REQUIRED''
      else Inr (ax_username ctx, ax_role ctx, False))"

section \<open>The users\<close>

text \<open>\<open>None\<close> where the source raises \<open>ValueError\<close>.\<close>

definition normalize_username :: "string \<Rightarrow> string option" where
  "normalize_username value =
     (let u = py_strip value in if u = [] \<or> CHR '' '' \<in> set u then None else Some u)"

definition create_user ::
  "bcrypt_lib \<Rightarrow> auth_env \<Rightarrow> string \<Rightarrow> string \<Rightarrow> string \<Rightarrow> auth_world \<Rightarrow> auth_answer \<times> auth_world" where
  "create_user bc env name password role w =
     (case normalize_username name of
        None \<Rightarrow> (Refusal 422 ''USER_USERNAME_INVALID'', w)
      | Some username \<Rightarrow>
          (let uid = aw_next w; w1 = w\<lparr>aw_next := aw_next w + 1\<rparr> in
           if get_user_by_username w username \<noteq> None then (Refusal 409 ''USER_USERNAME_TAKEN'', w1)
           else (Done, journal_entry ''USER_CREATED'' username (Some uid)
                  (save_user uid
                    \<lparr>pu_username = username, pu_hash = get_password_hash bc env password, pu_role = role,
                     pu_status = ACTIVE, pu_version = 1, pu_must_change = False, pu_last_login = None\<rparr> w1))))"

text \<open>What the schemas of the request bodies check of roles, status and new passwords.\<close>

definition create_ok :: "string \<Rightarrow> string \<Rightarrow> bool" where
  "create_ok password role \<longleftrightarrow> 8 \<le> length password \<and> length password \<le> 256 \<and> role \<in> set all_platform_roles"

record user_update =
  up_password :: "string option"
  up_role :: "string option"
  up_status :: "string option"

definition update_ok :: "user_update \<Rightarrow> bool" where
  "update_ok up \<longleftrightarrow>
     (case up_password up of None \<Rightarrow> True | Some p \<Rightarrow> 8 \<le> length p \<and> length p \<le> 256)
     \<and> (case up_role up of None \<Rightarrow> True | Some r \<Rightarrow> r \<in> set all_platform_roles)
     \<and> (case up_status up of None \<Rightarrow> True | Some s \<Rightarrow> s \<in> {ACTIVE, ''DISABLED''})"

definition apply_update :: "bcrypt_lib \<Rightarrow> auth_env \<Rightarrow> user_update \<Rightarrow> platform_user \<Rightarrow> platform_user" where
  "apply_update bc env up u =
     (let (u1, b1) = (case up_password up of
                        None \<Rightarrow> (u, False)
                      | Some p \<Rightarrow> (u\<lparr>pu_hash := get_password_hash bc env p, pu_must_change := False\<rparr>, True));
          (u2, b2) = (case up_role up of
                        None \<Rightarrow> (u1, b1)
                      | Some r \<Rightarrow> if r \<noteq> pu_role u1 then (u1\<lparr>pu_role := r\<rparr>, True) else (u1, b1));
          (u3, b3) = (case up_status up of
                        None \<Rightarrow> (u2, b2)
                      | Some s \<Rightarrow> if s \<noteq> pu_status u2 then (u2\<lparr>pu_status := s\<rparr>, b2 \<or> s \<noteq> ACTIVE) else (u2, b2))
      in if b3 then u3\<lparr>pu_version := user_version u3 + 1\<rparr> else u3)"

definition update_user :: "bcrypt_lib \<Rightarrow> auth_env \<Rightarrow> int \<Rightarrow> user_update \<Rightarrow> auth_world \<Rightarrow> auth_answer \<times> auth_world" where
  "update_user bc env uid up w =
     (if \<not> update_ok up then (Refusal 422 ''VALIDATION'', w)
      else case get_user_by_id w uid of
        None \<Rightarrow> (Refusal 404 ''USER_NOT_FOUND'', w)
      | Some u \<Rightarrow>
          (let was_admin = (pu_role u = ADMINISTRATOR \<and> pu_status u = ACTIVE);
               new_role = (case up_role up of None \<Rightarrow> pu_role u | Some r \<Rightarrow> r);
               new_status = (case up_status up of None \<Rightarrow> pu_status u | Some s \<Rightarrow> s)
           in if (up_role up \<noteq> None \<or> up_status up \<noteq> None)
                 \<and> was_admin \<and> (new_role \<noteq> ADMINISTRATOR \<or> new_status \<noteq> ACTIVE) \<and> count_administrators w \<le> 1
              then (Refusal 422 ''USER_LAST_ADMIN'', w)
              else (Done, journal_entry ''USER_UPDATED'' ''system'' (Some uid)
                            (save_user uid (apply_update bc env up u) w))))"

definition delete_user :: "int \<Rightarrow> auth_world \<Rightarrow> auth_answer \<times> auth_world" where
  "delete_user uid w =
     (case get_user_by_id w uid of
        None \<Rightarrow> (Refusal 404 ''USER_NOT_FOUND'', w)
      | Some u \<Rightarrow>
          if pu_role u = ADMINISTRATOR \<and> pu_status u = ACTIVE \<and> count_administrators w \<le> 1
          then (Refusal 400 ''USER_LAST_ADMIN'', w)
          else (Done, (journal_entry ''USER_DELETED'' ''system'' (Some uid) w)\<lparr>aw_users := dict_del uid (aw_users w)\<rparr>))"

definition admin_change_password ::
  "bcrypt_lib \<Rightarrow> auth_env \<Rightarrow> string \<Rightarrow> string \<Rightarrow> string \<Rightarrow> auth_world \<Rightarrow> auth_answer \<times> auth_world" where
  "admin_change_password bc env name current_pw new_pw w =
     (case normalize_username name of
        None \<Rightarrow> (Refusal 422 ''USER_USERNAME_INVALID'', w)
      | Some username \<Rightarrow>
          (case get_user_by_username w username of
             None \<Rightarrow> (Refusal 400 ''USER_AUTH_FAILED'', w)
           | Some (uid, u) \<Rightarrow>
               if pu_status u \<noteq> ACTIVE \<or> \<not> verify_password bc current_pw (pu_hash u)
               then (Refusal 400 ''USER_AUTH_FAILED'', w)
               else (Done, journal_entry ''PASSWORD_CHANGED'' username (Some uid)
                             (save_user uid (with_password bc env new_pw u) w))))"

section \<open>Requests\<close>

datatype auth_request =
    Login string string
  | Refresh string
  | Logout auth_context bool
  | Change_Own_Password auth_context string string
  | Create_User string string string
  | Update_User int user_update
  | Delete_User int
  | Admin_Change_Password string string string

fun serve_auth ::
  "jwt_lib \<Rightarrow> bcrypt_lib \<Rightarrow> auth_settings \<Rightarrow> auth_env \<Rightarrow> auth_request \<Rightarrow> auth_world \<Rightarrow> auth_answer \<times> auth_world" where
  "serve_auth lib bc st env (Login n p) w = login lib bc st env n p w"
| "serve_auth lib bc st env (Refresh t) w = refresh lib st env t w"
| "serve_auth lib bc st env (Logout ctx all) w = logout ctx all w"
| "serve_auth lib bc st env (Change_Own_Password ctx p q) w = change_own_password bc env ctx p q w"
| "serve_auth lib bc st env (Create_User n p r) w =
     (if create_ok p r then create_user bc env n p r w else (Refusal 422 ''VALIDATION'', w))"
| "serve_auth lib bc st env (Update_User i up) w = update_user bc env i up w"
| "serve_auth lib bc st env (Delete_User i) w = delete_user i w"
| "serve_auth lib bc st env (Admin_Change_Password n p q) w = admin_change_password bc env n p q w"

definition serve_all ::
  "jwt_lib \<Rightarrow> bcrypt_lib \<Rightarrow> auth_settings \<Rightarrow> (auth_env \<times> auth_request) list \<Rightarrow> auth_world \<Rightarrow> auth_world" where
  "serve_all lib bc st = fold (\<lambda>(env, r) w. snd (serve_auth lib bc st env r w))"

section \<open>Versions only grow\<close>

definition users_ok :: "auth_world \<Rightarrow> bool" where
  "users_ok w \<longleftrightarrow> dict_ok (aw_users w) \<and> (\<forall>uid \<in> fst ` set (aw_users w). uid < aw_next w)
     \<and> (\<forall>u \<in> snd ` set (aw_users w). pu_role u \<in> set all_platform_roles)"

definition later :: "auth_world \<Rightarrow> auth_world \<Rightarrow> bool" where
  "later w w' \<longleftrightarrow> users_ok w' \<and> aw_next w \<le> aw_next w'
     \<and> (\<forall>uid u'. uid < aw_next w \<longrightarrow> get_user_by_id w' uid = Some u' \<longrightarrow>
          (\<exists>u. get_user_by_id w uid = Some u \<and> user_version u \<le> user_version u'))"

lemma world_simps [simp]:
  "aw_users (journal_entry a b c w) = aw_users w" "aw_next (journal_entry a b c w) = aw_next w"
  "aw_throttle (journal_entry a b c w) = aw_throttle w"
  "aw_users (save_user i u w) = dict_set i u (aw_users w)" "aw_next (save_user i u w) = aw_next w"
  "aw_throttle (save_user i u w) = aw_throttle w"
  by (simp_all add: journal_entry_def save_user_def)

lemma later_refl: "users_ok w \<Longrightarrow> later w w"
  by (simp add: later_def)

lemma later_trans: "later w1 w2 \<Longrightarrow> later w2 w3 \<Longrightarrow> later w1 w3"
  unfolding later_def by (meson order_less_le_trans order_trans)

lemma later_same:
  "later w w1 \<Longrightarrow> aw_users w2 = aw_users w1 \<Longrightarrow> aw_next w2 = aw_next w1 \<Longrightarrow> later w w2"
  by (simp add: later_def users_ok_def get_user_by_id_def)

lemma user_known:
  assumes "users_ok w" "get_user_by_id w uid = Some u"
  shows "uid < aw_next w" "pu_role u \<in> set all_platform_roles"
  using assms map_of_SomeD unfolding users_ok_def get_user_by_id_def by force+

lemma later_save:
  assumes "users_ok w" "get_user_by_id w uid = Some u" "user_version u \<le> user_version u'"
    "pu_role u' \<in> set all_platform_roles"
  shows "later w (save_user uid u' w)"
proof -
  have "set (dict_set uid u' (aw_users w)) \<subseteq> insert (uid, u') (set (aw_users w))" by (rule set_dict_set)
  then have "users_ok (save_user uid u' w)"
    using assms user_known[OF assms(1,2)] unfolding users_ok_def by (auto intro: dict_set_ok)
  with assms show ?thesis
    by (auto simp: later_def get_user_by_id_def dict_simps split: if_splits)
qed

lemma later_delete: "users_ok w \<Longrightarrow> later w (w\<lparr>aw_users := dict_del uid (aw_users w)\<rparr>)"
proof -
  assume "users_ok w"
  moreover have "set (dict_del uid (aw_users w)) \<subseteq> set (aw_users w)"
    by (auto simp: AList.delete_eq)
  ultimately have "users_ok (w\<lparr>aw_users := dict_del uid (aw_users w)\<rparr>)"
    unfolding users_ok_def by (auto intro: dict_del_ok)
  then show ?thesis by (auto simp: later_def get_user_by_id_def dict_simps split: if_splits)
qed

lemma later_insert:
  assumes "users_ok w" "pu_role u \<in> set all_platform_roles"
  shows "later w (save_user (aw_next w) u (w\<lparr>aw_next := aw_next w + 1\<rparr>))"
  using assms set_dict_set[of "aw_next w" u "aw_users w"]
  by (fastforce simp: later_def users_ok_def get_user_by_id_def dict_simps dict_set_ok split: if_splits)

lemma find_user:
  assumes "users_ok w" "get_user_by_username w name = Some (uid, u)"
  shows "get_user_by_id w uid = Some u"
  using assms unfolding users_ok_def get_user_by_username_def get_user_by_id_def
  by (auto simp: find_Some_iff map_of_eq_Some_iff) (metis nth_mem)

lemma user_version_simps [simp]:
  "user_version (u\<lparr>pu_last_login := x\<rparr>) = user_version u"
  "user_version (u\<lparr>pu_role := r\<rparr>) = user_version u" "user_version (u\<lparr>pu_status := s\<rparr>) = user_version u"
  "user_version (u\<lparr>pu_hash := h, pu_must_change := b\<rparr>) = user_version u"
  by (simp_all add: user_version_def)

lemma user_version_bump:
  "user_version u < user_version (u'\<lparr>pu_version := user_version u + 1\<rparr>)"
  "user_version u < user_version (with_password bc env pw u)"
  by (simp_all add: user_version_def with_password_def)

lemma apply_update_version: "user_version u \<le> user_version (apply_update bc env up u)"
  by (auto simp: apply_update_def user_version_def Let_def split: option.splits)

lemma apply_update_role:
  assumes "update_ok up" "pu_role u \<in> set all_platform_roles"
  shows "pu_role (apply_update bc env up u) \<in> set all_platform_roles"
  using assms by (auto simp: apply_update_def update_ok_def Let_def split: option.splits)

lemma later_frame [simp]:
  "later w (journal_entry a b c w') = later w w'" "later w (w'\<lparr>aw_throttle := th\<rparr>) = later w w'"
  "save_user i u (w\<lparr>aw_throttle := th\<rparr>) = (save_user i u w)\<lparr>aw_throttle := th\<rparr>"
  "get_user_by_username (w\<lparr>aw_throttle := th\<rparr>) n = get_user_by_username w n"
  by (auto simp: later_def users_ok_def get_user_by_id_def save_user_def get_user_by_username_def)

lemma later_saved:
  "users_ok w \<Longrightarrow> get_user_by_id w uid = Some u \<Longrightarrow> user_version u \<le> user_version u' \<Longrightarrow>
     pu_role u' = pu_role u \<Longrightarrow> later w (save_user uid u' w)"
  by (rule later_save) (simp_all add: user_known(2))

lemma with_password_role [simp]: "pu_role (with_password bc env pw u) = pu_role u"
  by (simp add: with_password_def)

lemmas later_rules = later_refl later_saved user_version_bump[THEN less_imp_le]

lemma later_login: "users_ok w \<Longrightarrow> later w (snd (login lib bc st env n p w))"
  unfolding login_def
  by (auto simp: Let_def split: prod.splits sum.splits option.splits intro: later_rules dest: find_user)

lemma later_logout: "users_ok w \<Longrightarrow> later w (snd (logout ctx all w))"
  unfolding logout_def
  by (auto split: auth_source.splits option.splits intro: later_rules)

lemma later_refresh:
  assumes "users_ok w" shows "later w (snd (refresh lib st env t w))"
proof (cases "refresh_check lib st env t w")
  case (Inr r)
  then have "get_user_by_id w (fst r) = Some (snd r)"
    by (auto simp: refresh_check_def split: sum.splits option.splits if_splits)
  with Inr assms show ?thesis
    by (cases r) (auto simp: refresh_def refresh_commit_def Let_def intro: later_rules)
qed (simp add: refresh_def later_refl assms)

lemma later_own_password: "users_ok w \<Longrightarrow> later w (snd (change_own_password bc env ctx p q w))"
  unfolding change_own_password_def
  by (auto split: auth_source.splits option.splits intro: later_rules)

lemma later_admin_password: "users_ok w \<Longrightarrow> later w (snd (admin_change_password bc env n p q w))"
  unfolding admin_change_password_def
  by (auto split: option.splits intro: later_rules dest: find_user)

lemma later_next: "users_ok w \<Longrightarrow> later w (w\<lparr>aw_next := aw_next w + 1\<rparr>)"
  by (auto simp: later_def users_ok_def get_user_by_id_def)

lemma later_create: "users_ok w \<Longrightarrow> create_ok p r \<Longrightarrow> later w (snd (create_user bc env n p r w))"
  unfolding create_user_def
  by (auto simp: Let_def create_ok_def split: option.splits
      intro: later_refl later_next later_insert)

lemma later_update: "users_ok w \<Longrightarrow> later w (snd (update_user bc env i up w))"
  unfolding update_user_def
  by (auto simp: Let_def split: option.splits
      intro: later_refl later_save apply_update_version apply_update_role user_known(2))

lemma later_delete_user: "users_ok w \<Longrightarrow> later w (snd (delete_user i w))"
  unfolding delete_user_def
  using later_same[OF later_delete]
  by (auto split: option.splits intro: later_refl)

lemma later_serve:
  assumes "users_ok w" shows "later w (snd (serve_auth lib bc st env r w))"
  using assms
  by (cases r)
     (simp_all add: later_login later_refresh later_logout later_own_password later_create later_update
       later_delete_user later_admin_password later_refl)

lemma later_serve_all: "users_ok w \<Longrightarrow> later w (serve_all lib bc st reqs w)"
proof (induction reqs arbitrary: w)
  case Nil
  then show ?case by (simp add: serve_all_def later_refl)
next
  case (Cons er reqs)
  obtain e r where er: "er = (e, r)" by (cases er)
  have "later w (snd (serve_auth lib bc st e r w))" by (rule later_serve[OF Cons.prems])
  moreover from this have "later (snd (serve_auth lib bc st e r w)) (serve_all lib bc st reqs (snd (serve_auth lib bc st e r w)))"
    by (intro Cons.IH) (simp add: later_def)
  ultimately show ?case unfolding serve_all_def er by (auto intro: later_trans)
qed

section \<open>Tokens that are over\<close>

text \<open>What the development relies on of the JWT library: the payload it reads from a token does not depend
  on the time, and a token it made holds the payload it was made of.\<close>

definition stable_decode :: "jwt_lib \<Rightarrow> auth_settings \<Rightarrow> bool" where
  "stable_decode lib st \<longleftrightarrow>
     (\<forall>t now now' p p'.
        jw_decode lib t (signing_key st) (au_algorithm st) (au_issuer st) now = Inr p \<longrightarrow>
        jw_decode lib t (signing_key st) (au_algorithm st) (au_issuer st) now' = Inr p' \<longrightarrow> p = p')"

definition sound_decode :: "jwt_lib \<Rightarrow> auth_settings \<Rightarrow> bool" where
  "sound_decode lib st \<longleftrightarrow>
     (\<forall>p p' now.
        jw_decode lib (jw_encode lib p (signing_key st) (au_algorithm st)) (signing_key st) (au_algorithm st)
          (au_issuer st) now = Inr p' \<longrightarrow> p' = p)"

definition refresh_claims :: "jwt_lib \<Rightarrow> auth_settings \<Rightarrow> string \<Rightarrow> token_claims \<Rightarrow> bool" where
  "refresh_claims lib st token c \<longleftrightarrow>
     (\<exists>now. decode_token lib st now token (Some TOKEN_TYPE_REFRESH) = Inr c)"

definition token_over :: "jwt_lib \<Rightarrow> auth_settings \<Rightarrow> string \<Rightarrow> auth_world \<Rightarrow> bool" where
  "token_over lib st token w \<longleftrightarrow>
     (\<forall>c. refresh_claims lib st token c \<longrightarrow> tc_user_id c < aw_next w
        \<and> (\<forall>u. get_user_by_id w (tc_user_id c) = Some u \<longrightarrow> tc_version c < user_version u))"

lemma decoded_payload:
  assumes "decode_token lib st now t (Some ty) = Inr c"
  obtains p where "jw_decode lib t (signing_key st) (au_algorithm st) (au_issuer st) now = Inr p"
    "read_claims p = Some c"
  using assms by (auto simp: decode_token_def Let_def split: if_splits sum.splits option.splits)

lemma same_claims:
  assumes "stable_decode lib st" "refresh_claims lib st t c" "refresh_claims lib st t c'"
  shows "c = c'"
proof -
  from assms(2,3) obtain now now' where
    "decode_token lib st now t (Some TOKEN_TYPE_REFRESH) = Inr c"
    "decode_token lib st now' t (Some TOKEN_TYPE_REFRESH) = Inr c'"
    unfolding refresh_claims_def by blast
  then show ?thesis
    using assms(1) unfolding stable_decode_def by (metis decoded_payload option.inject)
qed

lemma token_over_later:
  assumes "token_over lib st t w" "later w w'" shows "token_over lib st t w'"
  using assms unfolding token_over_def later_def by (meson order_less_le_trans)

lemma token_over_refused:
  assumes "token_over lib st t w"
  shows "\<exists>code. serve_auth lib bc st env (Refresh t) w = (Refusal 401 code, w)"
proof (cases "refresh_check lib st env t w")
  case (Inr r)
  then obtain c u where "decode_token lib st (en_now env) t (Some TOKEN_TYPE_REFRESH) = Inr c"
      "get_user_by_id w (tc_user_id c) = Some u" "user_version u = tc_version c"
    by (auto simp: refresh_check_def split: sum.splits option.splits if_splits)
  with assms show ?thesis unfolding token_over_def refresh_claims_def by fastforce
qed (simp add: refresh_def)

text \<open>A token that passed the checks once, its user's version having grown since.\<close>

lemma token_over_by_version:
  assumes "stable_decode lib st" "refresh_claims lib st t c" "tc_user_id c < aw_next w"
    and "\<And>u. get_user_by_id w (tc_user_id c) = Some u \<Longrightarrow> tc_version c < user_version u"
  shows "token_over lib st t w"
  using assms(2-) same_claims[OF assms(1,2)] unfolding token_over_def by blast

lemma refreshed_token_over:
  assumes "stable_decode lib st" "users_ok w" "refresh lib st env t w = (Bundle b, w1)"
  shows "token_over lib st t w1"
proof -
  from assms(3) obtain uid u where check: "refresh_check lib st env t w = Inr (uid, u)"
    by (auto simp: refresh_def split: sum.splits)
  then obtain c where c: "decode_token lib st (en_now env) t (Some TOKEN_TYPE_REFRESH) = Inr c"
      "uid = tc_user_id c" "get_user_by_id w uid = Some u" "user_version u = tc_version c"
    by (auto simp: refresh_check_def split: sum.splits option.splits if_splits)
  have w1: "w1 = journal_entry ''USER_TOKEN_REFRESHED'' (pu_username u) (Some uid)
                   (save_user uid (u\<lparr>pu_version := user_version u + 1\<rparr>) w)"
    using assms(3) check c(3) by (simp add: refresh_def refresh_commit_def Let_def)
  show ?thesis
  proof (rule token_over_by_version[OF assms(1)])
    show "refresh_claims lib st t c" using c(1) unfolding refresh_claims_def by blast
    show "tc_user_id c < aw_next w1" using user_known(1)[OF assms(2) c(3)] c(2) w1 by simp
  next
    fix u'
    assume "get_user_by_id w1 (tc_user_id c) = Some u'"
    then show "tc_version c < user_version u'"
      using w1 c user_version_bump(1)[of u u] by (simp add: get_user_by_id_def dict_simps)
  qed
qed

text \<open>C33: Refresh tokens are for one use. Once a refresh has been answered with a new pair of tokens, the
  token presented is refused whatever requests are served in between, provided requests do not overlap.\<close>

theorem refresh_token_single_use:
  assumes "stable_decode lib st" "users_ok w" "serve_auth lib bc st env (Refresh t) w = (Bundle b, w1)"
  shows "\<exists>code. serve_auth lib bc st env' (Refresh t) (serve_all lib bc st reqs w1)
                  = (Refusal 401 code, serve_all lib bc st reqs w1)"
proof -
  have "token_over lib st t w1" using refreshed_token_over[OF assms(1,2)] assms(3) by simp
  moreover have "users_ok w1" using later_serve[OF assms(2), of lib bc st env "Refresh t"] assms(3)
    by (simp add: later_def)
  ultimately show ?thesis by (intro token_over_refused token_over_later[OF _ later_serve_all])
qed

text \<open>The requests that are meant to end the sessions of a user.\<close>

fun ends_sessions :: "auth_world \<Rightarrow> auth_request \<Rightarrow> int \<Rightarrow> bool" where
  "ends_sessions w (Logout ctx all) uid \<longleftrightarrow> all \<and> ax_source ctx = From_Jwt \<and> ax_user_id ctx = Some uid"
| "ends_sessions w (Change_Own_Password ctx p q) uid \<longleftrightarrow> ax_user_id ctx = Some uid"
| "ends_sessions w (Update_User i up) uid \<longleftrightarrow>
     i = uid \<and> (up_password up \<noteq> None
       \<or> (\<exists>u. get_user_by_id w uid = Some u
            \<and> ((up_role up \<noteq> None \<and> up_role up \<noteq> Some (pu_role u))
               \<or> (up_status up = Some ''DISABLED'' \<and> pu_status u \<noteq> ''DISABLED''))))"
| "ends_sessions w (Delete_User i) uid \<longleftrightarrow> i = uid"
| "ends_sessions w (Admin_Change_Password n p q) uid \<longleftrightarrow>
     (\<exists>name u. normalize_username n = Some name \<and> get_user_by_username w name = Some (uid, u))"
| "ends_sessions w _ uid \<longleftrightarrow> False"

lemma get_user_frame [simp]:
  "get_user_by_id (journal_entry a b c w) i = get_user_by_id w i"
  "get_user_by_id (save_user j u w) i = (if i = j then Some u else get_user_by_id w i)"
  "get_user_by_id (w\<lparr>aw_throttle := th\<rparr>) i = get_user_by_id w i"
  "get_user_by_id (w\<lparr>aw_users := dict_del j (aw_users w')\<rparr>) i = (if i = j then None else get_user_by_id w' i)"
  by (simp_all add: get_user_by_id_def dict_simps)

lemma apply_update_bumps:
  assumes "up_password up \<noteq> None
      \<or> (up_role up \<noteq> None \<and> up_role up \<noteq> Some (pu_role u))
      \<or> (up_status up = Some ''DISABLED'' \<and> pu_status u \<noteq> ''DISABLED'')"
  shows "user_version u < user_version (apply_update bc env up u)"
  using assms
  by (auto simp: apply_update_def user_version_def Let_def ACTIVE_def split: option.splits)

lemma ended_version:
  assumes "users_ok w" "serve_auth lib bc st env r w = (Done, w1)" "ends_sessions w r uid"
    "get_user_by_id w uid = Some u" "get_user_by_id w1 uid = Some u1"
  shows "user_version u < user_version u1"
proof (cases r)
  case (Logout ctx all)
  with assms show ?thesis by (auto simp: logout_def user_version_bump split: auth_source.splits option.splits)
next
  case (Change_Own_Password ctx p q)
  with assms user_version_bump(2)[of u bc env q] show ?thesis
    by (auto simp: change_own_password_def split: auth_source.splits option.splits if_splits)
next
  case (Update_User i up)
  with assms show ?thesis
    by (auto simp: update_user_def Let_def intro!: apply_update_bumps split: option.splits if_splits)
next
  case (Delete_User i)
  with assms show ?thesis by (auto simp: delete_user_def split: option.splits if_splits)
next
  case (Admin_Change_Password n p q)
  with assms find_user[OF assms(1)] show ?thesis
    by (auto simp: admin_change_password_def user_version_bump split: option.splits if_splits)
qed (use assms in simp_all)

lemma bundle_claims:
  assumes "sound_decode lib st"
    and "refresh_claims lib st (tb_refresh (build_token_bundle lib st env uid name role tv status must)) c"
  shows "tc_user_id c = uid" "tc_version c = tv"
proof -
  let ?p = "build_payload st (en_now env) (snd (en_jti env)) name uid role tv TOKEN_TYPE_REFRESH must"
  have "tb_refresh (build_token_bundle lib st env uid name role tv status must)
          = jw_encode lib ?p (signing_key st) (au_algorithm st)"
    by (simp add: build_token_bundle_def issue_refresh_token_def issue_token_def split: prod.splits)
  with assms(2) obtain now p where
    "jw_decode lib (jw_encode lib ?p (signing_key st) (au_algorithm st)) (signing_key st) (au_algorithm st)
       (au_issuer st) now = Inr p" "read_claims p = Some c"
    unfolding refresh_claims_def by (auto elim: decoded_payload)
  with assms(1) have "read_claims ?p = Some c" unfolding sound_decode_def by blast
  then show "tc_user_id c = uid" "tc_version c = tv"
    by (auto simp: read_claims_def build_payload_def int_claim_def)
qed

lemma login_bundle:
  assumes "login lib bc st env n p w = (Bundle b, w1)"
  obtains uid u where
    "b = build_token_bundle lib st env uid (py_strip n) (login_role (pu_role u)) (user_version u) (pu_status u) (pu_must_change u)"
    "aw_users w1 = dict_set uid (u\<lparr>pu_last_login := Some (en_now env)\<rparr>) (aw_users w)"
proof (cases "get_user_by_username w (py_strip n)")
  case None
  with assms show ?thesis by (auto simp: login_def Let_def split: prod.splits sum.splits)
next
  case (Some r)
  show ?thesis
    by (rule that[where uid = "fst r" and u = "snd r"]; cases r)
       (use assms Some in \<open>auto simp: login_def Let_def split: prod.splits sum.splits if_splits\<close>)
qed

lemma refresh_bundle:
  assumes "refresh lib st env t w = (Bundle b, w1)"
  obtains uid u current where
    "b = build_token_bundle lib st env uid (pu_username u) (login_role (pu_role u)) (user_version u + 1) (pu_status u) (pu_must_change u)"
    "aw_users w1 = dict_set uid (current\<lparr>pu_version := user_version u + 1\<rparr>) (aw_users w)"
  using assms
  by (auto simp: refresh_def refresh_commit_def Let_def split: sum.splits option.splits intro: that)

lemma issued_version:
  assumes "sound_decode lib st" "users_ok w" "serve_auth lib bc st env r w = (Bundle b, w1)"
    and "refresh_claims lib st (tb_refresh b) c"
  obtains u where "get_user_by_id w1 (tc_user_id c) = Some u" "tc_version c \<le> user_version u"
proof (cases r)
  case (Login n p)
  with assms(3) have "login lib bc st env n p w = (Bundle b, w1)" by simp
  then obtain uid u where
    "b = build_token_bundle lib st env uid (py_strip n) (login_role (pu_role u)) (user_version u) (pu_status u) (pu_must_change u)"
    "aw_users w1 = dict_set uid (u\<lparr>pu_last_login := Some (en_now env)\<rparr>) (aw_users w)"
    by (rule login_bundle)
  with bundle_claims[OF assms(1)] assms(4) show ?thesis
    by (intro that) (auto simp: get_user_by_id_def dict_simps)
next
  case (Refresh t)
  with assms(3) have "refresh lib st env t w = (Bundle b, w1)" by simp
  then obtain uid u current where
    "b = build_token_bundle lib st env uid (pu_username u) (login_role (pu_role u)) (user_version u + 1) (pu_status u) (pu_must_change u)"
    "aw_users w1 = dict_set uid (current\<lparr>pu_version := user_version u + 1\<rparr>) (aw_users w)"
    by (rule refresh_bundle)
  with bundle_claims[OF assms(1)] assms(4) show ?thesis
    by (intro that) (auto simp: get_user_by_id_def dict_simps user_version_def)
qed (use assms(3) in \<open>auto simp: logout_def change_own_password_def create_user_def update_user_def delete_user_def
      admin_change_password_def Let_def split: auth_source.splits option.splits if_splits\<close>)

text \<open>C34: A change of password, a new role, the disabling or deletion of an account and a logout from all
  sessions end every session of the user: a refresh token handed out before such a request, however long ago,
  is refused after it for ever.\<close>

theorem ended_sessions_stay_ended:
  assumes "sound_decode lib st" "stable_decode lib st" "users_ok w0"
    and "serve_auth lib bc st env0 r0 w0 = (Bundle b, w1)"
    and "refresh_claims lib st (tb_refresh b) c"
    and "serve_auth lib bc st env r (serve_all lib bc st before w1) = (Done, w3)"
    and "ends_sessions (serve_all lib bc st before w1) r (tc_user_id c)"
  shows "\<exists>code. serve_auth lib bc st env' (Refresh (tb_refresh b)) (serve_all lib bc st after w3)
                  = (Refusal 401 code, serve_all lib bc st after w3)"
proof -
  let ?w2 = "serve_all lib bc st before w1"
  have ok: "users_ok w1" "later w1 ?w2" "users_ok ?w2" "later ?w2 w3" "users_ok w3"
    using later_serve[OF assms(3), of lib bc st env0 r0] assms(4) later_serve_all[of w1 lib bc st before]
      later_serve[of ?w2 lib bc st env r] assms(6)
    by (auto simp: later_def)
  obtain u1 where u1: "get_user_by_id w1 (tc_user_id c) = Some u1" "tc_version c \<le> user_version u1"
    by (rule issued_version[OF assms(1,3,4,5)])
  have "tc_user_id c < aw_next w1" by (rule user_known(1)[OF ok(1) u1(1)])
  then have below: "tc_user_id c < aw_next ?w2" "tc_user_id c < aw_next w3"
    using ok(2,4) by (auto simp: later_def)
  have "token_over lib st (tb_refresh b) w3"
  proof (rule token_over_by_version[OF assms(2,5) below(2)])
    fix u3 assume u3: "get_user_by_id w3 (tc_user_id c) = Some u3"
    with ok(4) below obtain u2 where u2: "get_user_by_id ?w2 (tc_user_id c) = Some u2" by (auto simp: later_def)
    with ok(2) \<open>tc_user_id c < aw_next w1\<close> u1 have "tc_version c \<le> user_version u2"
      unfolding later_def by (metis option.inject order_trans)
    also have "\<dots> < user_version u3" by (rule ended_version[OF ok(3) assms(6,7) u2 u3])
    finally show "tc_version c < user_version u3" .
  qed
  then show ?thesis by (intro token_over_refused token_over_later[OF _ later_serve_all[OF ok(5)]])
qed

section \<open>An administrator remains\<close>

definition active_admin :: "platform_user \<Rightarrow> bool" where
  "active_admin u \<longleftrightarrow> pu_role u = ADMINISTRATOR \<and> pu_status u = ACTIVE"

definition has_admin :: "auth_world \<Rightarrow> bool" where
  "has_admin w \<longleftrightarrow> (\<exists>uid u. get_user_by_id w uid = Some u \<and> active_admin u)"

lemma count_administrators_pos: "users_ok w \<Longrightarrow> 0 < count_administrators w \<longleftrightarrow> has_admin w"
  by (auto simp: count_administrators_def has_admin_def active_admin_def users_ok_def get_user_by_id_def
      filter_empty_conv map_of_eq_Some_iff)

lemma another_administrator:
  assumes "users_ok w" "\<not> count_administrators w \<le> 1"
  shows "\<exists>i u. i \<noteq> uid \<and> get_user_by_id w i = Some u \<and> active_admin u"
proof -
  let ?admins = "filter (\<lambda>(i, u). pu_role u = ADMINISTRATOR \<and> pu_status u = ACTIVE) (aw_users w)"
  from assms(2) obtain x y rest where two: "?admins = x # y # rest"
    by (cases ?admins rule: list.exhaust; cases "tl ?admins" rule: list.exhaust)
       (auto simp: count_administrators_def)
  have "distinct (map fst ?admins)"
    using assms(1) by (auto simp: users_ok_def distinct_map intro: inj_on_subset)
  with two have "fst x \<noteq> fst y" by simp
  moreover have "x \<in> set ?admins" "y \<in> set ?admins" using two by simp_all
  ultimately show ?thesis
    using assms(1) unfolding users_ok_def get_user_by_id_def active_admin_def
    by (cases x; cases y; cases "fst x = uid") (auto simp: map_of_eq_Some_iff)
qed

lemma has_admin_frame [simp]:
  "has_admin (journal_entry a b c w) = has_admin w" "has_admin (w\<lparr>aw_throttle := th\<rparr>) = has_admin w"
  "has_admin (w\<lparr>aw_next := n\<rparr>) = has_admin w"
  by (simp_all add: has_admin_def get_user_by_id_def)

lemma journal_then_delete [simp]:
  "(journal_entry a b c w)\<lparr>aw_users := us\<rparr> = journal_entry a b c (w\<lparr>aw_users := us\<rparr>)"
  by (simp add: journal_entry_def)

lemma has_admin_save:
  assumes "has_admin w" "get_user_by_id w uid = Some u" "active_admin u \<Longrightarrow> active_admin u'"
  shows "has_admin (save_user uid u' w)"
  using assms unfolding has_admin_def by (metis get_user_frame(2) option.inject)

lemma active_admin_simps [simp]:
  "active_admin (u\<lparr>pu_last_login := x\<rparr>) = active_admin u"
  "active_admin (u\<lparr>pu_version := v\<rparr>) = active_admin u"
  "active_admin (with_password bc env pw u) = active_admin u"
  by (simp_all add: active_admin_def with_password_def)

lemma apply_update_admin:
  "active_admin (apply_update bc env up u) \<longleftrightarrow>
     (case up_role up of None \<Rightarrow> pu_role u | Some r \<Rightarrow> r) = ADMINISTRATOR
     \<and> (case up_status up of None \<Rightarrow> pu_status u | Some s \<Rightarrow> s) = ACTIVE"
  by (auto simp: apply_update_def active_admin_def Let_def split: option.splits)

lemma has_admin_delete_other:
  assumes "has_admin w" "get_user_by_id w uid = Some u" "\<not> active_admin u"
  shows "has_admin (w\<lparr>aw_users := dict_del uid (aw_users w)\<rparr>)"
proof -
  from assms(1) obtain i v where "get_user_by_id w i = Some v" "active_admin v"
    by (auto simp: has_admin_def)
  moreover from this have "i \<noteq> uid" using assms(2,3) by auto
  ultimately show ?thesis unfolding has_admin_def by auto
qed

lemma has_admin_elsewhere:
  assumes "users_ok w" "\<not> count_administrators w \<le> 1"
  shows "has_admin (save_user uid u w)" "has_admin (w\<lparr>aw_users := dict_del uid (aw_users w)\<rparr>)"
  using another_administrator[OF assms, of uid] unfolding has_admin_def by auto

lemma has_admin_insert:
  assumes "users_ok w" "has_admin w" shows "has_admin (save_user (aw_next w) u (w\<lparr>aw_next := n\<rparr>))"
proof -
  from assms(2) obtain i v where "get_user_by_id w i = Some v" "active_admin v" by (auto simp: has_admin_def)
  moreover from this have "i \<noteq> aw_next w" using user_known(1)[OF assms(1)] by blast
  ultimately show ?thesis unfolding has_admin_def by (auto simp: get_user_by_id_def dict_simps)
qed

lemma has_admin_update:
  assumes "users_ok w" "has_admin w" shows "has_admin (snd (update_user bc env uid up w))"
proof (cases "get_user_by_id w uid")
  case (Some u)
  show ?thesis
  proof (cases "count_administrators w \<le> 1")
    case True
    with assms Some show ?thesis
      by (auto simp: update_user_def Let_def apply_update_admin active_admin_def[of u]
          intro!: has_admin_save split: option.splits)
  next
    case False
    then show ?thesis using assms has_admin_elsewhere[OF assms(1) False] Some
      by (auto simp: update_user_def Let_def)
  qed
qed (use assms in \<open>simp add: update_user_def\<close>)

lemma has_admin_delete:
  assumes "users_ok w" "has_admin w" shows "has_admin (snd (delete_user uid w))"
proof (cases "get_user_by_id w uid")
  case (Some u)
  show ?thesis
  proof (cases "count_administrators w \<le> 1")
    case True
    with assms Some show ?thesis
      by (auto simp: delete_user_def active_admin_def intro!: has_admin_delete_other)
  next
    case False
    then show ?thesis using assms has_admin_elsewhere[OF assms(1) False] Some
      by (auto simp: delete_user_def)
  qed
qed (use assms in \<open>simp add: delete_user_def\<close>)

lemma has_admin_serve:
  assumes "users_ok w" "has_admin w" shows "has_admin (snd (serve_auth lib bc st env r w))"
proof (cases r)
  case (Login n p)
  with assms show ?thesis
    by (auto simp: login_def Let_def intro!: has_admin_save dest: find_user
        split: prod.splits sum.splits option.splits)
next
  case (Refresh t)
  with assms show ?thesis
    by (auto simp: refresh_def refresh_commit_def Let_def intro!: has_admin_save split: sum.splits option.splits)
next
  case (Logout ctx all)
  with assms show ?thesis
    by (auto simp: logout_def intro!: has_admin_save split: auth_source.splits option.splits)
next
  case (Change_Own_Password ctx p q)
  with assms show ?thesis
    by (auto simp: change_own_password_def intro!: has_admin_save split: auth_source.splits option.splits)
next
  case (Admin_Change_Password n p q)
  with assms show ?thesis
    by (auto simp: admin_change_password_def intro!: has_admin_save dest: find_user split: option.splits)
next
  case (Create_User n p r)
  with assms show ?thesis
    by (auto simp: create_user_def Let_def has_admin_insert split: option.splits)
qed (use assms in \<open>simp_all add: has_admin_update has_admin_delete\<close>)

text \<open>C35: As long as requests do not overlap, no sequence of them leaves the platform without an active
  administrator: the last one can be neither demoted, disabled nor deleted, whoever asks.\<close>

theorem administrator_remains:
  assumes "users_ok w" "0 < count_administrators w"
  shows "0 < count_administrators (serve_all lib bc st reqs w)"
proof -
  have "has_admin (serve_all lib bc st reqs w)"
    using assms count_administrators_pos
  proof (induction reqs arbitrary: w)
    case (Cons er reqs)
    obtain e r where er: "er = (e, r)" by (cases er)
    let ?w = "snd (serve_auth lib bc st e r w)"
    have "users_ok ?w" using later_serve[OF Cons.prems(1)] by (simp add: later_def)
    with Cons.prems Cons.IH[of ?w] has_admin_serve[of w lib bc st e r] show ?case
      by (simp add: serve_all_def er)
  qed (simp add: serve_all_def)
  moreover have "users_ok (serve_all lib bc st reqs w)"
    using later_serve_all[OF assms(1)] by (simp add: later_def)
  ultimately show ?thesis by (simp add: count_administrators_pos)
qed

section \<open>Overlapping requests\<close>

text \<open>The single use holds only between requests that do not overlap. The row is read without a lock:
  when two requests with the same refresh token both read it before either writes, both are answered with a
  new pair of tokens, and the version moves by one.\<close>

theorem overlapping_refresh_succeeds_twice:
  assumes "refresh_check lib st env1 t w = Inr (uid, u)" "refresh_check lib st env2 t w = Inr (uid, u)"
  shows "\<exists>b1 b2 w1 w2 row. refresh_commit lib st env1 uid u w = (Bundle b1, w1)
           \<and> refresh_commit lib st env2 uid u w1 = (Bundle b2, w2)
           \<and> get_user_by_id w2 uid = Some row \<and> pu_version row = user_version u + 1"
proof -
  have "get_user_by_id w uid = Some u"
    using assms(1) by (auto simp: refresh_check_def split: sum.splits option.splits if_splits)
  then show ?thesis by (simp add: refresh_commit_def Let_def)
qed

section \<open>A small platform\<close>

definition ann_payload :: "string \<Rightarrow> event" where
  "ann_payload ty = build_payload sample_auth 1000 ''j'' ''ann'' 7 CONNECTOR_OPERATOR 1 ty False"

definition ann_jwt :: jwt_lib where
  "ann_jwt =
     \<lparr>jw_encode = (\<lambda>p k a. if p = ann_payload TOKEN_TYPE_ACCESS then ''access-1''
                      else if p = ann_payload TOKEN_TYPE_REFRESH then ''refresh-1'' else []),
      jw_decode = (\<lambda>t k a i now. if t = ''access-1'' then Inr (ann_payload TOKEN_TYPE_ACCESS)
                      else if t = ''refresh-1'' then Inr (ann_payload TOKEN_TYPE_REFRESH)
                      else Inl ''Not enough segments'')\<rparr>"

definition plain_bcrypt :: bcrypt_lib where
  "plain_bcrypt = \<lparr>bc_check = (\<lambda>p h. Some (p = h)), bc_hash = (\<lambda>p salt. p)\<rparr>"

definition ann_env :: auth_env where
  "ann_env =
     \<lparr>en_now = 1000, en_mono = 0, en_jti = (''j'', ''j''), en_salt = [], en_forwarded = None, en_host = Some ''10.0.0.1''\<rparr>"

definition sample_user :: "string \<Rightarrow> string \<Rightarrow> platform_user" where
  "sample_user name role =
     \<lparr>pu_username = name, pu_hash = ''secret-1'', pu_role = role, pu_status = ACTIVE, pu_version = 1,
      pu_must_change = False, pu_last_login = None\<rparr>"

definition sample_platform :: auth_world where
  "sample_platform =
     \<lparr>aw_users = [(1, sample_user ''root'' ADMINISTRATOR), (7, sample_user ''ann'' CONNECTOR_OPERATOR)],
      aw_next = 8, aw_journal = [], aw_throttle = empty_throttle\<rparr>"

definition disable :: user_update where
  "disable = \<lparr>up_password = None, up_role = None, up_status = Some ''DISABLED''\<rparr>"

lemma sample_platform_ok: "users_ok sample_platform"
  by code_simp

lemma ann_jwt_stable: "stable_decode ann_jwt sample_auth"
  by (auto simp: stable_decode_def ann_jwt_def split: if_splits)

lemma ann_jwt_sound: "sound_decode ann_jwt sample_auth"
  by (auto simp: sound_decode_def ann_jwt_def split: if_splits)

abbreviation serve_sample :: "auth_request \<Rightarrow> auth_world \<Rightarrow> auth_answer \<times> auth_world" where
  "serve_sample \<equiv> serve_auth ann_jwt plain_bcrypt sample_auth ann_env"

lemma ann_checked:
  "refresh_check ann_jwt sample_auth ann_env ''refresh-1'' sample_platform
     = Inr (7, sample_user ''ann'' CONNECTOR_OPERATOR)"
  by code_simp

lemma ann_row: "get_user_by_id sample_platform 7 = Some (sample_user ''ann'' CONNECTOR_OPERATOR)"
  by code_simp

theorem refresh_token_single_use_witness:
  "\<exists>code. serve_sample (Refresh ''refresh-1'')
       (serve_all ann_jwt plain_bcrypt sample_auth [(ann_env, Login ''ann'' ''secret-1'')]
          (snd (serve_sample (Refresh ''refresh-1'') sample_platform)))
     = (Refusal 401 code,
        serve_all ann_jwt plain_bcrypt sample_auth [(ann_env, Login ''ann'' ''secret-1'')]
          (snd (serve_sample (Refresh ''refresh-1'') sample_platform)))"
proof -
  obtain b where "serve_sample (Refresh ''refresh-1'') sample_platform
      = (Bundle b, snd (serve_sample (Refresh ''refresh-1'') sample_platform))"
    using ann_checked ann_row by (simp add: refresh_def refresh_commit_def Let_def)
  then show ?thesis by (rule refresh_token_single_use[OF ann_jwt_stable sample_platform_ok])
qed

theorem overlapping_refresh_succeeds_twice_witness:
  "\<exists>b1 b2 w1 w2 row.
     refresh_commit ann_jwt sample_auth ann_env 7 (sample_user ''ann'' CONNECTOR_OPERATOR) sample_platform = (Bundle b1, w1)
     \<and> refresh_commit ann_jwt sample_auth ann_env 7 (sample_user ''ann'' CONNECTOR_OPERATOR) w1 = (Bundle b2, w2)
     \<and> get_user_by_id w2 7 = Some row \<and> pu_version row = user_version (sample_user ''ann'' CONNECTOR_OPERATOR) + 1"
  by (rule overlapping_refresh_succeeds_twice[OF ann_checked ann_checked])

definition ann_bundle :: token_bundle where
  "ann_bundle = build_token_bundle ann_jwt sample_auth ann_env 7 ''ann'' CONNECTOR_OPERATOR 1 ACTIVE False"

definition ann_logged_in :: auth_world where
  "ann_logged_in = snd (serve_sample (Login ''ann'' ''secret-1'') sample_platform)"

definition ann_disabled :: auth_world where
  "ann_disabled = snd (serve_sample (Update_User 7 disable) ann_logged_in)"

lemma ann_login: "serve_sample (Login ''ann'' ''secret-1'') sample_platform = (Bundle ann_bundle, ann_logged_in)"
proof -
  have found: "get_user_by_username sample_platform (py_strip ''ann'') = Some (7, sample_user ''ann'' CONNECTOR_OPERATOR)"
    and allowed: "isl (fst (check_login_allowed default_throttle (en_mono ann_env) (py_strip ''ann'')
        (client_ip_from_request (en_forwarded ann_env) (en_host ann_env)) (aw_throttle sample_platform))) = False"
    and names: "py_strip ''ann'' = ''ann''" "login_role CONNECTOR_OPERATOR = CONNECTOR_OPERATOR"
    by code_simp+
  have "fst (serve_sample (Login ''ann'' ''secret-1'') sample_platform) = Bundle ann_bundle"
    using found allowed names
    by (auto simp: login_def Let_def sample_user_def verify_password_def plain_bcrypt_def user_version_def
        ann_bundle_def split: prod.splits sum.splits)
  then show ?thesis unfolding ann_logged_in_def by (metis prod.collapse)
qed

lemma ann_update: "serve_sample (Update_User 7 disable) ann_logged_in = (Done, ann_disabled)"
proof -
  have "fst (serve_sample (Update_User 7 disable) ann_logged_in) = Done" by code_simp
  then show ?thesis unfolding ann_disabled_def by (metis prod.collapse)
qed

theorem ended_sessions_stay_ended_witness:
  "\<exists>code. serve_sample (Refresh (tb_refresh ann_bundle))
       (serve_all ann_jwt plain_bcrypt sample_auth [(ann_env, Login ''ann'' ''secret-1'')] ann_disabled)
     = (Refusal 401 code,
        serve_all ann_jwt plain_bcrypt sample_auth [(ann_env, Login ''ann'' ''secret-1'')] ann_disabled)"
proof (rule ended_sessions_stay_ended[where before = "[]", OF ann_jwt_sound ann_jwt_stable sample_platform_ok ann_login])
  have "decode_token ann_jwt sample_auth 1000 (tb_refresh ann_bundle) (Some TOKEN_TYPE_REFRESH)
          = Inr (the (read_claims (ann_payload TOKEN_TYPE_REFRESH)))" by code_simp
  then show "refresh_claims ann_jwt sample_auth (tb_refresh ann_bundle) (the (read_claims (ann_payload TOKEN_TYPE_REFRESH)))"
    unfolding refresh_claims_def by blast
  show "serve_sample (Update_User 7 disable) (serve_all ann_jwt plain_bcrypt sample_auth [] ann_logged_in) = (Done, ann_disabled)"
    using ann_update by (simp add: serve_all_def)
  have "tc_user_id (the (read_claims (ann_payload TOKEN_TYPE_REFRESH))) = 7"
      "map_option pu_status (get_user_by_id ann_logged_in 7) = Some ACTIVE" by code_simp+
  then show "ends_sessions (serve_all ann_jwt plain_bcrypt sample_auth [] ann_logged_in) (Update_User 7 disable)
      (tc_user_id (the (read_claims (ann_payload TOKEN_TYPE_REFRESH))))"
    by (auto simp: serve_all_def disable_def ACTIVE_def)
qed

theorem administrator_remains_witness:
  "0 < count_administrators (serve_all ann_jwt plain_bcrypt sample_auth
     [(ann_env, Update_User 1 disable), (ann_env, Delete_User 1)] sample_platform)"
  by (rule administrator_remains[OF sample_platform_ok]) code_simp

text \<open>The end of the sessions does not reach the access tokens. After an administrator disabled the
  account, the middleware lets its token change a stream, while the route that looks at the row refuses it.\<close>

theorem disabled_user_still_admitted:
  "fst (role_guard_middleware ann_jwt sample_auth 1060
          \<lparr>rq_method = ''PUT'', rq_path = ''/api/v1/streams/3'', rq_headers = [(''authorization'', ''Bearer access-1'')]\<rparr>
          fresh_request) = Admitted
   \<and> map_option pu_status (get_user_by_id ann_disabled 7) = Some ''DISABLED''
   \<and> whoami sample_auth (jwt_context (the (read_claims (ann_payload TOKEN_TYPE_ACCESS)))) ann_disabled
       = Inl ''AUTH_USER_INACTIVE''"
  by code_simp

text \<open>An unknown role of a row becomes the administrator's at login, where the guard reads an unknown role
  of a token as the viewer's. The requests write known roles only (\<open>users_ok\<close>), so it takes another
  writer of the table.\<close>

lemma unknown_role_logs_in_as_administrator:
  "login_role ''AUDITOR'' = ADMINISTRATOR" "normalize_role (Some ''AUDITOR'') = VIEWER"
  by code_simp+

end
