(* ===== verification/Context_Cache.thy ===== *)
theory Context_Cache
  imports Relay_Prelude Complex_Main
begin

text \<open>
  \<open>app/scheduler/context_cache.py\<close>: the configuration a scheduled run works with. A poll takes a
  fingerprint of the tables and the current checkpoint, reuses the context it loaded before while the
  fingerprint is the same and the entry is young enough, and loads it otherwise. The tables are the
  record \<open>config_db\<close>; what the loader reads beyond the rows with a time stamp in the fingerprint, above all
  the protection, classification and policy rules, is its field \<open>cd_rules\<close> of any type. The loader
  (\<open>load_stream_context\<close>) is an argument, \<open>Inl\<close> being the text of its \<open>ValueError\<close>, and so is the
  rendering of time stamps. The tables may change between the reading of the fingerprint and the loading.
\<close>

section \<open>Tables and fingerprint\<close>

record stream_stamp =
  ss_source :: int
  ss_updated :: "int option"
  ss_enabled :: bool
  ss_polling :: "int option"

record route_stamp =
  rt_id :: int
  rt_stream :: int
  rt_destination :: int
  rt_enabled :: bool
  rt_updated :: int

record 'r config_db =
  cd_streams :: "(int, stream_stamp) dict"
  cd_sources :: "(int \<times> int) list"
  cd_mappings :: "(int \<times> int) list"
  cd_enrichments :: "(int \<times> int) list"
  cd_routes :: "route_stamp list"
  cd_destinations :: "(int \<times> int) list"
  cd_rules :: 'r

text \<open>\<open>func.max\<close> over the time stamps of a query.\<close>

definition max_stamp :: "int list \<Rightarrow> int option" where
  "max_stamp ts = (if ts = [] then None else Some (fold max ts (hd ts)))"

definition stamps_of :: "int \<Rightarrow> (int \<times> int) list \<Rightarrow> int list" where
  "stamps_of key rows = map snd (filter (\<lambda>(k, t). k = key) rows)"

definition iso_ts :: "(int \<Rightarrow> string) \<Rightarrow> int option \<Rightarrow> string" where
  "iso_ts rend t = (case t of None \<Rightarrow> ''none'' | Some v \<Rightarrow> rend v)"

definition enabled_routes :: "'r config_db \<Rightarrow> int \<Rightarrow> route_stamp list" where
  "enabled_routes db sid = filter (\<lambda>r. rt_stream r = sid \<and> rt_enabled r) (cd_routes db)"

definition compute_stream_config_fingerprint :: "(int \<Rightarrow> string) \<Rightarrow> 'r config_db \<Rightarrow> int \<Rightarrow> string option" where
  "compute_stream_config_fingerprint rend db sid =
     (case dict_get (cd_streams db) sid of
        None \<Rightarrow> None
      | Some s \<Rightarrow>
          (let source_ts = max_stamp (stamps_of (ss_source s) (cd_sources db));
               mapping_ts = max_stamp (stamps_of sid (cd_mappings db));
               enrichment_ts = max_stamp (stamps_of sid (cd_enrichments db));
               routes = enabled_routes db sid;
               route_ts = max_stamp (map rt_updated routes);
               destination_ts = max_stamp (concat (map (\<lambda>r. stamps_of (rt_destination r) (cd_destinations db)) routes));
               polling = (case ss_polling s of None \<Rightarrow> 60 | Some p \<Rightarrow> if p = 0 then 60 else p)
           in Some (join_with ''|''
                [''stream:'' @ int_str sid @ '':'' @ iso_ts rend (ss_updated s),
                 ''enabled:'' @ (if ss_enabled s then ''1'' else ''0''),
                 ''source:'' @ int_str (ss_source s) @ '':'' @ iso_ts rend source_ts,
                 ''mapping:'' @ iso_ts rend mapping_ts,
                 ''enrichment:'' @ iso_ts rend enrichment_ts,
                 ''routes:'' @ iso_ts rend route_ts,
                 ''destinations:'' @ iso_ts rend destination_ts,
                 ''polling:'' @ int_str polling])))"

section \<open>The cache\<close>

record 'c cached_shell =
  sh_fingerprint :: string
  sh_cached_at :: rat
  sh_config :: 'c

record cache_metrics =
  cm_hits :: nat
  cm_misses :: nat
  cm_invalidations :: nat
  cm_version_invalidations :: nat
  cm_ttl_expirations :: nat
  cm_load_count :: nat

record 'c context_cache =
  cc_entries :: "(int, 'c cached_shell) dict"
  cc_metrics :: cache_metrics

definition default_ttl :: rat where "default_ttl = 45"

definition empty_cache :: "'c context_cache" where
  "empty_cache =
     \<lparr>cc_entries = [],
      cc_metrics = \<lparr>cm_hits = 0, cm_misses = 0, cm_invalidations = 0, cm_version_invalidations = 0,
                    cm_ttl_expirations = 0, cm_load_count = 0\<rparr>\<rparr>"

definition invalidate_stream_context_cache :: "int \<Rightarrow> 'c context_cache \<Rightarrow> 'c context_cache" where
  "invalidate_stream_context_cache sid cc =
     (case dict_get (cc_entries cc) sid of
        None \<Rightarrow> cc
      | Some _ \<Rightarrow>
          cc\<lparr>cc_entries := dict_del sid (cc_entries cc),
             cc_metrics := (cc_metrics cc)\<lparr>cm_invalidations := cm_invalidations (cc_metrics cc) + 1\<rparr>\<rparr>)"

text \<open>One poll: when it happens, the tables its fingerprint is taken of, the checkpoint row it reads, and
  the tables the loader reads should it be asked.\<close>

record ('r, 'p) poll =
  pl_stream :: int
  pl_now :: rat
  pl_seen :: "'r config_db"
  pl_checkpoint :: 'p
  pl_loaded :: "'r config_db"

definition fresh_entry :: "rat \<Rightarrow> rat \<Rightarrow> string \<Rightarrow> 'c cached_shell \<Rightarrow> bool" where
  "fresh_entry ttl now fp e \<longleftrightarrow> now - sh_cached_at e \<le> ttl \<and> sh_fingerprint e = fp"

definition load_fresh ::
  "('r config_db \<Rightarrow> int \<Rightarrow> string + 'c) \<Rightarrow> string \<Rightarrow> ('r, 'p) poll \<Rightarrow> 'c context_cache
     \<Rightarrow> (string + 'c \<times> 'p) \<times> 'c context_cache" where
  "load_fresh load fp p cc =
     (case load (pl_loaded p) (pl_stream p) of
        Inl e \<Rightarrow> (Inl e, cc)
      | Inr c \<Rightarrow>
          (Inr (c, pl_checkpoint p),
           cc\<lparr>cc_entries := dict_set (pl_stream p)
                 \<lparr>sh_fingerprint = fp, sh_cached_at = pl_now p, sh_config = c\<rparr> (cc_entries cc),
              cc_metrics := (cc_metrics cc)\<lparr>cm_misses := cm_misses (cc_metrics cc) + 1,
                                          cm_load_count := cm_load_count (cc_metrics cc) + 1\<rparr>\<rparr>))"

definition load_scheduler_stream_context ::
  "(int \<Rightarrow> string) \<Rightarrow> ('r config_db \<Rightarrow> int \<Rightarrow> string + 'c) \<Rightarrow> rat \<Rightarrow> ('r, 'p) poll \<Rightarrow> 'c context_cache
     \<Rightarrow> (string + 'c \<times> 'p) \<times> 'c context_cache" where
  "load_scheduler_stream_context rend load ttl p cc =
     (case compute_stream_config_fingerprint rend (pl_seen p) (pl_stream p) of
        None \<Rightarrow> (Inl (''stream not found: '' @ int_str (pl_stream p)), cc)
      | Some fp \<Rightarrow>
          (let m = cc_metrics cc; dropped = dict_del (pl_stream p) (cc_entries cc) in
           case dict_get (cc_entries cc) (pl_stream p) of
             None \<Rightarrow> load_fresh load fp p cc
           | Some e \<Rightarrow>
               if fresh_entry ttl (pl_now p) fp e then
                 (Inr (sh_config e, pl_checkpoint p),
                  cc\<lparr>cc_metrics := m\<lparr>cm_hits := cm_hits m + 1, cm_load_count := cm_load_count m + 1\<rparr>\<rparr>)
               else if sh_fingerprint e \<noteq> fp then
                 load_fresh load fp p
                   (cc\<lparr>cc_entries := dropped,
                       cc_metrics := m\<lparr>cm_version_invalidations := cm_version_invalidations m + 1\<rparr>\<rparr>)
               else
                 load_fresh load fp p
                   (cc\<lparr>cc_entries := dropped,
                       cc_metrics := m\<lparr>cm_ttl_expirations := cm_ttl_expirations m + 1\<rparr>\<rparr>)))"

section \<open>How old a served configuration can be\<close>

definition cache_after ::
  "(int \<Rightarrow> string) \<Rightarrow> ('r config_db \<Rightarrow> int \<Rightarrow> string + 'c) \<Rightarrow> rat \<Rightarrow> ('r, 'p) poll list \<Rightarrow> 'c context_cache" where
  "cache_after rend load ttl polls =
     foldl (\<lambda>cc p. snd (load_scheduler_stream_context rend load ttl p cc)) empty_cache polls"

text \<open>Where a configuration comes from: a poll of the stream that loaded it under this fingerprint.\<close>

definition loaded_by ::
  "(int \<Rightarrow> string) \<Rightarrow> ('r config_db \<Rightarrow> int \<Rightarrow> string + 'c) \<Rightarrow> ('r, 'p) poll set \<Rightarrow> int \<Rightarrow> 'c cached_shell \<Rightarrow> bool" where
  "loaded_by rend load polls sid e \<longleftrightarrow>
     (\<exists>p \<in> polls. pl_stream p = sid \<and> pl_now p = sh_cached_at e
        \<and> load (pl_loaded p) sid = Inr (sh_config e)
        \<and> compute_stream_config_fingerprint rend (pl_seen p) sid = Some (sh_fingerprint e))"

lemma loaded_by_mono: "loaded_by rend load A sid e \<Longrightarrow> A \<subseteq> B \<Longrightarrow> loaded_by rend load B sid e"
  unfolding loaded_by_def by blast

definition entries_ok where
  "entries_ok rend load polls cc \<longleftrightarrow>
     (\<forall>sid e. dict_get (cc_entries cc) sid = Some e \<longrightarrow> loaded_by rend load polls sid e)"

lemma entries_ok_less:
  assumes "entries_ok rend load polls cc" "\<And>sid e. dict_get (cc_entries cc') sid = Some e \<Longrightarrow> dict_get (cc_entries cc) sid = Some e"
  shows "entries_ok rend load (insert p polls) cc'"
  using assms unfolding entries_ok_def by (blast intro: loaded_by_mono)

lemma entries_ok_fresh:
  assumes "entries_ok rend load polls cc" "\<And>sid e. dict_get (cc_entries cc') sid = Some e \<Longrightarrow> dict_get (cc_entries cc) sid = Some e"
    and "compute_stream_config_fingerprint rend (pl_seen p) (pl_stream p) = Some fp"
  shows "entries_ok rend load (insert p polls) (snd (load_fresh load fp p cc'))"
proof (cases "load (pl_loaded p) (pl_stream p)")
  case (Inl m)
  with entries_ok_less[OF assms(1,2)] show ?thesis by (simp add: load_fresh_def)
next
  case (Inr c)
  have "loaded_by rend load (insert p polls) (pl_stream p)
      \<lparr>sh_fingerprint = fp, sh_cached_at = pl_now p, sh_config = c\<rparr>"
    using Inr assms(3) unfolding loaded_by_def by auto
  with Inr entries_ok_less[where p = p, OF assms(1,2)] show ?thesis
    by (auto simp: load_fresh_def entries_ok_def dict_simps)
qed

lemma entries_ok_step:
  assumes "entries_ok rend load polls cc"
  shows "entries_ok rend load (insert p polls) (snd (load_scheduler_stream_context rend load ttl p cc))"
  using assms
  by (auto simp: load_scheduler_stream_context_def Let_def dict_simps split: option.splits if_splits
      intro: entries_ok_less entries_ok_fresh)

lemma entries_ok_after: "entries_ok rend load (set polls) (cache_after rend load ttl polls)"
proof (induction polls rule: rev_induct)
  case Nil
  then show ?case by (simp add: cache_after_def entries_ok_def empty_cache_def)
next
  case (snoc p polls)
  from entries_ok_step[OF this] show ?case by (simp add: cache_after_def)
qed

lemma cache_miss:
  assumes "compute_stream_config_fingerprint rend (pl_seen p) (pl_stream p) = Some fp"
    and "\<nexists>e. dict_get (cc_entries cc) (pl_stream p) = Some e \<and> fresh_entry ttl (pl_now p) fp e"
  obtains cc' where "load_scheduler_stream_context rend load ttl p cc = load_fresh load fp p cc'"
proof (cases "dict_get (cc_entries cc) (pl_stream p)")
  case None
  with assms(1) show ?thesis by (intro that) (simp add: load_scheduler_stream_context_def Let_def)
next
  case (Some e)
  with assms(2) have "\<not> fresh_entry ttl (pl_now p) fp e" by blast
  with Some assms(1) show ?thesis
    by (cases "sh_fingerprint e = fp"; intro that) (simp_all add: load_scheduler_stream_context_def Let_def)
qed

lemma served_has_fingerprint:
  assumes "fst (load_scheduler_stream_context rend load ttl p cc) = Inr r"
  obtains fp where "compute_stream_config_fingerprint rend (pl_seen p) (pl_stream p) = Some fp"
proof (cases "compute_stream_config_fingerprint rend (pl_seen p) (pl_stream p)")
  case None
  with assms show ?thesis by (simp add: load_scheduler_stream_context_def)
qed (rule that)

lemma cache_hit:
  assumes "compute_stream_config_fingerprint rend (pl_seen p) (pl_stream p) = Some fp"
    and "dict_get (cc_entries cc) (pl_stream p) = Some e" "fresh_entry ttl (pl_now p) fp e"
  shows "fst (load_scheduler_stream_context rend load ttl p cc) = Inr (sh_config e, pl_checkpoint p)"
  using assms by (simp add: load_scheduler_stream_context_def Let_def)

text \<open>C39: A scheduled run never works with a configuration older than the time to live, and always with the
  checkpoint as it is: whatever polls came before, the configuration a poll is given was loaded by a poll of
  this stream (possibly itself) at most \<open>ttl\<close> before, under the fingerprint of now.\<close>

theorem served_context_is_recent:
  assumes "0 \<le> ttl"
    and "fst (load_scheduler_stream_context rend load ttl p (cache_after rend load ttl polls)) = Inr (c, cp)"
  shows "cp = pl_checkpoint p
    \<and> (\<exists>q \<in> insert p (set polls). pl_stream q = pl_stream p \<and> pl_now p - pl_now q \<le> ttl
         \<and> load (pl_loaded q) (pl_stream q) = Inr c
         \<and> compute_stream_config_fingerprint rend (pl_seen q) (pl_stream q)
             = compute_stream_config_fingerprint rend (pl_seen p) (pl_stream p))"
proof -
  let ?cc = "cache_after rend load ttl polls"
  have own: ?thesis if "fst (load_fresh load fp p cc') = Inr (c, cp)" for fp cc'
    using that assms(1) by (auto simp: load_fresh_def split: sum.splits)
  obtain fp where fp: "compute_stream_config_fingerprint rend (pl_seen p) (pl_stream p) = Some fp"
    by (rule served_has_fingerprint[OF assms(2)])
  show ?thesis
  proof (cases "\<exists>e. dict_get (cc_entries ?cc) (pl_stream p) = Some e \<and> fresh_entry ttl (pl_now p) fp e")
    case True
    then obtain e where e: "dict_get (cc_entries ?cc) (pl_stream p) = Some e" "fresh_entry ttl (pl_now p) fp e"
      by blast
    then have "loaded_by rend load (set polls) (pl_stream p) e"
      using entries_ok_after[of rend load polls ttl] unfolding entries_ok_def by blast
    moreover have "c = sh_config e" "cp = pl_checkpoint p"
      using assms(2) cache_hit[OF fp e, of load] by simp_all
    ultimately show ?thesis using fp e(2) unfolding loaded_by_def fresh_entry_def by fastforce
  next
    case False
    then obtain cc' where "load_scheduler_stream_context rend load ttl p ?cc = load_fresh load fp p cc'"
      by (rule cache_miss[OF fp])
    with assms(2) have "fst (load_fresh load fp p cc') = Inr (c, cp)" by simp
    then show ?thesis by (rule own)
  qed
qed

section \<open>What the fingerprint does not see\<close>

lemma fingerprint_ignores_rules:
  "compute_stream_config_fingerprint rend (db\<lparr>cd_rules := r\<rparr>) sid = compute_stream_config_fingerprint rend db sid"
  by (cases "dict_get (cd_streams db) sid")
     (simp_all add: compute_stream_config_fingerprint_def enabled_routes_def Let_def)

text \<open>A change of the rules is not seen. When a poll has loaded the configuration and then the
  protection, classification or policy rules change, and nothing else, a poll within the time to live is
  given the configuration with the old rules, whatever the loader would answer now.\<close>

theorem rule_change_is_not_seen:
  assumes "fst (load_scheduler_stream_context rend load ttl p empty_cache) = Inr (c, cp)"
    and "pl_stream q = pl_stream p" "pl_seen q = (pl_seen p)\<lparr>cd_rules := r\<rparr>" "pl_now q - pl_now p \<le> ttl"
  shows "fst (load_scheduler_stream_context rend load ttl q
           (snd (load_scheduler_stream_context rend load ttl p empty_cache))) = Inr (c, pl_checkpoint q)"
proof -
  obtain fp where fp: "compute_stream_config_fingerprint rend (pl_seen p) (pl_stream p) = Some fp"
    by (rule served_has_fingerprint[OF assms(1)])
  have stored: "dict_get (cc_entries (snd (load_scheduler_stream_context rend load ttl p empty_cache))) (pl_stream q)
      = Some \<lparr>sh_fingerprint = fp, sh_cached_at = pl_now p, sh_config = c\<rparr>"
    using assms(1,2) fp
    by (auto simp: load_scheduler_stream_context_def load_fresh_def empty_cache_def dict_simps split: sum.splits)
  have same: "compute_stream_config_fingerprint rend (pl_seen q) (pl_stream q) = Some fp"
    using fp assms(2,3) by (simp add: fingerprint_ignores_rules)
  show ?thesis using cache_hit[OF same stored, of ttl load] assms(4) by (simp add: fresh_entry_def)
qed

section \<open>A small configuration\<close>

definition sample_tables :: "string list config_db" where
  "sample_tables =
     \<lparr>cd_streams = [(3, \<lparr>ss_source = 1, ss_updated = Some 10, ss_enabled = True, ss_polling = Some 60\<rparr>)],
      cd_sources = [(1, 10)], cd_mappings = [(3, 10)], cd_enrichments = [],
      cd_routes = [\<lparr>rt_id = 1, rt_stream = 3, rt_destination = 5, rt_enabled = True, rt_updated = 11\<rparr>,
                   \<lparr>rt_id = 2, rt_stream = 3, rt_destination = 6, rt_enabled = True, rt_updated = 12\<rparr>],
      cd_destinations = [(5, 10), (6, 13)], cd_rules = []\<rparr>"

text \<open>A loader that answers the enabled routes and the rules.\<close>

definition sample_loader :: "'r config_db \<Rightarrow> int \<Rightarrow> string + (int list \<times> 'r)" where
  "sample_loader db sid =
     (let rs = enabled_routes db sid in
      if rs = [] then Inl ''no enabled routes'' else Inr (map rt_id rs, cd_rules db))"

definition sample_poll :: "rat \<Rightarrow> 'r config_db \<Rightarrow> int \<Rightarrow> ('r, int) poll" where
  "sample_poll t db cp = \<lparr>pl_stream = 3, pl_now = t, pl_seen = db, pl_checkpoint = cp, pl_loaded = db\<rparr>"

theorem served_context_is_recent_witness:
  "7 = pl_checkpoint (sample_poll 30 sample_tables 7)
    \<and> (\<exists>q \<in> insert (sample_poll 30 sample_tables 7) (set [sample_poll 0 sample_tables 6]).
         pl_stream q = pl_stream (sample_poll 30 sample_tables 7)
         \<and> pl_now (sample_poll 30 sample_tables 7) - pl_now q \<le> default_ttl
         \<and> sample_loader (pl_loaded q) (pl_stream q) = Inr ([1, 2], [])
         \<and> compute_stream_config_fingerprint int_str (pl_seen q) (pl_stream q)
             = compute_stream_config_fingerprint int_str (pl_seen (sample_poll 30 sample_tables 7))
                 (pl_stream (sample_poll 30 sample_tables 7)))"
  by (rule served_context_is_recent[where rend = int_str and load = sample_loader]) code_simp+

theorem rule_change_is_not_seen_witness:
  "fst (load_scheduler_stream_context int_str sample_loader default_ttl
           (sample_poll 30 (sample_tables\<lparr>cd_rules := [''mask ssn'']\<rparr>) 7)
           (snd (load_scheduler_stream_context int_str sample_loader default_ttl (sample_poll 0 sample_tables 6) empty_cache)))
     = Inr (([1, 2], []), pl_checkpoint (sample_poll 30 (sample_tables\<lparr>cd_rules := [''mask ssn'']\<rparr>) 7))"
  by (rule rule_change_is_not_seen[where cp = 6]) (code_simp | simp add: sample_poll_def default_ttl_def)+

text \<open>Nor is a route that is disabled seen, unless it was the one changed last: only enabled routes count
  for the maximum, so the context still has route 1 while the tables have it disabled.\<close>

lemma disabled_route_is_served:
  "let later = sample_tables\<lparr>cd_routes := map (\<lambda>r. if rt_id r = 1 then r\<lparr>rt_enabled := False, rt_updated := 20\<rparr> else r)
                              (cd_routes sample_tables)\<rparr>
   in fst (load_scheduler_stream_context int_str sample_loader default_ttl (sample_poll 30 later 7)
         (snd (load_scheduler_stream_context int_str sample_loader default_ttl (sample_poll 0 sample_tables 6) empty_cache)))
        = Inr (([1, 2], []), 7)
      \<and> sample_loader later 3 = Inr ([2], [])"
  by code_simp

end
