(* ===== verification/Scheduler.thy ===== *)
theory Scheduler
  imports Relay_Prelude Complex_Main
begin

text \<open>
  \<open>app/scheduler/scheduler.py\<close>, \<open>enabled_state.py\<close> and \<open>app/streams/runtime_eligibility.py\<close>: which streams
  the scheduler polls, the loop of one worker and its waits. A cycle of the loop is a function of what it
  meets: the gate, the laboratory flags, the loading of the context, the run and the end of the wait.
  \<open>workers_table\<close> is what the threads of a process share under \<open>_workers_lock\<close>. The ownership of a stream
  across processes is the lock of kind \<open>worker\<close> of \<open>Runtime_Lock\<close>; here it is the answer \<open>owned\<close>.
\<close>

section \<open>Which streams are polled\<close>

definition push_only_scheduler_stream_types :: "string list" where
  "push_only_scheduler_stream_types = [''WEBHOOK_RECEIVER'', ''WEBHOOK'', ''WEBHOOK_PUSH'']"

definition is_push_only_stream_type :: "string \<Rightarrow> bool" where
  "is_push_only_stream_type ty \<longleftrightarrow> py_upper (py_strip ty) \<in> set push_only_scheduler_stream_types"

definition is_stream_scheduler_runnable :: "bool \<Rightarrow> string \<Rightarrow> bool" where
  "is_stream_scheduler_runnable enabled status \<longleftrightarrow> enabled \<and> status = ''RUNNING''"

definition is_stream_runtime_active :: "bool \<Rightarrow> string \<Rightarrow> bool \<Rightarrow> bool" where
  "is_stream_runtime_active enabled status local_owner \<longleftrightarrow>
     (if is_stream_scheduler_runnable enabled status then True
      else if status \<in> {''RUNNING'', ''STOPPING''} then True
      else if enabled then True
      else local_owner)"

record stream_gate =
  sg_enabled :: bool
  sg_status :: string
  sg_polling :: rat
  sg_name :: string
  sg_type :: string

section \<open>The shared snapshot of the gates\<close>

record gate_cache =
  gc_fetched_at :: rat
  gc_gates :: "(int, stream_gate) dict"
  gc_refreshes :: nat

text \<open>\<open>answer\<close> is what the query gives when this thread has to ask, \<open>None\<close> an exception, which is raised;
  a thread that finds another refreshing waits for it and reads what is there then.\<close>

definition ensure_fresh ::
  "rat \<Rightarrow> rat \<Rightarrow> bool \<Rightarrow> (int, stream_gate) dict option \<Rightarrow> gate_cache \<Rightarrow> bool \<times> gate_cache" where
  "ensure_fresh ttl now refreshing answer gc =
     (if gc_fetched_at gc > 0 \<and> now - gc_fetched_at gc < ttl then (True, gc)
      else if refreshing then (True, gc)
      else case answer of
             None \<Rightarrow> (False, gc)
           | Some gates \<Rightarrow> (True, gc\<lparr>gc_gates := gates, gc_fetched_at := now, gc_refreshes := gc_refreshes gc + 1\<rparr>))"

definition get_gate ::
  "rat \<Rightarrow> rat \<Rightarrow> bool \<Rightarrow> (int, stream_gate) dict option \<Rightarrow> int \<Rightarrow> gate_cache \<Rightarrow> (unit + stream_gate option) \<times> gate_cache" where
  "get_gate ttl now refreshing answer sid gc =
     (let (ok, gc1) = ensure_fresh ttl now refreshing answer gc in
      (if ok then Inr (dict_get (gc_gates gc1) sid) else Inl (), gc1))"

definition invalidate_gates :: "gate_cache \<Rightarrow> gate_cache" where
  "invalidate_gates gc = gc\<lparr>gc_fetched_at := 0\<rparr>"

definition gate_is_enabled :: "stream_gate option \<Rightarrow> bool" where
  "gate_is_enabled g = (case g of None \<Rightarrow> False | Some s \<Rightarrow> is_stream_scheduler_runnable (sg_enabled s) (sg_status s))"

section \<open>Errors and backoff\<close>

datatype exc_kind = Connection_Kind | Os_Kind "int option" | Value_Kind | Other_Kind

record exc =
  ex_kind :: exc_kind
  ex_text :: string

text \<open>\<open>BrokenPipeError\<close>, \<open>ConnectionError\<close> and \<open>TimeoutError\<close> are \<open>Connection_Kind\<close>; the numbers are
  those of Linux for \<open>EPIPE\<close>, \<open>ECONNREFUSED\<close>, \<open>ETIMEDOUT\<close> and \<open>ECONNRESET\<close>.\<close>

definition is_transient_scheduler_error :: "exc \<Rightarrow> bool" where
  "is_transient_scheduler_error e =
     (case ex_kind e of
        Connection_Kind \<Rightarrow> True
      | k \<Rightarrow>
          if k \<in> {Os_Kind (Some 32), Os_Kind (Some 111), Os_Kind (Some 110), Os_Kind (Some 104)} then True
          else list_ex (\<lambda>n. contains_str n (py_lower (ex_text e)))
                 [''broken pipe'', ''connection refused'', ''connection reset'', ''timed out'', ''timeout'',
                  ''connection aborted''])"

definition context_unavailable :: "exc \<Rightarrow> bool" where
  "context_unavailable e \<longleftrightarrow>
     ex_kind e = Value_Kind
     \<and> list_ex (\<lambda>n. contains_str n (py_lower (ex_text e)))
         [''disabled'', ''no enabled routes'', ''destination row missing'', ''stream disabled'']"

definition compute_scheduler_backoff_wait_sec :: "rat \<Rightarrow> int \<Rightarrow> rat" where
  "compute_scheduler_backoff_wait_sec interval consecutive_failures =
     (let failures = max 0 consecutive_failures; base = max interval (1/10) in
      min 300 (base * 2 ^ nat (min failures 5)))"

section \<open>A cycle of a worker\<close>

definition full_e2e_stream :: "string \<Rightarrow> bool" where
  "full_e2e_stream name \<longleftrightarrow> py_startswith name ''[FULL E2E]''"

definition lab_fixture_stream :: "string \<Rightarrow> bool" where
  "lab_fixture_stream name \<longleftrightarrow>
     py_startswith name ''[DEV VALIDATION] '' \<or> py_startswith name ''[DEV E2E] ''"

text \<open>The streams the supervisor finds; \<open>rows\<close> are the streams of the table.\<close>

definition get_enabled_stream_ids :: "bool \<Rightarrow> (int \<times> stream_gate) list \<Rightarrow> int list" where
  "get_enabled_stream_ids lab_runtime rows =
     map fst (filter (\<lambda>(sid, g). sg_enabled g \<and> \<not> is_push_only_stream_type (sg_type g)
         \<and> (lab_runtime \<or> \<not> lab_fixture_stream (sg_name g))
         \<and> is_stream_scheduler_runnable (sg_enabled g) (sg_status g)) rows)"

record cycle_input =
  ci_stopped :: bool
  ci_gate :: "exc + stream_gate option"
  ci_lab_enabled :: bool
  ci_lab_paused :: bool
  ci_lab_pause_seconds :: rat
  ci_context :: "exc option"
  ci_run :: "exc option"
  ci_wait_completed :: bool

datatype exit_reason = Stop_Requested | Stream_Missing | Not_Runnable | Push_Only | Lab_Disabled | Harness_Owned
  | Context_Unavailable | Wait_Interrupted

text \<open>What a cycle did: whether it called the runner, the wait it entered, the failures counted and the
  backoff it noted, and whether the loop ends.\<close>

record cycle_result =
  cr_ran :: bool
  cr_wait :: "rat option"
  cr_failures :: int
  cr_backoff :: "(int \<times> rat) option"
  cr_exit :: "exit_reason option"

definition left_loop :: "int \<Rightarrow> bool \<Rightarrow> exit_reason \<Rightarrow> cycle_result" where
  "left_loop failures called why =
     \<lparr>cr_ran = called, cr_wait = None, cr_failures = failures, cr_backoff = None, cr_exit = Some why\<rparr>"

definition finish_cycle :: "cycle_input \<Rightarrow> rat \<Rightarrow> int \<Rightarrow> bool \<Rightarrow> exc option \<Rightarrow> cycle_result" where
  "finish_cycle ci interval failures called err =
     (let (fs, wait, bo) =
        (case err of
           Some e \<Rightarrow>
             if is_transient_scheduler_error e then
               (let w = compute_scheduler_backoff_wait_sec interval (failures + 1)
                in (failures + 1, w, Some (failures + 1, w)))
             else (failures, max interval (1/10), None)
         | None \<Rightarrow> (failures, max interval (1/10), None))
      in \<lparr>cr_ran = called, cr_wait = Some wait, cr_failures = fs, cr_backoff = bo,
          cr_exit = (if ci_wait_completed ci then None else Some Wait_Interrupted)\<rparr>)"

definition run_context :: "cycle_input \<Rightarrow> rat \<Rightarrow> int \<Rightarrow> cycle_result" where
  "run_context ci interval failures =
     (case ci_context ci of
        Some e \<Rightarrow>
          if context_unavailable e then left_loop failures False Context_Unavailable
          else finish_cycle ci interval failures False (Some e)
      | None \<Rightarrow>
          (case ci_run ci of
             None \<Rightarrow> finish_cycle ci interval 0 True None
           | Some e \<Rightarrow>
               if context_unavailable e then left_loop failures True Context_Unavailable
               else finish_cycle ci interval failures True (Some e)))"

definition loop_cycle :: "cycle_input \<Rightarrow> int \<Rightarrow> cycle_result" where
  "loop_cycle ci failures =
     (if ci_stopped ci then left_loop failures False Stop_Requested
      else case ci_gate ci of
        Inl e \<Rightarrow>
          if context_unavailable e then left_loop failures False Context_Unavailable
          else finish_cycle ci 60 failures False (Some e)
      | Inr None \<Rightarrow> left_loop failures False Stream_Missing
      | Inr (Some g) \<Rightarrow>
          if \<not> is_stream_scheduler_runnable (sg_enabled g) (sg_status g) then left_loop failures False Not_Runnable
          else if is_push_only_stream_type (sg_type g) then left_loop failures False Push_Only
          else if lab_fixture_stream (sg_name g) \<and> \<not> ci_lab_enabled ci then left_loop failures False Lab_Disabled
          else if full_e2e_stream (sg_name g) then left_loop failures False Harness_Owned
          else if lab_fixture_stream (sg_name g) \<and> ci_lab_paused ci then
            \<lparr>cr_ran = False, cr_wait = Some (max (ci_lab_pause_seconds ci) (sg_polling g)), cr_failures = failures,
             cr_backoff = None, cr_exit = (if ci_wait_completed ci then None else Some Wait_Interrupted)\<rparr>
          else run_context ci (sg_polling g) failures)"

section \<open>The loop\<close>

record workers_table =
  wt_workers :: "int set"
  wt_stop_events :: "(int, bool) dict"
  wt_backoff :: "(int, int \<times> rat) dict"

text \<open>Spawning: a live worker of the stream keeps its place, otherwise the stop event is cleared and a thread
  registered. \<open>alive\<close> says whether the thread registered now is alive.\<close>

definition ensure_worker :: "int \<Rightarrow> bool \<Rightarrow> workers_table \<Rightarrow> bool \<times> workers_table" where
  "ensure_worker sid alive wt =
     (if sid \<in> wt_workers wt \<and> alive then (False, wt)
      else (True, wt\<lparr>wt_workers := insert sid (wt_workers wt), wt_stop_events := dict_set sid False (wt_stop_events wt)\<rparr>))"

definition is_run_once_harness_stream_id :: "exc + stream_gate option \<Rightarrow> bool" where
  "is_run_once_harness_stream_id answer = (case answer of Inr (Some g) \<Rightarrow> full_e2e_stream (sg_name g) | _ \<Rightarrow> False)"

text \<open>A pass of the supervisor, over the streams it comes to before the stop event is set.\<close>

definition supervisor_pass ::
  "(int \<Rightarrow> exc + stream_gate option) \<Rightarrow> (int \<Rightarrow> bool) \<Rightarrow> int list \<Rightarrow> workers_table \<Rightarrow> workers_table" where
  "supervisor_pass gates alive ids wt =
     foldl (\<lambda>w sid. if is_run_once_harness_stream_id (gates sid) then w else snd (ensure_worker sid (alive sid) w)) wt ids"

text \<open>The end of \<open>stop\<close>: whatever the joins gave, nothing stays registered.\<close>

definition stop_workers :: "workers_table \<Rightarrow> workers_table" where
  "stop_workers wt = wt\<lparr>wt_workers := {}, wt_stop_events := []\<rparr>"

definition request_stream_stop :: "int \<Rightarrow> workers_table \<Rightarrow> workers_table" where
  "request_stream_stop sid wt = wt\<lparr>wt_stop_events := dict_set sid True (wt_stop_events wt)\<rparr>"

definition set_backoff :: "int \<Rightarrow> (int \<times> rat) option \<Rightarrow> workers_table \<Rightarrow> workers_table" where
  "set_backoff sid bo wt =
     wt\<lparr>wt_backoff := (case bo of None \<Rightarrow> dict_del sid (wt_backoff wt) | Some b \<Rightarrow> dict_set sid b (wt_backoff wt))\<rparr>"

definition forget_worker :: "int \<Rightarrow> workers_table \<Rightarrow> workers_table" where
  "forget_worker sid wt =
     wt\<lparr>wt_workers := wt_workers wt - {sid}, wt_stop_events := dict_del sid (wt_stop_events wt)\<rparr>"

text \<open>The status the row of a stream has after the worker confirmed its stop.\<close>

definition confirm_stopped_if_disabled :: "(bool \<times> string) option \<Rightarrow> (bool \<times> string) option" where
  "confirm_stopped_if_disabled row =
     (case row of
        None \<Rightarrow> None
      | Some (enabled, status) \<Rightarrow>
          if \<not> enabled \<and> status \<in> {''STOPPING'', ''RUNNING''} then Some (enabled, ''STOPPED'') else row)"

text \<open>The cycles of a worker over what they meet; a run that succeeded clears the backoff before the wait.
  The results are the trace of the loop, and the table is as the waits see it.\<close>

fun loop_cycles :: "int \<Rightarrow> cycle_input list \<Rightarrow> int \<Rightarrow> workers_table \<Rightarrow> cycle_result list \<times> workers_table" where
  "loop_cycles sid [] failures wt = ([], wt)"
| "loop_cycles sid (ci # cins) failures wt =
     (let r = loop_cycle ci failures;
          cleared = (cr_ran r \<and> ci_run ci = None);
          wt1 = (if cleared then set_backoff sid None wt else wt);
          wt2 = (if cr_backoff r \<noteq> None then set_backoff sid (cr_backoff r) wt1 else wt1)
      in if cr_exit r \<noteq> None then ([r], wt2)
         else (let (rs, wt3) = loop_cycles sid cins (cr_failures r) wt2 in (r # rs, wt3)))"

definition loop_stream ::
  "int \<Rightarrow> bool \<Rightarrow> cycle_input list \<Rightarrow> workers_table \<Rightarrow> (bool \<times> string) option
     \<Rightarrow> cycle_result list \<times> workers_table \<times> (bool \<times> string) option" where
  "loop_stream sid owned cins wt row =
     (if \<not> owned then ([], forget_worker sid wt, row)
      else (let (rs, wt1) = loop_cycles sid cins 0 wt in
            (rs, set_backoff sid None (forget_worker sid wt1), confirm_stopped_if_disabled row)))"

section \<open>What a worker does\<close>

definition pollable :: "cycle_input \<Rightarrow> stream_gate \<Rightarrow> bool" where
  "pollable ci g \<longleftrightarrow> sg_enabled g \<and> sg_status g = ''RUNNING'' \<and> \<not> is_push_only_stream_type (sg_type g)
     \<and> \<not> full_e2e_stream (sg_name g) \<and> (lab_fixture_stream (sg_name g) \<longrightarrow> ci_lab_enabled ci)"

lemma finish_cycle_simps [simp]:
  "cr_ran (finish_cycle ci i f called e) = called"
  by (simp add: finish_cycle_def split: prod.splits)

lemma left_loop_simps [simp]: "cr_ran (left_loop f called why) = called" "cr_wait (left_loop f called why) = None"
  by (simp_all add: left_loop_def)

lemma cycle_runs_pollable:
  assumes "cr_ran (loop_cycle ci failures)"
  shows "\<exists>g. ci_gate ci = Inr (Some g) \<and> pollable ci g \<and> ci_context ci = None \<and> \<not> ci_stopped ci"
  using assms
  by (auto simp: loop_cycle_def run_context_def pollable_def is_stream_scheduler_runnable_def
      split: if_splits sum.splits option.splits)

lemma backoff_bounds:
  "1/10 \<le> compute_scheduler_backoff_wait_sec i n" "compute_scheduler_backoff_wait_sec i n \<le> 300"
proof -
  have "1/10 \<le> max i (1/10) * 1" by simp
  also have "\<dots> \<le> max i (1/10) * 2 ^ nat (min (max 0 n) 5)" by (intro mult_left_mono) auto
  finally show "1/10 \<le> compute_scheduler_backoff_wait_sec i n"
    by (simp add: compute_scheduler_backoff_wait_sec_def)
qed (simp add: compute_scheduler_backoff_wait_sec_def)

lemma finish_wait:
  assumes "cr_wait (finish_cycle ci i f called e) = Some w"
  shows "1/10 \<le> w \<and> w \<le> max 300 i"
  using assms backoff_bounds[of i "f + 1"]
  by (auto simp: finish_cycle_def Let_def split: option.splits if_splits)

lemma loop_results:
  assumes "r \<in> set (fst (loop_cycles sid cins failures wt))"
  shows "\<exists>ci \<in> set cins. \<exists>f. r = loop_cycle ci f"
  using assms
  by (induction sid cins failures wt rule: loop_cycles.induct) (force simp: Let_def split: if_splits prod.splits)+

text \<open>In a worker's whole life each call of the runner is for a stream that the gate of the same cycle shows
  enabled, running and meant to be polled; a process that does not own the stream makes none.\<close>

theorem worker_runs_pollable_streams:
  "\<forall>r \<in> set (fst (loop_stream sid owned cins wt row)). cr_ran r \<longrightarrow>
     owned \<and> (\<exists>ci \<in> set cins. \<exists>g. ci_gate ci = Inr (Some g) \<and> pollable ci g)"
proof (intro ballI impI)
  fix r assume r: "r \<in> set (fst (loop_stream sid owned cins wt row))" "cr_ran r"
  then have own: "owned" "r \<in> set (fst (loop_cycles sid cins 0 wt))"
    by (auto simp: loop_stream_def split: if_splits prod.splits)
  from loop_results[OF own(2)] obtain ci f where "ci \<in> set cins" "r = loop_cycle ci f" by blast
  with r(2) own(1) cycle_runs_pollable[of ci f]
  show "owned \<and> (\<exists>ci \<in> set cins. \<exists>g. ci_gate ci = Inr (Some g) \<and> pollable ci g)" by blast
qed

text \<open>The supervisor starts workers for such streams alone, and one per stream.\<close>

lemma supervised_streams:
  "sid \<in> wt_workers (supervisor_pass gates alive ids wt)
     \<Longrightarrow> sid \<in> wt_workers wt \<or> sid \<in> set ids \<and> \<not> is_run_once_harness_stream_id (gates sid)"
  by (induction ids arbitrary: wt) (force simp: supervisor_pass_def ensure_worker_def split: if_splits)+

lemma listed_streams:
  "sid \<in> set (get_enabled_stream_ids lab rows)
     \<Longrightarrow> \<exists>g. (sid, g) \<in> set rows \<and> sg_enabled g \<and> sg_status g = ''RUNNING'' \<and> \<not> is_push_only_stream_type (sg_type g)"
  by (auto simp: get_enabled_stream_ids_def is_stream_scheduler_runnable_def)

text \<open>However a worker ends, its place, its stop event and its backoff are free again, and a stream that was
  stopped meanwhile has the status of a stopped one.\<close>

theorem ended_worker_leaves_nothing:
  "let (rs, wt', row') = loop_stream sid True cins wt row in
     sid \<notin> wt_workers wt' \<and> dict_get (wt_stop_events wt') sid = None \<and> dict_get (wt_backoff wt') sid = None
     \<and> (\<forall>status. row = Some (False, status) \<longrightarrow> status \<in> {''RUNNING'', ''STOPPING''} \<longrightarrow> row' = Some (False, ''STOPPED''))"
  by (auto simp: loop_stream_def set_backoff_def forget_worker_def confirm_stopped_if_disabled_def dict_simps
      split: prod.splits)

text \<open>The cap of the backoff is below long intervals: after a transient failure a stream polled every hour
  is polled again after five minutes, and goes on so.\<close>

lemma backoff_shortens_long_intervals:
  "300 \<le> interval \<Longrightarrow> compute_scheduler_backoff_wait_sec interval n = 300"
proof -
  assume a: "300 \<le> interval"
  have "interval * 1 \<le> max interval (1/10) * 2 ^ nat (min (max 0 n) 5)"
    using a by (intro mult_mono) auto
  with a have "300 \<le> max interval (1/10) * 2 ^ nat (min (max 0 n) 5)" by linarith
  then show ?thesis unfolding compute_scheduler_backoff_wait_sec_def Let_def by (rule min_absorb1)
qed

text \<open>Whatever errors a worker meets, it neither spins nor falls asleep for good: every wait of its loop
  lasts a tenth of a second at least, and at most five minutes or the interval of the stream, if that is
  longer (a minute where the gate could not be read).\<close>

theorem worker_waits_bounded:
  assumes "r \<in> set (fst (loop_stream sid owned cins wt row))" "cr_wait r = Some w"
    and "\<forall>ci \<in> set cins. ci_lab_paused ci = False"
    and "\<forall>ci \<in> set cins. \<forall>g. ci_gate ci = Inr (Some g) \<longrightarrow> sg_polling g \<le> longest"
  shows "1/10 \<le> w \<and> w \<le> max 300 longest"
proof -
  have "r \<in> set (fst (loop_cycles sid cins 0 wt))"
    using assms(1) by (auto simp: loop_stream_def split: if_splits prod.splits)
  then obtain ci f where ci: "ci \<in> set cins" "r = loop_cycle ci f" using loop_results by blast
  show ?thesis
  proof (cases "ci_gate ci")
    case (Inl e)
    with assms(2) ci(2) finish_wait[of ci 60 f False "Some e" w] show ?thesis
      by (auto simp: loop_cycle_def split: if_splits)
  next
    case (Inr og)
    show ?thesis
    proof (cases og)
      case None
      with Inr assms(2) ci(2) show ?thesis by (auto simp: loop_cycle_def split: if_splits)
    next
      case (Some g)
      with Inr assms(2,3) ci have "cr_wait (run_context ci (sg_polling g) f) = Some w"
        by (auto simp: loop_cycle_def split: if_splits)
      then have "1/10 \<le> w \<and> w \<le> max 300 (sg_polling g)"
        by (auto simp: run_context_def split: option.splits if_splits dest: finish_wait)
      moreover have "sg_polling g \<le> longest" using assms(4) ci(1) Inr Some by blast
      ultimately show ?thesis by auto
    qed
  qed
qed

end
