(* ===== verification/Stream_Control.thy ===== *)
theory Stream_Control
  imports Scheduler
begin

text \<open>
  Starting and stopping a stream: \<open>start_stream\<close>, \<open>stop_stream\<close> and \<open>reconcile_stale_stream_runtime\<close> of
  \<open>app/runtime/control_service.py\<close> against the workers of the schedulers of all processes
  (\<open>app/scheduler/scheduler.py\<close>), for one stream. Everything that another thread, process or session may
  come between is an event of its own: the three reads of \<open>_stream_runtime_is_terminal\<close>, the marking of the
  row and the waiting, the check of the gate, the loading of the context and the run, the confirmation of a
  stop by a worker and the release of its ownership. A lock of the row (\<open>with_for_update\<close>) is held from
  the read to the commit of a request. The gate a worker sees comes from a snapshot that may be stale, so
  its answer is part of the event. \<open>Scheduler\<close> describes the same worker as a sequential program.
\<close>

section \<open>State\<close>

text \<open>Where a worker thread is; a thread is named by its process and a number. From \<open>Owning\<close> to \<open>Popped\<close> it
  holds the ownership of the stream.\<close>

datatype thread = Thread (th_process: nat) (th_number: nat)

datatype thread_phase = Absent | Spawned | Owning | Gated | Loaded | In_Run | In_Wait | Leaving_Loop
  | Confirming bool | Confirmed_Stop | Popped | Ended

datatype stop_answer = Stop_Already_Confirmed | Stop_Confirmed | Stop_Waiting | Stop_Failed | Reconciled bool
  | Stream_Not_Found

text \<open>Where a request is; the number counts the reads of \<open>_stream_runtime_is_terminal\<close> that found nothing.\<close>

datatype request_phase = No_Request | Already nat nat | Marked nat | Stop_Wait nat nat | Stop_Check nat nat
  | Stop_Confirm nat | Stale_Check nat nat | Answered stop_answer | Lost

datatype run_holder = By_Worker thread | By_Request nat

record runtime =
  rn_row :: "(bool \<times> string) option"
  rn_row_lock :: "nat option"
  rn_phase :: "thread \<Rightarrow> thread_phase"
  rn_registered :: "nat \<Rightarrow> thread option"
  rn_stop_event :: "nat \<Rightarrow> bool"
  rn_listed :: "nat \<Rightarrow> bool"
  rn_owner :: "thread option"
  rn_run :: "run_holder option"
  rn_request :: "nat \<Rightarrow> request_phase"

definition created_stream :: runtime where
  "created_stream =
     \<lparr>rn_row = Some (False, ''STOPPED''), rn_row_lock = None, rn_phase = (\<lambda>_. Absent), rn_registered = (\<lambda>_. None),
      rn_stop_event = (\<lambda>_. False), rn_listed = (\<lambda>_. False), rn_owner = None, rn_run = None,
      rn_request = (\<lambda>_. No_Request)\<rparr>"

definition row_enabled :: "runtime \<Rightarrow> bool" where
  "row_enabled s \<longleftrightarrow> (case rn_row s of None \<Rightarrow> False | Some (en, _) \<Rightarrow> en)"

definition with_status :: "string \<Rightarrow> (bool \<times> string) option \<Rightarrow> (bool \<times> string) option" where
  "with_status status row = map_option (\<lambda>(en, _). (en, status)) row"

definition set_phase :: "thread \<Rightarrow> thread_phase \<Rightarrow> runtime \<Rightarrow> runtime" where
  "set_phase t ph s = s\<lparr>rn_phase := (rn_phase s)(t := ph)\<rparr>"

definition set_request :: "nat \<Rightarrow> request_phase \<Rightarrow> runtime \<Rightarrow> runtime" where
  "set_request r ph s = s\<lparr>rn_request := (rn_request s)(r := ph)\<rparr>"

section \<open>Workers\<close>

definition worker_alive :: "nat \<Rightarrow> runtime \<Rightarrow> bool" where
  "worker_alive p s \<longleftrightarrow> (case rn_registered s p of None \<Rightarrow> False | Some t \<Rightarrow> rn_phase s t \<notin> {Absent, Ended})"

definition list_streams :: "nat \<Rightarrow> runtime \<Rightarrow> runtime" where
  "list_streams p s =
     s\<lparr>rn_listed := (rn_listed s)(p := (case rn_row s of None \<Rightarrow> False | Some (en, status) \<Rightarrow> is_stream_scheduler_runnable en status))\<rparr>"

definition spawn_worker :: "thread \<Rightarrow> runtime \<Rightarrow> runtime option" where
  "spawn_worker t s =
     (let p = th_process t in
      if \<not> rn_listed s p then None
      else if worker_alive p s then Some s
      else if rn_phase s t \<noteq> Absent then None
      else Some (set_phase t Spawned
             (s\<lparr>rn_registered := (rn_registered s)(p := Some t), rn_stop_event := (rn_stop_event s)(p := False)\<rparr>)))"

definition unregister :: "nat \<Rightarrow> runtime \<Rightarrow> runtime" where
  "unregister p s = s\<lparr>rn_registered := (rn_registered s)(p := None), rn_stop_event := (rn_stop_event s)(p := False)\<rparr>"

definition acquire_ownership :: "thread \<Rightarrow> runtime \<Rightarrow> runtime option" where
  "acquire_ownership t s =
     (if rn_phase s t \<noteq> Spawned then None
      else if rn_owner s = None then Some (set_phase t Owning (s\<lparr>rn_owner := Some t\<rparr>))
      else Some (set_phase t Ended (unregister (th_process t) s)))"

definition check_gate :: "thread \<Rightarrow> bool \<Rightarrow> runtime \<Rightarrow> runtime option" where
  "check_gate t runnable s =
     (if rn_phase s t \<noteq> Owning then None
      else Some (set_phase t (if rn_stop_event s (th_process t) \<or> \<not> runnable then Leaving_Loop else Gated) s))"

definition load_context :: "thread \<Rightarrow> runtime \<Rightarrow> runtime option" where
  "load_context t s =
     (if rn_phase s t \<noteq> Gated then None
      else Some (set_phase t
             (case rn_row s of None \<Rightarrow> In_Wait | Some (en, _) \<Rightarrow> if en then Loaded else Leaving_Loop) s))"

definition begin_run :: "thread \<Rightarrow> runtime \<Rightarrow> runtime option" where
  "begin_run t s =
     (if rn_phase s t \<noteq> Loaded then None
      else if rn_run s = None then Some (set_phase t In_Run (s\<lparr>rn_run := Some (By_Worker t)\<rparr>))
      else Some (set_phase t In_Wait s))"

definition end_run :: "thread \<Rightarrow> runtime \<Rightarrow> runtime option" where
  "end_run t s = (if rn_phase s t \<noteq> In_Run then None else Some (set_phase t In_Wait (s\<lparr>rn_run := None\<rparr>)))"

definition wait_over :: "thread \<Rightarrow> bool \<Rightarrow> runtime \<Rightarrow> runtime option" where
  "wait_over t still_enabled s =
     (if rn_phase s t \<noteq> In_Wait then None
      else Some (set_phase t (if rn_stop_event s (th_process t) \<or> \<not> still_enabled then Leaving_Loop else Owning) s))"

text \<open>The end of a worker: the row is read without a lock, then its status alone is written.\<close>

definition confirm_read :: "thread \<Rightarrow> runtime \<Rightarrow> runtime option" where
  "confirm_read t s =
     (if rn_phase s t \<noteq> Leaving_Loop then None
      else Some (set_phase t
             (Confirming (confirm_stopped_if_disabled (rn_row s) \<noteq> rn_row s)) s))"

definition confirm_write :: "thread \<Rightarrow> runtime \<Rightarrow> runtime option" where
  "confirm_write t s =
     (case rn_phase s t of
        Confirming True \<Rightarrow>
          if rn_row_lock s \<noteq> None then None
          else Some (set_phase t Confirmed_Stop (s\<lparr>rn_row := with_status ''STOPPED'' (rn_row s)\<rparr>))
      | Confirming False \<Rightarrow> Some (set_phase t Confirmed_Stop s)
      | _ \<Rightarrow> None)"

definition pop_worker :: "thread \<Rightarrow> runtime \<Rightarrow> runtime option" where
  "pop_worker t s =
     (if rn_phase s t \<noteq> Confirmed_Stop then None else Some (set_phase t Popped (unregister (th_process t) s)))"

definition release_ownership :: "thread \<Rightarrow> runtime \<Rightarrow> runtime option" where
  "release_ownership t s =
     (if rn_phase s t \<noteq> Popped then None else Some (set_phase t Ended (s\<lparr>rn_owner := None\<rparr>)))"

text \<open>A process that dies loses its threads, its file locks and its requests with their row locks.\<close>

definition request_process :: "request_phase \<Rightarrow> nat option" where
  "request_process ph =
     (case ph of Already p _ \<Rightarrow> Some p | Marked p \<Rightarrow> Some p | Stop_Wait p _ \<Rightarrow> Some p | Stop_Check p _ \<Rightarrow> Some p
        | Stop_Confirm p \<Rightarrow> Some p | Stale_Check p _ \<Rightarrow> Some p | _ \<Rightarrow> None)"

definition runner_process :: "run_holder \<Rightarrow> nat" where
  "runner_process h = (case h of By_Worker t \<Rightarrow> th_process t | By_Request p \<Rightarrow> p)"

definition unless :: "('a \<Rightarrow> bool) \<Rightarrow> 'a option \<Rightarrow> 'a option" where
  "unless bad x = (case x of None \<Rightarrow> None | Some v \<Rightarrow> if bad v then None else Some v)"

definition crash :: "nat \<Rightarrow> runtime \<Rightarrow> runtime" where
  "crash p s =
     s\<lparr>rn_phase := (\<lambda>t. if th_process t = p \<and> rn_phase s t \<noteq> Absent then Ended else rn_phase s t),
       rn_registered := (rn_registered s)(p := None),
       rn_owner := unless (\<lambda>t. th_process t = p) (rn_owner s),
       rn_run := unless (\<lambda>h. runner_process h = p) (rn_run s),
       rn_row_lock := unless (\<lambda>r. request_process (rn_request s r) = Some p) (rn_row_lock s),
       rn_request := (\<lambda>r. if request_process (rn_request s r) = Some p then Lost else rn_request s r)\<rparr>"

section \<open>Requests\<close>

definition start_stream :: "runtime \<Rightarrow> runtime option" where
  "start_stream s =
     (case rn_row s of
        None \<Rightarrow> None
      | Some _ \<Rightarrow> if rn_row_lock s \<noteq> None then None else Some (s\<lparr>rn_row := Some (True, ''RUNNING'')\<rparr>))"

text \<open>The reads of \<open>_stream_runtime_is_terminal\<close>: the run lock, the ownership, the thread of this process.\<close>

definition terminal_read :: "nat \<Rightarrow> nat \<Rightarrow> runtime \<Rightarrow> bool" where
  "terminal_read p n s \<longleftrightarrow>
     (if n = 0 then rn_run s = None else if n = 1 then rn_owner s = None else \<not> worker_alive p s)"

definition mark_stopping :: "nat \<Rightarrow> nat \<Rightarrow> runtime \<Rightarrow> runtime" where
  "mark_stopping r p s = set_request r (Marked p) (s\<lparr>rn_row := Some (False, ''STOPPING''), rn_row_lock := None\<rparr>)"

definition stop_begin :: "nat \<Rightarrow> nat \<Rightarrow> runtime \<Rightarrow> runtime option" where
  "stop_begin r p s =
     (if rn_request s r \<noteq> No_Request \<or> rn_row_lock s \<noteq> None then None
      else Some (case rn_row s of
             None \<Rightarrow> set_request r (Answered Stream_Not_Found) s
           | Some (en, status) \<Rightarrow>
               if \<not> en \<and> status = ''STOPPED'' then set_request r (Already p 0) (s\<lparr>rn_row_lock := Some r\<rparr>)
               else mark_stopping r p s))"

definition stop_signal :: "nat \<Rightarrow> runtime \<Rightarrow> runtime option" where
  "stop_signal r s =
     (case rn_request s r of
        Marked p \<Rightarrow> Some (set_request r (Stop_Wait p 0) (s\<lparr>rn_stop_event := (rn_stop_event s)(p := True)\<rparr>))
      | _ \<Rightarrow> None)"

definition terminal_check :: "nat \<Rightarrow> bool \<Rightarrow> runtime \<Rightarrow> runtime option" where
  "terminal_check r timeup s =
     (case rn_request s r of
        Already p n \<Rightarrow>
          Some (if \<not> terminal_read p n s then mark_stopping r p s
                else if n < 2 then set_request r (Already p (n + 1)) s
                else set_request r (Answered Stop_Already_Confirmed) (s\<lparr>rn_row_lock := None\<rparr>))
      | Stop_Wait p n \<Rightarrow>
          Some (set_request r
                  (if \<not> terminal_read p n s then (if timeup then Stop_Check p 0 else Stop_Wait p 0)
                   else if n < 2 then Stop_Wait p (n + 1) else Stop_Check p 0) s)
      | Stop_Check p n \<Rightarrow>
          Some (set_request r
                  (if \<not> terminal_read p n s then Answered Stop_Waiting
                   else if n < 2 then Stop_Check p (n + 1) else Stop_Confirm p) s)
      | Stale_Check p n \<Rightarrow>
          Some (if \<not> terminal_read p n s then
                  set_request r (Answered (Reconciled False)) (s\<lparr>rn_row_lock := None\<rparr>)
                else if n < 2 then set_request r (Stale_Check p (n + 1)) s
                else set_request r (Answered (Reconciled True))
                       (s\<lparr>rn_row := with_status ''STOPPED'' (rn_row s), rn_row_lock := None\<rparr>))
      | _ \<Rightarrow> None)"

definition may_fail :: "request_phase \<Rightarrow> bool" where
  "may_fail ph \<longleftrightarrow> (case ph of Marked _ \<Rightarrow> True | Stop_Wait _ _ \<Rightarrow> True | Stop_Check _ _ \<Rightarrow> True | Stop_Confirm _ \<Rightarrow> True | _ \<Rightarrow> False)"

definition stop_fail :: "nat \<Rightarrow> runtime \<Rightarrow> runtime option" where
  "stop_fail r s =
     (if \<not> may_fail (rn_request s r) \<or> rn_row_lock s \<noteq> None then None
      else Some (set_request r (Answered Stop_Failed)
             (s\<lparr>rn_row := map_option (\<lambda>_. (False, ''STOP_FAILED'')) (rn_row s)\<rparr>)))"

text \<open>The last step of a stop: the row is read again and its status set, whatever \<open>enabled\<close> is by now.\<close>

definition stop_confirm :: "nat \<Rightarrow> runtime \<Rightarrow> runtime option" where
  "stop_confirm r s =
     (case rn_request s r of
        Stop_Confirm _ \<Rightarrow>
          if rn_row_lock s \<noteq> None \<or> rn_row s = None then None
          else Some (set_request r (Answered Stop_Confirmed) (s\<lparr>rn_row := with_status ''STOPPED'' (rn_row s)\<rparr>))
      | _ \<Rightarrow> None)"

definition reconcile_begin :: "nat \<Rightarrow> nat \<Rightarrow> runtime \<Rightarrow> runtime option" where
  "reconcile_begin r p s =
     (if rn_request s r \<noteq> No_Request \<or> rn_row_lock s \<noteq> None then None
      else Some (case rn_row s of
             None \<Rightarrow> set_request r (Answered Stream_Not_Found) s
           | Some (en, status) \<Rightarrow>
               if \<not> en \<and> status \<in> {''RUNNING'', ''STOPPING''} then
                 set_request r (Stale_Check p 0) (s\<lparr>rn_row_lock := Some r\<rparr>)
               else set_request r (Answered (Reconciled False)) s))"

section \<open>Interleavings\<close>

datatype control_event = Start | List nat | Spawn thread | Acquire thread | Gate thread bool | Load thread
  | Begin_Run thread | End_Run thread | Wait_Over thread bool | Confirm_Read thread | Confirm_Write thread
  | Pop thread | Release thread | Crash nat | Request_Run nat | Request_Run_Ends nat
  | Stop_Begin nat nat | Stop_Signal nat | Terminal_Check nat bool | Stop_Confirms nat | Stop_Fails nat
  | Reconcile_Begin nat nat

fun exec_event :: "control_event \<Rightarrow> runtime \<Rightarrow> runtime option" where
  "exec_event Start s = start_stream s"
| "exec_event (List p) s = Some (list_streams p s)"
| "exec_event (Spawn t) s = spawn_worker t s"
| "exec_event (Acquire t) s = acquire_ownership t s"
| "exec_event (Gate t runnable) s = check_gate t runnable s"
| "exec_event (Load t) s = load_context t s"
| "exec_event (Begin_Run t) s = begin_run t s"
| "exec_event (End_Run t) s = end_run t s"
| "exec_event (Wait_Over t still) s = wait_over t still s"
| "exec_event (Confirm_Read t) s = confirm_read t s"
| "exec_event (Confirm_Write t) s = confirm_write t s"
| "exec_event (Pop t) s = pop_worker t s"
| "exec_event (Release t) s = release_ownership t s"
| "exec_event (Crash p) s = Some (crash p s)"
| "exec_event (Request_Run p) s = (if rn_run s = None then Some (s\<lparr>rn_run := Some (By_Request p)\<rparr>) else None)"
| "exec_event (Request_Run_Ends p) s = (if rn_run s = Some (By_Request p) then Some (s\<lparr>rn_run := None\<rparr>) else None)"
| "exec_event (Stop_Begin r p) s = stop_begin r p s"
| "exec_event (Stop_Signal r) s = stop_signal r s"
| "exec_event (Terminal_Check r timeup) s = terminal_check r timeup s"
| "exec_event (Stop_Confirms r) s = stop_confirm r s"
| "exec_event (Stop_Fails r) s = stop_fail r s"
| "exec_event (Reconcile_Begin r p) s = reconcile_begin r p s"

fun exec_events :: "control_event list \<Rightarrow> runtime \<Rightarrow> runtime option" where
  "exec_events [] s = Some s"
| "exec_events (e # es) s = (case exec_event e s of None \<Rightarrow> None | Some s' \<Rightarrow> exec_events es s')"

section \<open>What a confirmed stop means\<close>

inductive control_reach :: "runtime \<Rightarrow> bool" where
  reach_created: "control_reach created_stream"
| reach_event: "control_reach s \<Longrightarrow> exec_event e s = Some s' \<Longrightarrow> control_reach s'"

definition owns_stream :: "thread_phase \<Rightarrow> bool" where
  "owns_stream ph \<longleftrightarrow> ph \<notin> {Absent, Spawned, Ended}"

definition control_inv :: "runtime \<Rightarrow> bool" where
  "control_inv s \<longleftrightarrow>
     (\<forall>t. owns_stream (rn_phase s t) \<longleftrightarrow> rn_owner s = Some t)
     \<and> (\<forall>t. rn_phase s t = In_Run \<longleftrightarrow> rn_run s = Some (By_Worker t))"

definition quiet :: "runtime \<Rightarrow> bool" where
  "quiet s \<longleftrightarrow> (\<forall>t. rn_phase s t \<notin> {Loaded, In_Run})"

definition cleared :: "request_phase \<Rightarrow> bool" where
  "cleared ph \<longleftrightarrow>
     (case ph of Already _ n \<Rightarrow> 2 \<le> n | Stop_Check _ n \<Rightarrow> 2 \<le> n | Stop_Confirm _ \<Rightarrow> True
        | Answered a \<Rightarrow> a = Stop_Already_Confirmed \<or> a = Stop_Confirmed | _ \<Rightarrow> False)"

named_theorems control_defs

lemmas [control_defs] = start_stream_def list_streams_def spawn_worker_def acquire_ownership_def check_gate_def
  load_context_def begin_run_def end_run_def wait_over_def confirm_read_def confirm_write_def pop_worker_def
  release_ownership_def crash_def stop_begin_def stop_signal_def terminal_check_def stop_confirm_def stop_fail_def
  reconcile_begin_def mark_stopping_def unregister_def set_phase_def set_request_def with_status_def

lemma owns_stream_simps [simp]:
  "\<not> owns_stream Absent" "\<not> owns_stream Spawned" "\<not> owns_stream Ended" "owns_stream Owning" "owns_stream Gated"
  "owns_stream Loaded" "owns_stream In_Run" "owns_stream In_Wait" "owns_stream Leaving_Loop"
  "owns_stream (Confirming d)" "owns_stream Confirmed_Stop" "owns_stream Popped"
  by (simp_all add: owns_stream_def)

lemma unless_simps [simp]:
  "unless bad x = Some v \<longleftrightarrow> x = Some v \<and> \<not> bad v" "runner_process (By_Worker t) = th_process t"
  by (auto simp: unless_def runner_process_def split: option.splits)

lemma inv_owner:
  "control_inv s \<Longrightarrow> rn_owner s = Some t \<longleftrightarrow> owns_stream (rn_phase s t)"
  "control_inv s \<Longrightarrow> rn_run s = Some (By_Worker t) \<longleftrightarrow> rn_phase s t = In_Run"
  by (simp_all add: control_inv_def)

lemma control_inv_frame [simp]:
  "control_inv (s\<lparr>rn_row := row\<rparr>) = control_inv s"
  "control_inv (s\<lparr>rn_registered := rg\<rparr>) = control_inv s"
  "control_inv (s\<lparr>rn_stop_event := ev\<rparr>) = control_inv s"
  "control_inv (unregister p s) = control_inv s"
  by (simp_all add: control_inv_def unregister_def)

lemma inv_move:
  assumes "control_inv s" "owns_stream ph = owns_stream (rn_phase s t)" "rn_phase s t \<noteq> In_Run" "ph \<noteq> In_Run"
  shows "control_inv (set_phase t ph s)"
  using assms by (auto simp: control_inv_def set_phase_def)

text \<open>Requests leave the workers alone; a worker event moves one thread.\<close>

definition request_event :: "control_event \<Rightarrow> bool" where
  "request_event e \<longleftrightarrow> (case e of Start \<Rightarrow> True | List _ \<Rightarrow> True | Stop_Begin _ _ \<Rightarrow> True | Stop_Signal _ \<Rightarrow> True
      | Terminal_Check _ _ \<Rightarrow> True | Stop_Confirms _ \<Rightarrow> True | Stop_Fails _ \<Rightarrow> True | Reconcile_Begin _ _ \<Rightarrow> True | _ \<Rightarrow> False)"

definition same_workers :: "runtime \<Rightarrow> runtime \<Rightarrow> bool" where
  "same_workers s s' \<longleftrightarrow> rn_phase s' = rn_phase s \<and> rn_owner s' = rn_owner s \<and> rn_run s' = rn_run s"

lemma same_workers_simps [simp]:
  "same_workers s (set_request r ph s') = same_workers s s'"
  "same_workers s s"
  "same_workers s (s'\<lparr>rn_row := row\<rparr>) = same_workers s s'"
  "same_workers s (s'\<lparr>rn_row_lock := l\<rparr>) = same_workers s s'"
  "same_workers s (s'\<lparr>rn_stop_event := ev\<rparr>) = same_workers s s'"
  "same_workers s (s'\<lparr>rn_listed := li\<rparr>) = same_workers s s'"
  "same_workers s (mark_stopping r p s') = same_workers s s'"
  by (simp_all add: same_workers_def set_request_def mark_stopping_def)

lemma terminal_check_frame: "terminal_check r timeup s = Some s' \<Longrightarrow> same_workers s s'"
  by (cases "rn_request s r") (auto simp: terminal_check_def)

lemma request_frame:
  assumes "exec_event e s = Some s'" "request_event e"
  shows "same_workers s s'"
  using assms terminal_check_frame
  by (cases e) (auto simp: request_event_def start_stream_def list_streams_def stop_begin_def stop_signal_def
      stop_confirm_def stop_fail_def reconcile_begin_def split: option.splits if_splits request_phase.splits)

lemma set_phase_simps [simp]:
  "rn_phase (set_phase t ph s) = (rn_phase s)(t := ph)" "rn_owner (set_phase t ph s) = rn_owner s"
  "rn_run (set_phase t ph s) = rn_run s" "rn_row (set_phase t ph s) = rn_row s" "rn_request (set_phase t ph s) = rn_request s"
  "rn_phase (unregister p s) = rn_phase s" "rn_owner (unregister p s) = rn_owner s" "rn_run (unregister p s) = rn_run s"
  "rn_row (unregister p s) = rn_row s" "rn_request (unregister p s) = rn_request s"
  by (simp_all add: set_phase_def unregister_def)

lemma control_invI:
  assumes "\<And>u. owns_stream (rn_phase s u) = (rn_owner s = Some u)"
    and "\<And>u. rn_phase s u = In_Run \<longleftrightarrow> rn_run s = Some (By_Worker u)"
  shows "control_inv s"
  using assms by (simp add: control_inv_def)

lemma inv_nobody:
  "control_inv s \<Longrightarrow> rn_owner s = None \<Longrightarrow> \<not> owns_stream (rn_phase s u)"
  "control_inv s \<Longrightarrow> rn_run s = None \<Longrightarrow> rn_phase s u \<noteq> In_Run"
  "control_inv s \<Longrightarrow> owns_stream (rn_phase s t) \<Longrightarrow> owns_stream (rn_phase s u) \<Longrightarrow> u = t"
  "control_inv s \<Longrightarrow> rn_phase s t = In_Run \<Longrightarrow> rn_phase s u = In_Run \<Longrightarrow> u = t"
  by (simp_all add: inv_owner[symmetric])

lemma acquire_inv: "acquire_ownership t s = Some s' \<Longrightarrow> control_inv s \<Longrightarrow> control_inv s'"
proof (cases "rn_owner s = None")
  case True
  assume a: "acquire_ownership t s = Some s'" "control_inv s"
  with True show ?thesis
    using inv_nobody(1)[OF a(2) True]
    by (intro control_invI) (auto simp: acquire_ownership_def inv_owner split: if_splits)
next
  case False
  assume "acquire_ownership t s = Some s'" "control_inv s"
  with False show ?thesis by (auto simp: acquire_ownership_def split: if_splits intro!: inv_move)
qed

lemma release_inv: "release_ownership t s = Some s' \<Longrightarrow> control_inv s \<Longrightarrow> control_inv s'"
  by (rule control_invI) (auto simp: release_ownership_def inv_owner split: if_splits dest: inv_nobody(3)[of s t])

lemma begin_run_inv: "begin_run t s = Some s' \<Longrightarrow> control_inv s \<Longrightarrow> control_inv s'"
proof (cases "rn_run s = None")
  case True
  assume a: "begin_run t s = Some s'" "control_inv s"
  with True show ?thesis
    using inv_nobody(2)[OF a(2) True] inv_owner(1)[OF a(2)]
    by (intro control_invI) (auto simp: begin_run_def split: if_splits)
next
  case False
  assume "begin_run t s = Some s'" "control_inv s"
  with False show ?thesis by (auto simp: begin_run_def split: if_splits intro!: inv_move)
qed

lemma end_run_inv: "end_run t s = Some s' \<Longrightarrow> control_inv s \<Longrightarrow> control_inv s'"
  by (rule control_invI) (auto simp: end_run_def inv_owner split: if_splits dest: inv_nobody(4)[of s t])

lemma confirm_write_inv: "confirm_write t s = Some s' \<Longrightarrow> control_inv s \<Longrightarrow> control_inv s'"
  by (cases "rn_phase s t") (auto simp: confirm_write_def split: if_splits bool.splits intro!: inv_move)

lemma crash_inv:
  assumes "control_inv s"
  shows "control_inv (crash p s)"
proof -
  have "rn_phase (crash p s) t = (if rn_phase s t = Absent then Absent else if th_process t = p then Ended else rn_phase s t)"
    "rn_owner (crash p s) = Some t \<longleftrightarrow> owns_stream (rn_phase s t) \<and> th_process t \<noteq> p"
    "rn_run (crash p s) = Some (By_Worker t) \<longleftrightarrow> rn_phase s t = In_Run \<and> th_process t \<noteq> p" for t
    by (simp_all add: crash_def inv_owner[OF assms])
  then show ?thesis unfolding control_inv_def by auto
qed

lemmas move_inv = acquire_inv release_inv begin_run_inv end_run_inv confirm_write_inv

lemma exec_event_inv:
  assumes "exec_event e s = Some s'" "control_inv s"
  shows "control_inv s'"
proof (cases "request_event e")
  case True
  with request_frame[OF assms(1)] assms(2) show ?thesis by (simp add: same_workers_def control_inv_def)
next
  case False
  note defs = spawn_worker_def check_gate_def load_context_def wait_over_def confirm_read_def pop_worker_def Let_def
  have rq: "control_inv (s\<lparr>rn_run := h\<rparr>)" if "\<forall>t. rn_run s \<noteq> Some (By_Worker t)" "\<forall>t. h \<noteq> Some (By_Worker t)" for h
    using assms(2) that by (simp add: control_inv_def)
  show ?thesis
    using assms(1) False
    by (cases e; simp add: request_event_def)
       (use assms(2) in \<open>auto simp: defs split: if_splits option.splits intro: move_inv crash_inv rq intro!: inv_move\<close>)
qed

lemma control_reach_inv: "control_reach s \<Longrightarrow> control_inv s"
proof (induction rule: control_reach.induct)
  case reach_created
  show ?case by (simp add: control_inv_def created_stream_def)
next
  case (reach_event s e s')
  then show ?case by (blast intro: exec_event_inv)
qed

text \<open>While the stream is disabled nobody begins a run.\<close>

lemma disabled_stays:
  assumes "exec_event e s = Some s'" "e \<noteq> Start" "\<not> row_enabled s"
  shows "\<not> row_enabled s'"
  using assms
  by (cases e)
     (auto simp: row_enabled_def control_defs Let_def split: if_splits option.splits bool.splits thread_phase.splits request_phase.splits)

lemma quiet_stays:
  assumes "exec_event e s = Some s'" "\<not> row_enabled s" "quiet s"
  shows "quiet s'"
proof (cases "request_event e")
  case True
  with request_frame[OF assms(1)] assms(3) show ?thesis by (simp add: same_workers_def quiet_def)
next
  case False
  with assms show ?thesis
    by (cases e) (auto simp: request_event_def quiet_def row_enabled_def spawn_worker_def acquire_ownership_def
        check_gate_def load_context_def begin_run_def end_run_def wait_over_def confirm_read_def confirm_write_def
        pop_worker_def release_ownership_def crash_def Let_def
        split: if_splits option.splits bool.splits thread_phase.splits)
qed

lemma unowned_is_quiet: "control_inv s \<Longrightarrow> rn_owner s = None \<Longrightarrow> quiet s"
  unfolding quiet_def control_inv_def by (metis insertE owns_stream_simps(6,7) option.distinct(1) singletonD)

text \<open>A request passes the second read only where nobody owns the stream.\<close>

lemma request_simps [simp]:
  "rn_request (set_request r ph s) = (rn_request s)(r := ph)"
  "rn_request (mark_stopping r p s) = (rn_request s)(r := Marked p)"
  by (simp_all add: set_request_def mark_stopping_def)

lemma terminal_check_clearing:
  assumes "terminal_check q timeup s = Some s'" "cleared (rn_request s' r)"
  shows "cleared (rn_request s r) \<or> rn_owner s = None"
proof (cases "q = r")
  case True
  with assms show ?thesis
    by (cases "rn_request s r")
       (auto simp: terminal_check_def cleared_def terminal_read_def split: if_splits)
next
  case False
  with assms show ?thesis by (cases "rn_request s q") (auto simp: terminal_check_def split: if_splits)
qed

lemma stop_confirm_clearing:
  assumes "stop_confirm q s = Some s'" "cleared (rn_request s' r)"
  shows "cleared (rn_request s r)"
  using assms by (cases "rn_request s q") (auto simp: stop_confirm_def cleared_def split: if_splits)

lemma clearing:
  assumes "exec_event e s = Some s'" "cleared (rn_request s' r)"
  shows "cleared (rn_request s r) \<or> rn_owner s = None"
proof -
  have fresh: "\<not> cleared (Already p 0)" "\<not> cleared (Marked p)" "\<not> cleared (Stop_Wait p n)" "\<not> cleared Lost"
    "\<not> cleared (Stale_Check p n)" "\<not> cleared (Answered Stop_Failed)" "\<not> cleared (Answered Stream_Not_Found)"
    "\<not> cleared (Answered (Reconciled b))" for p n b
    by (simp_all add: cleared_def)
  show ?thesis
    using assms fresh terminal_check_clearing[of _ _ s s' r] stop_confirm_clearing[of _ s s' r]
    by (cases e) (auto simp: start_stream_def list_streams_def spawn_worker_def acquire_ownership_def
        check_gate_def load_context_def begin_run_def end_run_def wait_over_def confirm_read_def confirm_write_def
        pop_worker_def release_ownership_def crash_def stop_begin_def stop_signal_def stop_fail_def
        reconcile_begin_def unregister_def set_phase_def Let_def fresh
        split: if_splits option.splits bool.splits thread_phase.splits request_phase.splits)
qed

definition watched :: "nat \<Rightarrow> runtime \<Rightarrow> bool" where
  "watched r s \<longleftrightarrow> control_inv s \<and> \<not> row_enabled s \<and> (cleared (rn_request s r) \<longrightarrow> quiet s)"

lemma watched_event:
  assumes "exec_event e s = Some s'" "e \<noteq> Start" "watched r s"
  shows "watched r s'"
proof -
  have inv: "control_inv s" "\<not> row_enabled s" using assms(3) unfolding watched_def by blast+
  have "quiet s'" if "cleared (rn_request s' r)"
    using clearing[OF assms(1) that] unowned_is_quiet[OF inv(1)] quiet_stays[OF assms(1) inv(2)] assms(3)
    unfolding watched_def by blast
  with exec_event_inv[OF assms(1) inv(1)] disabled_stays[OF assms(1,2) inv(2)] show ?thesis
    unfolding watched_def by blast
qed

lemma watched_events: "exec_events es s = Some s' \<Longrightarrow> Start \<notin> set es \<Longrightarrow> watched r s \<Longrightarrow> watched r s'"
  by (induction es s rule: exec_events.induct) (auto split: option.splits dest: watched_event)

lemma stop_begin_watched:
  assumes "control_inv s" "stop_begin r p s = Some s'"
  shows "watched r s'"
  using assms
  by (auto simp: watched_def stop_begin_def control_inv_def cleared_def row_enabled_def mark_stopping_def set_request_def
      split: option.splits if_splits prod.splits)


text \<open>At most one worker of all processes is past the acquisition of the stream.\<close>

theorem one_worker_per_stream:
  assumes "control_reach s" "owns_stream (rn_phase s t)" "owns_stream (rn_phase s u)"
  shows "t = u"
  using control_reach_inv[OF assms(1)] assms(2,3) unfolding control_inv_def by auto

section \<open>Concrete interleavings\<close>

definition worker_up :: "control_event list" where
  "worker_up = [Start, List 1, Spawn (Thread 1 0), Acquire (Thread 1 0), Gate (Thread 1 0) True, Load (Thread 1 0),
     Begin_Run (Thread 1 0)]"

definition worker_down :: "control_event list" where
  "worker_down = [End_Run (Thread 1 0), Wait_Over (Thread 1 0) False, Confirm_Read (Thread 1 0),
     Confirm_Write (Thread 1 0), Pop (Thread 1 0), Release (Thread 1 0)]"

definition all_clear :: "nat \<Rightarrow> control_event list" where
  "all_clear r = [Terminal_Check r False, Terminal_Check r False, Terminal_Check r False]"

lemma events_reach: "control_reach s \<Longrightarrow> exec_events es s = Some s' \<Longrightarrow> control_reach s'"
  by (induction es s rule: exec_events.induct) (auto split: option.splits intro: reach_event)

text \<open>A stop with process 2 as its server, while the worker of process 1 is in a run.\<close>

definition stopped_run :: "control_event list" where
  "stopped_run = [Stop_Signal 7, Terminal_Check 7 False] @ worker_down @ all_clear 7 @ all_clear 7 @ [Stop_Confirms 7]"

lemma exec_events_append:
  "exec_events (xs @ ys) s = (case exec_events xs s of None \<Rightarrow> None | Some s' \<Rightarrow> exec_events ys s')"
  by (induction xs s rule: exec_events.induct) (auto split: option.splits)

lemma stopped_run_result:
  "map_option (\<lambda>s. (rn_request s 7, rn_row s)) (exec_events (worker_up @ Stop_Begin 7 2 # stopped_run) created_stream)
     = Some (Answered Stop_Confirmed, Some (False, ''STOPPED''))"
  by code_simp


text \<open>A start that comes while a stop waits is lost: the start is answered with a running stream, the worker
  leaves, and the last step of the stop writes its status over the started row. The row is then enabled and
  stopped, which no scheduler polls.\<close>

theorem start_is_lost:
  "map_option (\<lambda>s. (rn_row s, rn_listed s 1, rn_request s 7))
      (exec_events (worker_up @ [Stop_Begin 7 2, Stop_Signal 7, Terminal_Check 7 False, Start] @ worker_down
          @ all_clear 7 @ all_clear 7 @ [Stop_Confirms 7, List 1]) created_stream)
     = Some (Some (True, ''STOPPED''), False, Answered Stop_Confirmed)"
  by code_simp

text \<open>A worker that read the row before a start and writes it after has the same effect.\<close>

lemma start_is_lost_to_worker:
  "map_option (\<lambda>s. (rn_row s, rn_request s 7))
      (exec_events (worker_up @ [Stop_Begin 7 2, Stop_Signal 7, End_Run (Thread 1 0), Wait_Over (Thread 1 0) False,
          Confirm_Read (Thread 1 0), Terminal_Check 7 False, Terminal_Check 7 True, Terminal_Check 7 False,
          Terminal_Check 7 False, Start,
          Confirm_Write (Thread 1 0)]) created_stream)
     = Some (Some (True, ''STOPPED''), Answered Stop_Waiting)"
  by code_simp

end
